(* ===== verification/Prelude.thy ===== *)
theory Prelude
  imports Main "HOL-Library.Word" "HOL-Library.Sublist" "HOL-Library.List_Lexorder"
begin

section \<open>Shared types, text operations and automation\<close>

text \<open>
  What every component of the model uses. A Python \<open>str\<close> is the list of its code points
  (so that \<open>len\<close> counts code points and the UTF-8 length is a separate notion, see the
  theory \<open>Codec\<close>); Python \<open>bytes\<close> are lists of 8-bit words; an exception is the left
  summand of a sum. The collections \<open>py_simps\<close> and \<open>res_simps\<close> hold the unfoldings and
  case rules that the component proofs hand to \<open>simp\<close> and \<open>auto\<close>.
\<close>

named_theorems py_simps \<open>unfolding rules of the Python text operations\<close>
named_theorems res_simps \<open>rules about sum-typed results\<close>

type_synonym pystr = "nat list"
type_synonym byte = "8 word"
type_synonym bytes = "byte list"

subsection \<open>Errors as values\<close>

text \<open>
  \<open>ValueError\<close> stands for the rejection of a value by a validator (pydantic's
  \<open>ValidationError\<close> is a subclass of it); the message is the one written in the source.
\<close>

datatype value_error = ValueError string

definition require :: "bool \<Rightarrow> string \<Rightarrow> value_error + unit" where
  "require ok msg = (if ok then Inr () else Inl (ValueError msg))"

definition rbind :: "'e + 'a \<Rightarrow> ('a \<Rightarrow> 'e + 'b) \<Rightarrow> 'e + 'b" where
  "rbind r f = (case r of Inl e \<Rightarrow> Inl e | Inr a \<Rightarrow> f a)"

definition is_ok :: "'e + 'a \<Rightarrow> bool" where
  "is_ok r = (case r of Inl _ \<Rightarrow> False | Inr _ \<Rightarrow> True)"

lemma rbind_simps [simp, res_simps]:
  "rbind (Inl e) f = Inl e" "rbind (Inr a) f = f a"
  by (simp_all add: rbind_def)

lemma is_ok_simps [simp, res_simps]: "is_ok (Inl e) = False" "is_ok (Inr a) = True"
  by (simp_all add: is_ok_def)

lemma is_ok_iff: "is_ok r \<longleftrightarrow> (\<exists>a. r = Inr a)"
  by (cases r) auto

lemma rbind_eq_Inr [res_simps]: "rbind r f = Inr b \<longleftrightarrow> (\<exists>a. r = Inr a \<and> f a = Inr b)"
  by (cases r) auto

lemma require_eq_Inr [simp, res_simps]: "require b m = Inr u \<longleftrightarrow> b"
  by (simp add: require_def)

lemma require_True [simp]: "require True m = Inr ()"
  by (simp add: require_def)

lemma require_False [simp]: "require False m = Inl (ValueError m)"
  by (simp add: require_def)

lemma require_then [simp, res_simps]:
  "rbind (require b m) f = (if b then f () else Inl (ValueError m))"
  by (simp add: require_def)

text \<open>A step of a \<open>try\<close> body over an explicit state: an exception ends it with the state as it is.\<close>

definition sbind :: "('e + 'a) \<times> 's \<Rightarrow> ('a \<Rightarrow> 's \<Rightarrow> ('e + 'b) \<times> 's) \<Rightarrow> ('e + 'b) \<times> 's" where
  "sbind m f = (case m of (Inl e, s) \<Rightarrow> (Inl e, s) | (Inr a, s) \<Rightarrow> f a s)"

text \<open>How a commit ends. A lost commit has taken effect on the server, but its answer did not arrive.\<close>

datatype 'e commit_reply = Commit_done | Commit_failed 'e | Commit_lost 'e

lemma sbind_simps [res_simps]: "sbind (Inl e, s) f = (Inl e, s)" "sbind (Inr a, s) f = f a s"
  by (simp_all add: sbind_def)

lemma sbind_Inr: "sbind m f = (Inr b, t) \<longleftrightarrow> (\<exists>a s. m = (Inr a, s) \<and> f a s = (Inr b, t))"
  by (auto simp: sbind_def split: prod.splits sum.splits)

subsection \<open>What steps leave alone\<close>

text \<open>
  A step over a state respects a relation when the state before and the state after are always related, whatever
  the step answers. For a reflexive and transitive relation the sequences of such steps respect it too.
\<close>

definition preserves :: "('s \<Rightarrow> 's \<Rightarrow> bool) \<Rightarrow> ('s \<Rightarrow> ('e + 'a) \<times> 's) \<Rightarrow> bool" where
  "preserves R m \<longleftrightarrow> (\<forall>s. R s (snd (m s)))"

lemma preservesD: "preserves R m \<Longrightarrow> m s = (r, t) \<Longrightarrow> R s t"
  unfolding preserves_def by (metis snd_conv)

lemma preserves_if: "preserves R m \<Longrightarrow> preserves R n \<Longrightarrow> preserves R (if b then m else n)"
  by simp

lemma preserves_if_state:
  "preserves R m \<Longrightarrow> preserves R n \<Longrightarrow> preserves R (\<lambda>s. if b s then m s else n s)"
  by (auto simp: preserves_def)

locale step_frame =
  fixes R :: "'s \<Rightarrow> 's \<Rightarrow> bool"
  assumes frame_refl: "R s s"
    and frame_trans: "R s t \<Longrightarrow> R t u \<Longrightarrow> R s u"
begin

lemma preserves_return: "preserves R (\<lambda>s. (r, s))"
  by (simp add: preserves_def frame_refl)

lemma preserves_sbind:
  assumes "preserves R m" "\<And>a. preserves R (g a)"
  shows "preserves R (\<lambda>s. sbind (m s) g)"
  unfolding preserves_def
proof
  fix s
  obtain r u where m: "m s = (r, u)" by (cases "m s")
  show "R s (snd (sbind (m s) g))"
    using preservesD [OF assms(1) m] assms(2)
    by (cases r) (auto simp: m sbind_simps preserves_def intro: frame_trans)
qed

end

subsection \<open>Python text\<close>

definition lit :: "string \<Rightarrow> pystr" where
  "lit s = map of_char s"

definition startswith :: "'a list \<Rightarrow> 'a list \<Rightarrow> bool" where
  "startswith s p = (take (length p) s = p)"

definition endswith :: "'a list \<Rightarrow> 'a list \<Rightarrow> bool" where
  "endswith s p = (length p \<le> length s \<and> drop (length s - length p) s = p)"

text \<open>\<open>s[:n]\<close>: a negative bound counts from the end.\<close>

definition slice_to :: "int \<Rightarrow> 'a list \<Rightarrow> 'a list" where
  "slice_to n s = (if 0 \<le> n then take (nat n) s else take (length s - nat (- n)) s)"

text \<open>\<open>s.replace(c, r)\<close> for a one-character \<open>c\<close>.\<close>

definition replace_char :: "nat \<Rightarrow> pystr \<Rightarrow> pystr \<Rightarrow> pystr" where
  "replace_char c r s = concat (map (\<lambda>x. if x = c then r else [x]) s)"

text \<open>\<open>s.rstrip(cs)\<close> and \<open>s.strip(cs)\<close>.\<close>

definition rstrip :: "pystr \<Rightarrow> pystr \<Rightarrow> pystr" where
  "rstrip cs s = rev (dropWhile (\<lambda>c. c \<in> set cs) (rev s))"

definition strip :: "pystr \<Rightarrow> pystr \<Rightarrow> pystr" where
  "strip cs s = rstrip cs (dropWhile (\<lambda>c. c \<in> set cs) s)"

text \<open>\<open>s.split(c)\<close> for a one-character separator; never empty.\<close>

fun split_on :: "nat \<Rightarrow> pystr \<Rightarrow> pystr list" where
  "split_on c [] = [[]]"
| "split_on c (x # xs) =
     (if x = c then [] # split_on c xs
      else (case split_on c xs of [] \<Rightarrow> [[x]] | p # ps \<Rightarrow> (x # p) # ps))"

fun join_with :: "nat \<Rightarrow> pystr list \<Rightarrow> pystr" where
  "join_with c [] = []"
| "join_with c [p] = p"
| "join_with c (p # ps) = p @ c # join_with c ps"

subsection \<open>Lemmas on the text operations\<close>

lemma length_lit [simp, py_simps]: "length (lit s) = length s"
  by (simp add: lit_def)

lemma lit_Nil [simp]: "lit [] = []"
  by (simp add: lit_def)

lemma lit_eq_Nil [simp]: "lit s = [] \<longleftrightarrow> s = []"
  by (simp add: lit_def)

lemma lit_eq_iff [simp]: "lit s = lit t \<longleftrightarrow> s = t"
  by (auto simp: lit_def inj_map_eq_map inj_def of_char_eq_iff)

lemma length_slice_to_nonneg [py_simps]:
  "0 \<le> n \<Longrightarrow> length (slice_to n s) = min (nat n) (length s)"
  by (simp add: slice_to_def)

lemma length_slice_to_le: "length (slice_to n s) \<le> length s"
  by (simp add: slice_to_def)

lemma slice_to_all: "int (length s) \<le> n \<Longrightarrow> slice_to n s = s"
  by (simp add: slice_to_def)

lemma slice_to_of_nat [simp]: "slice_to (int n) s = take n s"
  by (simp add: slice_to_def)

lemma slice_to_numeral [simp]: "slice_to (numeral k) s = take (numeral k) s"
  by (simp add: slice_to_def)

lemma set_slice_to: "set (slice_to n s) \<subseteq> set s"
  by (auto simp: slice_to_def dest: in_set_takeD)

lemma replace_char_Nil [simp]: "replace_char c r [] = []"
  by (simp add: replace_char_def)

lemma replace_char_Cons [simp]:
  "replace_char c r (x # xs) = (if x = c then r else [x]) @ replace_char c r xs"
  by (simp add: replace_char_def)

lemma replace_char_append [simp]:
  "replace_char c r (xs @ ys) = replace_char c r xs @ replace_char c r ys"
  by (simp add: replace_char_def)

lemma replace_char_delete: "replace_char c [] s = filter (\<lambda>x. x \<noteq> c) s"
  by (induction s) auto

lemma replace_char_single: "replace_char c [d] s = map (\<lambda>x. if x = c then d else x) s"
  by (induction s) auto

lemma notin_set_replace_char: "c \<notin> set r \<Longrightarrow> c \<notin> set (replace_char c r s)"
  by (induction s) auto

lemma rstrip_idem [simp]: "rstrip cs (rstrip cs s) = rstrip cs s"
  by (simp add: rstrip_def)

lemma rstrip_append_in: "set t \<subseteq> set cs \<Longrightarrow> rstrip cs (s @ t) = rstrip cs s"
  by (auto simp: rstrip_def intro!: dropWhile_append2)

lemma rstrip_snoc: "rstrip cs (s @ [x]) = (if x \<in> set cs then rstrip cs s else s @ [x])"
  by (simp add: rstrip_def)

lemma rstrip_decomp: "\<exists>t. s = rstrip cs s @ t \<and> set t \<subseteq> set cs"
proof -
  have "rev s = takeWhile (\<lambda>c. c \<in> set cs) (rev s) @ dropWhile (\<lambda>c. c \<in> set cs) (rev s)"
    by simp
  then have "s = rstrip cs s @ rev (takeWhile (\<lambda>c. c \<in> set cs) (rev s))"
    unfolding rstrip_def by (metis rev_append rev_rev_ident)
  moreover have "set (rev (takeWhile (\<lambda>c. c \<in> set cs) (rev s))) \<subseteq> set cs"
    by (auto dest: set_takeWhileD)
  ultimately show ?thesis by blast
qed

lemma rstrip_last: "rstrip cs s \<noteq> [] \<Longrightarrow> last (rstrip cs s) \<notin> set cs"
  using hd_dropWhile [of "\<lambda>c. c \<in> set cs" "rev s"] by (auto simp: rstrip_def last_rev)

lemma split_on_nonempty [simp]: "split_on c s \<noteq> []"
  by (induction s) (auto split: list.splits)

lemma split_on_no_sep: "p \<in> set (split_on c s) \<Longrightarrow> c \<notin> set p"
  by (induction s arbitrary: p) (fastforce split: if_splits list.splits)+

lemma join_with_Cons: "ps \<noteq> [] \<Longrightarrow> join_with c (p # ps) = p @ c # join_with c ps"
  by (cases ps) auto

lemma join_split_on [simp]: "join_with c (split_on c s) = s"
proof (induction s)
  case Nil
  then show ?case by simp
next
  case (Cons x xs)
  show ?case
  proof (cases "x = c")
    case True
    then show ?thesis using Cons by (simp add: join_with_Cons)
  next
    case False
    obtain p ps where sp: "split_on c xs = p # ps"
      by (meson neq_Nil_conv split_on_nonempty)
    show ?thesis using Cons False sp by (cases ps) auto
  qed
qed

lemma startswith_iff_prefix: "startswith s p \<longleftrightarrow> prefix p s"
  by (metis append_eq_conv_conj append_take_drop_id prefix_def startswith_def)

lemma endswith_append [simp]: "endswith (s @ p) p"
  by (simp add: endswith_def)

subsection \<open>Lists and arithmetic shared by the components\<close>

lemma distinct_filter_count:
  "length (filter P xs) + length (filter (\<lambda>x. \<not> P x) xs) = length xs"
  by (rule sum_length_filter_compl)

lemma div_mult_le_nat: "(n div k) * k \<le> (n::nat)"
  by simp

end
