(* ===== verification/Regex.thy ===== *)
theory Regex
  imports Prelude
begin

section \<open>Regular expressions\<close>

text \<open>
  The source validates identifiers with \<open>re.fullmatch\<close> (and with pydantic's \<open>pattern\<close>, whose
  anchored patterns also match the whole string). Each pattern of the source is written as a
  value of \<open>rexp\<close>, a character class being the list of its code point ranges, and
  \<open>fullmatch\<close> decides membership by derivatives. \<open>fullmatch_iff\<close> is the correctness of
  the matcher against the language \<open>lang\<close>; the lemmas after it give the shapes that the
  patterns of the source need.
\<close>

type_synonym cclass = "(nat \<times> nat) list"

datatype rexp =
    RZero
  | ROne
  | RCls cclass
  | RSeq rexp rexp
  | RAlt rexp rexp
  | RStar rexp

definition in_cls :: "cclass \<Rightarrow> nat \<Rightarrow> bool" where
  "in_cls rs c = list_ex (\<lambda>(a, b). a \<le> c \<and> c \<le> b) rs"

inductive_set star_of :: "pystr set \<Rightarrow> pystr set" for A where
  star_Nil: "[] \<in> star_of A"
| star_app: "u \<in> A \<Longrightarrow> v \<in> star_of A \<Longrightarrow> u @ v \<in> star_of A"

fun lang :: "rexp \<Rightarrow> pystr set" where
  "lang RZero = {}"
| "lang ROne = {[]}"
| "lang (RCls rs) = {[c] |c. in_cls rs c}"
| "lang (RSeq r s) = {u @ v |u v. u \<in> lang r \<and> v \<in> lang s}"
| "lang (RAlt r s) = lang r \<union> lang s"
| "lang (RStar r) = star_of (lang r)"

fun nullable :: "rexp \<Rightarrow> bool" where
  "nullable RZero = False"
| "nullable ROne = True"
| "nullable (RCls rs) = False"
| "nullable (RSeq r s) = (nullable r \<and> nullable s)"
| "nullable (RAlt r s) = (nullable r \<or> nullable s)"
| "nullable (RStar r) = True"

fun mk_seq :: "rexp \<Rightarrow> rexp \<Rightarrow> rexp" where
  "mk_seq RZero s = RZero"
| "mk_seq ROne s = s"
| "mk_seq r s = RSeq r s"

fun mk_alt :: "rexp \<Rightarrow> rexp \<Rightarrow> rexp" where
  "mk_alt RZero s = s"
| "mk_alt r RZero = r"
| "mk_alt r s = RAlt r s"

fun deriv :: "nat \<Rightarrow> rexp \<Rightarrow> rexp" where
  "deriv c RZero = RZero"
| "deriv c ROne = RZero"
| "deriv c (RCls rs) = (if in_cls rs c then ROne else RZero)"
| "deriv c (RSeq r s) =
     (if nullable r then mk_alt (mk_seq (deriv c r) s) (deriv c s) else mk_seq (deriv c r) s)"
| "deriv c (RAlt r s) = mk_alt (deriv c r) (deriv c s)"
| "deriv c (RStar r) = mk_seq (deriv c r) (RStar r)"

fun fullmatch :: "rexp \<Rightarrow> pystr \<Rightarrow> bool" where
  "fullmatch r [] = nullable r"
| "fullmatch r (c # s) = fullmatch (deriv c r) s"

text \<open>The quantifiers \<open>+\<close>, \<open>?\<close>, \<open>{n}\<close> and \<open>{0,n}\<close>.\<close>

definition RPlus :: "rexp \<Rightarrow> rexp" where
  "RPlus r = RSeq r (RStar r)"

definition ROpt :: "rexp \<Rightarrow> rexp" where
  "ROpt r = RAlt r ROne"

fun RRep :: "nat \<Rightarrow> rexp \<Rightarrow> rexp" where
  "RRep 0 r = ROne"
| "RRep (Suc n) r = RSeq r (RRep n r)"

fun RUpTo :: "nat \<Rightarrow> rexp \<Rightarrow> rexp" where
  "RUpTo 0 r = ROne"
| "RUpTo (Suc n) r = RAlt (RSeq r (RUpTo n r)) ROne"

definition RChr :: "nat \<Rightarrow> rexp" where
  "RChr c = RCls [(c, c)]"

fun RLit :: "pystr \<Rightarrow> rexp" where
  "RLit [] = ROne"
| "RLit (c # s) = RSeq (RChr c) (RLit s)"

subsection \<open>Correctness of the matcher\<close>

lemma nullable_iff: "nullable r \<longleftrightarrow> [] \<in> lang r"
  by (induction r) (auto intro: star_Nil)

lemma lang_mk_seq [simp]: "lang (mk_seq r s) = lang (RSeq r s)"
  by (cases "(r, s)" rule: mk_seq.cases) auto

lemma lang_mk_alt [simp]: "lang (mk_alt r s) = lang (RAlt r s)"
  by (cases "(r, s)" rule: mk_alt.cases) auto

lemma star_of_Cons:
  "c # w \<in> star_of A \<longleftrightarrow> (\<exists>u v. w = u @ v \<and> c # u \<in> A \<and> v \<in> star_of A)"
proof
  assume "c # w \<in> star_of A"
  then show "\<exists>u v. w = u @ v \<and> c # u \<in> A \<and> v \<in> star_of A"
  proof (induction "c # w" arbitrary: w)
    case (star_app u v)
    then show ?case by (cases u) auto
  qed
next
  assume "\<exists>u v. w = u @ v \<and> c # u \<in> A \<and> v \<in> star_of A"
  then show "c # w \<in> star_of A"
    using star_app by (metis append_Cons)
qed

lemma lang_deriv: "lang (deriv c r) = {w. c # w \<in> lang r}"
proof (induction r)
  case (RSeq r s)
  have "{w. c # w \<in> lang (RSeq r s)} =
    {u @ v |u v. c # u \<in> lang r \<and> v \<in> lang s} \<union> (if [] \<in> lang r then {w. c # w \<in> lang s} else {})"
    by (auto simp: Cons_eq_append_conv)
  then show ?case using RSeq by (auto simp: nullable_iff)
next
  case (RStar r)
  then show ?case by (auto simp: star_of_Cons)
qed auto

theorem fullmatch_iff: "fullmatch r s \<longleftrightarrow> s \<in> lang r"
  by (induction s arbitrary: r) (auto simp: nullable_iff lang_deriv)

subsection \<open>The shapes the source uses\<close>

lemma fullmatch_Seq:
  "fullmatch (RSeq r s) w \<longleftrightarrow> (\<exists>u v. w = u @ v \<and> fullmatch r u \<and> fullmatch s v)"
  by (auto simp: fullmatch_iff)

lemma fullmatch_Alt: "fullmatch (RAlt r s) w \<longleftrightarrow> fullmatch r w \<or> fullmatch s w"
  by (simp add: fullmatch_iff)

lemma fullmatch_Cls: "fullmatch (RCls rs) w \<longleftrightarrow> (\<exists>c. w = [c] \<and> in_cls rs c)"
  by (auto simp: fullmatch_iff)

lemma fullmatch_Seq_Cls:
  "fullmatch (RSeq (RCls rs) s) w \<longleftrightarrow> (\<exists>c v. w = c # v \<and> in_cls rs c \<and> fullmatch s v)"
  unfolding fullmatch_Seq fullmatch_Cls by (metis append_Cons append_Nil)

lemma fullmatch_One: "fullmatch ROne w \<longleftrightarrow> w = []"
  by (simp add: fullmatch_iff)

lemma fullmatch_Lit [simp]: "fullmatch (RLit s) w \<longleftrightarrow> w = s"
proof (induction s arbitrary: w)
  case Nil
  then show ?case by (simp add: fullmatch_One)
next
  case (Cons c s)
  have "fullmatch (RLit (c # s)) w \<longleftrightarrow>
    (\<exists>u v. w = u @ v \<and> fullmatch (RChr c) u \<and> v = s)"
    by (simp only: RLit.simps fullmatch_Seq Cons.IH)
  then show ?case by (auto simp: RChr_def fullmatch_Cls in_cls_def)
qed

lemma fullmatch_Star_Cls: "fullmatch (RStar (RCls rs)) w \<longleftrightarrow> list_all (in_cls rs) w"
proof
  assume "fullmatch (RStar (RCls rs)) w"
  then have "w \<in> star_of {[c] |c. in_cls rs c}" by (simp add: fullmatch_iff)
  then show "list_all (in_cls rs) w" by induction auto
next
  assume "list_all (in_cls rs) w"
  then have "w \<in> star_of {[c] |c. in_cls rs c}"
  proof (induction w)
    case Nil
    then show ?case by (simp add: star_Nil)
  next
    case (Cons c w)
    then have "[c] @ w \<in> star_of {[c] |c. in_cls rs c}"
      by (intro star_app) auto
    then show ?case by simp
  qed
  then show "fullmatch (RStar (RCls rs)) w" by (simp add: fullmatch_iff)
qed

lemma fullmatch_Plus_Cls:
  "fullmatch (RPlus (RCls rs)) w \<longleftrightarrow> w \<noteq> [] \<and> list_all (in_cls rs) w"
  by (cases w) (auto simp: RPlus_def fullmatch_Seq_Cls fullmatch_Star_Cls simp del: fullmatch.simps)

lemma fullmatch_Rep_Cls:
  "fullmatch (RRep n (RCls rs)) w \<longleftrightarrow> length w = n \<and> list_all (in_cls rs) w"
proof (induction n arbitrary: w)
  case 0
  then show ?case by (auto simp: fullmatch_One)
next
  case (Suc n)
  then show ?case
    by (cases w) (auto simp: fullmatch_Seq_Cls simp del: fullmatch.simps)
qed

lemma fullmatch_UpTo_Cls:
  "fullmatch (RUpTo n (RCls rs)) w \<longleftrightarrow> length w \<le> n \<and> list_all (in_cls rs) w"
proof (induction n arbitrary: w)
  case 0
  then show ?case by (auto simp: fullmatch_One)
next
  case (Suc n)
  then show ?case
    by (cases w) (auto simp: fullmatch_Alt fullmatch_One fullmatch_Seq_Cls simp del: fullmatch.simps)
qed

text \<open>Every character of a matched string is in one of the classes of the expression.\<close>

fun alphabet :: "rexp \<Rightarrow> nat \<Rightarrow> bool" where
  "alphabet RZero c = False"
| "alphabet ROne c = False"
| "alphabet (RCls rs) c = in_cls rs c"
| "alphabet (RSeq r s) c = (alphabet r c \<or> alphabet s c)"
| "alphabet (RAlt r s) c = (alphabet r c \<or> alphabet s c)"
| "alphabet (RStar r) c = alphabet r c"

lemma lang_alphabet: "w \<in> lang r \<Longrightarrow> c \<in> set w \<Longrightarrow> alphabet r c"
proof (induction r arbitrary: w)
  case (RStar r)
  from RStar.prems(1) have "w \<in> star_of (lang r)" by simp
  then show ?case using RStar.prems(2)
  proof induction
    case (star_app u v)
    then show ?case using RStar.IH by auto
  qed simp
next
  case (RSeq r s)
  then show ?case by (simp, metis Un_iff set_append)
qed auto

lemma fullmatch_alphabet: "fullmatch r w \<Longrightarrow> c \<in> set w \<Longrightarrow> alphabet r c"
  by (auto simp: fullmatch_iff intro: lang_alphabet)

end
