(* ===== verification/Codec.thy ===== *)
theory Codec
  imports Regex
begin

section \<open>UTF-8 and Base64\<close>

text \<open>
  The two codecs of the Python standard library the source relies on. \<open>utf8_encode\<close> is
  \<open>s.encode("utf-8")\<close> (\<open>None\<close> is the \<open>UnicodeEncodeError\<close> of a surrogate),
  \<open>utf8_decode_ignore\<close> is \<open>b.decode("utf-8", errors="ignore")\<close>: a byte that does not start
  a well-formed sequence is dropped. (CPython drops the longest well-formed prefix of a broken
  sequence at once; the bytes after its lead byte are continuation bytes, which this function
  drops one by one, so the text is the same.) \<open>b64encode\<close> and \<open>b64decode\<close> are
  \<open>base64.b64encode\<close> and \<open>base64.b64decode(_, validate=True)\<close>.
\<close>

subsection \<open>UTF-8 on numbers\<close>

definition utf8_char :: "nat \<Rightarrow> nat list option" where
  "utf8_char c =
     (if c < 0x80 then Some [c]
      else if c < 0x800 then Some [0xC0 + c div 64, 0x80 + c mod 64]
      else if c < 0x10000 then
        (if 0xD800 \<le> c \<and> c \<le> 0xDFFF then None
         else Some [0xE0 + c div 4096, 0x80 + c div 64 mod 64, 0x80 + c mod 64])
      else if c < 0x110000 then
        Some [0xF0 + c div 262144, 0x80 + c div 4096 mod 64, 0x80 + c div 64 mod 64, 0x80 + c mod 64]
      else None)"

fun utf8_enc :: "pystr \<Rightarrow> nat list option" where
  "utf8_enc [] = Some []"
| "utf8_enc (c # s) =
     (case utf8_char c of None \<Rightarrow> None
      | Some e \<Rightarrow> (case utf8_enc s of None \<Rightarrow> None | Some r \<Rightarrow> Some (e @ r)))"

definition cont :: "nat \<Rightarrow> bool" where
  "cont b = (0x80 \<le> b \<and> b \<le> 0xBF)"

text \<open>The first character of a byte string and the number of continuation bytes it takes.\<close>

definition utf8_head :: "nat \<Rightarrow> nat list \<Rightarrow> (nat \<times> nat) option" where
  "utf8_head b r =
     (if b < 0x80 then Some (b, 0)
      else if 0xC2 \<le> b \<and> b \<le> 0xDF then
        (case r of b1 # _ \<Rightarrow> if cont b1 then Some ((b - 0xC0) * 64 + (b1 - 0x80), 1) else None
         | _ \<Rightarrow> None)
      else if 0xE0 \<le> b \<and> b \<le> 0xEF then
        (case r of b1 # b2 # _ \<Rightarrow>
           if cont b1 \<and> cont b2 \<and> (b = 0xE0 \<longrightarrow> 0xA0 \<le> b1) \<and> (b = 0xED \<longrightarrow> b1 \<le> 0x9F)
           then Some ((b - 0xE0) * 4096 + (b1 - 0x80) * 64 + (b2 - 0x80), 2) else None
         | _ \<Rightarrow> None)
      else if 0xF0 \<le> b \<and> b \<le> 0xF4 then
        (case r of b1 # b2 # b3 # _ \<Rightarrow>
           if cont b1 \<and> cont b2 \<and> cont b3 \<and> (b = 0xF0 \<longrightarrow> 0x90 \<le> b1) \<and> (b = 0xF4 \<longrightarrow> b1 \<le> 0x8F)
           then Some ((b - 0xF0) * 262144 + (b1 - 0x80) * 4096 + (b2 - 0x80) * 64 + (b3 - 0x80), 3)
           else None
         | _ \<Rightarrow> None)
      else None)"

fun utf8_dec :: "nat list \<Rightarrow> pystr" where
  "utf8_dec [] = []"
| "utf8_dec (b # r) =
     (case utf8_head b r of None \<Rightarrow> utf8_dec r | Some (c, n) \<Rightarrow> c # utf8_dec (drop n r))"

definition utf8_encode :: "pystr \<Rightarrow> bytes option" where
  "utf8_encode s = map_option (map of_nat) (utf8_enc s)"

definition utf8_decode_ignore :: "bytes \<Rightarrow> pystr" where
  "utf8_decode_ignore bs = utf8_dec (map unat bs)"

subsection \<open>UTF-8: lengths, round trip, cut strings\<close>

lemma utf8_char_length: "utf8_char c = Some e \<Longrightarrow> 1 \<le> length e \<and> length e \<le> 4"
  by (auto simp: utf8_char_def split: if_splits)

lemma utf8_char_bytes: "utf8_char c = Some e \<Longrightarrow> b \<in> set e \<Longrightarrow> b < 256"
  by (auto simp: utf8_char_def split: if_splits)

lemma div_4096: "(c::nat) div 4096 = c div 64 div 64" "(c::nat) div 262144 = c div 64 div 64 div 64"
  by (simp_all flip: div_mult2_eq)

lemma six_bits: "(c::nat) div 64 * 64 + c mod 64 = c"
  "c div 4096 * 4096 + c div 64 mod 64 * 64 + c mod 64 = c"
  "c div 262144 * 262144 + c div 4096 mod 64 * 4096 + c div 64 mod 64 * 64 + c mod 64 = c"
  using div_mult_mod_eq [of c 64] div_mult_mod_eq [of "c div 64" 64]
    div_mult_mod_eq [of "c div 64 div 64" 64]
  unfolding div_4096 by linarith+

lemma div_bounds: "(a::nat) * k \<le> c \<Longrightarrow> c < b * k \<Longrightarrow> a \<le> c div k \<and> c div k < b"
  by (cases "k = 0") (auto simp: less_eq_div_iff_mult_less_eq intro: less_mult_imp_div_less)

lemma cont_six [simp]: "cont (128 + n mod 64)"
  by (auto simp: cont_def)

lemma utf8_head2:
  assumes "128 \<le> c" "c < 2048"
  shows "utf8_head (192 + c div 64) ((128 + c mod 64) # r) = Some (c, 1)"
proof -
  have "2 \<le> c div 64 \<and> c div 64 < 32" by (rule div_bounds) (use assms in auto)
  then show ?thesis by (simp add: utf8_head_def six_bits)
qed

lemma utf8_head3:
  assumes "2048 \<le> c" "c < 65536" "\<not> (55296 \<le> c \<and> c \<le> 57343)"
  shows "utf8_head (224 + c div 4096) ((128 + c div 64 mod 64) # (128 + c mod 64) # r) = Some (c, 2)"
proof -
  have a: "32 \<le> c div 64 \<and> c div 64 < 1024" by (rule div_bounds) (use assms in auto)
  have b: "c div 64 < 864 \<or> 896 \<le> c div 64"
  proof -
    have "c < 864 * 64 \<or> 896 * 64 \<le> c" using assms(3) by auto
    then show ?thesis by (auto simp: less_eq_div_iff_mult_less_eq intro: less_mult_imp_div_less)
  qed
  have "c div 4096 \<le> 15" "c div 4096 = 0 \<longrightarrow> 32 \<le> c div 64 mod 64"
    "c div 4096 = 13 \<longrightarrow> c div 64 mod 64 \<le> 31"
    using a b div_mult_mod_eq [of "c div 64" 64] mod_less_divisor [of 64 "c div 64"]
    unfolding div_4096 by linarith+
  then show ?thesis by (simp add: utf8_head_def six_bits)
qed

lemma utf8_head4:
  assumes "65536 \<le> c" "c < 1114112"
  shows "utf8_head (240 + c div 262144)
    ((128 + c div 4096 mod 64) # (128 + c div 64 mod 64) # (128 + c mod 64) # r) = Some (c, 3)"
proof -
  have a: "16 \<le> c div 4096 \<and> c div 4096 < 272" by (rule div_bounds) (use assms in auto)
  have d: "c div 262144 = c div 4096 div 64" by (simp add: div_4096)
  have "c div 262144 \<le> 4" "c div 262144 = 0 \<longrightarrow> 16 \<le> c div 4096 mod 64"
    "c div 262144 = 4 \<longrightarrow> c div 4096 mod 64 \<le> 15"
    using a div_mult_mod_eq [of "c div 4096" 64] mod_less_divisor [of 64 "c div 4096"]
    unfolding d by linarith+
  then show ?thesis by (simp add: utf8_head_def six_bits)
qed

lemma utf8_char_head:
  "utf8_char c = Some e \<Longrightarrow> \<exists>b t. e = b # t \<and> utf8_head b (t @ r) = Some (c, length t)"
  unfolding utf8_char_def
  by (auto simp: utf8_head2 utf8_head3 utf8_head4 utf8_head_def [of c r] simp del: One_nat_def
      split: if_splits)

lemma cont_head: "cont b \<Longrightarrow> utf8_head b r = None"
  by (simp add: utf8_head_def cont_def)

lemma utf8_dec_conts: "list_all cont t \<Longrightarrow> utf8_dec t = []"
  by (induction t) (auto simp: cont_head)

lemma utf8_char_conts: "utf8_char c = Some e \<Longrightarrow> list_all cont (tl e)"
  by (auto simp: utf8_char_def cont_def split: if_splits)

lemma utf8_head_short:
  "utf8_char c = Some (b # t) \<Longrightarrow> n < length t \<Longrightarrow> utf8_head b (take n t) = None"
  by (auto simp: utf8_char_def utf8_head_def take_Cons split: if_splits nat.splits)

lemma utf8_dec_char: "utf8_char c = Some e \<Longrightarrow> utf8_dec (e @ r) = c # utf8_dec r"
  using utf8_char_head [of c e r] by fastforce

lemma utf8_dec_cut:
  assumes "utf8_char c = Some e" and "n < length e"
  shows "utf8_dec (take n e) = []"
proof -
  obtain b t where e: "e = b # t" using utf8_char_head [OF assms(1)] by blast
  show ?thesis
  proof (cases n)
    case (Suc m)
    have "utf8_head b (take m t) = None"
      using assms e Suc by (auto intro: utf8_head_short)
    moreover have "list_all cont (take m t)"
      using utf8_char_conts [OF assms(1)] e by (auto simp: list_all_iff dest: in_set_takeD)
    ultimately show ?thesis using e Suc by (simp add: utf8_dec_conts)
  qed simp
qed

lemma utf8_enc_Cons_Some:
  "utf8_enc (c # s) = Some bs \<longleftrightarrow> (\<exists>e r. utf8_char c = Some e \<and> utf8_enc s = Some r \<and> bs = e @ r)"
  by (auto split: option.splits)

lemma utf8_enc_bytes: "utf8_enc s = Some bs \<Longrightarrow> b \<in> set bs \<Longrightarrow> b < 256"
  by (induction s arbitrary: bs) (auto simp: utf8_char_bytes split: option.splits)

lemma utf8_enc_length:
  "utf8_enc s = Some bs \<Longrightarrow> length s \<le> length bs \<and> length bs \<le> 4 * length s"
proof (induction s arbitrary: bs)
  case (Cons c s)
  then obtain e r where "utf8_char c = Some e" "utf8_enc s = Some r" "bs = e @ r"
    by (auto simp: utf8_enc_Cons_Some simp del: utf8_enc.simps)
  with Cons.IH utf8_char_length [of c e] show ?case by fastforce
qed simp

lemma utf8_dec_enc: "utf8_enc s = Some bs \<Longrightarrow> utf8_dec bs = s"
  by (induction s arbitrary: bs) (auto simp: utf8_dec_char split: option.splits)

lemma utf8_dec_take:
  "utf8_enc s = Some bs \<Longrightarrow> \<exists>m. utf8_dec (take n bs) = take m s"
proof (induction s arbitrary: bs n)
  case (Cons c s)
  then obtain e r where e: "utf8_char c = Some e" and r: "utf8_enc s = Some r" and bs: "bs = e @ r"
    by (auto simp: utf8_enc_Cons_Some simp del: utf8_enc.simps)
  show ?case
  proof (cases "n < length e")
    case True
    then have "utf8_dec (take n bs) = take 0 (c # s)"
      using e bs by (simp add: utf8_dec_cut)
    then show ?thesis by blast
  next
    case False
    then have "utf8_dec (take n bs) = c # utf8_dec (take (n - length e) r)"
      using e bs by (simp add: utf8_dec_char)
    moreover obtain m where "utf8_dec (take (n - length e) r) = take m s"
      using Cons.IH [OF r] by blast
    ultimately have "utf8_dec (take n bs) = take (Suc m) (c # s)" by simp
    then show ?thesis by blast
  qed
qed simp

lemma utf8_dec_length: "length (utf8_dec bs) \<le> length bs"
proof (induction bs rule: utf8_dec.induct)
  case (2 b r)
  show ?case
  proof (cases "utf8_head b r")
    case (Some p)
    obtain c n where "p = (c, n)" by fastforce
    with Some "2.IH"(2) [OF Some] show ?thesis by fastforce
  qed (use 2 in auto)
qed simp

lemma map_unat_of_nat: "(\<And>b. b \<in> set bs \<Longrightarrow> b < 256) \<Longrightarrow> map (unat \<circ> (of_nat :: nat \<Rightarrow> byte)) bs = bs"
  by (induction bs) (auto simp: unat_of_nat)

lemma utf8_decode_encode:
  assumes "utf8_encode s = Some bs"
  shows "utf8_decode_ignore bs = s"
  using assms
proof -
  obtain ns where ns: "utf8_enc s = Some ns" "bs = map of_nat ns"
    using assms by (auto simp: utf8_encode_def)
  then have "map unat bs = ns"
    using utf8_enc_bytes [OF ns(1)] by (simp add: map_unat_of_nat)
  then show ?thesis using ns(1) by (simp add: utf8_decode_ignore_def utf8_dec_enc)
qed

lemma utf8_encode_length:
  "utf8_encode s = Some bs \<Longrightarrow> length s \<le> length bs \<and> length bs \<le> 4 * length s"
  by (auto simp: utf8_encode_def dest: utf8_enc_length)

lemma utf8_decode_take:
  assumes "utf8_encode s = Some bs"
  shows "\<exists>m. utf8_decode_ignore (take n bs) = take m s"
proof -
  obtain ns where ns: "utf8_enc s = Some ns" "bs = map of_nat ns"
    using assms by (auto simp: utf8_encode_def)
  then have "map unat bs = ns"
    using utf8_enc_bytes [OF ns(1)] by (simp add: map_unat_of_nat)
  then show ?thesis
    using utf8_dec_take [OF ns(1)] by (simp add: utf8_decode_ignore_def take_map [symmetric])
qed

lemma utf8_decode_length: "length (utf8_decode_ignore bs) \<le> length bs"
  using utf8_dec_length [of "map unat bs"] by (simp add: utf8_decode_ignore_def)

lemma utf8_decode_Nil [simp]: "utf8_decode_ignore [] = []"
  by (simp add: utf8_decode_ignore_def)

lemma utf8_encode_Nil [simp]: "utf8_encode [] = Some []"
  by (simp add: utf8_encode_def)

subsection \<open>Base64\<close>

definition b64_digit :: "nat \<Rightarrow> nat" where
  "b64_digit n =
     (if n < 26 then 65 + n else if n < 52 then 71 + n else if n < 62 then n - 4
      else if n = 62 then 43 else 47)"

definition b64_value :: "nat \<Rightarrow> nat option" where
  "b64_value c =
     (if 65 \<le> c \<and> c \<le> 90 then Some (c - 65) else if 97 \<le> c \<and> c \<le> 122 then Some (c - 71)
      else if 48 \<le> c \<and> c \<le> 57 then Some (c + 4)
      else if c = 43 then Some 62 else if c = 47 then Some 63 else None)"

fun b64enc :: "nat list \<Rightarrow> pystr" where
  "b64enc [] = []"
| "b64enc [a] = [b64_digit (a div 4), b64_digit (a mod 4 * 16), 61, 61]"
| "b64enc [a, b] =
     [b64_digit (a div 4), b64_digit (a mod 4 * 16 + b div 16), b64_digit (b mod 16 * 4), 61]"
| "b64enc (a # b # c # r) =
     b64_digit (a div 4) # b64_digit (a mod 4 * 16 + b div 16)
     # b64_digit (b mod 16 * 4 + c div 64) # b64_digit (c mod 64) # b64enc r"

fun b64dec :: "pystr \<Rightarrow> nat list option" where
  "b64dec [] = Some []"
| "b64dec (p # q # r # s # rest) =
     (case (b64_value p, b64_value q) of
        (Some a, Some b) \<Rightarrow>
          if rest = [] \<and> s = 61 then
            (if r = 61 then Some [a * 4 + b div 16]
             else (case b64_value r of None \<Rightarrow> None
                   | Some c \<Rightarrow> Some [a * 4 + b div 16, b mod 16 * 16 + c div 4]))
          else (case (b64_value r, b64_value s, b64dec rest) of
                  (Some c, Some d, Some t) \<Rightarrow>
                    Some ((a * 4 + b div 16) # (b mod 16 * 16 + c div 4) # (c mod 4 * 64 + d) # t)
                | _ \<Rightarrow> None)
      | _ \<Rightarrow> None)"
| "b64dec _ = None"

definition b64encode :: "bytes \<Rightarrow> pystr" where
  "b64encode bs = b64enc (map unat bs)"

definition b64decode :: "pystr \<Rightarrow> bytes option" where
  "b64decode s = map_option (map of_nat) (b64dec s)"

lemma b64_value_digit [simp]: "n < 64 \<Longrightarrow> b64_value (b64_digit n) = Some n"
  by (auto simp: b64_value_def b64_digit_def)

lemma b64_digit_not_pad [simp]: "n < 64 \<Longrightarrow> b64_digit n \<noteq> 61"
  by (auto simp: b64_digit_def)

lemma b64_parts [simp]:
  "(a::nat) < 256 \<Longrightarrow> a div 4 < 64" "a mod 4 * 16 < 64" "(a::nat) mod 16 * 4 < 64"
  "(b::nat) < 256 \<Longrightarrow> a mod 4 * 16 + b div 16 < 64" "(c::nat) < 256 \<Longrightarrow> b mod 16 * 4 + c div 64 < 64"
proof -
  show "a div 4 < 64" if "a < 256" using that by (simp add: less_mult_imp_div_less)
  have "b div 16 < 16" if "b < 256" using that by (simp add: less_mult_imp_div_less)
  moreover have "a mod 4 < 4" "a mod 16 < 16" "b mod 16 < 16" by simp_all
  ultimately show "a mod 4 * 16 < 64" "a mod 16 * 4 < 64"
    "b < 256 \<Longrightarrow> a mod 4 * 16 + b div 16 < 64" by linarith+
  have "c div 64 < 4" if "c < 256" using that by (simp add: less_mult_imp_div_less)
  with \<open>b mod 16 < 16\<close> show "c < 256 \<Longrightarrow> b mod 16 * 4 + c div 64 < 64" by linarith
qed

lemma b64_joins:
  "(b::nat) < 256 \<Longrightarrow> a div 4 * 4 + (a mod 4 * 16 + b div 16) div 16 = a"
  "(b::nat) < 256 \<Longrightarrow> c < 256 \<Longrightarrow>
     (a mod 4 * 16 + b div 16) mod 16 * 16 + (b mod 16 * 4 + c div 64) div 4 = b"
  "(c::nat) < 256 \<Longrightarrow> (b mod 16 * 4 + c div 64) mod 4 * 64 + c mod 64 = c"
proof -
  have d: "b div 16 < 16" if "b < 256" using that by (simp add: less_mult_imp_div_less)
  have e: "c div 64 < 4" if "c < 256" using that by (simp add: less_mult_imp_div_less)
  show "b < 256 \<Longrightarrow> a div 4 * 4 + (a mod 4 * 16 + b div 16) div 16 = a"
    using d by simp
  show "b < 256 \<Longrightarrow> c < 256 \<Longrightarrow>
     (a mod 4 * 16 + b div 16) mod 16 * 16 + (b mod 16 * 4 + c div 64) div 4 = b"
    using d e by simp
  show "c < 256 \<Longrightarrow> (b mod 16 * 4 + c div 64) mod 4 * 64 + c mod 64 = c"
    using e by simp
qed

lemma b64dec_enc: "list_all (\<lambda>b. b < 256) bs \<Longrightarrow> b64dec (b64enc bs) = Some bs"
proof (induction bs rule: b64enc.induct)
  case (2 a)
  then show ?case using b64_joins(1) [of 0 a] by simp
next
  case (3 a b)
  then show ?case using b64_joins(1) [of b a] b64_joins(2) [of b 0 a] by simp
next
  case (4 a b c r)
  then show ?case
    using b64_joins(1) [of b a] b64_joins(2) [of b c a] b64_joins(3) [of c b] by simp
qed simp

lemma length_b64enc: "length (b64enc bs) = 4 * ((length bs + 2) div 3)"
proof (induction bs rule: b64enc.induct)
  case (4 a b c r)
  have "(length (a # b # c # r) + 2) div 3 = Suc ((length r + 2) div 3)"
    using div_add_self2 [of 3 "length r + 2"] by (simp add: add.commute)
  then show ?case using 4 by simp
qed simp_all

lemma length_b64encode: "length (b64encode bs) = 4 * ((length bs + 2) div 3)"
  by (simp add: b64encode_def length_b64enc)

lemma unat_byte_less [simp]: "unat (b :: byte) < 256"
proof -
  have "unat b < 2 ^ LENGTH(8)" by (rule unsigned_less)
  then show ?thesis by simp
qed

lemma b64decode_encode [simp]: "b64decode (b64encode bs) = Some bs"
proof -
  have "list_all (\<lambda>b. b < 256) (map unat bs)" by (simp add: list_all_iff)
  then show ?thesis
    by (simp add: b64decode_def b64encode_def b64dec_enc comp_def)
qed

text \<open>The pattern \<open>^[A-Za-z0-9+/]*={0,2}$\<close> of the public artifact.\<close>

definition b64_pattern :: rexp where
  "b64_pattern = RSeq (RStar (RCls [(65, 90), (97, 122), (48, 57), (43, 43), (47, 47)]))
     (RUpTo 2 (RCls [(61, 61)]))"

lemma b64_digit_cls: "n < 64 \<Longrightarrow> in_cls [(65, 90), (97, 122), (48, 57), (43, 43), (47, 47)] (b64_digit n)"
  by (auto simp: in_cls_def b64_digit_def)

lemma fullmatch_b64_pattern:
  "fullmatch b64_pattern w \<longleftrightarrow> (\<exists>u v. w = u @ v \<and> length v \<le> 2 \<and> list_all (\<lambda>c. c = 61) v \<and>
     list_all (in_cls [(65, 90), (97, 122), (48, 57), (43, 43), (47, 47)]) u)"
proof -
  have "in_cls [(61, 61)] = (\<lambda>c. c = 61)" by (auto simp: in_cls_def)
  then show ?thesis
    unfolding b64_pattern_def fullmatch_Seq fullmatch_Star_Cls fullmatch_UpTo_Cls by auto
qed

lemma b64enc_shape:
  "list_all (\<lambda>b. b < 256) bs \<Longrightarrow> \<exists>u v. b64enc bs = u @ v \<and> length v \<le> 2 \<and> list_all (\<lambda>c. c = 61) v \<and>
     list_all (in_cls [(65, 90), (97, 122), (48, 57), (43, 43), (47, 47)]) u"
proof (induction bs rule: b64enc.induct)
  case (2 a)
  then show ?case
    by (intro exI [of _ "[b64_digit (a div 4), b64_digit (a mod 4 * 16)]"] exI [of _ "[61, 61]"])
      (simp add: b64_digit_cls)
next
  case (3 a b)
  then show ?case
    by (intro exI [of _ "[b64_digit (a div 4), b64_digit (a mod 4 * 16 + b div 16),
          b64_digit (b mod 16 * 4)]"] exI [of _ "[61]"]) (simp add: b64_digit_cls)
next
  case (4 a b c r)
  then obtain u v where "b64enc r = u @ v" "length v \<le> 2" "list_all (\<lambda>c. c = 61) v"
    "list_all (in_cls [(65, 90), (97, 122), (48, 57), (43, 43), (47, 47)]) u" by auto
  then show ?case using 4
    by (intro exI [of _ "b64_digit (a div 4) # b64_digit (a mod 4 * 16 + b div 16)
          # b64_digit (b mod 16 * 4 + c div 64) # b64_digit (c mod 64) # u"] exI [of _ v])
      (simp add: b64_digit_cls)
qed auto

lemma b64encode_pattern: "fullmatch b64_pattern (b64encode bs)"
  unfolding fullmatch_b64_pattern b64encode_def
  by (rule b64enc_shape) (simp add: list_all_iff)

end
