(* ===== verification/Validation.thy ===== *)
theory Validation
  imports Codec
begin

section \<open>Input validation, request context and the runner channel's configuration\<close>

text \<open>
  \<open>soj_shared/input_validation.py\<close>, \<open>submission_request.py\<close>, \<open>request_context.py\<close> and the
  configuration part of \<open>runner_protocol.py\<close>. A JSON document that reaches a pydantic model
  is a value of \<open>pyval\<close>; the models are parsers from it into records, in the order pydantic
  runs them (before-validators, field type and lengths, after-validators).
\<close>

datatype pyval =
    PNone
  | PBool bool
  | PInt int
  | PStr pystr
  | PList "pyval list"
  | PDict "(pystr \<times> pyval) list"

text \<open>Fields of an object that has exactly the given field names (\<open>extra="forbid"\<close>).\<close>

definition object_fields :: "string list \<Rightarrow> pyval \<Rightarrow> value_error + pyval list" where
  "object_fields names v =
     (case v of
        PDict kvs \<Rightarrow>
          (if list_all (\<lambda>(k, _). k \<in> set (map lit names)) kvs
              \<and> list_all (\<lambda>n. map_of kvs (lit n) \<noteq> None) names
           then Inr (map (\<lambda>n. the (map_of kvs (lit n))) names)
           else Inl (ValueError ''missing or extra field''))
      | _ \<Rightarrow> Inl (ValueError ''not an object''))"

definition as_str :: "pyval \<Rightarrow> value_error + pystr" where
  "as_str v = (case v of PStr s \<Rightarrow> Inr s | _ \<Rightarrow> Inl (ValueError ''not a string''))"

lemma as_str_eq_Inr [simp]: "as_str v = Inr s \<longleftrightarrow> v = PStr s"
  by (cases v) (auto simp: as_str_def)

lemma as_str_PStr [simp]: "as_str (PStr s) = Inr s"
  by (simp add: as_str_def)

subsection \<open>Problem identifiers\<close>

definition MAX_PROBLEM_ID_CHARS :: nat where
  "MAX_PROBLEM_ID_CHARS = 64"

definition alnum :: cclass where
  "alnum = [(65, 90), (97, 122), (48, 57)]"

definition PROBLEM_ID_PATTERN :: rexp where
  "PROBLEM_ID_PATTERN = RSeq (RPlus (RCls alnum)) (RStar (RSeq (RChr 45) (RPlus (RCls alnum))))"

definition validate_problem_id :: "pystr \<Rightarrow> value_error + pystr" where
  "validate_problem_id p =
     (if \<not> (1 \<le> length p \<and> length p \<le> MAX_PROBLEM_ID_CHARS)
      then Inl (ValueError ''problem_id must be between 1 and 64 characters'')
      else if \<not> fullmatch PROBLEM_ID_PATTERN p
      then Inl (ValueError ''problem_id must contain only letters, numbers, and hyphens'')
      else Inr p)"

text \<open>The annotated type: string constraints first, then the validator itself.\<close>

definition ProblemId :: "pyval \<Rightarrow> value_error + pystr" where
  "ProblemId v =
     rbind (as_str v) (\<lambda>s.
     rbind (require (1 \<le> length s \<and> length s \<le> MAX_PROBLEM_ID_CHARS
                     \<and> fullmatch PROBLEM_ID_PATTERN s) ''string constraint'') (\<lambda>_.
     validate_problem_id s))"

text \<open>
  Specification of an identifier without regular expressions: the pieces between hyphens are
  non-empty and alphanumeric.
\<close>

definition is_problem_id :: "pystr \<Rightarrow> bool" where
  "is_problem_id p \<longleftrightarrow> 1 \<le> length p \<and> length p \<le> 64
     \<and> (\<forall>w \<in> set (split_on 45 p). w \<noteq> [] \<and> list_all (in_cls alnum) w)"

lemma hyphen_not_alnum [simp]: "\<not> in_cls alnum 45"
  by (simp add: in_cls_def alnum_def)

lemma split_on_append_sep: "c \<notin> set u \<Longrightarrow> split_on c (u @ c # v) = u # split_on c v"
  by (induction u) auto

lemma split_on_no [simp]: "c \<notin> set u \<Longrightarrow> split_on c u = [u]"
  by (induction u) auto

lemma alnum_no_hyphen: "list_all (in_cls alnum) u \<Longrightarrow> 45 \<notin> set u"
  by (auto simp: list_all_iff)

abbreviation (input) id_piece :: "pystr \<Rightarrow> bool" where
  "id_piece w \<equiv> w \<noteq> [] \<and> list_all (in_cls alnum) w"

lemma lang_hyphen_piece:
  "w \<in> lang (RSeq (RChr 45) (RPlus (RCls alnum))) \<longleftrightarrow> (\<exists>v. w = 45 # v \<and> id_piece v)"
proof -
  have "w \<in> lang (RSeq (RChr 45) (RPlus (RCls alnum))) \<longleftrightarrow>
    (\<exists>c v. w = c # v \<and> in_cls [(45, 45)] c \<and> fullmatch (RPlus (RCls alnum)) v)"
    unfolding fullmatch_iff [symmetric] RChr_def fullmatch_Seq_Cls by (rule refl)
  then show ?thesis by (auto simp: fullmatch_Plus_Cls in_cls_def simp del: fullmatch.simps)
qed

lemma star_pieces_split:
  "w \<in> star_of (lang (RSeq (RChr 45) (RPlus (RCls alnum)))) \<Longrightarrow> id_piece u \<Longrightarrow>
     \<forall>x \<in> set (split_on 45 (u @ w)). id_piece x"
proof (induction arbitrary: u rule: star_of.induct)
  case star_Nil
  then show ?case by (simp add: alnum_no_hyphen)
next
  case (star_app x v)
  obtain y where y: "x = 45 # y" "id_piece y"
    using star_app.hyps(1) by (auto simp only: lang_hyphen_piece)
  then have "split_on 45 (u @ x @ v) = u # split_on 45 (y @ v)"
    using star_app.prems by (simp add: split_on_append_sep alnum_no_hyphen)
  then show ?case using star_app.IH [of y] y star_app.prems by simp
qed

lemma split_pieces_star:
  "\<forall>x \<in> set (split_on 45 p). id_piece x \<Longrightarrow>
     \<exists>u w. p = u @ w \<and> id_piece u \<and> w \<in> star_of (lang (RSeq (RChr 45) (RPlus (RCls alnum))))"
proof (induction p rule: length_induct)
  case (1 p)
  show ?case
  proof (cases "45 \<in> set p")
    case False
    then have "id_piece p" using 1 by simp
    then show ?thesis using star_Nil by (intro exI [of _ p] exI [of _ "[]"]) simp
  next
    case True
    then obtain u v where uv: "p = u @ 45 # v" "45 \<notin> set u" by (meson split_list_first)
    then have sp: "split_on 45 p = u # split_on 45 v" by (simp add: split_on_append_sep)
    have len: "length v < length p" using uv by simp
    have pieces: "\<forall>x \<in> set (split_on 45 v). id_piece x" using 1(2) sp by simp
    obtain u' w' where v: "v = u' @ w'" "id_piece u'"
      "w' \<in> star_of (lang (RSeq (RChr 45) (RPlus (RCls alnum))))"
      using 1(1) len pieces by meson
    have "45 # u' \<in> lang (RSeq (RChr 45) (RPlus (RCls alnum)))"
      unfolding lang_hyphen_piece using v by blast
    then have "(45 # u') @ w' \<in> star_of (lang (RSeq (RChr 45) (RPlus (RCls alnum))))"
      by (rule star_app) (rule v(3))
    moreover have "id_piece u" using 1(2) sp by simp
    ultimately show ?thesis using uv v by (intro exI [of _ u] exI [of _ "(45 # u') @ w'"]) simp
  qed
qed

lemma fullmatch_problem_id:
  "fullmatch PROBLEM_ID_PATTERN p \<longleftrightarrow>
     (\<forall>w \<in> set (split_on 45 p). w \<noteq> [] \<and> list_all (in_cls alnum) w)"
proof -
  have "fullmatch PROBLEM_ID_PATTERN p \<longleftrightarrow> (\<exists>u w. p = u @ w \<and> id_piece u \<and>
    w \<in> star_of (lang (RSeq (RChr 45) (RPlus (RCls alnum)))))"
    unfolding PROBLEM_ID_PATTERN_def fullmatch_Seq fullmatch_Plus_Cls
    unfolding fullmatch_iff lang.simps by (rule refl)
  then show ?thesis using star_pieces_split split_pieces_star by blast
qed

lemma validate_problem_id_iff: "validate_problem_id p = Inr q \<longleftrightarrow> is_problem_id p \<and> q = p"
  by (auto simp: validate_problem_id_def is_problem_id_def fullmatch_problem_id
      MAX_PROBLEM_ID_CHARS_def)

lemma ProblemId_iff: "ProblemId v = Inr q \<longleftrightarrow> v = PStr q \<and> is_problem_id q"
proof -
  have "is_problem_id q \<Longrightarrow> 1 \<le> length q \<and> length q \<le> MAX_PROBLEM_ID_CHARS
      \<and> fullmatch PROBLEM_ID_PATTERN q"
    by (simp add: is_problem_id_def fullmatch_problem_id MAX_PROBLEM_ID_CHARS_def del: fullmatch.simps)
  then show ?thesis
    unfolding ProblemId_def rbind_eq_Inr validate_problem_id_iff as_str_eq_Inr require_eq_Inr by blast
qed

lemma problem_id_alphabet:
  assumes "is_problem_id p" and "c \<in> set p"
  shows "in_cls alnum c \<or> c = 45"
proof -
  have "fullmatch PROBLEM_ID_PATTERN p"
    using assms(1) by (simp add: is_problem_id_def fullmatch_problem_id)
  from fullmatch_alphabet [OF this assms(2)] show ?thesis
    by (auto simp: PROBLEM_ID_PATTERN_def RPlus_def RChr_def in_cls_def)
qed


text \<open>What the path checks of the repository rely on: no separator, no dot, no NUL.\<close>

lemma problem_id_path_safe:
  assumes "is_problem_id p"
  shows "p \<noteq> []" and "47 \<notin> set p" and "46 \<notin> set p" and "92 \<notin> set p" and "0 \<notin> set p"
  using assms problem_id_alphabet [OF assms]
  by (fastforce simp: is_problem_id_def in_cls_def alnum_def)+

subsection \<open>The submitted command\<close>

definition MAX_SHELLGEI_CHARS :: nat where
  "MAX_SHELLGEI_CHARS = 1000"

record ShellgeiData =
  sd_shellgei :: pystr
  sd_problem_id :: pystr

definition normalize_shellgei :: "pyval \<Rightarrow> pyval" where
  "normalize_shellgei v = (case v of PStr s \<Rightarrow> PStr (replace_char 13 [] s) | _ \<Rightarrow> v)"

definition validate_shellgei :: "pystr \<Rightarrow> value_error + pystr" where
  "validate_shellgei s =
     (if 0 \<in> set s then Inl (ValueError ''shellgei must not contain NUL bytes'')
      else (case utf8_encode s of
              None \<Rightarrow> Inl (ValueError ''shellgei must be valid UTF-8'')
            | Some _ \<Rightarrow> Inr s))"

definition shellgei_field :: "pyval \<Rightarrow> value_error + pystr" where
  "shellgei_field v =
     rbind (as_str (normalize_shellgei v)) (\<lambda>s.
     rbind (require (1 \<le> length s \<and> length s \<le> MAX_SHELLGEI_CHARS) ''string length'') (\<lambda>_.
     validate_shellgei s))"

definition parse_ShellgeiData :: "pyval \<Rightarrow> value_error + ShellgeiData" where
  "parse_ShellgeiData v =
     rbind (object_fields [''shellgei'', ''problem_id''] v) (\<lambda>fs.
     rbind (shellgei_field (fs ! 0)) (\<lambda>s.
     rbind (ProblemId (fs ! 1)) (\<lambda>p.
     Inr \<lparr>sd_shellgei = s, sd_problem_id = p\<rparr>)))"

definition is_shellgei :: "pystr \<Rightarrow> bool" where
  "is_shellgei s \<longleftrightarrow> 1 \<le> length s \<and> length s \<le> 1000 \<and> 13 \<notin> set s \<and> 0 \<notin> set s
     \<and> utf8_encode s \<noteq> None"

lemma validate_shellgei_iff:
  "validate_shellgei s = Inr t \<longleftrightarrow> t = s \<and> 0 \<notin> set s \<and> utf8_encode s \<noteq> None"
  by (auto simp: validate_shellgei_def split: option.splits)

lemma shellgei_field_iff:
  "shellgei_field v = Inr s \<longleftrightarrow> (\<exists>raw. v = PStr raw \<and> s = replace_char 13 [] raw \<and> is_shellgei s)"
proof (cases v)
  case (PStr raw)
  have "13 \<notin> set (replace_char 13 [] raw)" by (rule notin_set_replace_char) simp
  then show ?thesis using PStr
    by (auto simp: shellgei_field_def normalize_shellgei_def validate_shellgei_iff
        is_shellgei_def MAX_SHELLGEI_CHARS_def split: if_splits)
qed (simp_all add: shellgei_field_def normalize_shellgei_def as_str_def)

lemma is_shellgei_utf8: "is_shellgei s \<Longrightarrow> \<exists>bs. utf8_encode s = Some bs \<and> length bs \<le> 4000"
  using utf8_encode_length by (fastforce simp: is_shellgei_def)

subsection \<open>Request identifiers\<close>

definition REQUEST_ID_BYTES :: nat where "REQUEST_ID_BYTES = 16"
definition REQUEST_ID_LENGTH :: nat where "REQUEST_ID_LENGTH = REQUEST_ID_BYTES * 2"

definition hex_lower :: cclass where "hex_lower = [(48, 57), (97, 102)]"

definition REQUEST_ID_PATTERN :: rexp where
  "REQUEST_ID_PATTERN = RRep REQUEST_ID_LENGTH (RCls hex_lower)"

definition hex_digit :: "nat \<Rightarrow> nat" where
  "hex_digit n = (if n < 10 then 48 + n else 87 + n)"

definition hexlify :: "bytes \<Rightarrow> pystr" where
  "hexlify bs = concat (map (\<lambda>b. [hex_digit (unat b div 16), hex_digit (unat b mod 16)]) bs)"

text \<open>\<open>token_hex(16)\<close>; the random bytes are the argument.\<close>

definition new_request_id :: "bytes \<Rightarrow> pystr" where
  "new_request_id random = hexlify (take REQUEST_ID_BYTES random)"

definition validate_request_id :: "pystr \<Rightarrow> value_error + pystr" where
  "validate_request_id r =
     (if fullmatch REQUEST_ID_PATTERN r then Inr r
      else Inl (ValueError ''request_id must be a 128-bit lowercase hexadecimal value''))"

text \<open>
  The context variable is threaded explicitly; the body of the \<open>with\<close> block is a function
  from the context it sees to its outcome (value or exception) and the context it leaves.
\<close>

type_synonym reqctx = "pystr option"

definition bind_request_id ::
  "pystr \<Rightarrow> (reqctx \<Rightarrow> 'a \<times> reqctx) \<Rightarrow> reqctx \<Rightarrow> (value_error + 'a) \<times> reqctx" where
  "bind_request_id r body ctx =
     (case validate_request_id r of
        Inl e \<Rightarrow> (Inl e, ctx)
      | Inr rid \<Rightarrow> (let (res, _) = body (Some rid) in (Inr res, ctx)))"

definition current_request_id :: "reqctx \<Rightarrow> pystr option" where
  "current_request_id ctx = ctx"

definition is_request_id :: "pystr \<Rightarrow> bool" where
  "is_request_id r \<longleftrightarrow> length r = 32 \<and> list_all (in_cls hex_lower) r"

lemma validate_request_id_iff: "validate_request_id r = Inr q \<longleftrightarrow> q = r \<and> is_request_id r"
  unfolding validate_request_id_def REQUEST_ID_PATTERN_def fullmatch_Rep_Cls is_request_id_def
    REQUEST_ID_LENGTH_def REQUEST_ID_BYTES_def by auto

lemma hex_digit_cls: "n < 16 \<Longrightarrow> in_cls hex_lower (hex_digit n)"
  by (auto simp: in_cls_def hex_lower_def hex_digit_def)

lemma hexlify_hex: "list_all (in_cls hex_lower) (hexlify bs)"
proof -
  have "unat b div 16 < 16" for b :: byte
    using unat_byte_less [of b] by (intro less_mult_imp_div_less) simp
  then show ?thesis by (auto simp: hexlify_def list_all_iff hex_digit_cls)
qed

lemma length_hexlify: "length (hexlify bs) = 2 * length bs"
  by (induction bs) (auto simp: hexlify_def)

lemma new_request_id_valid: "16 \<le> length random \<Longrightarrow> is_request_id (new_request_id random)"
  by (simp add: is_request_id_def new_request_id_def length_hexlify hexlify_hex REQUEST_ID_BYTES_def)

lemma bind_request_id_restores: "snd (bind_request_id r body ctx) = ctx"
  by (simp add: bind_request_id_def split: sum.splits prod.splits)

lemma bind_request_id_valid:
  "is_request_id r \<Longrightarrow> bind_request_id r body ctx = (Inr (fst (body (Some r))), ctx)"
  by (auto simp: bind_request_id_def validate_request_id_def REQUEST_ID_PATTERN_def
      fullmatch_Rep_Cls is_request_id_def REQUEST_ID_LENGTH_def REQUEST_ID_BYTES_def
      simp del: fullmatch.simps split: prod.splits)

subsection \<open>The private runner channel\<close>

definition RUNNER_SHARED_SECRET_CLASS :: cclass where
  "RUNNER_SHARED_SECRET_CLASS = [(65, 90), (97, 122), (48, 57), (95, 95), (45, 45)]"

definition RUNNER_SHARED_SECRET_PATTERN :: rexp where
  "RUNNER_SHARED_SECRET_PATTERN =
     RSeq (RRep 32 (RCls RUNNER_SHARED_SECRET_CLASS)) (RUpTo 224 (RCls RUNNER_SHARED_SECRET_CLASS))"

definition RUNNER_INSECURE_EXAMPLE_SECRET :: pystr where
  "RUNNER_INSECURE_EXAMPLE_SECRET = lit ''replace-with-at-least-32-random-characters''"

datatype runner_error =
    RunnerConfigurationError
  | RunnerUnavailableError
  | RunnerBusyError

text \<open>The environment is the argument.\<close>

definition get_runner_shared_secret :: "(pystr \<Rightarrow> pystr option) \<Rightarrow> runner_error + pystr" where
  "get_runner_shared_secret env =
     (let secret = (case env (lit ''RUNNER_SHARED_SECRET'') of None \<Rightarrow> [] | Some s \<Rightarrow> s) in
      if \<not> fullmatch RUNNER_SHARED_SECRET_PATTERN secret \<or> secret = RUNNER_INSECURE_EXAMPLE_SECRET
      then Inl RunnerConfigurationError else Inr secret)"

lemma fullmatch_shared_secret:
  "fullmatch RUNNER_SHARED_SECRET_PATTERN w \<longleftrightarrow>
     32 \<le> length w \<and> length w \<le> 256 \<and> list_all (in_cls RUNNER_SHARED_SECRET_CLASS) w"
proof
  assume "fullmatch RUNNER_SHARED_SECRET_PATTERN w"
  then show "32 \<le> length w \<and> length w \<le> 256 \<and> list_all (in_cls RUNNER_SHARED_SECRET_CLASS) w"
    by (auto simp: RUNNER_SHARED_SECRET_PATTERN_def fullmatch_Seq fullmatch_Rep_Cls fullmatch_UpTo_Cls
        simp del: fullmatch.simps)
next
  assume "32 \<le> length w \<and> length w \<le> 256 \<and> list_all (in_cls RUNNER_SHARED_SECRET_CLASS) w"
  then show "fullmatch RUNNER_SHARED_SECRET_PATTERN w"
    unfolding RUNNER_SHARED_SECRET_PATTERN_def fullmatch_Seq fullmatch_Rep_Cls fullmatch_UpTo_Cls
    by (intro exI [of _ "take 32 w"] exI [of _ "drop 32 w"]) (auto simp: list_all_iff dest: in_set_takeD in_set_dropD)
qed

lemma get_runner_shared_secret_iff:
  "get_runner_shared_secret env = Inr s \<longleftrightarrow>
     env (lit ''RUNNER_SHARED_SECRET'') = Some s \<and> s \<noteq> RUNNER_INSECURE_EXAMPLE_SECRET \<and>
     32 \<le> length s \<and> length s \<le> 256 \<and> list_all (in_cls RUNNER_SHARED_SECRET_CLASS) s"
  unfolding get_runner_shared_secret_def fullmatch_shared_secret Let_def
  by (auto split: option.splits)

definition PROBLEM_REVISION_PATTERN :: rexp where
  "PROBLEM_REVISION_PATTERN = RRep 64 (RCls hex_lower)"

definition RUNNER_PROTOCOL_VERSION :: int where
  "RUNNER_PROTOCOL_VERSION = 4"

definition protocol_version_field :: "pyval \<Rightarrow> value_error + unit" where
  "protocol_version_field v = require (v = PInt RUNNER_PROTOCOL_VERSION) ''Input should be 4''"

definition RequestId :: "pyval \<Rightarrow> value_error + pystr" where
  "RequestId v = rbind (as_str v) (\<lambda>s.
     rbind (require (fullmatch REQUEST_ID_PATTERN s) ''string constraint'') (\<lambda>_. Inr s))"

definition ProblemRevision :: "pyval \<Rightarrow> value_error + pystr" where
  "ProblemRevision v = rbind (as_str v) (\<lambda>s.
     rbind (require (fullmatch PROBLEM_REVISION_PATTERN s) ''string constraint'') (\<lambda>_. Inr s))"

definition is_revision :: "pystr \<Rightarrow> bool" where
  "is_revision r \<longleftrightarrow> length r = 64 \<and> list_all (in_cls hex_lower) r"

record RunnerExecutionRequest = ShellgeiData +
  rq_request_id :: pystr
  rq_problem_revision :: pystr

definition parse_RunnerExecutionRequest :: "pyval \<Rightarrow> value_error + RunnerExecutionRequest" where
  "parse_RunnerExecutionRequest v =
     rbind (object_fields [''shellgei'', ''problem_id'', ''protocol_version'', ''request_id'',
                    ''problem_revision''] v) (\<lambda>fs.
     rbind (shellgei_field (fs ! 0)) (\<lambda>s.
     rbind (ProblemId (fs ! 1)) (\<lambda>p.
     rbind (protocol_version_field (fs ! 2)) (\<lambda>_.
     rbind (RequestId (fs ! 3)) (\<lambda>r.
     rbind (ProblemRevision (fs ! 4)) (\<lambda>rev.
     Inr \<lparr>sd_shellgei = s, sd_problem_id = p, rq_request_id = r, rq_problem_revision = rev\<rparr>))))))"

text \<open>The JSON form that the backend sends.\<close>

definition dump_RunnerExecutionRequest :: "RunnerExecutionRequest \<Rightarrow> pyval" where
  "dump_RunnerExecutionRequest r = PDict
     [(lit ''shellgei'', PStr (sd_shellgei r)), (lit ''problem_id'', PStr (sd_problem_id r)),
      (lit ''protocol_version'', PInt RUNNER_PROTOCOL_VERSION),
      (lit ''request_id'', PStr (rq_request_id r)),
      (lit ''problem_revision'', PStr (rq_problem_revision r))]"

lemma RequestId_iff: "RequestId v = Inr r \<longleftrightarrow> v = PStr r \<and> is_request_id r"
  unfolding RequestId_def rbind_eq_Inr as_str_eq_Inr require_eq_Inr REQUEST_ID_PATTERN_def
    fullmatch_Rep_Cls is_request_id_def REQUEST_ID_LENGTH_def REQUEST_ID_BYTES_def by auto

lemma ProblemRevision_iff: "ProblemRevision v = Inr r \<longleftrightarrow> v = PStr r \<and> is_revision r"
  unfolding ProblemRevision_def rbind_eq_Inr as_str_eq_Inr require_eq_Inr PROBLEM_REVISION_PATTERN_def
    fullmatch_Rep_Cls is_revision_def by auto

definition request_ok :: "RunnerExecutionRequest \<Rightarrow> bool" where
  "request_ok r \<longleftrightarrow> is_shellgei (sd_shellgei r) \<and> is_problem_id (sd_problem_id r)
     \<and> is_request_id (rq_request_id r) \<and> is_revision (rq_problem_revision r)"

lemma parse_RunnerExecutionRequest_ok: "parse_RunnerExecutionRequest v = Inr r \<Longrightarrow> request_ok r"
  unfolding parse_RunnerExecutionRequest_def rbind_eq_Inr shellgei_field_iff ProblemId_iff
    RequestId_iff ProblemRevision_iff by (auto simp: request_ok_def)

lemma replace_char_absent: "c \<notin> set s \<Longrightarrow> replace_char c r s = s"
  by (induction s) auto

lemma shellgei_field_PStr: "is_shellgei s \<Longrightarrow> shellgei_field (PStr s) = Inr s"
  by (simp add: shellgei_field_iff) (simp add: is_shellgei_def replace_char_absent)

lemma parse_dump_RunnerExecutionRequest:
  assumes "request_ok r"
  shows "parse_RunnerExecutionRequest (dump_RunnerExecutionRequest r) = Inr r"
proof -
  let ?names = "[''shellgei'', ''problem_id'', ''protocol_version'', ''request_id'', ''problem_revision'']"
  have f: "object_fields ?names (dump_RunnerExecutionRequest r) =
    Inr [PStr (sd_shellgei r), PStr (sd_problem_id r), PInt RUNNER_PROTOCOL_VERSION,
         PStr (rq_request_id r), PStr (rq_problem_revision r)]"
    by (simp add: object_fields_def dump_RunnerExecutionRequest_def)
  have "ProblemId (PStr (sd_problem_id r)) = Inr (sd_problem_id r)"
    "RequestId (PStr (rq_request_id r)) = Inr (rq_request_id r)"
    "ProblemRevision (PStr (rq_problem_revision r)) = Inr (rq_problem_revision r)"
    using assms by (simp_all add: request_ok_def ProblemId_iff RequestId_iff ProblemRevision_iff)
  then show ?thesis
    using assms by (simp add: parse_RunnerExecutionRequest_def f shellgei_field_PStr request_ok_def
        protocol_version_field_def)
qed

subsection \<open>Properties\<close>

text \<open>C18: The problem identifier type accepts exactly the strings of 1 to 64 characters whose pieces
  between hyphens are non-empty and alphanumeric, so an accepted identifier contains no slash,
  backslash, dot or NUL and can be used as a file name.\<close>

theorem problem_id_accepts_path_safe:
  "(ProblemId v = Inr p \<longleftrightarrow> v = PStr p \<and> is_problem_id p)
    \<and> (ProblemId v = Inr p \<longrightarrow> p \<noteq> [] \<and> 47 \<notin> set p \<and> 46 \<notin> set p \<and> 92 \<notin> set p \<and> 0 \<notin> set p)"
  using problem_id_path_safe [of p] unfolding ProblemId_iff by blast

theorem problem_id_accepts_path_safe_witness:
  "ProblemId (PStr (lit ''REGEX-1'')) = Inr (lit ''REGEX-1'') \<and> 47 \<notin> set (lit ''REGEX-1'')"
proof -
  have "is_problem_id (lit ''REGEX-1'')" by (simp add: is_problem_id_def lit_def in_cls_def alnum_def)
  then show ?thesis
    using problem_id_accepts_path_safe [of "PStr (lit ''REGEX-1'')" "lit ''REGEX-1''"] by blast
qed

text \<open>The submitted command is accepted exactly when, with its carriage returns removed, it has
  1 to 1000 characters, no NUL and a UTF-8 encoding; the stored command is that text.\<close>

theorem submitted_command_accepted_iff:
  "shellgei_field v = Inr s \<longleftrightarrow> (\<exists>raw. v = PStr raw \<and> s = replace_char 13 [] raw
     \<and> 1 \<le> length s \<and> length s \<le> 1000 \<and> 0 \<notin> set s \<and> utf8_encode s \<noteq> None)"
proof -
  have "13 \<notin> set (replace_char 13 [] raw)" for raw by (rule notin_set_replace_char) simp
  then show ?thesis unfolding shellgei_field_iff is_shellgei_def by blast
qed

text \<open>The request that the backend sends over the private channel is read back by the runner
  unchanged, and everything the runner accepts satisfies the request contract.\<close>

theorem runner_request_round_trip:
  "(request_ok r \<longrightarrow> parse_RunnerExecutionRequest (dump_RunnerExecutionRequest r) = Inr r)
    \<and> (parse_RunnerExecutionRequest v = Inr r \<longrightarrow> request_ok r)"
  using parse_dump_RunnerExecutionRequest parse_RunnerExecutionRequest_ok by blast

definition sample_request :: RunnerExecutionRequest where
  "sample_request = \<lparr>sd_shellgei = [108, 115], sd_problem_id = lit ''STANDARD-1'',
     rq_request_id = replicate 32 48, rq_problem_revision = replicate 64 102\<rparr>"

lemma sample_request_ok: "request_ok sample_request"
  by (simp add: request_ok_def sample_request_def is_shellgei_def utf8_encode_def utf8_char_def
      is_problem_id_def lit_def in_cls_def alnum_def is_request_id_def is_revision_def hex_lower_def
      list_all_iff)

theorem runner_request_round_trip_witness:
  "parse_RunnerExecutionRequest (dump_RunnerExecutionRequest sample_request) = Inr sample_request"
  using runner_request_round_trip sample_request_ok by blast

end
