(* ===== verification/Problem.thy ===== *)
theory Problem
  imports Validation
begin

section \<open>Problem definitions\<close>

text \<open>
  \<open>soj_shared/models/problem.py\<close>: the problem schema as records, one constructor function per
  pydantic model that runs its validators in the order of the class (field validators in field
  order, then the model validator), and the predicate that each constructed value satisfies.
  Decoding from YAML is done by the parameter of the theory \<open>Repository\<close>; here the field
  types are already those of the model.
\<close>

definition MAX_PROBLEM_TEXT_BYTES :: nat where "MAX_PROBLEM_TEXT_BYTES = 256000"
definition MAX_REFERENCE_SOLUTION_BYTES :: nat where "MAX_REFERENCE_SOLUTION_BYTES = 64000"
definition MAX_STDIN_BYTES :: nat where "MAX_STDIN_BYTES = 1000000"
definition MAX_FIXTURE_BYTES :: nat where "MAX_FIXTURE_BYTES = 1000000"
definition MAX_TOTAL_FIXTURE_BYTES :: nat where "MAX_TOTAL_FIXTURE_BYTES = 1000000"
definition MAX_FIXTURES :: nat where "MAX_FIXTURES = 16"
definition MAX_PROBLEM_PATH_BYTES :: nat where "MAX_PROBLEM_PATH_BYTES = 255"
definition MAX_ARTIFACT_BYTES :: nat where "MAX_ARTIFACT_BYTES = 750000"

lemmas problem_limits = MAX_PROBLEM_TEXT_BYTES_def MAX_REFERENCE_SOLUTION_BYTES_def
  MAX_STDIN_BYTES_def MAX_FIXTURE_BYTES_def MAX_TOTAL_FIXTURE_BYTES_def MAX_FIXTURES_def
  MAX_PROBLEM_PATH_BYTES_def MAX_ARTIFACT_BYTES_def

datatype ProblemCategory = Cat_STANDARD | Cat_PRACTICE | Cat_IMAGE | Cat_REGEX
datatype ExitCodePolicy = Exit_ignore | Exit_zero
datatype StderrPolicy = Stderr_merge | Stderr_ignore | Stderr_must_be_empty
datatype ImageMediaType = Image_jpeg | Image_gif

definition category_text :: "ProblemCategory \<Rightarrow> pystr" where
  "category_text c = lit (case c of Cat_STANDARD \<Rightarrow> ''STANDARD'' | Cat_PRACTICE \<Rightarrow> ''PRACTICE''
     | Cat_IMAGE \<Rightarrow> ''IMAGE'' | Cat_REGEX \<Rightarrow> ''REGEX'')"

definition media_text :: "ImageMediaType \<Rightarrow> pystr" where
  "media_text m = lit (case m of Image_jpeg \<Rightarrow> ''image/jpeg'' | Image_gif \<Rightarrow> ''image/gif'')"

lemma media_text_inj [simp]: "media_text a = media_text b \<longleftrightarrow> a = b"
  by (cases a; cases b; simp add: media_text_def)

lemma category_text_inj [simp]: "category_text a = category_text b \<longleftrightarrow> a = b"
  by (cases a; cases b; simp add: category_text_def)

subsection \<open>Text and path validators\<close>

definition encoded_length :: "pystr \<Rightarrow> value_error + nat" where
  "encoded_length s = (case utf8_encode s of
     None \<Rightarrow> Inl (ValueError ''UnicodeEncodeError'') | Some bs \<Rightarrow> Inr (length bs))"

definition validate_text_bytes :: "nat \<Rightarrow> pystr \<Rightarrow> value_error + pystr" where
  "validate_text_bytes maximum s =
     (if 0 \<in> set s then Inl (ValueError ''must not contain NUL bytes'')
      else rbind (encoded_length s) (\<lambda>n.
        if n > maximum then Inl (ValueError ''exceeds the byte limit'') else Inr s))"

text \<open>\<open>PurePosixPath\<close>: the root of a path and its parts, and the text it prints as.\<close>

definition posix_root :: "pystr \<Rightarrow> pystr" where
  "posix_root s =
     (if \<not> startswith s [47] then []
      else if startswith s [47, 47] \<and> \<not> startswith s [47, 47, 47] then [47, 47] else [47])"

definition posix_parts :: "pystr \<Rightarrow> pystr list" where
  "posix_parts s = filter (\<lambda>p. p \<noteq> [] \<and> p \<noteq> [46]) (split_on 47 (drop (length (posix_root s)) s))"

definition as_posix :: "pystr \<Rightarrow> pystr" where
  "as_posix s =
     (let t = posix_root s @ join_with 47 (posix_parts s) in if t = [] then [46] else t)"

definition is_absolute :: "pystr \<Rightarrow> bool" where
  "is_absolute s = (posix_root s \<noteq> [])"

definition bad_part :: "pystr \<Rightarrow> bool" where
  "bad_part p = (p = [] \<or> p = [46] \<or> p = [46, 46])"

definition validate_relative_path :: "pystr \<Rightarrow> value_error + pystr" where
  "validate_relative_path s =
     (if s = [] \<or> 0 \<in> set s \<or> 92 \<in> set s
      then Inl (ValueError ''must be a non-empty POSIX path'')
      else rbind (encoded_length s) (\<lambda>n.
        if n > MAX_PROBLEM_PATH_BYTES then Inl (ValueError ''exceeds the path byte limit'')
        else if is_absolute s \<or> list_ex bad_part (split_on 47 s)
        then Inl (ValueError ''must be a normalized relative path'')
        else if as_posix s \<noteq> s then Inl (ValueError ''must be a normalized relative path'')
        else Inr s))"

text \<open>
  What the checks amount to: every piece between slashes is a proper name, so that the path
  stays below the directory it is resolved in. The two last checks of the source are implied.
\<close>

definition is_relative_path :: "pystr \<Rightarrow> bool" where
  "is_relative_path s \<longleftrightarrow> 92 \<notin> set s \<and> list_all (\<lambda>p. \<not> bad_part p) (split_on 47 s)"

lemma is_relative_path_nonempty: "is_relative_path s \<Longrightarrow> s \<noteq> []"
  by (auto simp: is_relative_path_def bad_part_def)

lemma is_relative_path_not_absolute: "is_relative_path s \<Longrightarrow> \<not> is_absolute s"
  by (cases s) (auto simp: is_relative_path_def is_absolute_def posix_root_def startswith_def
      bad_part_def split: if_splits)

lemma is_relative_path_as_posix:
  assumes "is_relative_path s"
  shows "as_posix s = s"
proof -
  have r: "posix_root s = []" using is_relative_path_not_absolute [OF assms] by (simp add: is_absolute_def)
  have "posix_parts s = split_on 47 s"
    using assms by (auto simp: posix_parts_def r is_relative_path_def list_all_iff bad_part_def
        intro: filter_True)
  then show ?thesis using is_relative_path_nonempty [OF assms] by (simp add: as_posix_def r)
qed

lemma validate_relative_path_iff:
  "validate_relative_path s = Inr t \<longleftrightarrow>
     t = s \<and> is_relative_path s \<and> 0 \<notin> set s \<and> (\<exists>bs. utf8_encode s = Some bs \<and> length bs \<le> 255)"
proof
  assume "validate_relative_path s = Inr t"
  then show "t = s \<and> is_relative_path s \<and> 0 \<notin> set s
      \<and> (\<exists>bs. utf8_encode s = Some bs \<and> length bs \<le> 255)"
    by (auto simp: validate_relative_path_def encoded_length_def MAX_PROBLEM_PATH_BYTES_def
        is_relative_path_def list_all_iff list_ex_iff split: if_splits option.splits)
next
  assume r: "t = s \<and> is_relative_path s \<and> 0 \<notin> set s
      \<and> (\<exists>bs. utf8_encode s = Some bs \<and> length bs \<le> 255)"
  then have "s \<noteq> []" "\<not> is_absolute s" "as_posix s = s" "92 \<notin> set s"
    "\<not> list_ex bad_part (split_on 47 s)"
    using is_relative_path_nonempty is_relative_path_not_absolute is_relative_path_as_posix
    by (auto simp: is_relative_path_def list_all_iff list_ex_iff)
  then show "validate_relative_path s = Inr t"
    using r by (auto simp: validate_relative_path_def encoded_length_def MAX_PROBLEM_PATH_BYTES_def)
qed

lemma validate_text_bytes_iff:
  "validate_text_bytes m s = Inr t \<longleftrightarrow>
     t = s \<and> 0 \<notin> set s \<and> (\<exists>bs. utf8_encode s = Some bs \<and> length bs \<le> m)"
  by (auto simp: validate_text_bytes_def encoded_length_def split: option.splits)

subsection \<open>The models\<close>

record LocalizedText =
  lt_ja :: pystr
  lt_en :: pystr

record FixtureDefinition =
  fx_path :: pystr
  fx_content :: pystr

record ExecutionSpecification =
  es_stdin :: pystr
  es_fixtures :: "FixtureDefinition list"
  es_exit_code :: ExitCodePolicy
  es_stderr :: StderrPolicy

record ImageArtifactSpecification =
  ia_path :: pystr
  ia_media_type :: ImageMediaType
  ia_max_bytes :: int

datatype JudgeSpecification =
    TextJudge (expected_output: pystr)
  | ImageJudge (judge_artifact: ImageArtifactSpecification)

record ProblemDefinitionV3 =
  pd_id :: pystr
  pd_category :: ProblemCategory
  pd_title :: LocalizedText
  pd_statement :: LocalizedText
  pd_reference_solution :: pystr
  pd_execution :: ExecutionSpecification
  pd_judge :: JudgeSpecification

definition validate_localized_text :: "pystr \<Rightarrow> value_error + pystr" where
  "validate_localized_text s =
     (if s = [] then Inl (ValueError ''localized text must not be empty'')
      else validate_text_bytes MAX_PROBLEM_TEXT_BYTES s)"

definition new_LocalizedText :: "pystr \<Rightarrow> pystr \<Rightarrow> value_error + LocalizedText" where
  "new_LocalizedText ja en =
     rbind (validate_localized_text ja) (\<lambda>j.
     rbind (validate_localized_text en) (\<lambda>e. Inr \<lparr>lt_ja = j, lt_en = e\<rparr>))"

definition validate_fixture_path :: "pystr \<Rightarrow> value_error + pystr" where
  "validate_fixture_path s =
     rbind (validate_relative_path s) (\<lambda>validated.
     if validated = lit ''z.bash''
     then Inl (ValueError ''fixture path z.bash is reserved for the submitted command'')
     else Inr validated)"

definition validate_fixture_content :: "pystr \<Rightarrow> value_error + pystr" where
  "validate_fixture_content s =
     (if s = [] then Inl (ValueError ''fixture content must not be empty'')
      else validate_text_bytes MAX_FIXTURE_BYTES s)"

definition new_FixtureDefinition :: "pystr \<Rightarrow> pystr \<Rightarrow> value_error + FixtureDefinition" where
  "new_FixtureDefinition path content =
     rbind (validate_fixture_path path) (\<lambda>p.
     rbind (validate_fixture_content content) (\<lambda>c. Inr \<lparr>fx_path = p, fx_content = c\<rparr>))"

fun total_bytes :: "FixtureDefinition list \<Rightarrow> value_error + nat" where
  "total_bytes [] = Inr 0"
| "total_bytes (f # fs) =
     rbind (encoded_length (fx_content f)) (\<lambda>n. rbind (total_bytes fs) (\<lambda>m. Inr (n + m)))"

definition validate_fixtures :: "FixtureDefinition list \<Rightarrow> value_error + FixtureDefinition list" where
  "validate_fixtures fs =
     (let paths = map fx_path fs in
      if length paths \<noteq> card (set paths) then Inl (ValueError ''fixture paths must be unique'')
      else rbind (total_bytes fs) (\<lambda>n.
        if n > MAX_TOTAL_FIXTURE_BYTES
        then Inl (ValueError ''fixture contents exceed the total limit'')
        else Inr fs))"

definition new_ExecutionSpecification ::
  "pystr \<Rightarrow> FixtureDefinition list \<Rightarrow> ExitCodePolicy \<Rightarrow> StderrPolicy \<Rightarrow>
     value_error + ExecutionSpecification" where
  "new_ExecutionSpecification stdin fixtures exit_code stderr =
     rbind (validate_text_bytes MAX_STDIN_BYTES stdin) (\<lambda>i.
     rbind (require (length fixtures \<le> MAX_FIXTURES) ''too many fixtures'') (\<lambda>_.
     rbind (validate_fixtures fixtures) (\<lambda>fs.
     Inr \<lparr>es_stdin = i, es_fixtures = fs, es_exit_code = exit_code, es_stderr = stderr\<rparr>)))"

definition new_TextJudge :: "pystr \<Rightarrow> value_error + JudgeSpecification" where
  "new_TextJudge expected =
     rbind (validate_text_bytes MAX_PROBLEM_TEXT_BYTES expected) (\<lambda>e. Inr (TextJudge e))"

definition media_suffix :: "ImageMediaType \<Rightarrow> pystr" where
  "media_suffix m = (if m = Image_jpeg then lit ''.jpg'' else lit ''.gif'')"

definition validate_media_type_matches_path ::
  "ImageArtifactSpecification \<Rightarrow> value_error + ImageArtifactSpecification" where
  "validate_media_type_matches_path a =
     (if \<not> endswith (ia_path a) (media_suffix (ia_media_type a))
      then Inl (ValueError ''artifact path extension must match media_type'')
      else Inr a)"

definition new_ImageArtifactSpecification ::
  "pystr \<Rightarrow> ImageMediaType \<Rightarrow> int \<Rightarrow> value_error + ImageArtifactSpecification" where
  "new_ImageArtifactSpecification path media max_bytes =
     rbind (validate_relative_path path) (\<lambda>p.
     rbind (require (0 < max_bytes \<and> max_bytes \<le> int MAX_ARTIFACT_BYTES) ''max_bytes'') (\<lambda>_.
     validate_media_type_matches_path
       \<lparr>ia_path = p, ia_media_type = media, ia_max_bytes = max_bytes\<rparr>))"

definition id_prefix :: "pystr \<Rightarrow> pystr" where
  "id_prefix p = hd (split_on 45 p)"

definition is_image_judge :: "JudgeSpecification \<Rightarrow> bool" where
  "is_image_judge j = (case j of ImageJudge _ \<Rightarrow> True | TextJudge _ \<Rightarrow> False)"

definition validate_category_matches_id :: "ProblemDefinitionV3 \<Rightarrow> value_error + ProblemDefinitionV3" where
  "validate_category_matches_id p =
     (if id_prefix (pd_id p) \<noteq> category_text (pd_category p)
      then Inl (ValueError ''category must match the problem ID prefix'')
      else if pd_category p = Cat_IMAGE \<and> \<not> is_image_judge (pd_judge p)
      then Inl (ValueError ''IMAGE problems must use the image judge'')
      else if pd_category p \<noteq> Cat_IMAGE \<and> is_image_judge (pd_judge p)
      then Inl (ValueError ''non-IMAGE problems must use the text judge'')
      else Inr p)"

definition new_ProblemDefinitionV3 ::
  "pyval \<Rightarrow> ProblemCategory \<Rightarrow> LocalizedText \<Rightarrow> LocalizedText \<Rightarrow> pystr \<Rightarrow> ExecutionSpecification \<Rightarrow>
     JudgeSpecification \<Rightarrow> value_error + ProblemDefinitionV3" where
  "new_ProblemDefinitionV3 pid category title statement solution execution judge =
     rbind (ProblemId pid) (\<lambda>i.
     rbind (validate_text_bytes MAX_REFERENCE_SOLUTION_BYTES solution) (\<lambda>r.
     validate_category_matches_id
       \<lparr>pd_id = i, pd_category = category, pd_title = title, pd_statement = statement,
        pd_reference_solution = r, pd_execution = execution, pd_judge = judge\<rparr>))"

record ProblemManifestV1 =
  pm_problem_count :: int
  pm_revision :: pystr

definition new_ProblemManifestV1 :: "int \<Rightarrow> pystr \<Rightarrow> value_error + ProblemManifestV1" where
  "new_ProblemManifestV1 count revision =
     rbind (require (0 < count) ''problem_count'') (\<lambda>_.
     rbind (require (fullmatch PROBLEM_REVISION_PATTERN revision) ''revision'') (\<lambda>_.
     Inr \<lparr>pm_problem_count = count, pm_revision = revision\<rparr>))"

subsection \<open>What a validated definition satisfies\<close>

definition ok_artifact :: "ImageArtifactSpecification \<Rightarrow> bool" where
  "ok_artifact a \<longleftrightarrow> is_relative_path (ia_path a) \<and> 0 \<notin> set (ia_path a) \<and> length (ia_path a) \<le> 255
     \<and> endswith (ia_path a) (media_suffix (ia_media_type a))
     \<and> 0 < ia_max_bytes a \<and> ia_max_bytes a \<le> 750000"

definition ok_fixture :: "FixtureDefinition \<Rightarrow> bool" where
  "ok_fixture f \<longleftrightarrow> is_relative_path (fx_path f) \<and> fx_path f \<noteq> lit ''z.bash''
     \<and> fx_content f \<noteq> [] \<and> 0 \<notin> set (fx_content f) \<and> utf8_encode (fx_path f) \<noteq> None
     \<and> utf8_encode (fx_content f) \<noteq> None"

definition ok_execution :: "ExecutionSpecification \<Rightarrow> bool" where
  "ok_execution e \<longleftrightarrow> length (es_fixtures e) \<le> 16 \<and> distinct (map fx_path (es_fixtures e))
     \<and> (\<exists>n. total_bytes (es_fixtures e) = Inr n \<and> n \<le> 1000000)"

definition ok_problem :: "ProblemDefinitionV3 \<Rightarrow> bool" where
  "ok_problem p \<longleftrightarrow> is_problem_id (pd_id p) \<and> id_prefix (pd_id p) = category_text (pd_category p)
     \<and> (pd_category p = Cat_IMAGE \<longleftrightarrow> is_image_judge (pd_judge p))"

lemma new_FixtureDefinition_ok: "new_FixtureDefinition p c = Inr f \<Longrightarrow> ok_fixture f"
  by (auto simp: new_FixtureDefinition_def validate_fixture_path_def validate_fixture_content_def
      validate_relative_path_iff validate_text_bytes_iff ok_fixture_def res_simps split: if_splits)

lemma validate_fixtures_iff:
  "validate_fixtures fs = Inr gs \<longleftrightarrow> gs = fs \<and> distinct (map fx_path fs)
     \<and> (\<exists>n. total_bytes fs = Inr n \<and> n \<le> 1000000)"
proof -
  have "length (map fx_path fs) = card (set (map fx_path fs)) \<longleftrightarrow> distinct (map fx_path fs)"
    by (metis card_distinct distinct_card)
  then show ?thesis
    by (cases "total_bytes fs") (auto simp: validate_fixtures_def Let_def MAX_TOTAL_FIXTURE_BYTES_def)
qed

lemma new_ExecutionSpecification_ok:
  "new_ExecutionSpecification i fs x e = Inr s \<Longrightarrow> ok_execution s \<and> es_fixtures s = fs"
  by (auto simp: new_ExecutionSpecification_def validate_fixtures_iff ok_execution_def res_simps
      MAX_FIXTURES_def split: if_splits)

lemma utf8_path_length:
  "utf8_encode p = Some bs \<Longrightarrow> length bs \<le> 255 \<Longrightarrow> length p \<le> 255"
  using utf8_encode_length by fastforce

lemma new_ImageArtifactSpecification_ok:
  "new_ImageArtifactSpecification p m n = Inr a \<Longrightarrow> ok_artifact a"
  by (auto simp: new_ImageArtifactSpecification_def validate_relative_path_iff res_simps
      validate_media_type_matches_path_def MAX_ARTIFACT_BYTES_def ok_artifact_def
      dest: utf8_path_length split: if_splits)

lemma validate_category_matches_id_iff:
  "validate_category_matches_id p = Inr q \<longleftrightarrow> q = p
     \<and> id_prefix (pd_id p) = category_text (pd_category p)
     \<and> (pd_category p = Cat_IMAGE \<longleftrightarrow> is_image_judge (pd_judge p))"
  by (auto simp: validate_category_matches_id_def)

lemma new_ProblemDefinitionV3_ok:
  "new_ProblemDefinitionV3 i c t s r e j = Inr p \<Longrightarrow> ok_problem p"
  unfolding new_ProblemDefinitionV3_def rbind_eq_Inr ProblemId_iff validate_category_matches_id_iff
  by (auto simp: ok_problem_def)

end
