(* ===== verification/Execution.thy ===== *)
theory Execution
  imports Problem
begin

section \<open>Structured execution results\<close>

text \<open>
  \<open>soj_shared/models/execution.py\<close>: the result of one sandbox execution as a record, the
  validators of \<open>ExecutionArtifact\<close> and \<open>ExecutionResult\<close> as functions into a sum, and
  \<open>legacy_output\<close>. The predicate \<open>consistent\<close> states the contract of a result on its own; the
  lemma \<open>new_ExecutionResult_iff\<close> shows that the validators accept exactly the values that meet it.
  Texts have no lone surrogates, which pydantic would reject: decoding the output gives none and the messages of the source
  are fixed.
\<close>

definition MAX_CAPTURED_OUTPUT_CHARS :: nat where "MAX_CAPTURED_OUTPUT_CHARS = 1000"
definition MAX_EXECUTION_ERROR_CHARS :: nat where "MAX_EXECUTION_ERROR_CHARS = 1000"
definition MAX_RUNNER_IMAGE_BASE64_CHARS :: nat where "MAX_RUNNER_IMAGE_BASE64_CHARS = 1000000"
definition DISPLAY_GIF_PATH :: pystr where "DISPLAY_GIF_PATH = lit ''media/output.gif''"

lemmas execution_limits = MAX_CAPTURED_OUTPUT_CHARS_def MAX_EXECUTION_ERROR_CHARS_def
  MAX_RUNNER_IMAGE_BASE64_CHARS_def

datatype ExecutionStatus = COMPLETED | TIMED_OUT | OUTPUT_LIMIT | ERROR

record ExecutionArtifact =
  art_path :: pystr
  art_media_type :: ImageMediaType
  art_data :: pystr

record ExecutionResult =
  er_status :: ExecutionStatus
  er_stdout :: pystr
  er_stderr :: pystr
  er_exit_code :: "int option"
  er_timed_out :: bool
  er_truncated :: bool
  er_duration_ms :: int
  er_artifact :: "ExecutionArtifact option"
  er_error :: "pystr option"
  er_display_artifact :: "ExecutionArtifact option"

subsection \<open>Validators\<close>

definition validate_artifact_path :: "pystr \<Rightarrow> value_error + pystr" where
  "validate_artifact_path value =
     (if value = [] \<or> 92 \<in> set value \<or> is_absolute value
         \<or> list_ex bad_part (split_on 47 value) \<or> as_posix value \<noteq> value
      then Inl (ValueError ''artifact path must be a normalized relative POSIX path'')
      else Inr value)"

definition new_ExecutionArtifact ::
  "pystr \<Rightarrow> ImageMediaType \<Rightarrow> pystr \<Rightarrow> value_error + ExecutionArtifact" where
  "new_ExecutionArtifact path media data =
     rbind (require (length path \<le> MAX_PROBLEM_PATH_BYTES) ''path too long'') (\<lambda>_.
     rbind (validate_artifact_path path) (\<lambda>p.
     rbind (require (length data \<le> MAX_RUNNER_IMAGE_BASE64_CHARS) ''data too long'') (\<lambda>_.
     Inr \<lparr>art_path = p, art_media_type = media, art_data = data\<rparr>)))"

definition opt_items :: "'a option \<Rightarrow> 'a list" where
  "opt_items x = (case x of None \<Rightarrow> [] | Some a \<Rightarrow> [a])"

definition artifacts_of :: "ExecutionResult \<Rightarrow> ExecutionArtifact list" where
  "artifacts_of r = opt_items (er_artifact r) @ opt_items (er_display_artifact r)"

text \<open>The falsy strings of \<open>not self.error\<close>: no error, or an empty one.\<close>

definition no_error_text :: "pystr option \<Rightarrow> bool" where
  "no_error_text e = (e = None \<or> e = Some [])"

definition validate_consistent_outcome :: "ExecutionResult \<Rightarrow> value_error + ExecutionResult" where
  "validate_consistent_outcome r =
     rbind (require (length (er_stdout r) + length (er_stderr r) \<le> MAX_CAPTURED_OUTPUT_CHARS)
             ''combined execution output exceeds the character limit'') (\<lambda>_.
     rbind (case er_status r of
              COMPLETED \<Rightarrow>
                require (\<not> (er_exit_code r = None \<or> er_timed_out r \<or> er_truncated r \<or> er_error r \<noteq> None))
                  ''completed execution result is inconsistent''
            | TIMED_OUT \<Rightarrow> require (er_timed_out r) ''timed out execution result is inconsistent''
            | OUTPUT_LIMIT \<Rightarrow>
                require (\<not> (er_timed_out r \<or> \<not> er_truncated r))
                  ''output limited execution result is inconsistent''
            | ERROR \<Rightarrow>
                require (\<not> (er_timed_out r \<or> no_error_text (er_error r)))
                  ''failed execution result is inconsistent'') (\<lambda>_.
     rbind (require (sum_list (map (length \<circ> art_data) (artifacts_of r)) \<le> MAX_RUNNER_IMAGE_BASE64_CHARS)
             ''combined artifact data exceeds the limit'') (\<lambda>_.
     rbind (case er_display_artifact r of None \<Rightarrow> Inr ()
            | Some d \<Rightarrow>
                require (\<not> (art_path d \<noteq> DISPLAY_GIF_PATH \<or> art_media_type d \<noteq> Image_gif))
                  ''display artifact must be the fixed GIF output'') (\<lambda>_.
     rbind (require (\<not> (er_status r \<noteq> COMPLETED \<and> artifacts_of r \<noteq> []))
             ''incomplete execution result must not contain an artifact'') (\<lambda>_.
     Inr r)))))"

definition new_ExecutionResult :: "ExecutionResult \<Rightarrow> value_error + ExecutionResult" where
  "new_ExecutionResult r =
     rbind (require (length (er_stdout r) \<le> MAX_CAPTURED_OUTPUT_CHARS) ''stdout too long'') (\<lambda>_.
     rbind (require (length (er_stderr r) \<le> MAX_CAPTURED_OUTPUT_CHARS) ''stderr too long'') (\<lambda>_.
     rbind (require (0 \<le> er_duration_ms r) ''duration_ms is negative'') (\<lambda>_.
     rbind (require (case er_error r of None \<Rightarrow> True
                     | Some e \<Rightarrow> length e \<le> MAX_EXECUTION_ERROR_CHARS) ''error too long'') (\<lambda>_.
     validate_consistent_outcome r))))"

definition TIMED_OUT_SUFFIX :: pystr where
  "TIMED_OUT_SUFFIX = 10 # lit ''[Timed out]''"

definition error_text :: "pystr option \<Rightarrow> pystr" where
  "error_text e = (case e of None \<Rightarrow> lit ''None'' | Some s \<Rightarrow> s)"

definition legacy_output :: "int \<Rightarrow> ExecutionResult \<Rightarrow> pystr" where
  "legacy_output limit_chars r =
     (let combined = er_stdout r @ er_stderr r in
      case er_status r of
        TIMED_OUT \<Rightarrow>
          slice_to (max 0 (limit_chars - int (length TIMED_OUT_SUFFIX))) combined @ TIMED_OUT_SUFFIX
      | OUTPUT_LIMIT \<Rightarrow> slice_to limit_chars combined @ lit ''...''
      | ERROR \<Rightarrow> slice_to limit_chars (lit ''Error during execution: '' @ error_text (er_error r))
      | COMPLETED \<Rightarrow>
          if int (length combined) > limit_chars then slice_to limit_chars combined @ lit ''...''
          else combined)"

subsection \<open>The contract of a result\<close>

definition ok_status :: "ExecutionResult \<Rightarrow> bool" where
  "ok_status r \<longleftrightarrow>
     (case er_status r of
        COMPLETED \<Rightarrow> er_exit_code r \<noteq> None \<and> \<not> er_timed_out r \<and> \<not> er_truncated r \<and> er_error r = None
      | TIMED_OUT \<Rightarrow> er_timed_out r
      | OUTPUT_LIMIT \<Rightarrow> \<not> er_timed_out r \<and> er_truncated r
      | ERROR \<Rightarrow> \<not> er_timed_out r \<and> (\<exists>e. er_error r = Some e \<and> e \<noteq> []))"

definition consistent :: "ExecutionResult \<Rightarrow> bool" where
  "consistent r \<longleftrightarrow>
     length (er_stdout r) + length (er_stderr r) \<le> 1000 \<and> 0 \<le> er_duration_ms r
     \<and> (\<forall>e. er_error r = Some e \<longrightarrow> length e \<le> 1000) \<and> ok_status r
     \<and> sum_list (map (length \<circ> art_data) (artifacts_of r)) \<le> 1000000
     \<and> (\<forall>d. er_display_artifact r = Some d \<longrightarrow> art_path d = DISPLAY_GIF_PATH \<and> art_media_type d = Image_gif)
     \<and> (er_status r \<noteq> COMPLETED \<longrightarrow> er_artifact r = None \<and> er_display_artifact r = None)"

lemma opt_items_simps [simp]: "opt_items None = []" "opt_items (Some a) = [a]"
  "opt_items x = [] \<longleftrightarrow> x = None"
  by (auto simp: opt_items_def split: option.splits)

lemma artifacts_of_Nil [simp]: "artifacts_of r = [] \<longleftrightarrow> er_artifact r = None \<and> er_display_artifact r = None"
  by (auto simp: artifacts_of_def)

lemma no_error_text_iff: "\<not> no_error_text e \<longleftrightarrow> (\<exists>t. e = Some t \<and> t \<noteq> [])"
  by (cases e) (auto simp: no_error_text_def)

lemma status_check:
  "(case er_status r of
      COMPLETED \<Rightarrow> require (\<not> (er_exit_code r = None \<or> er_timed_out r \<or> er_truncated r \<or> er_error r \<noteq> None)) m1
    | TIMED_OUT \<Rightarrow> require (er_timed_out r) m2
    | OUTPUT_LIMIT \<Rightarrow> require (\<not> (er_timed_out r \<or> \<not> er_truncated r)) m3
    | ERROR \<Rightarrow> require (\<not> (er_timed_out r \<or> no_error_text (er_error r))) m4) = Inr u \<longleftrightarrow> ok_status r"
  by (cases "er_status r") (auto simp: ok_status_def no_error_text_iff)

lemma display_check:
  "(case er_display_artifact r of None \<Rightarrow> Inr ()
    | Some d \<Rightarrow> require (\<not> (art_path d \<noteq> DISPLAY_GIF_PATH \<or> art_media_type d \<noteq> Image_gif)) m) = Inr u \<longleftrightarrow>
   (\<forall>d. er_display_artifact r = Some d \<longrightarrow> art_path d = DISPLAY_GIF_PATH \<and> art_media_type d = Image_gif)"
  by (cases "er_display_artifact r") auto

lemma validate_consistent_outcome_iff:
  "validate_consistent_outcome r = Inr s \<longleftrightarrow> s = r
     \<and> length (er_stdout r) + length (er_stderr r) \<le> 1000 \<and> ok_status r
     \<and> sum_list (map (length \<circ> art_data) (artifacts_of r)) \<le> 1000000
     \<and> (\<forall>d. er_display_artifact r = Some d \<longrightarrow> art_path d = DISPLAY_GIF_PATH \<and> art_media_type d = Image_gif)
     \<and> (er_status r \<noteq> COMPLETED \<longrightarrow> er_artifact r = None \<and> er_display_artifact r = None)"
  unfolding validate_consistent_outcome_def rbind_eq_Inr require_eq_Inr status_check display_check
    execution_limits by auto

lemma new_ExecutionResult_iff: "new_ExecutionResult r = Inr s \<longleftrightarrow> s = r \<and> consistent r"
  unfolding new_ExecutionResult_def rbind_eq_Inr require_eq_Inr validate_consistent_outcome_iff
    execution_limits consistent_def by (auto split: option.splits)

lemma validate_artifact_path_iff: "validate_artifact_path p = Inr q \<longleftrightarrow> q = p \<and> is_relative_path p"
proof -
  have "is_relative_path p \<Longrightarrow> p \<noteq> [] \<and> 92 \<notin> set p \<and> \<not> is_absolute p
      \<and> \<not> list_ex bad_part (split_on 47 p) \<and> as_posix p = p"
    using is_relative_path_nonempty is_relative_path_not_absolute is_relative_path_as_posix
    by (auto simp: is_relative_path_def list_all_iff list_ex_iff)
  then show ?thesis
    by (auto simp: validate_artifact_path_def is_relative_path_def list_all_iff list_ex_iff bad_part_def)
qed

lemma new_ExecutionArtifact_iff:
  "new_ExecutionArtifact p m d = Inr a \<longleftrightarrow> a = \<lparr>art_path = p, art_media_type = m, art_data = d\<rparr>
     \<and> length p \<le> 255 \<and> is_relative_path p \<and> length d \<le> 1000000"
  unfolding new_ExecutionArtifact_def rbind_eq_Inr require_eq_Inr validate_artifact_path_iff
    execution_limits MAX_PROBLEM_PATH_BYTES_def by auto

lemma length_TIMED_OUT_SUFFIX [simp]: "length TIMED_OUT_SUFFIX = 12"
  by (simp add: TIMED_OUT_SUFFIX_def)

lemma length_legacy_output:
  "9 \<le> limit \<Longrightarrow> int (length (legacy_output limit r)) \<le> limit + 3"
  by (cases "er_status r") (auto simp: legacy_output_def Let_def length_slice_to_nonneg)

lemma legacy_output_completed:
  "consistent r \<Longrightarrow> er_status r = COMPLETED \<Longrightarrow> legacy_output 1000 r = er_stdout r @ er_stderr r"
  by (auto simp: legacy_output_def consistent_def)

lemma display_path_relative: "is_relative_path DISPLAY_GIF_PATH"
  by (simp add: DISPLAY_GIF_PATH_def is_relative_path_def bad_part_def lit_def)

subsection \<open>Properties\<close>

text \<open>The result type accepts exactly the consistent results, and returns them unchanged: bounded
  output and error text, flags that agree with the status, artifacts only on completion and
  within their common limit, and only the fixed GIF as display artifact.\<close>

theorem execution_result_accepts_consistent:
  "new_ExecutionResult r = Inr s \<longleftrightarrow> s = r \<and> consistent r"
  by (rule new_ExecutionResult_iff)

text \<open>The legacy text of a result is at most three characters longer than its limit, and for a
  completed result within the limits it is the two streams in order.\<close>

theorem legacy_output_bounded:
  assumes "9 \<le> limit"
  shows "int (length (legacy_output limit r)) \<le> limit + 3
    \<and> (consistent r \<and> er_status r = COMPLETED \<longrightarrow> legacy_output 1000 r = er_stdout r @ er_stderr r)"
  using length_legacy_output [OF assms] legacy_output_completed by blast

theorem legacy_output_bounded_witness:
  "int (length (legacy_output 10 \<lparr>er_status = TIMED_OUT, er_stdout = [97], er_stderr = [], er_exit_code = None,
      er_timed_out = True, er_truncated = False, er_duration_ms = 0, er_artifact = None, er_error = None,
      er_display_artifact = None\<rparr>)) \<le> 13"
  using legacy_output_bounded [of 10] by simp

end
