(* ===== verification/Watchdog.thy ===== *)
theory Watchdog
  imports Execution
begin

section \<open>The execution watchdog and its race with the cleanup\<close>

text \<open>
  \<open>ExecutionWatchdog\<close> and \<open>SandboxCleanup.stop\<close> of \<open>soj_runner/sandbox_executor.py\<close>. Each
  method is a function on the watchdog's state, split at its lock region, and the two threads
  that use it (the executing thread and the \<open>threading.Timer\<close>) are interleaved by the step
  relation \<open>race\<close>, whose steps name who moves: a thread, Docker when it answers a kill, or the outside (the
  command's stream and the deadline). The reply of \<open>container.kill()\<close> is a parameter of the step that calls it:
  \<open>None\<close> for success, or the text of the exception.
\<close>

type_synonym exn = pystr

datatype end_reason = Reason_timeout | Reason_output_limit

record watchdog =
  wd_finished :: bool
  wd_reason :: "end_reason option"
  wd_termination_error :: "exn option"

definition new_watchdog :: watchdog where
  "new_watchdog = \<lparr>wd_finished = False, wd_reason = None, wd_termination_error = None\<rparr>"

subsection \<open>The methods\<close>

text \<open>The lock region of \<open>terminate\<close>, its kill, and the whole method.\<close>

definition terminate_claim :: "end_reason \<Rightarrow> watchdog \<Rightarrow> bool \<times> watchdog" where
  "terminate_claim r w =
     (if wd_finished w \<or> wd_reason w \<noteq> None then (False, w) else (True, w\<lparr>wd_reason := Some r\<rparr>))"

definition terminate_kill :: "exn option \<Rightarrow> watchdog \<Rightarrow> watchdog" where
  "terminate_kill reply w =
     (case reply of None \<Rightarrow> w | Some e \<Rightarrow> w\<lparr>wd_termination_error := Some e\<rparr>)"

definition terminate :: "end_reason \<Rightarrow> exn option \<Rightarrow> watchdog \<Rightarrow> bool \<times> watchdog" where
  "terminate r reply w =
     (let (claimed, w') = terminate_claim r w in
      if claimed then (True, terminate_kill reply w') else (False, w'))"

definition finish :: "watchdog \<Rightarrow> end_reason option \<times> watchdog" where
  "finish w = (wd_reason w, w\<lparr>wd_finished := True\<rparr>)"

record SandboxCleanupResult =
  cr_reason :: "end_reason option"
  cr_error :: "exn option"
  cr_container_stopped :: bool

text \<open>
  \<open>stop\<close> as one function: \<open>kill_reply\<close> answers the kill that it makes itself, \<open>joined\<close> is the
  watchdog as the timer thread leaves it by the time \<open>join\<close> returns.
\<close>

definition cleanup_stop ::
  "exn option \<Rightarrow> (watchdog \<Rightarrow> watchdog) \<Rightarrow> watchdog \<Rightarrow> SandboxCleanupResult \<times> watchdog" where
  "cleanup_stop kill_reply joined w =
     (let (reason, w1) = finish w;
          (error, stopped) = (if reason = None then (kill_reply, kill_reply = None) else (None, False));
          w2 = joined w1;
          (error, stopped) =
            (if reason \<noteq> None then (wd_termination_error w2, wd_termination_error w2 = None)
             else (error, stopped))
      in (\<lparr>cr_reason = reason, cr_error = error, cr_container_stopped = stopped\<rparr>, w2))"

lemma terminate_claim_simps [simp]:
  "fst (terminate_claim r w) \<longleftrightarrow> \<not> wd_finished w \<and> wd_reason w = None"
  "wd_finished (snd (terminate_claim r w)) = wd_finished w"
  "wd_termination_error (snd (terminate_claim r w)) = wd_termination_error w"
  "wd_reason (snd (terminate_claim r w)) =
     (if \<not> wd_finished w \<and> wd_reason w = None then Some r else wd_reason w)"
  by (simp_all add: terminate_claim_def)

lemma terminate_kill_simps [simp]:
  "wd_reason (terminate_kill reply w) = wd_reason w"
  "wd_finished (terminate_kill reply w) = wd_finished w"
  "wd_termination_error (terminate_kill reply w) =
     (if reply = None then wd_termination_error w else reply)"
  by (simp_all add: terminate_kill_def split: option.splits)

lemma finish_simps [simp]:
  "fst (finish w) = wd_reason w" "wd_reason (snd (finish w)) = wd_reason w"
  "wd_finished (snd (finish w))" "wd_termination_error (snd (finish w)) = wd_termination_error w"
  by (simp_all add: finish_def)

lemma terminate_reason:
  "wd_reason (snd (terminate r reply w)) =
     (if \<not> wd_finished w \<and> wd_reason w = None then Some r else wd_reason w)"
  by (simp add: terminate_def terminate_claim_def)

lemma terminate_first_wins:
  "wd_reason w = Some r0 \<Longrightarrow> terminate r reply w = (False, w)"
  by (simp add: terminate_def terminate_claim_def)

subsection \<open>Two threads\<close>

text \<open>
  The timer thread waits until the deadline has passed or it is cancelled; then it ends or calls
  \<open>terminate\<close>; between its lock region and its kill the other thread may run. The executing thread
  reads the command's stream: it goes on when the stream is at its end (or raises), or when too
  much output has come and it has called \<open>terminate\<close> itself; otherwise it stays blocked in the
  read. Then it runs \<open>stop\<close>: cancel, finish, its own kill if there is no reason, join, and the
  reading of the watchdog's error. A \<open>container.kill()\<close> under way goes on only when Docker answers;
  one that succeeds ends every process of the container and so its streams. The lock regions are
  single steps: they hold the lock over assignments only. \<open>g_kills\<close> records every kill with its
  reply. Each step belongs to an actor.
\<close>

datatype timer_pc = T_waiting | T_called | T_killing | T_done

datatype main_pc =
    M_running
  | M_overflow_killing
  | M_stopping
  | M_cancelled
  | M_finished "end_reason option"
  | M_joining "end_reason option" "exn option" bool
  | M_result SandboxCleanupResult

datatype actor = Timer_thread | Executing_thread | Docker | Outside

record race_state =
  g_watchdog :: watchdog
  g_timer :: timer_pc
  g_main :: main_pc
  g_cancelled :: bool
  g_expired :: bool
  g_stream_open :: bool
  g_kills :: "exn option list"

definition race_init :: race_state where
  "race_init = \<lparr>g_watchdog = new_watchdog, g_timer = T_waiting, g_main = M_running,
     g_cancelled = False, g_expired = False, g_stream_open = True, g_kills = []\<rparr>"

text \<open>Docker's answer to a kill of the container: the streams end when it succeeds.\<close>

definition killed :: "exn option \<Rightarrow> race_state \<Rightarrow> race_state" where
  "killed reply s = s\<lparr>g_kills := reply # g_kills s,
     g_stream_open := (g_stream_open s \<and> reply \<noteq> None)\<rparr>"

inductive race :: "actor \<Rightarrow> race_state \<Rightarrow> race_state \<Rightarrow> bool" where
  deadline: "\<not> g_expired s \<Longrightarrow> race Outside s (s\<lparr>g_expired := True\<rparr>)"
| stream_ends: "g_stream_open s \<Longrightarrow> race Outside s (s\<lparr>g_stream_open := False\<rparr>)"
| timer_call: "g_timer s = T_waiting \<Longrightarrow> \<not> g_cancelled s \<Longrightarrow> g_expired s \<Longrightarrow>
    race Timer_thread s (s\<lparr>g_timer := T_called\<rparr>)"
| timer_skip: "g_timer s = T_waiting \<Longrightarrow> g_cancelled s \<Longrightarrow>
    race Timer_thread s (s\<lparr>g_timer := T_done\<rparr>)"
| timer_claim: "g_timer s = T_called \<Longrightarrow> terminate_claim Reason_timeout (g_watchdog s) = (claimed, w) \<Longrightarrow>
    race Timer_thread s (s\<lparr>g_watchdog := w, g_timer := (if claimed then T_killing else T_done)\<rparr>)"
| timer_kill: "g_timer s = T_killing \<Longrightarrow>
    race Docker s (killed reply s\<lparr>g_watchdog := terminate_kill reply (g_watchdog s), g_timer := T_done\<rparr>)"
| main_overflow: "g_main s = M_running \<Longrightarrow>
    terminate_claim Reason_output_limit (g_watchdog s) = (claimed, w) \<Longrightarrow>
    race Outside s (s\<lparr>g_watchdog := w, g_main := (if claimed then M_overflow_killing else M_stopping)\<rparr>)"
| main_overflow_kill: "g_main s = M_overflow_killing \<Longrightarrow>
    race Docker s (killed reply s\<lparr>g_watchdog := terminate_kill reply (g_watchdog s), g_main := M_stopping\<rparr>)"
| main_end: "g_main s = M_running \<Longrightarrow> \<not> g_stream_open s \<Longrightarrow>
    race Executing_thread s (s\<lparr>g_main := M_stopping\<rparr>)"
| main_cancel: "g_main s = M_stopping \<Longrightarrow>
    race Executing_thread s (s\<lparr>g_cancelled := True, g_main := M_cancelled\<rparr>)"
| main_finish: "g_main s = M_cancelled \<Longrightarrow> finish (g_watchdog s) = (reason, w) \<Longrightarrow>
    race Executing_thread s (s\<lparr>g_watchdog := w, g_main := M_finished reason\<rparr>)"
| main_kill: "g_main s = M_finished None \<Longrightarrow>
    race Docker s (killed reply s\<lparr>g_main := M_joining None reply (reply = None)\<rparr>)"
| main_no_kill: "g_main s = M_finished (Some r) \<Longrightarrow>
    race Executing_thread s (s\<lparr>g_main := M_joining (Some r) None False\<rparr>)"
| main_join: "g_main s = M_joining reason error stopped \<Longrightarrow> g_timer s = T_done \<Longrightarrow>
    race Executing_thread s (s\<lparr>g_main := M_result
      (if reason \<noteq> None
       then \<lparr>cr_reason = reason, cr_error = wd_termination_error (g_watchdog s),
             cr_container_stopped = (wd_termination_error (g_watchdog s) = None)\<rparr>
       else \<lparr>cr_reason = reason, cr_error = error, cr_container_stopped = stopped\<rparr>)\<rparr>)"

inductive_cases raceE: "race a s t"

inductive race_reachable :: "race_state \<Rightarrow> bool" where
  race_start: "race_reachable race_init"
| race_next: "race_reachable s \<Longrightarrow> race a s t \<Longrightarrow> race_reachable t"

text \<open>
  The invariant: a kill belongs to whoever set the reason, or to \<open>stop\<close> when nobody did; while a
  claimed kill is outstanding none has been made, and the watchdog's error is that kill's reply.
\<close>

definition claimed_kill_done :: "race_state \<Rightarrow> bool" where
  "claimed_kill_done s \<longleftrightarrow> g_timer s \<noteq> T_killing \<and> g_main s \<noteq> M_overflow_killing"

definition main_reason :: "race_state \<Rightarrow> bool" where
  "main_reason s \<longleftrightarrow>
     (case g_main s of
        M_finished r \<Rightarrow> r = wd_reason (g_watchdog s)
      | M_joining r e b \<Rightarrow> r = wd_reason (g_watchdog s) \<and> (r = None \<longrightarrow> g_kills s = [e] \<and> b = (e = None))
      | M_result c \<Rightarrow> cr_reason c = wd_reason (g_watchdog s) \<and> claimed_kill_done s
          \<and> (\<exists>k. g_kills s = [k] \<and> cr_error c = k \<and> cr_container_stopped c = (k = None))
      | _ \<Rightarrow> True)"

definition early :: "race_state \<Rightarrow> bool" where
  "early s \<longleftrightarrow> g_main s \<in> {M_running, M_overflow_killing, M_stopping, M_cancelled}"

definition race_inv :: "race_state \<Rightarrow> bool" where
  "race_inv s \<longleftrightarrow>
     (wd_finished (g_watchdog s) \<longleftrightarrow> \<not> early s)
     \<and> (g_timer s = T_killing \<longrightarrow> g_main s \<noteq> M_overflow_killing \<and> wd_reason (g_watchdog s) = Some Reason_timeout)
     \<and> (g_main s = M_overflow_killing \<longrightarrow> wd_reason (g_watchdog s) = Some Reason_output_limit)
     \<and> (\<not> claimed_kill_done s \<longrightarrow> g_kills s = [] \<and> wd_reason (g_watchdog s) \<noteq> None)
     \<and> (wd_reason (g_watchdog s) \<noteq> None \<and> claimed_kill_done s \<longrightarrow>
          g_kills s = [wd_termination_error (g_watchdog s)])
     \<and> (wd_reason (g_watchdog s) = None \<and> (early s \<or> g_main s = M_finished None) \<longrightarrow> g_kills s = [])
     \<and> (\<not> claimed_kill_done s \<or> wd_reason (g_watchdog s) = None \<longrightarrow> wd_termination_error (g_watchdog s) = None)
     \<and> main_reason s"

lemmas race_inv_defs = race_inv_def early_def claimed_kill_done_def main_reason_def killed_def

lemma race_inv_init: "race_inv race_init"
  by (simp add: race_inv_defs race_init_def new_watchdog_def)

lemma race_inv_timer_claim:
  assumes "race_inv s" "g_timer s = T_called" "terminate_claim Reason_timeout (g_watchdog s) = (c, w)"
  shows "race_inv (s\<lparr>g_watchdog := w, g_timer := (if c then T_killing else T_done)\<rparr>)"
  using assms by (cases "g_main s") (auto simp: race_inv_defs terminate_claim_def split: if_splits)

lemma race_inv_main_overflow:
  assumes "race_inv s" "g_main s = M_running"
    "terminate_claim Reason_output_limit (g_watchdog s) = (c, w)"
  shows "race_inv (s\<lparr>g_watchdog := w, g_main := (if c then M_overflow_killing else M_stopping)\<rparr>)"
  using assms by (cases "g_timer s") (auto simp: race_inv_defs terminate_claim_def split: if_splits)

lemma race_inv_timer_kill:
  assumes "race_inv s" "g_timer s = T_killing"
  shows "race_inv (killed reply s\<lparr>g_watchdog := terminate_kill reply (g_watchdog s), g_timer := T_done\<rparr>)"
  using assms by (cases "g_main s") (auto simp: race_inv_defs)

lemma race_inv_main_overflow_kill:
  assumes "race_inv s" "g_main s = M_overflow_killing"
  shows "race_inv (killed reply s\<lparr>g_watchdog := terminate_kill reply (g_watchdog s), g_main := M_stopping\<rparr>)"
  using assms by (cases "g_timer s") (auto simp: race_inv_defs)

lemma race_inv_main_finish:
  assumes "race_inv s" "g_main s = M_cancelled" "finish (g_watchdog s) = (r, w)"
  shows "race_inv (s\<lparr>g_watchdog := w, g_main := M_finished r\<rparr>)"
  using assms by (cases "g_timer s") (auto simp: race_inv_defs finish_def)

lemma race_inv_timer_pc:
  assumes "race_inv s" "g_timer s = T_waiting" "pc = T_called \<or> pc = T_done"
  shows "race_inv (s\<lparr>g_timer := pc\<rparr>)"
  using assms by (cases "g_main s") (auto simp: race_inv_defs)

lemma race_inv_main_stopping:
  assumes "race_inv s" "g_main s = M_running"
  shows "race_inv (s\<lparr>g_main := M_stopping\<rparr>)"
  using assms by (cases "g_timer s") (auto simp: race_inv_defs)

lemma race_inv_main_cancel:
  assumes "race_inv s" "g_main s = M_stopping"
  shows "race_inv (s\<lparr>g_cancelled := True, g_main := M_cancelled\<rparr>)"
  using assms by (cases "g_timer s") (auto simp: race_inv_defs)

lemma race_inv_main_kill:
  assumes "race_inv s" "g_main s = M_finished None"
  shows "race_inv (killed reply s\<lparr>g_main := M_joining None reply (reply = None)\<rparr>)"
  using assms by (cases "g_timer s") (auto simp: race_inv_defs)

lemma race_inv_main_no_kill:
  assumes "race_inv s" "g_main s = M_finished (Some r)"
  shows "race_inv (s\<lparr>g_main := M_joining (Some r) None False\<rparr>)"
proof -
  have "wd_reason (g_watchdog s) = Some r" using assms by (simp add: race_inv_def main_reason_def)
  then show ?thesis using assms by (cases "g_timer s") (auto simp: race_inv_defs)
qed

lemma race_inv_main_join:
  assumes "race_inv s" "g_main s = M_joining reason error stopped" "g_timer s = T_done"
  shows "race_inv (s\<lparr>g_main := M_result
      (if reason \<noteq> None
       then \<lparr>cr_reason = reason, cr_error = wd_termination_error (g_watchdog s),
             cr_container_stopped = (wd_termination_error (g_watchdog s) = None)\<rparr>
       else \<lparr>cr_reason = reason, cr_error = error, cr_container_stopped = stopped\<rparr>)\<rparr>)"
  using assms by (cases reason) (auto simp: race_inv_defs)

lemma race_inv_outside:
  "race_inv s \<Longrightarrow> race_inv (s\<lparr>g_expired := b\<rparr>)" "race_inv s \<Longrightarrow> race_inv (s\<lparr>g_stream_open := b\<rparr>)"
  by (cases "g_main s"; auto simp: race_inv_defs)+

lemmas race_inv_intros = race_inv_outside race_inv_timer_pc race_inv_timer_claim race_inv_timer_kill
  race_inv_main_overflow race_inv_main_overflow_kill race_inv_main_stopping race_inv_main_cancel
  race_inv_main_finish race_inv_main_kill race_inv_main_no_kill race_inv_main_join

lemma race_inv_step: "race_inv s \<Longrightarrow> race a s t \<Longrightarrow> race_inv t"
proof (erule raceE, goal_cases)
  case 14
  then show ?case using race_inv_main_join [OF 14(1,4,5)] by simp
qed (simp_all only: race_inv_intros simp_thms)

lemma race_reachable_inv: "race_reachable s \<Longrightarrow> race_inv s"
  by (induction rule: race_reachable.induct) (auto intro: race_inv_init race_inv_step)

subsection \<open>Every race ends, and with exactly one kill\<close>

fun timer_rank :: "timer_pc \<Rightarrow> nat" where
  "timer_rank T_waiting = 3" | "timer_rank T_called = 2" | "timer_rank T_killing = 1" | "timer_rank T_done = 0"

fun main_rank :: "main_pc \<Rightarrow> nat" where
  "main_rank M_running = 6" | "main_rank M_overflow_killing = 5" | "main_rank M_stopping = 4"
| "main_rank M_cancelled = 3" | "main_rank (M_finished r) = 2" | "main_rank (M_joining r e b) = 1"
| "main_rank (M_result c) = 0"

definition race_rank :: "race_state \<Rightarrow> nat" where
  "race_rank s = timer_rank (g_timer s) + main_rank (g_main s) + of_bool (\<not> g_expired s) + of_bool (g_stream_open s)"

lemma race_decreases: "race a s t \<Longrightarrow> race_rank t < race_rank s"
  by (erule raceE) (auto simp: race_rank_def killed_def)

definition race_over :: "race_state \<Rightarrow> bool" where
  "race_over s = (case g_main s of M_result _ \<Rightarrow> True | _ \<Rightarrow> False)"

text \<open>A thread waits for Docker's answer to its kill.\<close>

definition kill_pending :: "race_state \<Rightarrow> bool" where
  "kill_pending s \<longleftrightarrow> g_timer s = T_killing \<or> g_main s = M_overflow_killing \<or> g_main s = M_finished None"

text \<open>Neither of the two threads can go on by itself.\<close>

definition blocked :: "race_state \<Rightarrow> bool" where
  "blocked s \<longleftrightarrow> (\<forall>t. \<not> race Timer_thread s t \<and> \<not> race Executing_thread s t)"

text \<open>
  The second invariant says what the progress of the threads rests on: the cancellation follows the
  end of the reading, a successful kill has ended the stream, and a timer that is done while the
  executing thread still reads has made its kill.
\<close>

definition progress_inv :: "race_state \<Rightarrow> bool" where
  "progress_inv s \<longleftrightarrow>
     (g_cancelled s \<longleftrightarrow> g_main s \<notin> {M_running, M_overflow_killing, M_stopping})
     \<and> (g_timer s \<noteq> T_waiting \<and> g_main s = M_running \<longrightarrow> g_expired s)
     \<and> (None \<in> set (g_kills s) \<longrightarrow> \<not> g_stream_open s)
     \<and> (g_main s = M_running \<longrightarrow> \<not> wd_finished (g_watchdog s))
     \<and> (g_main s = M_running \<and> g_timer s \<in> {T_waiting, T_called} \<longrightarrow> wd_reason (g_watchdog s) = None)
     \<and> (g_main s = M_running \<and> g_timer s \<noteq> T_done \<longrightarrow> g_kills s = [])
     \<and> (g_main s = M_running \<and> g_timer s = T_done \<longrightarrow> (\<exists>k. g_kills s = [k]))"

lemma progress_inv_step: "progress_inv s \<Longrightarrow> race a s t \<Longrightarrow> progress_inv t"
  by (erule raceE)
    (auto simp: progress_inv_def killed_def terminate_claim_def terminate_kill_def
      split: if_splits option.splits)

lemma race_reachable_progress: "race_reachable s \<Longrightarrow> progress_inv s"
proof (induction rule: race_reachable.induct)
  case race_start
  show ?case by (simp add: progress_inv_def race_init_def new_watchdog_def)
qed (rule progress_inv_step)

lemma blocked_timer:
  assumes "blocked s" and "progress_inv s"
  shows "g_timer s = T_done \<or> g_timer s = T_killing
    \<or> (g_timer s = T_waiting \<and> \<not> g_cancelled s \<and> \<not> g_expired s)"
proof (cases "g_timer s")
  case T_waiting
  then show ?thesis using assms(1) timer_call [of s] timer_skip [of s] by (auto simp: blocked_def)
next
  case T_called
  obtain c w where "terminate_claim Reason_timeout (g_watchdog s) = (c, w)"
    by (cases "terminate_claim Reason_timeout (g_watchdog s)")
  then show ?thesis using assms(1) timer_claim [OF T_called] by (auto simp: blocked_def)
qed simp_all

lemma blocked_main:
  assumes "blocked s"
  shows "(g_main s = M_running \<and> g_stream_open s) \<or> g_main s = M_overflow_killing
    \<or> g_main s = M_finished None \<or> (g_timer s \<noteq> T_done \<and> (\<exists>r e b. g_main s = M_joining r e b)) \<or> race_over s"
proof (cases "g_main s")
  case M_running then show ?thesis using assms main_end [of s] by (auto simp: blocked_def)
next
  case M_stopping then show ?thesis using assms main_cancel [of s] by (auto simp: blocked_def)
next
  case M_cancelled
  obtain r w where "finish (g_watchdog s) = (r, w)" by (cases "finish (g_watchdog s)")
  then show ?thesis using assms main_finish [OF M_cancelled] by (auto simp: blocked_def)
next
  case (M_finished r)
  then show ?thesis using assms main_no_kill [of s] by (cases r) (auto simp: blocked_def)
next
  case (M_joining r e b)
  then show ?thesis using assms main_join [OF M_joining] by (auto simp: blocked_def)
qed (simp_all add: race_over_def)

lemma blocked_cases:
  assumes "race_reachable s" and "blocked s" and "\<not> race_over s" and "\<not> kill_pending s"
  shows "g_main s = M_running \<and> g_stream_open s \<and> (\<not> g_expired s \<or> (\<exists>e. g_kills s = [Some e]))"
proof -
  have p: "progress_inv s" by (rule race_reachable_progress [OF assms(1)])
  have t: "g_timer s = T_done \<or> (g_timer s = T_waiting \<and> \<not> g_cancelled s \<and> \<not> g_expired s)"
    using blocked_timer [OF assms(2) p] assms(4) by (auto simp: kill_pending_def)
  then have m: "g_main s = M_running \<and> g_stream_open s"
    using blocked_main [OF assms(2)] assms(3,4) p by (auto simp: kill_pending_def progress_inv_def)
  moreover have "\<exists>e. g_kills s = [Some e]" if fin: "g_timer s = T_done"
  proof -
    obtain k where "g_kills s = [k]" using p m fin by (auto simp: progress_inv_def)
    then show ?thesis using p m by (cases k) (auto simp: progress_inv_def)
  qed
  ultimately show ?thesis using t by blast
qed

lemma race_result:
  assumes "race_reachable s" and "g_main s = M_result c"
  shows "g_kills s = [cr_error c]" and "cr_container_stopped c = (cr_error c = None)"
    and "cr_reason c = wd_reason (g_watchdog s)"
  using race_reachable_inv [OF assms(1)] assms(2) by (auto simp: race_inv_def main_reason_def)

text \<open>\<open>cleanup_stop\<close> computes the result of the race from the watchdog at \<open>finish\<close>.\<close>

lemma race_result_is_stop:
  assumes "race_reachable s" and "g_main s = M_result c"
  shows "fst (cleanup_stop (hd (g_kills s)) (\<lambda>_. g_watchdog s) (g_watchdog s)) = c"
proof -
  note k = race_result [OF assms]
  have e: "wd_reason (g_watchdog s) \<noteq> None \<Longrightarrow> wd_termination_error (g_watchdog s) = cr_error c"
    using race_reachable_inv [OF assms(1)] k(1) assms(2)
    by (auto simp: race_inv_def main_reason_def)
  show ?thesis
    by (rule SandboxCleanupResult.equality)
      (use e k in \<open>cases "wd_reason (g_watchdog s)"; simp add: cleanup_stop_def finish_def Let_def\<close>)+
qed

subsection \<open>Properties\<close>

text \<open>C6: However the timer thread and the executing thread interleave, an execution that has reached
  the end of its cleanup has killed its container exactly once, reports that kill's error, counts
  the container as stopped exactly when that kill succeeded, and gives the first recorded reason;
  the sequential \<open>cleanup_stop\<close> computes this result.\<close>

theorem watchdog_single_kill:
  assumes "race_reachable s" and "g_main s = M_result c"
  shows "g_kills s = [cr_error c] \<and> cr_container_stopped c = (cr_error c = None)
    \<and> cr_reason c = wd_reason (g_watchdog s)
    \<and> fst (cleanup_stop (hd (g_kills s)) (\<lambda>_. g_watchdog s) (g_watchdog s)) = c"
  using race_result [OF assms] race_result_is_stop [OF assms] by blast

text \<open>A race in which the timer claims the kill while the executing thread is stopping.\<close>

definition sample_race :: race_state where
  "sample_race = race_init\<lparr>g_timer := T_done, g_cancelled := True, g_expired := True, g_stream_open := False,
     g_watchdog := \<lparr>wd_finished = True, wd_reason = Some Reason_timeout, wd_termination_error = None\<rparr>,
     g_kills := [None],
     g_main := M_result \<lparr>cr_reason = Some Reason_timeout, cr_error = None, cr_container_stopped = True\<rparr>\<rparr>"

lemma sample_race_reachable: "race_reachable sample_race"
proof -
  let ?w = "\<lparr>wd_finished = False, wd_reason = Some Reason_timeout, wd_termination_error = None\<rparr>"
  let ?a = "race_init\<lparr>g_expired := True\<rparr>"
  let ?s1 = "?a\<lparr>g_timer := T_called\<rparr>"
  let ?b = "?s1\<lparr>g_stream_open := False\<rparr>"
  let ?s2 = "?b\<lparr>g_main := M_stopping\<rparr>"
  let ?s3 = "?s2\<lparr>g_watchdog := ?w, g_timer := T_killing\<rparr>"
  let ?s4 = "?s3\<lparr>g_cancelled := True, g_main := M_cancelled\<rparr>"
  let ?s5 = "?s4\<lparr>g_watchdog := ?w\<lparr>wd_finished := True\<rparr>, g_main := M_finished (Some Reason_timeout)\<rparr>"
  let ?s6 = "?s5\<lparr>g_watchdog := ?w\<lparr>wd_finished := True\<rparr>, g_timer := T_done, g_kills := [None]\<rparr>"
  let ?s7 = "?s6\<lparr>g_main := M_joining (Some Reason_timeout) None False\<rparr>"
  note init = race_init_def
  have "race Outside race_init ?a" using deadline [of race_init] by (simp add: init)
  moreover have "race Timer_thread ?a ?s1" using timer_call [of ?a] by (simp add: init)
  moreover have "race Outside ?s1 ?b" using stream_ends [of ?s1] by (simp add: init)
  moreover have "race Executing_thread ?b ?s2" using main_end [of ?b] by (simp add: init)
  moreover have "race Timer_thread ?s2 ?s3" using timer_claim [of ?s2 True ?w]
    by (simp add: init terminate_claim_def new_watchdog_def)
  moreover have "race Executing_thread ?s3 ?s4" using main_cancel [of ?s3] by (simp add: init)
  moreover have "race Executing_thread ?s4 ?s5" using main_finish [of ?s4] by (simp add: init finish_def)
  moreover have "race Docker ?s5 ?s6" using timer_kill [of ?s5 None] by (simp add: init terminate_kill_def killed_def)
  moreover have "race Executing_thread ?s6 ?s7" using main_no_kill [of ?s6] by (simp add: init)
  moreover have "race Executing_thread ?s7 sample_race"
    using main_join [of ?s7 "Some Reason_timeout" None False] by (simp add: init sample_race_def)
  ultimately show ?thesis using race_start race_next by meson
qed

theorem watchdog_single_kill_witness:
  "g_kills sample_race = [None] \<and> True = (None = (None :: exn option))
    \<and> Some Reason_timeout = wd_reason (g_watchdog sample_race)"
  using watchdog_single_kill [OF sample_race_reachable,
      of "\<lparr>cr_reason = Some Reason_timeout, cr_error = None, cr_container_stopped = True\<rparr>"]
  by (simp add: sample_race_def)

text \<open>C7: Every execution's race ends, and a command that never ends by itself is ended: every step of
  the two threads, of Docker and of the outside decreases a rank, and the threads can both be
  blocked only when the cleanup has its result, while Docker has not answered a kill, or while the
  command's stream is still open and its deadline has not passed or the kill that the deadline
  caused was answered with an error. In particular the cleanup never waits for the deadline, and
  after the deadline only a kill that fails or is not answered leaves the threads waiting.\<close>

theorem watchdog_race_ends:
  assumes "race_reachable s"
  shows "(\<forall>a t. race a s t \<longrightarrow> race_rank t < race_rank s)
    \<and> (blocked s \<longrightarrow> race_over s \<or> kill_pending s
       \<or> (g_main s = M_running \<and> g_stream_open s
          \<and> (\<not> g_expired s \<or> (\<exists>e. g_kills s = [Some e]))))"
  using race_decreases blocked_cases [OF assms] by blast

theorem watchdog_race_ends_witness:
  "\<exists>t. race Timer_thread (race_init\<lparr>g_expired := True\<rparr>) t \<and> race_rank t < 11"
proof -
  let ?s = "race_init\<lparr>g_expired := True\<rparr>"
  have r: "race_reachable ?s"
    using race_next [OF race_start deadline [of race_init]] by (simp add: race_init_def)
  have "\<not> race_over ?s" "\<not> kill_pending ?s" "g_kills ?s = []" "g_expired ?s" "race_rank ?s = 10"
    "g_stream_open ?s"
    by (simp_all add: race_over_def race_init_def race_rank_def kill_pending_def)
  then have "\<not> blocked ?s" using watchdog_race_ends [OF r] by auto
  moreover have "\<not> race Executing_thread ?s t" for t
  proof
    assume "race Executing_thread ?s t"
    then show False by (cases rule: race.cases) (simp_all add: race_init_def)
  qed
  ultimately obtain t where t: "race Timer_thread ?s t" unfolding blocked_def by blast
  then have "race_rank t < 10" using watchdog_race_ends [OF r] \<open>race_rank ?s = 10\<close> by metis
  then show ?thesis using t by (intro exI [of _ t]) simp
qed

end
