(* ===== verification/Sandbox_Output.thy ===== *)
theory Sandbox_Output
  imports Watchdog
begin

section \<open>Bounded capture of a sandbox's output\<close>

text \<open>
  \<open>soj_runner/sandbox_limits.py\<close> and \<open>SandboxOutputCapturer\<close> of \<open>soj_runner/sandbox_executor.py\<close>.
  Both byte buffers offer the same interface, the locale \<open>bounded_sink\<close>: the facts about feeding
  chunks until one does not fit are proved there once. What Docker answers (created exec,
  stream of chunks, exceptions at any point, exit code) is the argument of the functions.
\<close>

subsection \<open>The interface of a bounded buffer\<close>

text \<open>The loop \<open>for chunk in chunks: if not buffer.append(chunk): stop\<close>.\<close>

fun feed :: "('b \<Rightarrow> 'c \<Rightarrow> 'b \<times> bool) \<Rightarrow> 'b \<Rightarrow> 'c list \<Rightarrow> 'b \<times> bool" where
  "feed push b [] = (b, True)"
| "feed push b (c # cs) = (let (b', ok) = push b c in if ok then feed push b' cs else (b', False))"

locale bounded_sink =
  fixes push :: "'b \<Rightarrow> 'c \<Rightarrow> 'b \<times> bool"
    and valid :: "'b \<Rightarrow> bool"
    and used :: "'b \<Rightarrow> nat"
    and cap :: "'b \<Rightarrow> nat"
    and weight :: "'c \<Rightarrow> nat"
  assumes valid_used: "valid b \<Longrightarrow> used b \<le> cap b"
    and push_valid: "valid b \<Longrightarrow> valid (fst (push b c))"
    and push_cap: "cap (fst (push b c)) = cap b"
    and push_ok: "valid b \<Longrightarrow> snd (push b c) \<longleftrightarrow> used b + weight c \<le> cap b"
    and push_used: "valid b \<Longrightarrow> used (fst (push b c)) = min (cap b) (used b + weight c)"
begin

lemma feed_bounded:
  assumes "valid b"
  shows "valid (fst (feed push b cs)) \<and> cap (fst (feed push b cs)) = cap b
    \<and> used (fst (feed push b cs)) = min (cap b) (used b + sum_list (map weight cs))
    \<and> (snd (feed push b cs) \<longleftrightarrow> used b + sum_list (map weight cs) \<le> cap b)"
  using assms
proof (induction cs arbitrary: b)
  case Nil
  then show ?case using valid_used [of b] by simp
next
  case (Cons c cs)
  obtain b' ok where p: "push b c = (b', ok)" by (cases "push b c")
  have v: "valid b'" using push_valid [OF Cons.prems, of c] p by simp
  have "cap b' = cap b" using push_cap [of b c] p by simp
  moreover have "ok \<longleftrightarrow> used b + weight c \<le> cap b" using push_ok [OF Cons.prems, of c] p by simp
  moreover have "used b' = min (cap b) (used b + weight c)"
    using push_used [OF Cons.prems, of c] p by simp
  ultimately show ?case using Cons.IH [OF v] v p by auto
qed

lemma feed_used_le: "valid b \<Longrightarrow> used (fst (feed push b cs)) \<le> cap b"
  using feed_bounded [of b cs] by simp

end

subsection \<open>BoundedByteBuffer\<close>

record BoundedByteBuffer =
  bb_limit :: int
  bb_data :: bytes
  bb_truncated :: bool

definition new_BoundedByteBuffer :: "int \<Rightarrow> value_error + BoundedByteBuffer" where
  "new_BoundedByteBuffer byte_limit =
     (if byte_limit < 1 then Inl (ValueError ''byte_limit must be at least 1'')
      else Inr \<lparr>bb_limit = byte_limit, bb_data = [], bb_truncated = False\<rparr>)"

definition bb_append :: "BoundedByteBuffer \<Rightarrow> bytes \<Rightarrow> BoundedByteBuffer \<times> bool" where
  "bb_append b chunk =
     (let remaining = bb_limit b - int (length (bb_data b)) in
      if int (length chunk) > remaining
      then (b\<lparr>bb_data := bb_data b @ slice_to remaining chunk, bb_truncated := True\<rparr>, False)
      else (b\<lparr>bb_data := bb_data b @ chunk\<rparr>, True))"

definition bb_valid :: "BoundedByteBuffer \<Rightarrow> bool" where
  "bb_valid b \<longleftrightarrow> int (length (bb_data b)) \<le> bb_limit b"

interpretation byte_sink: bounded_sink bb_append bb_valid "\<lambda>b. length (bb_data b)" "\<lambda>b. nat (bb_limit b)" length
  by unfold_locales (auto simp: bb_append_def bb_valid_def Let_def length_slice_to_nonneg min_def)

subsection \<open>The buffer of the two output streams\<close>

record SplitOutputBuffer =
  sb_limit :: int
  sb_stdout :: bytes
  sb_stderr :: bytes
  sb_truncated :: bool

definition new_SplitOutputBuffer :: "int \<Rightarrow> value_error + SplitOutputBuffer" where
  "new_SplitOutputBuffer byte_limit =
     (if byte_limit < 1 then Inl (ValueError ''byte_limit must be at least 1'')
      else Inr \<lparr>sb_limit = byte_limit, sb_stdout = [], sb_stderr = [], sb_truncated = False\<rparr>)"

definition sb_extend :: "bool \<Rightarrow> bytes \<Rightarrow> SplitOutputBuffer \<Rightarrow> SplitOutputBuffer" where
  "sb_extend stderr chunk b =
     (if stderr then b\<lparr>sb_stderr := sb_stderr b @ chunk\<rparr> else b\<lparr>sb_stdout := sb_stdout b @ chunk\<rparr>)"

definition sb_append :: "bool \<Rightarrow> SplitOutputBuffer \<Rightarrow> bytes \<Rightarrow> SplitOutputBuffer \<times> bool" where
  "sb_append stderr b chunk =
     (let remaining = sb_limit b - int (length (sb_stdout b)) - int (length (sb_stderr b)) in
      if int (length chunk) > remaining
      then ((sb_extend stderr (slice_to remaining chunk) b)\<lparr>sb_truncated := True\<rparr>, False)
      else (sb_extend stderr chunk b, True))"

definition sb_used :: "SplitOutputBuffer \<Rightarrow> nat" where
  "sb_used b = length (sb_stdout b) + length (sb_stderr b)"

definition sb_push :: "SplitOutputBuffer \<Rightarrow> bool \<times> bytes \<Rightarrow> SplitOutputBuffer \<times> bool" where
  "sb_push b c = sb_append (fst c) b (snd c)"

definition sb_valid :: "SplitOutputBuffer \<Rightarrow> bool" where
  "sb_valid b \<longleftrightarrow> int (sb_used b) \<le> sb_limit b"

interpretation split_sink: bounded_sink sb_push sb_valid sb_used "\<lambda>b. nat (sb_limit b)" "\<lambda>c. length (snd c)"
  by unfold_locales
    (auto simp: sb_push_def sb_append_def sb_extend_def sb_used_def sb_valid_def Let_def
      length_slice_to_nonneg min_def)

text \<open>The bytes of one stream in a sequence of tagged chunks.\<close>

definition stream_bytes :: "bool \<Rightarrow> (bool \<times> bytes) list \<Rightarrow> bytes" where
  "stream_bytes stderr cs = concat (map snd (filter (\<lambda>c. fst c = stderr) cs))"

lemma stream_bytes_simps [simp]:
  "stream_bytes d [] = []"
  "stream_bytes d (c # cs) = (if fst c = d then snd c @ stream_bytes d cs else stream_bytes d cs)"
  by (simp_all add: stream_bytes_def)

lemma feed_split_prefix:
  assumes "sb_valid b"
  shows "\<exists>k m. sb_stdout (fst (feed sb_push b cs)) = sb_stdout b @ take k (stream_bytes False cs)
    \<and> sb_stderr (fst (feed sb_push b cs)) = sb_stderr b @ take m (stream_bytes True cs)
    \<and> (snd (feed sb_push b cs) \<longrightarrow> length (stream_bytes False cs) \<le> k \<and> length (stream_bytes True cs) \<le> m)"
  using assms
proof (induction cs arbitrary: b)
  case (Cons c cs)
  obtain d x where c: "c = (d, x)" by (cases c)
  obtain b' ok where p: "sb_push b c = (b', ok)" by (cases "sb_push b c")
  show ?case
  proof (cases ok)
    case True
    have b': "b' = sb_extend d x b" using p True c by (auto simp: sb_push_def sb_append_def Let_def split: if_splits)
    have "sb_valid b'" using split_sink.push_valid [OF Cons.prems, of c] p by simp
    from Cons.IH [OF this] obtain k m where
      km: "sb_stdout (fst (feed sb_push b' cs)) = sb_stdout b' @ take k (stream_bytes False cs)"
      "sb_stderr (fst (feed sb_push b' cs)) = sb_stderr b' @ take m (stream_bytes True cs)"
      "snd (feed sb_push b' cs) \<longrightarrow> length (stream_bytes False cs) \<le> k \<and> length (stream_bytes True cs) \<le> m"
      by blast
    show ?thesis
      by (rule exI [of _ "if d then k else length x + k"], rule exI [of _ "if d then length x + m else m"])
        (use km p True b' c in \<open>auto simp: sb_extend_def\<close>)
  next
    case False
    let ?n = "nat (sb_limit b - int (length (sb_stdout b)) - int (length (sb_stderr b)))"
    have "0 \<le> sb_limit b - int (length (sb_stdout b)) - int (length (sb_stderr b))
        \<and> int (length x) > sb_limit b - int (length (sb_stdout b)) - int (length (sb_stderr b))"
      using Cons.prems p False c by (auto simp: sb_used_def sb_valid_def sb_push_def sb_append_def Let_def split: if_splits)
    then have b': "b' = (sb_extend d (take ?n x) b)\<lparr>sb_truncated := True\<rparr>" "?n \<le> length x"
      using p c by (auto simp: sb_push_def sb_append_def slice_to_def Let_def)
    show ?thesis
      by (rule exI [of _ "if d then 0 else ?n"], rule exI [of _ "if d then ?n else 0"])
        (use p False b' c in \<open>auto simp: sb_extend_def\<close>)
  qed
qed simp

lemma feed_split_truncated:
  "sb_truncated (fst (feed sb_push b cs)) = (sb_truncated b \<or> \<not> snd (feed sb_push b cs))"
proof (induction cs arbitrary: b)
  case (Cons c cs)
  obtain b' ok where p: "sb_push b c = (b', ok)" by (cases "sb_push b c")
  then have "sb_truncated b' = (sb_truncated b \<or> \<not> ok)"
    by (auto simp: sb_push_def sb_append_def sb_extend_def Let_def split: if_splits)
  then show ?case using Cons.IH [of b'] p by auto
qed simp

subsection \<open>DockerExecAdapter\<close>

text \<open>
  The answers of the Docker API for one exec: the value of \<open>exec_create\<close>, the demultiplexed
  stream of \<open>exec_start\<close> (its items, the exception that ends it if any, the exception of its
  \<open>close\<close> if any) and the \<open>ExitCode\<close> entry of \<open>exec_inspect\<close>.
\<close>

record exec_stream =
  xs_items :: "(bytes option \<times> bytes option) list"
  xs_raise :: "exn option"
  xs_close :: "exn option"

record exec_api =
  xa_create :: "exn + pyval"
  xa_start :: "exn + exec_stream"
  xa_exit_code :: "exn + pyval"

definition exec_start :: "exec_api \<Rightarrow> exn + pystr \<times> exec_stream" where
  "exec_start api =
     rbind (xa_create api) (\<lambda>created.
     case (case created of PDict kvs \<Rightarrow> map_of kvs (lit ''Id'') | _ \<Rightarrow> None) of
       Some (PStr exec_id) \<Rightarrow>
         (if exec_id = [] then Inl (lit ''Docker exec ID is unavailable'')
          else rbind (xa_start api) (\<lambda>output. Inr (exec_id, output)))
     | _ \<Rightarrow> Inl (lit ''Docker exec ID is unavailable''))"

definition inspect_exit_code :: "exec_api \<Rightarrow> exn + int option" where
  "inspect_exit_code api =
     rbind (xa_exit_code api) (\<lambda>v. case v of
       PNone \<Rightarrow> Inr None
     | PInt code \<Rightarrow> Inr (Some code)
     | _ \<Rightarrow> Inl (lit ''Docker exec exit code is invalid''))"

subsection \<open>Capture of the command's output\<close>

record CapturedCommandOutput =
  cc_stdout :: bytes
  cc_stderr :: bytes
  cc_exit_code :: "int option"
  cc_truncated :: bool
  cc_error :: "exn option"

definition no_output :: CapturedCommandOutput where
  "no_output = \<lparr>cc_stdout = [], cc_stderr = [], cc_exit_code = None, cc_truncated = False, cc_error = None\<rparr>"

definition MAX_UTF8_BYTES_PER_CHAR :: int where "MAX_UTF8_BYTES_PER_CHAR = 4"

text \<open>\<open>chunk and not output.append(chunk)\<close>: an absent or empty chunk is not appended.\<close>

definition put_chunk :: "bool \<Rightarrow> SplitOutputBuffer \<Rightarrow> bytes option \<Rightarrow> SplitOutputBuffer \<times> bool" where
  "put_chunk stderr b chunk =
     (case chunk of None \<Rightarrow> (b, True) | Some x \<Rightarrow> if x = [] then (b, True) else sb_append stderr b x)"

fun consume :: "SplitOutputBuffer \<Rightarrow> (bytes option \<times> bytes option) list \<Rightarrow> SplitOutputBuffer \<times> bool" where
  "consume b [] = (b, True)"
| "consume b ((out, err) # items) =
     (let (b1, ok1) = put_chunk False b out in
      if \<not> ok1 then (b1, False)
      else (let (b2, ok2) = put_chunk True b1 err in
            if \<not> ok2 then (b2, False) else consume b2 items))"

definition or_else :: "'a option \<Rightarrow> 'a option \<Rightarrow> 'a option" where
  "or_else a b = (if a = None then b else a)"

text \<open>
  \<open>timer\<close> is what the timer thread does to the watchdog while the command runs, \<open>kill_reply\<close>
  answers the kill of an output overflow.
\<close>

definition capture_command_output ::
  "exec_api \<Rightarrow> (watchdog \<Rightarrow> watchdog) \<Rightarrow> exn option \<Rightarrow> int \<Rightarrow> watchdog \<Rightarrow>
     exn + CapturedCommandOutput \<times> watchdog" where
  "capture_command_output api timer kill_reply limit_chars w =
     (case new_SplitOutputBuffer (limit_chars * MAX_UTF8_BYTES_PER_CHAR) of
        Inl (ValueError m) \<Rightarrow> Inl (lit m)
      | Inr output \<Rightarrow>
          if wd_reason w \<noteq> None then Inr (no_output, w)
          else (case exec_start api of
            Inl e \<Rightarrow> Inr (no_output\<lparr>cc_error := Some e\<rparr>, timer w)
          | Inr (exec_id, stream) \<Rightarrow>
              (let w1 = timer w;
                   (output', kept) = consume output (xs_items stream);
                   w2 = (if kept then w1 else snd (terminate Reason_output_limit kill_reply w1));
                   error = or_else (if kept then xs_raise stream else None) (xs_close stream);
                   (exit_code, error) =
                     (case inspect_exit_code api of
                        Inl e \<Rightarrow> (None, or_else error (Some e))
                      | Inr code \<Rightarrow> (code, error))
               in Inr (\<lparr>cc_stdout = sb_stdout output', cc_stderr = sb_stderr output',
                        cc_exit_code = exit_code, cc_truncated = sb_truncated output',
                        cc_error = error\<rparr>, w2))))"

definition demux :: "(bytes option \<times> bytes option) list \<Rightarrow> (bool \<times> bytes) list" where
  "demux items = concat (map (\<lambda>(out, err).
     map (Pair False) (filter (\<lambda>x. x \<noteq> []) (opt_items out)) @
     map (Pair True) (filter (\<lambda>x. x \<noteq> []) (opt_items err))) items)"

lemma demux_simps [simp]:
  "demux [] = []"
  "demux ((out, err) # items) = map (Pair False) (filter (\<lambda>x. x \<noteq> []) (opt_items out)) @
     map (Pair True) (filter (\<lambda>x. x \<noteq> []) (opt_items err)) @ demux items"
  by (simp_all add: demux_def)

lemma feed_append:
  "feed push b (cs @ ds) = (let (b', ok) = feed push b cs in if ok then feed push b' ds else (b', False))"
  by (induction cs arbitrary: b) (auto split: prod.splits)

lemma put_chunk_feed:
  "put_chunk d b x = feed sb_push b (map (Pair d) (filter (\<lambda>x. x \<noteq> []) (opt_items x)))"
  by (cases x) (auto simp: put_chunk_def sb_push_def split: prod.splits)

lemma consume_feed: "consume b items = feed sb_push b (demux items)"
  by (induction b items rule: consume.induct)
    (auto simp: put_chunk_feed feed_append simp del: feed.simps(2) split: prod.splits)

lemma consume_bound:
  assumes "sb_valid b"
  shows "sb_used (fst (consume b items)) \<le> nat (sb_limit b)"
  unfolding consume_feed by (rule split_sink.feed_used_le [OF assms])

text \<open>What the program under test printed, per stream.\<close>

definition printed :: "bool \<Rightarrow> exec_stream \<Rightarrow> bytes" where
  "printed stderr st = stream_bytes stderr (demux (xs_items st))"

lemma demux_weight:
  "sum_list (map (\<lambda>c. length (snd c)) (demux items)) =
     length (stream_bytes False (demux items)) + length (stream_bytes True (demux items))"
proof -
  have "sum_list (map (\<lambda>c. length (snd c)) cs) = length (stream_bytes False cs) + length (stream_bytes True cs)"
    for cs :: "(bool \<times> bytes) list"
    by (induction cs) auto
  then show ?thesis .
qed

lemma consume_new:
  assumes "0 \<le> n"
  defines "b \<equiv> \<lparr>sb_limit = n, sb_stdout = [], sb_stderr = [], sb_truncated = False\<rparr>"
  shows "snd (consume b items) \<longleftrightarrow>
      int (length (stream_bytes False (demux items)) + length (stream_bytes True (demux items))) \<le> n"
    and "sb_truncated (fst (consume b items)) = (\<not> snd (consume b items))"
    and "int (sb_used (fst (consume b items))) \<le> n"
    and "\<exists>k m. sb_stdout (fst (consume b items)) = take k (stream_bytes False (demux items))
      \<and> sb_stderr (fst (consume b items)) = take m (stream_bytes True (demux items))"
    and "snd (consume b items) \<Longrightarrow> sb_stdout (fst (consume b items)) = stream_bytes False (demux items)
      \<and> sb_stderr (fst (consume b items)) = stream_bytes True (demux items)"
proof -
  have v: "sb_valid b" using assms by (simp add: b_def sb_valid_def sb_used_def)
  have u: "sb_used b = 0" "sb_limit b = n" "sb_stdout b = []" "sb_stderr b = []" "\<not> sb_truncated b"
    by (simp_all add: b_def sb_used_def)
  note f = split_sink.feed_bounded [OF v, of "demux items"]
  show "snd (consume b items) \<longleftrightarrow>
      int (length (stream_bytes False (demux items)) + length (stream_bytes True (demux items))) \<le> n"
    using f u assms(1) by (simp add: consume_feed demux_weight) linarith
  show "sb_truncated (fst (consume b items)) = (\<not> snd (consume b items))"
    using u by (simp add: consume_feed feed_split_truncated)
  show "int (sb_used (fst (consume b items))) \<le> n"
    using consume_bound [OF v, of items] u assms(1) by simp
  from feed_split_prefix [OF v, of "demux items"] u
  obtain k m where km: "sb_stdout (fst (consume b items)) = take k (stream_bytes False (demux items))"
    "sb_stderr (fst (consume b items)) = take m (stream_bytes True (demux items))"
    "snd (consume b items) \<longrightarrow>
      length (stream_bytes False (demux items)) \<le> k \<and> length (stream_bytes True (demux items)) \<le> m"
    unfolding consume_feed by auto
  then show "\<exists>k m. sb_stdout (fst (consume b items)) = take k (stream_bytes False (demux items))
      \<and> sb_stderr (fst (consume b items)) = take m (stream_bytes True (demux items))" by blast
  show "snd (consume b items) \<Longrightarrow> sb_stdout (fst (consume b items)) = stream_bytes False (demux items)
      \<and> sb_stderr (fst (consume b items)) = stream_bytes True (demux items)"
    using km by simp
qed

lemma or_else_simps [simp]:
  "or_else None b = b" "or_else (Some x) b = Some x"
  "or_else a b = None \<longleftrightarrow> a = None \<and> b = None" "\<exists>y. or_else a (Some e) = Some y"
  by (auto simp: or_else_def)

definition overflows :: "int \<Rightarrow> exec_stream \<Rightarrow> bool" where
  "overflows limit_chars st \<longleftrightarrow>
     int (length (printed False st) + length (printed True st)) > limit_chars * 4"

lemma capture_skipped:
  "1 \<le> limit \<Longrightarrow> wd_reason w \<noteq> None \<Longrightarrow>
     capture_command_output api timer reply limit w = Inr (no_output, w)"
  by (simp add: capture_command_output_def new_SplitOutputBuffer_def MAX_UTF8_BYTES_PER_CHAR_def)

lemma capture_not_started:
  "1 \<le> limit \<Longrightarrow> wd_reason w = None \<Longrightarrow> exec_start api = Inl e \<Longrightarrow>
     capture_command_output api timer reply limit w = Inr (no_output\<lparr>cc_error := Some e\<rparr>, timer w)"
  by (simp add: capture_command_output_def new_SplitOutputBuffer_def MAX_UTF8_BYTES_PER_CHAR_def)

lemma capture_started:
  assumes "1 \<le> limit" and "wd_reason w = None" and "exec_start api = Inr (exec_id, st)"
  shows "\<exists>out. capture_command_output api timer reply limit w =
      Inr (out, if overflows limit st then snd (terminate Reason_output_limit reply (timer w)) else timer w)
    \<and> cc_truncated out = overflows limit st
    \<and> int (length (cc_stdout out) + length (cc_stderr out)) \<le> limit * 4
    \<and> prefix (cc_stdout out) (printed False st) \<and> prefix (cc_stderr out) (printed True st)
    \<and> (\<not> overflows limit st \<longrightarrow> cc_stdout out = printed False st \<and> cc_stderr out = printed True st)
    \<and> (cc_error out = None \<longleftrightarrow> (overflows limit st \<or> xs_raise st = None) \<and> xs_close st = None
          \<and> is_ok (inspect_exit_code api))
    \<and> (\<forall>c. inspect_exit_code api = Inr c \<longrightarrow> cc_exit_code out = c)"
proof -
  let ?b = "\<lparr>sb_limit = limit * 4, sb_stdout = [], sb_stderr = [], sb_truncated = False\<rparr>"
  obtain b' kept where c: "consume ?b (xs_items st) = (b', kept)" by (cases "consume ?b (xs_items st)")
  have "0 \<le> limit * 4" using assms(1) by simp
  note n = consume_new [OF this, of "xs_items st", unfolded c]
  have kept: "kept \<longleftrightarrow> \<not> overflows limit st"
    using n(1) by (auto simp: overflows_def printed_def)
  have out: "new_SplitOutputBuffer (limit * MAX_UTF8_BYTES_PER_CHAR) = Inr ?b"
    using assms(1) by (simp add: new_SplitOutputBuffer_def MAX_UTF8_BYTES_PER_CHAR_def)
  have pre: "prefix (sb_stdout b') (printed False st) \<and> prefix (sb_stderr b') (printed True st)"
    using n(4) by (auto simp: printed_def take_is_prefix)
  have full: "\<not> overflows limit st \<Longrightarrow> sb_stdout b' = printed False st \<and> sb_stderr b' = printed True st"
    using n(5) kept by (simp add: printed_def)
  show ?thesis
  proof (cases "inspect_exit_code api")
    case (Inl e)
    then show ?thesis
      unfolding capture_command_output_def out using assms(2,3) c kept n(2,3) pre full
      by (auto simp: sb_used_def)
  next
    case (Inr code)
    then show ?thesis
      unfolding capture_command_output_def out using assms(2,3) c kept n(2,3) pre full
      by (auto simp: sb_used_def)
  qed
qed

subsection \<open>Capture of binary artifacts\<close>

text \<open>
  The answer of \<open>exec_run\<close> for \<open>head\<close> or \<open>dd\<close>: an exception, all the bytes at once, or a stream of
  chunks that may end in an exception.
\<close>

datatype artifact_output = Whole bytes | Chunks "bytes list" "exn option"

definition chunks_of :: "artifact_output \<Rightarrow> bytes list" where
  "chunks_of a = (case a of Whole b \<Rightarrow> [b] | Chunks cs _ \<Rightarrow> cs)"

definition raise_of :: "artifact_output \<Rightarrow> exn option" where
  "raise_of a = (case a of Whole _ \<Rightarrow> None | Chunks _ r \<Rightarrow> r)"

definition read_bounded :: "exn + artifact_output \<Rightarrow> int \<Rightarrow> BoundedByteBuffer \<Rightarrow> bytes option" where
  "read_bounded reply max_bytes buffer =
     (case reply of
        Inl _ \<Rightarrow> None
      | Inr stream \<Rightarrow>
          (let (buffer', kept) = feed bb_append buffer (filter (\<lambda>c. c \<noteq> []) (chunks_of stream)) in
           if \<not> kept \<or> raise_of stream \<noteq> None then None
           else (let payload = bb_data buffer' in
                 if payload = [] \<or> int (length payload) > max_bytes then None else Some payload)))"

definition capture_artifact :: "exn + artifact_output \<Rightarrow> int \<Rightarrow> exn + bytes option" where
  "capture_artifact reply max_bytes =
     (case new_BoundedByteBuffer (max_bytes + 1) of
        Inl (ValueError m) \<Rightarrow> Inl (lit m)
      | Inr buffer \<Rightarrow> Inr (read_bounded reply max_bytes buffer))"

definition capture_display_artifact :: "exn + artifact_output \<Rightarrow> int \<Rightarrow> exn + bytes option" where
  "capture_display_artifact reply max_bytes =
     (if max_bytes \<le> 0 then Inr None
      else (case new_BoundedByteBuffer (max_bytes + 1) of
        Inl (ValueError m) \<Rightarrow> Inl (lit m)
      | Inr buffer \<Rightarrow> Inr (read_bounded reply max_bytes buffer)))"

lemma feed_bb_data:
  "snd (feed bb_append b cs) \<Longrightarrow> bb_data (fst (feed bb_append b cs)) = bb_data b @ concat cs"
proof (induction cs arbitrary: b)
  case (Cons c cs)
  then show ?case by (auto simp: bb_append_def Let_def split: if_splits)
qed simp

lemma read_bounded_iff:
  assumes "0 \<le> max_bytes"
  defines "buf \<equiv> \<lparr>bb_limit = max_bytes + 1, bb_data = [], bb_truncated = False\<rparr>"
  shows "read_bounded reply max_bytes buf = Some p \<longleftrightarrow>
    (\<exists>st. reply = Inr st \<and> raise_of st = None \<and> p = concat (chunks_of st) \<and> p \<noteq> []
       \<and> int (length p) \<le> max_bytes)"
proof (cases reply)
  case (Inr st)
  have v: "bb_valid buf" using assms by (simp add: bb_valid_def buf_def)
  let ?cs = "filter (\<lambda>c. c \<noteq> []) (chunks_of st)"
  obtain b' k where f: "feed bb_append buf ?cs = (b', k)" by (cases "feed bb_append buf ?cs")
  have "concat (filter (\<lambda>c. c \<noteq> []) cs) = concat cs" for cs :: "bytes list"
    by (induction cs) auto
  then have cat: "concat ?cs = concat (chunks_of st)" .
  have len: "sum_list (map length ?cs) = length (concat (chunks_of st))"
    by (simp add: cat flip: length_concat)
  have k: "k \<longleftrightarrow> int (length (concat (chunks_of st))) \<le> max_bytes + 1"
    using byte_sink.feed_bounded [OF v, of ?cs] f len assms by (auto simp: buf_def)
  have d: "k \<Longrightarrow> bb_data b' = concat (chunks_of st)"
    using feed_bb_data [of buf ?cs] f cat by (simp add: buf_def)
  show ?thesis unfolding read_bounded_def using Inr f k d
    by (auto simp: Let_def simp del: concat_eq_Nil_conv split: if_splits)
qed (simp add: read_bounded_def)

lemma capture_artifact_iff:
  assumes "0 \<le> max_bytes"
  shows "capture_artifact reply max_bytes = Inr (Some p) \<longleftrightarrow>
    (\<exists>st. reply = Inr st \<and> raise_of st = None \<and> p = concat (chunks_of st) \<and> p \<noteq> []
       \<and> int (length p) \<le> max_bytes)"
  using read_bounded_iff [OF assms, of reply p] assms
  by (simp add: capture_artifact_def new_BoundedByteBuffer_def)

lemma capture_artifact_total: "0 \<le> max_bytes \<Longrightarrow> \<exists>r. capture_artifact reply max_bytes = Inr r"
  by (simp add: capture_artifact_def new_BoundedByteBuffer_def)

lemma capture_display_total: "\<exists>r. capture_display_artifact reply max_bytes = Inr r"
  by (simp add: capture_display_artifact_def new_BoundedByteBuffer_def)

lemma capture_display_iff:
  "capture_display_artifact reply max_bytes = Inr (Some p) \<longleftrightarrow>
    (\<exists>st. reply = Inr st \<and> raise_of st = None \<and> p = concat (chunks_of st) \<and> p \<noteq> []
       \<and> int (length p) \<le> max_bytes)"
proof (cases "max_bytes \<le> 0")
  case True
  then have "p \<noteq> [] \<Longrightarrow> \<not> int (length p) \<le> max_bytes" by (cases p) auto
  moreover from True have "capture_display_artifact reply max_bytes = Inr None"
    by (simp add: capture_display_artifact_def)
  ultimately show ?thesis by (simp only: sum.inject option.distinct) blast
next
  case False
  then show ?thesis
    using read_bounded_iff [of max_bytes reply p]
    by (simp add: capture_display_artifact_def new_BoundedByteBuffer_def)
qed

subsection \<open>Properties\<close>

text \<open>C8: What the capture of a started command keeps: both streams are prefixes of what was printed,
  together they never exceed four bytes per allowed character, output is reported as truncated exactly
  when it does not fit, and output that fits is kept whole; an overflow claims the watchdog.\<close>

theorem capture_is_bounded_prefix:
  assumes "1 \<le> limit" and "wd_reason w = None" and "exec_start api = Inr (exec_id, st)"
  shows "\<exists>out w'. capture_command_output api timer reply limit w = Inr (out, w')
    \<and> prefix (cc_stdout out) (printed False st) \<and> prefix (cc_stderr out) (printed True st)
    \<and> int (length (cc_stdout out) + length (cc_stderr out)) \<le> limit * 4
    \<and> (cc_truncated out \<longleftrightarrow> int (length (printed False st) + length (printed True st)) > limit * 4)
    \<and> (\<not> cc_truncated out \<longrightarrow> cc_stdout out = printed False st \<and> cc_stderr out = printed True st)
    \<and> w' = (if cc_truncated out then snd (terminate Reason_output_limit reply (timer w)) else timer w)"
  using capture_started [OF assms, of timer reply] unfolding overflows_def by (elim exE) auto

theorem capture_is_bounded_prefix_witness:
  "\<exists>out w'. capture_command_output
      \<lparr>xa_create = Inr (PDict [(lit ''Id'', PStr [101])]),
       xa_start = Inr \<lparr>xs_items = [(Some [1, 2, 3], Some [4]), (None, Some [5, 6])], xs_raise = None, xs_close = None\<rparr>,
       xa_exit_code = Inr PNone\<rparr> id None 1 new_watchdog = Inr (out, w')
    \<and> cc_truncated out \<and> int (length (cc_stdout out) + length (cc_stderr out)) \<le> 4"
proof -
  let ?st = "\<lparr>xs_items = [(Some [1, 2, 3], Some [4]), (None, Some [5, 6])], xs_raise = None, xs_close = None\<rparr>"
  let ?api = "\<lparr>xa_create = Inr (PDict [(lit ''Id'', PStr [101])]), xa_start = Inr ?st, xa_exit_code = Inr PNone\<rparr>"
  have "exec_start ?api = Inr ([101], ?st)" by (simp add: exec_start_def)
  from capture_is_bounded_prefix [OF _ _ this, of 1 new_watchdog id None] show ?thesis
    by (auto simp: new_watchdog_def printed_def)
qed

text \<open>The display artifact is the whole content of the stream or nothing: bytes are returned exactly
  when the stream ended without an exception, is not empty and fits the remaining budget.\<close>

theorem display_artifact_all_or_nothing:
  "capture_display_artifact reply max_bytes = Inr (Some p) \<longleftrightarrow>
    (\<exists>st. reply = Inr st \<and> raise_of st = None \<and> p = concat (chunks_of st) \<and> p \<noteq> []
       \<and> int (length p) \<le> max_bytes)"
  by (rule capture_display_iff)

end
