(* ===== verification/Repository.thy ===== *)
theory Repository
  imports Problem "HOL-Library.AList" "HOL-Library.Multiset"
begin

section \<open>The problem repository\<close>

text \<open>
  \<open>soj_shared/problem_repository.py\<close> and \<open>problem_catalog.py\<close>: the records of the problem data,
  the checks made when it is loaded, its revision and catalog, and the published global value.
  The directory listing with the contents of the files is an argument; YAML and JSON parsing,
  \<open>json.dumps\<close>, \<open>model_dump\<close> and SHA-256 are function parameters.
\<close>

record ProblemRecord =
  pr_definition :: ProblemDefinitionV3
  pr_answer_image :: bytes
  pr_answer_image_base64 :: pystr

definition record_fixtures :: "ProblemRecord \<Rightarrow> (pystr \<times> pystr) list" where
  "record_fixtures r =
     map (\<lambda>f. (fx_path f, fx_content f)) (es_fixtures (pd_execution (pr_definition r)))"

definition input_text :: "ProblemRecord \<Rightarrow> pystr" where
  "input_text r =
     (case find (\<lambda>(path, _). path = lit ''input.txt'') (record_fixtures r) of
        None \<Rightarrow> [] | Some (_, content) \<Rightarrow> content)"

definition record_expected_output :: "ProblemRecord \<Rightarrow> pystr" where
  "record_expected_output r =
     (case pd_judge (pr_definition r) of TextJudge e \<Rightarrow> e | ImageJudge _ \<Rightarrow> [])"

definition api_detail :: "ProblemRecord \<Rightarrow> (pystr \<times> pystr) list" where
  "api_detail r =
     (let d = pr_definition r in
      [(lit ''title_ja'', lt_ja (pd_title d)), (lit ''title_en'', lt_en (pd_title d)),
       (lit ''statement_ja'', lt_ja (pd_statement d)), (lit ''statement_en'', lt_en (pd_statement d)),
       (lit ''input'', input_text r), (lit ''expected_output'', record_expected_output r),
       (lit ''answer'', pd_reference_solution d),
       (lit ''image'', lit ''/image/'' @ pd_id d @ lit ''.jpg'')])"

subsection \<open>Catalog\<close>

record ProblemCatalog =
  pc_response_body :: bytes
  pc_etag :: pystr
  pc_problem_count :: nat

definition problem_summary :: "ProblemDefinitionV3 \<Rightarrow> pyval" where
  "problem_summary d = PDict
     [(lit ''id'', PStr (pd_id d)), (lit ''category'', PStr (category_text (pd_category d))),
      (lit ''title_ja'', PStr (lt_ja (pd_title d))), (lit ''title_en'', PStr (lt_en (pd_title d)))]"

definition build_problem_catalog ::
  "(pyval \<Rightarrow> bytes) \<Rightarrow> (bytes \<Rightarrow> pystr) \<Rightarrow> ProblemDefinitionV3 list \<Rightarrow> value_error + ProblemCatalog" where
  "build_problem_catalog json_dumps sha256 definitions =
     (let summaries = map problem_summary (sort_key pd_id definitions) in
      if summaries = [] then Inl (ValueError ''problem catalog must not be empty'')
      else (let response_body = json_dumps (PList summaries) in
        Inr \<lparr>pc_response_body = response_body, pc_etag = [34] @ sha256 response_body @ [34],
             pc_problem_count = length summaries\<rparr>))"

subsection \<open>Loading\<close>

datatype repository_error = ProblemRepositoryError string | RepositoryValidationError

text \<open>
  The problem data on disk: for each definition file its stem and the outcome of reading, parsing
  and validating it; for each image its stem and its bytes (\<open>None\<close> when it cannot be read).
\<close>

record problem_files =
  pf_definitions :: "(pystr \<times> (value_error + ProblemDefinitionV3)) list"
  pf_jpg :: "(pystr \<times> bytes option) list"
  pf_gif :: "(pystr \<times> bytes option) list"
  pf_manifest :: "bytes option"

definition reject_duplicate_json_keys :: "(pystr \<times> pyval) list \<Rightarrow> value_error + (pystr \<times> pyval) list" where
  "reject_duplicate_json_keys pairs =
     (if distinct (map fst pairs) then Inr pairs else Inl (ValueError ''duplicate JSON key''))"

definition MAX_PROBLEM_MANIFEST_BYTES :: nat where "MAX_PROBLEM_MANIFEST_BYTES = 16384"

text \<open>How the manifest is read: \<open>json.loads\<close>, with the pairs of the object in the order of the text (a number that is no
  integer is some value of the caller's choice), and pydantic's lax conversion of a value into an \<open>int\<close>.\<close>

record json_reader =
  jr_object :: "bytes \<Rightarrow> (pystr \<times> pyval) list option"
  jr_int :: "pyval \<Rightarrow> int option"

definition parse_manifest :: "(pyval \<Rightarrow> int option) \<Rightarrow> (pystr \<times> pyval) list \<Rightarrow> value_error + ProblemManifestV1" where
  "parse_manifest to_int pairs =
     rbind (object_fields [''manifest_version'', ''problem_schema_version'', ''problem_count'', ''revision'']
       (PDict pairs)) (\<lambda>fs.
     rbind (require (fs ! 0 = PInt 1) ''manifest_version'') (\<lambda>_.
     rbind (require (fs ! 1 = PInt 3) ''problem_schema_version'') (\<lambda>_.
     case (to_int (fs ! 2), fs ! 3) of
       (Some n, PStr r) \<Rightarrow> new_ProblemManifestV1 n r
     | _ \<Rightarrow> Inl (ValueError ''field type''))))"

definition load_manifest ::
  "json_reader \<Rightarrow> problem_files \<Rightarrow> repository_error + ProblemManifestV1" where
  "load_manifest json files =
     (case pf_manifest files of
        None \<Rightarrow> Inl (ProblemRepositoryError ''failed to read problem manifest'')
      | Some payload \<Rightarrow>
          if length payload > MAX_PROBLEM_MANIFEST_BYTES
          then Inl (ProblemRepositoryError ''problem manifest exceeds the byte limit'')
          else (case jr_object json payload of
            None \<Rightarrow> Inl (ProblemRepositoryError ''invalid problem manifest'')
          | Some pairs \<Rightarrow>
              (case rbind (reject_duplicate_json_keys pairs) (parse_manifest (jr_int json)) of
                 Inl _ \<Rightarrow> Inl (ProblemRepositoryError ''invalid problem manifest'')
               | Inr m \<Rightarrow> Inr m)))"

text \<open>The signature checks of \<open>_validate_image\<close>.\<close>

definition image_signature_ok :: "ImageMediaType \<Rightarrow> bytes \<Rightarrow> bool" where
  "image_signature_ok media payload =
     (if media = Image_jpeg
      then 4 \<le> length payload \<and> startswith payload [0xff, 0xd8] \<and> endswith payload [0xff, 0xd9]
      else 7 \<le> length payload
        \<and> take 6 payload \<in> {map of_char ''GIF87a'', map of_char ''GIF89a''}
        \<and> endswith payload [0x3b])"

definition validate_image :: "bytes option \<Rightarrow> ImageMediaType \<Rightarrow> repository_error + bytes" where
  "validate_image file media =
     (case file of
        None \<Rightarrow> Inl (ProblemRepositoryError ''failed to read answer image'')
      | Some payload \<Rightarrow>
          if length payload > MAX_ARTIFACT_BYTES
          then Inl (ProblemRepositoryError ''answer image exceeds the byte limit'')
          else if \<not> image_signature_ok media payload
          then Inl (ProblemRepositoryError ''answer image does not match its media type'')
          else Inr payload)"

definition read_image :: "(pystr \<times> bytes option) list \<Rightarrow> pystr \<Rightarrow> bytes option" where
  "read_image images problem_id = (case map_of images problem_id of None \<Rightarrow> None | Some f \<Rightarrow> f)"

definition load_problem_definition ::
  "pystr \<times> (value_error + ProblemDefinitionV3) \<Rightarrow> value_error + ProblemDefinitionV3" where
  "load_problem_definition file =
     rbind (snd file) (\<lambda>d.
     if pd_id d \<noteq> fst file then Inl (ValueError ''problem ID must match the filename stem'')
     else Inr d)"

definition uses_gif :: "ProblemDefinitionV3 \<Rightarrow> bool" where
  "uses_gif d = (case pd_judge d of ImageJudge a \<Rightarrow> ia_media_type a = Image_gif | TextJudge _ \<Rightarrow> False)"

definition collect_record ::
  "problem_files \<Rightarrow> pystr \<times> (value_error + ProblemDefinitionV3) \<Rightarrow> repository_error + ProblemRecord" where
  "collect_record files file =
     (case load_problem_definition file of
        Inl _ \<Rightarrow> Inl (ProblemRepositoryError ''failed to load problem definition'')
      | Inr d \<Rightarrow>
          rbind (validate_image (read_image (pf_jpg files) (pd_id d)) Image_jpeg) (\<lambda>preview.
          rbind (if uses_gif d then validate_image (read_image (pf_gif files) (pd_id d)) Image_gif
                 else Inr preview) (\<lambda>image.
          Inr \<lparr>pr_definition = d, pr_answer_image = image, pr_answer_image_base64 = b64encode image\<rparr>)))"

fun collect_all ::
  "problem_files \<Rightarrow> (pystr \<times> (value_error + ProblemDefinitionV3)) list \<Rightarrow>
     repository_error + ProblemRecord list" where
  "collect_all files [] = Inr []"
| "collect_all files (f # fs) =
     rbind (collect_record files f) (\<lambda>r. rbind (collect_all files fs) (\<lambda>rs. Inr (r # rs)))"

text \<open>Paths are sorted by file name, which includes the extension.\<close>

definition file_order :: "pystr \<times> 'a \<Rightarrow> pystr" where
  "file_order file = fst file @ lit ''.yaml''"

definition collect_problem_records :: "problem_files \<Rightarrow> repository_error + ProblemRecord list" where
  "collect_problem_records files =
     (let definition_paths = sort_key file_order (pf_definitions files) in
      if definition_paths = []
      then Inl (ProblemRepositoryError ''no problem definitions found'')
      else if set (map fst definition_paths) \<noteq> set (map fst (pf_jpg files))
      then Inl (ProblemRepositoryError ''problem definition/image ID mismatch'')
      else rbind (collect_all files definition_paths) (\<lambda>records.
        if set (map fst (pf_gif files))
           \<noteq> set (map (pd_id \<circ> pr_definition) (filter (uses_gif \<circ> pr_definition) records))
        then Inl (ProblemRepositoryError ''problem GIF artifact ID mismatch'')
        else Inr records))"

subsection \<open>Revision and manifest\<close>

definition record_id :: "ProblemRecord \<Rightarrow> pystr" where
  "record_id r = pd_id (pr_definition r)"

definition canonical_data ::
  "(ProblemDefinitionV3 \<Rightarrow> pyval) \<Rightarrow> (bytes \<Rightarrow> pystr) \<Rightarrow> ProblemRecord list \<Rightarrow> pyval" where
  "canonical_data model_dump sha256 records = PDict
     [(lit ''problem_schema_version'', PInt 3),
      (lit ''problems'', PList (map (\<lambda>r. PDict
         [(lit ''definition'', model_dump (pr_definition r)),
          (lit ''answer_image_sha256'', PStr (sha256 (pr_answer_image r)))])
        (sort_key record_id records)))]"

definition calculate_problem_revision ::
  "(ProblemDefinitionV3 \<Rightarrow> pyval) \<Rightarrow> (pyval \<Rightarrow> bytes) \<Rightarrow> (bytes \<Rightarrow> pystr) \<Rightarrow> ProblemRecord list \<Rightarrow> pystr" where
  "calculate_problem_revision model_dump json_dumps sha256 records =
     sha256 (json_dumps (canonical_data model_dump sha256 records))"

definition build_problem_manifest ::
  "(ProblemDefinitionV3 \<Rightarrow> pyval) \<Rightarrow> (pyval \<Rightarrow> bytes) \<Rightarrow> (bytes \<Rightarrow> pystr) \<Rightarrow> ProblemRecord list \<Rightarrow>
     value_error + ProblemManifestV1" where
  "build_problem_manifest model_dump json_dumps sha256 records =
     new_ProblemManifestV1 (int (length records))
       (calculate_problem_revision model_dump json_dumps sha256 records)"

record ProblemRepository =
  rp_records :: "(pystr \<times> ProblemRecord) list"
  rp_revision :: pystr
  rp_catalog :: ProblemCatalog

text \<open>The dict comprehension \<open>{record.definition.id: record for record in records}\<close>.\<close>

definition record_mapping :: "ProblemRecord list \<Rightarrow> (pystr \<times> ProblemRecord) list" where
  "record_mapping records = foldl (\<lambda>m r. AList.update (record_id r) r m) [] records"

definition repository_get :: "ProblemRepository \<Rightarrow> pystr \<Rightarrow> ProblemRecord option" where
  "repository_get repo problem_id = map_of (rp_records repo) problem_id"

definition problem_count :: "ProblemRepository \<Rightarrow> nat" where
  "problem_count repo = length (rp_records repo)"

definition build_problem_repository ::
  "(ProblemDefinitionV3 \<Rightarrow> pyval) \<Rightarrow> (pyval \<Rightarrow> bytes) \<Rightarrow> (bytes \<Rightarrow> pystr) \<Rightarrow>
     json_reader \<Rightarrow> problem_files \<Rightarrow> repository_error + ProblemRepository" where
  "build_problem_repository model_dump json_dumps sha256 json files =
     rbind (collect_problem_records files) (\<lambda>records.
     rbind (load_manifest json files) (\<lambda>manifest.
     case build_problem_manifest model_dump json_dumps sha256 records of
       Inl _ \<Rightarrow> Inl RepositoryValidationError
     | Inr calculated_manifest \<Rightarrow>
         if manifest \<noteq> calculated_manifest
         then Inl (ProblemRepositoryError ''problem manifest mismatch'')
         else (case build_problem_catalog json_dumps sha256 (map pr_definition records) of
           Inl _ \<Rightarrow> Inl RepositoryValidationError
         | Inr catalog \<Rightarrow> Inr
             \<lparr>rp_records = record_mapping records, rp_revision = pm_revision manifest,
              rp_catalog = catalog\<rparr>)))"

text \<open>The process-wide repository: a failed load leaves it as it was.\<close>

type_synonym loaded_repository = "ProblemRepository option"

definition load_problem_repository ::
  "(ProblemDefinitionV3 \<Rightarrow> pyval) \<Rightarrow> (pyval \<Rightarrow> bytes) \<Rightarrow> (bytes \<Rightarrow> pystr) \<Rightarrow>
     json_reader \<Rightarrow> problem_files \<Rightarrow> loaded_repository \<Rightarrow>
     (repository_error + ProblemRepository) \<times> loaded_repository" where
  "load_problem_repository model_dump json_dumps sha256 json files loaded =
     (case build_problem_repository model_dump json_dumps sha256 json files of
        Inl e \<Rightarrow> (Inl e, loaded)
      | Inr repo \<Rightarrow> (Inr repo, Some repo))"

definition get_problem_repository :: "loaded_repository \<Rightarrow> string + ProblemRepository" where
  "get_problem_repository loaded =
     (case loaded of None \<Rightarrow> Inl ''problem repository has not been loaded'' | Some r \<Rightarrow> Inr r)"

subsection \<open>Lemmas\<close>

lemma validate_image_iff:
  "validate_image f m = Inr p \<longleftrightarrow> f = Some p \<and> length p \<le> MAX_ARTIFACT_BYTES \<and> image_signature_ok m p"
  by (auto simp: validate_image_def split: option.splits)

definition ok_record :: "problem_files \<Rightarrow> ProblemRecord \<Rightarrow> bool" where
  "ok_record files r \<longleftrightarrow>
     (record_id r, Inr (pr_definition r)) \<in> set (pf_definitions files)
     \<and> pr_answer_image_base64 r = b64encode (pr_answer_image r)
     \<and> length (pr_answer_image r) \<le> 750000
     \<and> image_signature_ok (if uses_gif (pr_definition r) then Image_gif else Image_jpeg) (pr_answer_image r)"

lemma collect_record_ok:
  assumes "collect_record files f = Inr r" and "f \<in> set (pf_definitions files)"
  shows "ok_record files r \<and> record_id r = fst f"
  using assms
  by (cases f)
    (auto simp: collect_record_def load_problem_definition_def ok_record_def record_id_def
      validate_image_iff res_simps MAX_ARTIFACT_BYTES_def split: sum.splits if_splits)

lemma collect_all_ok:
  assumes "collect_all files fs = Inr rs" and "set fs \<subseteq> set (pf_definitions files)"
  shows "list_all (ok_record files) rs \<and> map record_id rs = map fst fs"
  using assms
proof (induction fs arbitrary: rs)
  case (Cons f fs)
  then obtain r rs' where "collect_record files f = Inr r" "collect_all files fs = Inr rs'" "rs = r # rs'"
    by (auto simp: rbind_eq_Inr)
  then show ?case using Cons.IH [of rs'] Cons.prems(2) collect_record_ok [of files f r] by simp
qed simp

lemma collect_problem_records_ok:
  assumes "collect_problem_records files = Inr rs"
  shows "list_all (ok_record files) rs"
    and "map record_id rs = map fst (sort_key file_order (pf_definitions files))" and "rs \<noteq> []"
proof -
  from assms have c: "collect_all files (sort_key file_order (pf_definitions files)) = Inr rs"
    and ne: "sort_key file_order (pf_definitions files) \<noteq> []"
    by (auto simp: collect_problem_records_def Let_def rbind_eq_Inr split: if_splits)
  have "set (sort_key file_order (pf_definitions files)) \<subseteq> set (pf_definitions files)" by simp
  from collect_all_ok [OF c this]
  show "list_all (ok_record files) rs"
    and ids: "map record_id rs = map fst (sort_key file_order (pf_definitions files))" by auto
  show "rs \<noteq> []" using ids ne by auto
qed

lemma record_mapping_snoc:
  "record_mapping (rs @ [r]) = AList.update (record_id r) r (record_mapping rs)"
  by (simp add: record_mapping_def)

lemma map_of_record_mapping_key: "map_of (record_mapping rs) k = Some r \<Longrightarrow> r \<in> set rs \<and> record_id r = k"
  by (induction rs arbitrary: r rule: rev_induct)
    (auto simp: record_mapping_snoc update_conv' record_mapping_def [of "[]"] split: if_splits)

lemma record_mapping_distinct:
  "distinct (map record_id rs) \<Longrightarrow> record_mapping rs = map (\<lambda>r. (record_id r, r)) rs"
proof (induction rs rule: rev_induct)
  case (snoc r rs)
  have new: "AList.update k v m = m @ [(k, v)]" if "k \<notin> fst ` set m" for k :: pystr and v :: ProblemRecord and m
    using that by (induction m) auto
  have "record_mapping rs = map (\<lambda>r. (record_id r, r)) rs" and "record_id r \<notin> record_id ` set rs"
    using snoc by auto
  then show ?case by (simp add: record_mapping_snoc new image_image)
qed (simp add: record_mapping_def)

lemma revision_permutation:
  assumes "mset rs = mset rs'" and "distinct (map record_id rs)"
  shows "calculate_problem_revision d j h rs = calculate_problem_revision d j h rs'"
proof -
  have "sort_key record_id rs = sort_key record_id rs'"
    by (rule sort_key_eq_sort_key [OF assms(1)]) (use assms(2) in \<open>simp add: distinct_map\<close>)
  then show ?thesis by (simp add: calculate_problem_revision_def canonical_data_def)
qed

lemma build_problem_repository_ok:
  assumes "build_problem_repository d j h json files = Inr repo"
  shows "\<exists>rs. collect_problem_records files = Inr rs \<and> rp_records repo = record_mapping rs
    \<and> rp_revision repo = calculate_problem_revision d j h rs
    \<and> build_problem_catalog j h (map pr_definition rs) = Inr (rp_catalog repo)
    \<and> (\<exists>m. load_manifest json files = Inr m \<and> pm_problem_count m = int (length rs)
          \<and> pm_revision m = rp_revision repo)"
  using assms
  by (auto simp: build_problem_repository_def rbind_eq_Inr build_problem_manifest_def
      new_ProblemManifestV1_def split: sum.splits if_splits)

lemma collect_ids_distinct:
  assumes "collect_problem_records files = Inr rs" and "distinct (map fst (pf_definitions files))"
  shows "distinct (map record_id rs)"
proof -
  have "mset (map fst (sort_key file_order (pf_definitions files))) = mset (map fst (pf_definitions files))"
    by simp
  then have "distinct (map fst (sort_key file_order (pf_definitions files)))"
    using assms(2) by (metis mset_eq_imp_distinct_iff)
  then show ?thesis using collect_problem_records_ok(2) [OF assms(1)] by simp
qed

lemma catalog_count:
  "build_problem_catalog j h ds = Inr c \<Longrightarrow> pc_problem_count c = length ds \<and> ds \<noteq> []"
  by (auto simp: build_problem_catalog_def Let_def split: if_splits)

lemma record_mapping_get:
  "distinct (map record_id rs) \<Longrightarrow> r \<in> set rs \<Longrightarrow> map_of (record_mapping rs) (record_id r) = Some r"
  by (simp add: record_mapping_distinct) (rule map_of_is_SomeI, auto simp: comp_def)

text \<open>Files are visited by name with extension, which is not always the order of the identifiers.\<close>

lemma file_order_is_not_id_order:
  "lit ''STANDARD-1'' < lit ''STANDARD-1-2''
   \<and> file_order (lit ''STANDARD-1-2'', x) < file_order (lit ''STANDARD-1'', x)"
  by (simp add: file_order_def lit_def)

subsection \<open>Properties\<close>

text \<open>C19: A repository that loads is complete and sound: every definition file is found under its
  identifier, every record found has the identifier it was asked for, comes from the file of that
  name, and carries an image of the declared format within the size limit together with its Base64
  text; the catalog and the repository count the same problems.\<close>

theorem loaded_repository_is_sound:
  assumes "build_problem_repository model_dump json_dumps sha256 json files = Inr repo"
    and "distinct (map fst (pf_definitions files))"
  shows "(\<forall>k r. repository_get repo k = Some r \<longrightarrow> record_id r = k \<and> ok_record files r)
    \<and> (\<forall>k \<in> fst ` set (pf_definitions files). repository_get repo k \<noteq> None)
    \<and> problem_count repo = length (pf_definitions files)
    \<and> pc_problem_count (rp_catalog repo) = problem_count repo"
proof -
  obtain rs where rs: "collect_problem_records files = Inr rs" "rp_records repo = record_mapping rs"
    "build_problem_catalog json_dumps sha256 (map pr_definition rs) = Inr (rp_catalog repo)"
    using build_problem_repository_ok [OF assms(1)] by blast
  note c = collect_problem_records_ok [OF rs(1)]
  have d: "distinct (map record_id rs)" by (rule collect_ids_distinct [OF rs(1) assms(2)])
  have len: "length rs = length (pf_definitions files)" using arg_cong [OF c(2), of length] by simp
  have ids: "fst ` set (pf_definitions files) = record_id ` set rs"
    using arg_cong [OF c(2), of set] by simp
  have "record_id r = k \<and> ok_record files r" if "repository_get repo k = Some r" for k r
    using that c(1) map_of_record_mapping_key [of rs k r] rs(2)
    by (auto simp: repository_get_def list_all_iff)
  moreover have "repository_get repo k \<noteq> None" if "k \<in> fst ` set (pf_definitions files)" for k
    using that ids record_mapping_get [OF d] rs(2) by (auto simp: repository_get_def)
  ultimately show ?thesis
    using len catalog_count [OF rs(3)] rs(2) by (auto simp: problem_count_def record_mapping_distinct [OF d])
qed

definition sample_definition :: "string \<Rightarrow> ProblemDefinitionV3" where
  "sample_definition i =
     \<lparr>pd_id = lit i, pd_category = Cat_STANDARD, pd_title = \<lparr>lt_ja = [97], lt_en = [97]\<rparr>,
      pd_statement = \<lparr>lt_ja = [97], lt_en = [97]\<rparr>, pd_reference_solution = [],
      pd_execution = \<lparr>es_stdin = [], es_fixtures = [], es_exit_code = Exit_ignore, es_stderr = Stderr_merge\<rparr>,
      pd_judge = TextJudge []\<rparr>"

definition sample_files :: problem_files where
  "sample_files =
     \<lparr>pf_definitions = [(lit ''STANDARD-1'', Inr (sample_definition ''STANDARD-1''))],
      pf_jpg = [(lit ''STANDARD-1'', Some [0xff, 0xd8, 0xff, 0xd9])], pf_gif = [], pf_manifest = Some []\<rparr>"

definition sample_manifest :: "(pystr \<times> pyval) list" where
  "sample_manifest = [(lit ''manifest_version'', PInt 1), (lit ''problem_schema_version'', PInt 3),
     (lit ''problem_count'', PInt 1), (lit ''revision'', PStr (replicate 64 48))]"

definition plain_reader :: "(pystr \<times> pyval) list \<Rightarrow> json_reader" where
  "plain_reader pairs =
     \<lparr>jr_object = (\<lambda>_. Some pairs), jr_int = (\<lambda>v. case v of PInt n \<Rightarrow> Some n | _ \<Rightarrow> None)\<rparr>"

lemma sample_revision_ok: "new_ProblemManifestV1 1 (replicate 64 48) =
    Inr \<lparr>pm_problem_count = 1, pm_revision = replicate 64 48\<rparr>"
  unfolding new_ProblemManifestV1_def PROBLEM_REVISION_PATTERN_def fullmatch_Rep_Cls
  by (simp add: in_cls_def hex_lower_def list_all_iff)

lemma sample_build:
  "\<exists>repo. build_problem_repository (\<lambda>_. PNone) (\<lambda>_. []) (\<lambda>_. replicate 64 48) (plain_reader sample_manifest)
      sample_files = Inr repo"
proof -
  let ?r = "\<lparr>pr_definition = sample_definition ''STANDARD-1'', pr_answer_image = [0xff, 0xd8, 0xff, 0xd9],
    pr_answer_image_base64 = b64encode [0xff, 0xd8, 0xff, 0xd9]\<rparr>"
  have c: "collect_problem_records sample_files = Inr [?r]"
    by (simp add: collect_problem_records_def sample_files_def collect_record_def load_problem_definition_def
        sample_definition_def validate_image_def read_image_def image_signature_ok_def startswith_def
        endswith_def MAX_ARTIFACT_BYTES_def uses_gif_def)
  have m: "load_manifest (plain_reader sample_manifest) sample_files =
      Inr \<lparr>pm_problem_count = 1, pm_revision = replicate 64 48\<rparr>"
    unfolding load_manifest_def parse_manifest_def
    by (simp add: plain_reader_def sample_files_def sample_manifest_def reject_duplicate_json_keys_def object_fields_def
        MAX_PROBLEM_MANIFEST_BYTES_def sample_revision_ok del: replicate.simps)
  have b: "build_problem_manifest (\<lambda>_. PNone) (\<lambda>_. []) (\<lambda>_. replicate 64 48) [?r] =
      Inr \<lparr>pm_problem_count = 1, pm_revision = replicate 64 48\<rparr>"
    by (simp add: build_problem_manifest_def calculate_problem_revision_def sample_revision_ok)
  show ?thesis
    unfolding build_problem_repository_def c rbind_simps m b
    by (simp add: build_problem_catalog_def)
qed

theorem loaded_repository_is_sound_witness:
  "\<exists>repo. build_problem_repository (\<lambda>_. PNone) (\<lambda>_. []) (\<lambda>_. replicate 64 48) (plain_reader sample_manifest)
      sample_files = Inr repo \<and> problem_count repo = 1 \<and> repository_get repo (lit ''STANDARD-1'') \<noteq> None"
proof -
  obtain repo where repo: "build_problem_repository (\<lambda>_. PNone) (\<lambda>_. []) (\<lambda>_. replicate 64 48)
      (plain_reader sample_manifest) sample_files = Inr repo"
    using sample_build by blast
  have "distinct (map fst (pf_definitions sample_files))" by (simp add: sample_files_def)
  from loaded_repository_is_sound [OF repo this] show ?thesis
    using repo by (auto simp: sample_files_def)
qed

text \<open>The revision of the problem data does not depend on the order in which the records were
  collected: any permutation of records with distinct identifiers has the same revision.\<close>

theorem revision_independent_of_order:
  assumes "mset rs = mset rs'" and "distinct (map record_id rs)"
  shows "calculate_problem_revision model_dump json_dumps sha256 rs =
    calculate_problem_revision model_dump json_dumps sha256 rs'"
  by (rule revision_permutation [OF assms])

definition record_of :: "string \<Rightarrow> ProblemRecord" where
  "record_of i = \<lparr>pr_definition = sample_definition i, pr_answer_image = [], pr_answer_image_base64 = []\<rparr>"

theorem revision_independent_of_order_witness:
  "calculate_problem_revision (\<lambda>d. PStr (pd_id d)) (\<lambda>v. [of_nat (size v)]) (map unat)
     [record_of ''REGEX-1'', record_of ''REGEX-2''] =
   calculate_problem_revision (\<lambda>d. PStr (pd_id d)) (\<lambda>v. [of_nat (size v)]) (map unat)
     [record_of ''REGEX-2'', record_of ''REGEX-1'']"
  by (rule revision_independent_of_order)
    (simp_all add: record_id_def record_of_def sample_definition_def)

end
