(* ===== verification/Sandbox_Executor.thy ===== *)
theory Sandbox_Executor
  imports Sandbox_Output Repository
begin

section \<open>One execution in a sandbox container\<close>

text \<open>
  \<open>SandboxPreparer\<close>, \<open>SandboxExecutor\<close> of \<open>soj_runner/sandbox_executor.py\<close> and
  \<open>execution_archive.py\<close>. The replies of Docker and of the clock during one execution are the
  record \<open>container_run\<close>. The timer thread acts on the watchdog at one point of the executing
  thread (theory \<open>Watchdog\<close>): \<open>cn_timer\<close> says between which two of its reads of the watchdog the
  timer's lock region falls, or that it does not fall before \<open>finish\<close>. The container manager is
  the interface \<open>container_pool\<close>; the theory \<open>Container_Manager\<close> provides it.
\<close>

subsection \<open>The execution archive\<close>

record tar_entry =
  te_name :: pystr
  te_size :: nat
  te_mode :: nat
  te_mtime :: nat
  te_payload :: bytes

definition add_text_file :: "pystr \<Rightarrow> pystr \<Rightarrow> tar_entry list \<Rightarrow> exn + tar_entry list" where
  "add_text_file name contents archive =
     (case utf8_encode contents of
        None \<Rightarrow> Inl (lit ''UnicodeEncodeError'')
      | Some payload \<Rightarrow> Inr (archive @ [\<lparr>te_name = name, te_size = length payload,
          te_mode = 0x180, te_mtime = 0, te_payload = payload\<rparr>]))"

fun add_fixtures :: "(pystr \<times> pystr) list \<Rightarrow> tar_entry list \<Rightarrow> exn + tar_entry list" where
  "add_fixtures [] archive = Inr archive"
| "add_fixtures ((path, contents) # fs) archive =
     rbind (add_text_file path contents archive) (add_fixtures fs)"

definition build_execution_archive :: "pystr \<Rightarrow> (pystr \<times> pystr) list \<Rightarrow> exn + tar_entry list" where
  "build_execution_archive shellgei fixtures =
     rbind (add_fixtures fixtures []) (add_text_file (lit ''z.bash'') shellgei)"

text \<open>What extraction leaves in the work directory: a later entry replaces an earlier one.\<close>

definition extracted :: "tar_entry list \<Rightarrow> pystr \<Rightarrow> bytes option" where
  "extracted archive = map_of (rev (map (\<lambda>e. (te_name e, te_payload e)) archive))"

lemma add_fixtures_iff:
  "add_fixtures fs archive = Inr archive' \<longleftrightarrow>
     list_all (\<lambda>f. utf8_encode (snd f) \<noteq> None) fs
     \<and> archive' = archive @ map (\<lambda>f. \<lparr>te_name = fst f, te_size = length (the (utf8_encode (snd f))),
          te_mode = 0x180, te_mtime = 0, te_payload = the (utf8_encode (snd f))\<rparr>) fs"
  by (induction fs arbitrary: archive) (auto simp: add_text_file_def split: option.splits)

lemma build_execution_archive_command:
  assumes "build_execution_archive shellgei fixtures = Inr archive"
  shows "extracted archive (lit ''z.bash'') = utf8_encode shellgei \<and> utf8_encode shellgei \<noteq> None"
  using assms
  by (auto simp: build_execution_archive_def rbind_eq_Inr add_text_file_def extracted_def
      split: option.splits)

lemma build_execution_archive_fixture:
  assumes "build_execution_archive shellgei fixtures = Inr archive"
    and "distinct (map fst fixtures)" and "(path, contents) \<in> set fixtures" and "path \<noteq> lit ''z.bash''"
  shows "extracted archive path = utf8_encode contents \<and> utf8_encode contents \<noteq> None"
proof -
  let ?g = "\<lambda>f. \<lparr>te_name = fst f, te_size = length (the (utf8_encode (snd f))),
          te_mode = 0x180, te_mtime = 0, te_payload = the (utf8_encode (snd f))\<rparr>"
  obtain p where all: "list_all (\<lambda>f. utf8_encode (snd f) \<noteq> None) fixtures"
    and ar: "archive = map ?g fixtures @ [\<lparr>te_name = lit ''z.bash'', te_size = length p,
          te_mode = 0x180, te_mtime = 0, te_payload = p\<rparr>]"
    using assms(1) by (auto simp: build_execution_archive_def rbind_eq_Inr add_text_file_def
        add_fixtures_iff split: option.splits)
  have "map_of (rev (map (\<lambda>f. (fst f, the (utf8_encode (snd f)))) fixtures)) path =
      Some (the (utf8_encode contents))"
  proof (rule map_of_is_SomeI)
    show "distinct (map fst (rev (map (\<lambda>f. (fst f, the (utf8_encode (snd f)))) fixtures)))"
      using assms(2) by (simp add: comp_def flip: rev_map)
    show "(path, the (utf8_encode contents)) \<in> set (rev (map (\<lambda>f. (fst f, the (utf8_encode (snd f)))) fixtures))"
      using assms(3) by force
  qed
  moreover have "utf8_encode contents \<noteq> None" using all assms(3) by (force simp: list_all_iff)
  ultimately show ?thesis using assms(4) by (simp add: extracted_def ar comp_def)
qed

subsection \<open>The replies of one execution\<close>

text \<open>Where the timer's lock region falls: after the named read of the watchdog, before the next.\<close>

datatype stage = After_start | After_capture_check | After_artifact_check | After_display_check

instantiation stage :: linorder
begin

definition stage_rank :: "stage \<Rightarrow> nat" where
  "stage_rank s = (case s of After_start \<Rightarrow> 0 | After_capture_check \<Rightarrow> 1
     | After_artifact_check \<Rightarrow> 2 | After_display_check \<Rightarrow> 3)"

definition less_eq_stage :: "stage \<Rightarrow> stage \<Rightarrow> bool" where
  "less_eq_stage a b = (stage_rank a \<le> stage_rank b)"

definition less_stage :: "stage \<Rightarrow> stage \<Rightarrow> bool" where
  "less_stage a b = (stage_rank a < stage_rank b)"

instance
  by standard (auto simp: less_eq_stage_def less_stage_def stage_rank_def split: stage.splits)

end

record container_run =
  cn_setup :: "tar_entry list \<Rightarrow> exn + int option"
  cn_exec :: exec_api
  cn_artifact :: "exn + artifact_output"
  cn_display :: "exn + artifact_output"
  cn_timer :: "stage option"
  cn_timer_kill :: "exn option"
  cn_overflow_kill :: "exn option"
  cn_final_kill :: "exn option"
  cn_now :: int

definition tick :: "container_run \<Rightarrow> stage \<Rightarrow> watchdog \<Rightarrow> watchdog" where
  "tick run stage w =
     (if cn_timer run = Some stage then snd (terminate Reason_timeout (cn_timer_kill run) w) else w)"

definition prepare :: "container_run \<Rightarrow> pystr \<Rightarrow> (pystr \<times> pystr) list \<Rightarrow> exn + unit" where
  "prepare run shellgei fixtures =
     rbind (build_execution_archive shellgei fixtures) (\<lambda>archive.
     rbind (cn_setup run archive) (\<lambda>exit_code.
     if exit_code \<noteq> Some 0 then Inl (lit ''failed to prepare sandbox files'') else Inr ()))"

record SandboxExecutionOutcome =
  so_status :: ExecutionStatus
  so_stdout :: bytes
  so_stderr :: bytes
  so_exit_code :: "int option"
  so_timed_out :: bool
  so_truncated :: bool
  so_duration_ms :: int
  so_artifact :: "bytes option"
  so_error :: "exn option"
  so_display_artifact :: "bytes option"

definition duration_ms :: "int \<Rightarrow> int \<Rightarrow> int" where
  "duration_ms now started_at = max 0 ((now - started_at) div 1000000)"

definition used_chars :: "bytes option \<Rightarrow> int" where
  "used_chars artifact = 4 * ((int (case artifact of None \<Rightarrow> 0 | Some a \<Rightarrow> length a) + 2) div 3)"

definition remaining_bytes :: "bytes option \<Rightarrow> int" where
  "remaining_bytes artifact = ((int MAX_RUNNER_IMAGE_BASE64_CHARS - used_chars artifact) div 4) * 3"

text \<open>
  The body of the \<open>try\<close> block: command output, judge artifact, display artifact, and the watchdog
  when \<open>cleanup.stop\<close> is called.
\<close>

definition run_captures ::
  "container_run \<Rightarrow> ProblemRecord \<Rightarrow> int \<Rightarrow> watchdog \<Rightarrow>
     exn + (CapturedCommandOutput \<times> bytes option \<times> bytes option \<times> watchdog)" where
  "run_captures run record limit_chars w0 =
     rbind (capture_command_output (cn_exec run) (tick run After_capture_check) (cn_overflow_kill run)
              limit_chars (tick run After_start w0)) (\<lambda>(out, w1).
     rbind (case pd_judge (pr_definition record) of
              ImageJudge spec \<Rightarrow>
                (if wd_reason w1 = None \<and> cc_error out = None
                 then capture_artifact (cn_artifact run) (ia_max_bytes spec) else Inr None)
            | TextJudge _ \<Rightarrow> Inr None) (\<lambda>artifact.
     let w2 = tick run After_artifact_check w1 in
     rbind (if wd_reason w2 = None \<and> cc_error out = None
            then capture_display_artifact (cn_display run) (remaining_bytes artifact)
            else Inr None) (\<lambda>display_artifact.
     Inr (out, artifact, display_artifact, tick run After_display_check w2))))"

definition outcome_status ::
  "end_reason option \<Rightarrow> exn option \<Rightarrow> int option \<Rightarrow> ExecutionStatus \<times> exn option" where
  "outcome_status reason execution_error exit_code =
     (if reason = Some Reason_timeout then (TIMED_OUT, execution_error)
      else if reason = Some Reason_output_limit then (OUTPUT_LIMIT, execution_error)
      else if execution_error \<noteq> None \<or> exit_code = None
      then (ERROR, or_else execution_error (Some (lit ''Docker exec exit code is unavailable'')))
      else (COMPLETED, execution_error))"

definition finish_outcome ::
  "container_run \<Rightarrow> CapturedCommandOutput \<times> bytes option \<times> bytes option \<times> watchdog \<Rightarrow> int \<Rightarrow>
     SandboxExecutionOutcome \<times> bool" where
  "finish_outcome run captures started_at =
     (case captures of (out, artifact, display_artifact, w) \<Rightarrow>
       let cleanup = fst (cleanup_stop (cn_final_kill run) id w);
           (status, execution_error) =
             outcome_status (cr_reason cleanup) (or_else (cc_error out) (cr_error cleanup)) (cc_exit_code out);
           completed = (status = COMPLETED)
       in (\<lparr>so_status = status, so_stdout = cc_stdout out, so_stderr = cc_stderr out,
               so_exit_code = cc_exit_code out, so_timed_out = (status = TIMED_OUT),
               so_truncated = cc_truncated out, so_duration_ms = duration_ms (cn_now run) started_at,
               so_artifact = (if completed then artifact else None), so_error = execution_error,
               so_display_artifact = (if completed then display_artifact else None)\<rparr>,
             cr_container_stopped cleanup))"

definition execute_in_container ::
  "container_run \<Rightarrow> ProblemRecord \<Rightarrow> pystr \<Rightarrow> int \<Rightarrow> int \<Rightarrow> exn + (SandboxExecutionOutcome \<times> bool)" where
  "execute_in_container run record shellgei limit_chars started_at =
     rbind (prepare run shellgei (record_fixtures record)) (\<lambda>_.
     rbind (run_captures run record limit_chars new_watchdog) (\<lambda>captures.
     Inr (finish_outcome run captures started_at)))"

definition error_outcome :: "exn \<Rightarrow> int \<Rightarrow> int \<Rightarrow> SandboxExecutionOutcome" where
  "error_outcome error now started_at =
     \<lparr>so_status = ERROR, so_stdout = [], so_stderr = [], so_exit_code = None, so_timed_out = False,
      so_truncated = False, so_duration_ms = duration_ms now started_at, so_artifact = None,
      so_error = Some error, so_display_artifact = None\<rparr>"

subsection \<open>The watchdog's reason along an execution\<close>

lemma tick_simps [simp]:
  "wd_finished (tick run st w) = wd_finished w"
  "wd_reason (tick run st w) =
     (if cn_timer run = Some st \<and> \<not> wd_finished w \<and> wd_reason w = None then Some Reason_timeout
      else wd_reason w)"
  by (auto simp: tick_def terminate_def terminate_claim_def)

lemma new_watchdog_simps [simp]:
  "wd_reason new_watchdog = None" "\<not> wd_finished new_watchdog" "wd_termination_error new_watchdog = None"
  by (simp_all add: new_watchdog_def)

lemma no_output_simps [simp]:
  "cc_stdout no_output = []" "cc_stderr no_output = []" "cc_exit_code no_output = None"
  "\<not> cc_truncated no_output" "cc_error no_output = None"
  by (simp_all add: no_output_def)

lemma terminate_finished [simp]: "wd_finished (snd (terminate r k w)) = wd_finished w"
  by (simp add: terminate_def terminate_claim_def)

lemma capture_reason:
  assumes c: "capture_command_output (cn_exec run) (tick run st) k limit w = Inr (out, w1)"
    and limit: "1 \<le> limit" and w: "\<not> wd_finished w" "wd_reason w \<noteq> Some Reason_output_limit"
  shows "\<not> wd_finished w1" and "cc_truncated out \<Longrightarrow> wd_reason w1 \<noteq> None"
    and "wd_reason w1 = Some Reason_output_limit \<Longrightarrow> cc_truncated out"
    and "int (length (cc_stdout out) + length (cc_stderr out)) \<le> limit * 4"
proof -
  have "\<not> wd_finished w1 \<and> (cc_truncated out \<longrightarrow> wd_reason w1 \<noteq> None)
    \<and> (wd_reason w1 = Some Reason_output_limit \<longrightarrow> cc_truncated out)
    \<and> int (length (cc_stdout out) + length (cc_stderr out)) \<le> limit * 4"
  proof (cases "wd_reason w")
    case (Some r)
    then show ?thesis using c limit w by (simp add: capture_skipped)
  next
    case None
    show ?thesis
    proof (cases "exec_start (cn_exec run)")
      case (Inl e)
      then show ?thesis using c limit w None by (auto simp: capture_not_started split: if_splits)
    next
      case (Inr start)
      then obtain eid st' where "exec_start (cn_exec run) = Inr (eid, st')" by (cases start) simp
      from capture_started [OF limit None this, of "tick run st" k] c
      show ?thesis using w None by (auto simp: terminate_reason split: if_splits)
    qed
  qed
  then show "\<not> wd_finished w1" and "cc_truncated out \<Longrightarrow> wd_reason w1 \<noteq> None"
    and "wd_reason w1 = Some Reason_output_limit \<Longrightarrow> cc_truncated out"
    and "int (length (cc_stdout out) + length (cc_stderr out)) \<le> limit * 4" by auto
qed

definition ok_artifacts :: "ProblemRecord \<Rightarrow> bytes option \<Rightarrow> bytes option \<Rightarrow> bool" where
  "ok_artifacts record artifact display \<longleftrightarrow>
     (\<forall>a. artifact = Some a \<longrightarrow> a \<noteq> [] \<and> (\<exists>spec. pd_judge (pr_definition record) = ImageJudge spec
        \<and> int (length a) \<le> ia_max_bytes spec))
     \<and> (\<forall>d. display = Some d \<longrightarrow> d \<noteq> [] \<and> int (length d) \<le> remaining_bytes artifact)"

text \<open>The limits of the judge that the schema guarantees.\<close>

definition ok_judge :: "ProblemRecord \<Rightarrow> bool" where
  "ok_judge record \<longleftrightarrow>
     (\<forall>spec. pd_judge (pr_definition record) = ImageJudge spec \<longrightarrow> ok_artifact spec)"

definition ok_captures :: "ProblemRecord \<Rightarrow> int \<Rightarrow>
    CapturedCommandOutput \<times> bytes option \<times> bytes option \<times> watchdog \<Rightarrow> bool" where
  "ok_captures record limit r =
     (case r of (out, artifact, display, w) \<Rightarrow>
        \<not> wd_finished w \<and> (cc_truncated out \<longrightarrow> wd_reason w \<noteq> None)
        \<and> (wd_reason w = Some Reason_output_limit \<longrightarrow> cc_truncated out)
        \<and> int (length (cc_stdout out) + length (cc_stderr out)) \<le> limit * 4
        \<and> ok_artifacts record artifact display)"

lemma run_captures_ok:
  assumes "run_captures run record limit new_watchdog = Inr r" and "1 \<le> limit" and "ok_judge record"
  shows "ok_captures record limit r"
proof -
  let ?w0 = "tick run After_start new_watchdog"
  obtain out artifact display w where r: "r = (out, artifact, display, w)" by (cases r)
  from assms(1) obtain w1 where
    c: "capture_command_output (cn_exec run) (tick run After_capture_check) (cn_overflow_kill run) limit ?w0 = Inr (out, w1)"
    and a: "(case pd_judge (pr_definition record) of
              ImageJudge spec \<Rightarrow>
                (if wd_reason w1 = None \<and> cc_error out = None
                 then capture_artifact (cn_artifact run) (ia_max_bytes spec) else Inr None)
            | TextJudge _ \<Rightarrow> Inr None) = Inr artifact"
    and d: "(if wd_reason (tick run After_artifact_check w1) = None \<and> cc_error out = None
            then capture_display_artifact (cn_display run) (remaining_bytes artifact)
            else Inr None) = Inr display"
    and w: "w = tick run After_display_check (tick run After_artifact_check w1)"
    unfolding run_captures_def r by (auto simp: rbind_eq_Inr Let_def)
  have w0: "\<not> wd_finished ?w0" "wd_reason ?w0 \<noteq> Some Reason_output_limit" by auto
  note cr = capture_reason [OF c assms(2) w0]
  have "ok_artifacts record artifact display"
  proof -
    have "a' \<noteq> [] \<and> (\<exists>spec. pd_judge (pr_definition record) = ImageJudge spec \<and> int (length a') \<le> ia_max_bytes spec)"
      if art: "artifact = Some a'" for a'
    proof -
      obtain spec where spec: "pd_judge (pr_definition record) = ImageJudge spec"
        "capture_artifact (cn_artifact run) (ia_max_bytes spec) = Inr (Some a')"
        using a art by (auto split: JudgeSpecification.splits if_splits)
      have "0 \<le> ia_max_bytes spec" using assms(3) spec(1) by (auto simp: ok_judge_def ok_artifact_def)
      then show ?thesis using spec capture_artifact_iff by blast
    qed
    moreover have "d' \<noteq> [] \<and> int (length d') \<le> remaining_bytes artifact" if "display = Some d'" for d'
      using d that capture_display_iff by (auto split: if_splits)
    ultimately show ?thesis unfolding ok_artifacts_def by blast
  qed
  then show ?thesis unfolding ok_captures_def r using cr w by auto
qed

subsection \<open>The contract of an outcome\<close>

definition ok_outcome :: "ProblemRecord \<Rightarrow> int \<Rightarrow> SandboxExecutionOutcome \<Rightarrow> bool" where
  "ok_outcome record limit r \<longleftrightarrow>
     int (length (so_stdout r) + length (so_stderr r)) \<le> limit * 4 \<and> 0 \<le> so_duration_ms r
     \<and> (so_timed_out r \<longleftrightarrow> so_status r = TIMED_OUT)
     \<and> (case so_status r of
          COMPLETED \<Rightarrow> so_exit_code r \<noteq> None \<and> \<not> so_truncated r \<and> so_error r = None
        | TIMED_OUT \<Rightarrow> True
        | OUTPUT_LIMIT \<Rightarrow> so_truncated r
        | ERROR \<Rightarrow> \<not> so_truncated r \<and> so_error r \<noteq> None)
     \<and> (so_status r \<noteq> COMPLETED \<longrightarrow> so_artifact r = None \<and> so_display_artifact r = None)
     \<and> ok_artifacts record (so_artifact r) (so_display_artifact r)"

lemma duration_nonneg [simp]: "0 \<le> duration_ms now t"
  by (simp add: duration_ms_def)

lemma ok_artifacts_None [simp]: "ok_artifacts record None None"
  by (simp add: ok_artifacts_def)

lemma error_outcome_ok: "0 \<le> limit \<Longrightarrow> ok_outcome record limit (error_outcome e now t)"
  by (simp add: ok_outcome_def error_outcome_def)

lemma cleanup_reason [simp]: "cr_reason (fst (cleanup_stop k id w)) = wd_reason w"
  by (simp add: cleanup_stop_def finish_def Let_def)

lemma end_reason_cases:
  obtains "r = None" | "r = Some Reason_timeout" | "r = Some Reason_output_limit"
  using end_reason.exhaust option.exhaust by metis

definition final_status :: "container_run \<Rightarrow> CapturedCommandOutput \<Rightarrow> watchdog \<Rightarrow> ExecutionStatus \<times> exn option" where
  "final_status run out w =
     outcome_status (wd_reason w) (or_else (cc_error out) (cr_error (fst (cleanup_stop (cn_final_kill run) id w))))
       (cc_exit_code out)"

lemma finish_outcome_simps:
  "so_status (fst (finish_outcome run (out, a, d, w) t)) = fst (final_status run out w)"
  "so_error (fst (finish_outcome run (out, a, d, w) t)) = snd (final_status run out w)"
  "so_stdout (fst (finish_outcome run (out, a, d, w) t)) = cc_stdout out"
  "so_stderr (fst (finish_outcome run (out, a, d, w) t)) = cc_stderr out"
  "so_exit_code (fst (finish_outcome run (out, a, d, w) t)) = cc_exit_code out"
  "so_truncated (fst (finish_outcome run (out, a, d, w) t)) = cc_truncated out"
  "so_timed_out (fst (finish_outcome run (out, a, d, w) t)) = (fst (final_status run out w) = TIMED_OUT)"
  "so_duration_ms (fst (finish_outcome run (out, a, d, w) t)) = duration_ms (cn_now run) t"
  "so_artifact (fst (finish_outcome run (out, a, d, w) t)) =
     (if fst (final_status run out w) = COMPLETED then a else None)"
  "so_display_artifact (fst (finish_outcome run (out, a, d, w) t)) =
     (if fst (final_status run out w) = COMPLETED then d else None)"
  "snd (finish_outcome run (out, a, d, w) t) = cr_container_stopped (fst (cleanup_stop (cn_final_kill run) id w))"
  by (simp_all add: finish_outcome_def final_status_def Let_def split_def)

lemma final_status_cases:
  "wd_reason w = Some Reason_timeout \<Longrightarrow> fst (final_status run out w) = TIMED_OUT"
  "wd_reason w = Some Reason_output_limit \<Longrightarrow> fst (final_status run out w) = OUTPUT_LIMIT"
  "wd_reason w = None \<Longrightarrow>
     (fst (final_status run out w) = ERROR \<and> snd (final_status run out w) \<noteq> None)
     \<or> (fst (final_status run out w) = COMPLETED \<and> snd (final_status run out w) = None
        \<and> cc_exit_code out \<noteq> None)"
  by (simp_all add: final_status_def outcome_status_def)

lemma finish_outcome_ok:
  assumes "ok_captures record limit (out, a, d, w)"
  shows "ok_outcome record limit (fst (finish_outcome run (out, a, d, w) t))"
proof -
  note ok = assms [unfolded ok_captures_def, simplified]
  show ?thesis
  proof (cases rule: end_reason_cases [of "wd_reason w"])
    case 1
    then show ?thesis
      using ok final_status_cases(3) [OF 1, of run out] unfolding ok_outcome_def finish_outcome_simps
      by (elim disjE conjE) simp_all
  next
    case 2
    then show ?thesis using ok final_status_cases(1) [OF 2, of run out]
      unfolding ok_outcome_def finish_outcome_simps by simp
  next
    case 3
    then show ?thesis using ok final_status_cases(2) [OF 3, of run out]
      unfolding ok_outcome_def finish_outcome_simps by simp
  qed
qed

lemma execute_in_container_ok:
  assumes e: "execute_in_container run record shellgei limit t = Inr (r, stopped)"
    and "1 \<le> limit" and "ok_judge record"
  shows "ok_outcome record limit r"
proof -
  from e obtain out artifact display w where
    c: "run_captures run record limit new_watchdog = Inr (out, artifact, display, w)"
    and r: "finish_outcome run (out, artifact, display, w) t = (r, stopped)"
    unfolding execute_in_container_def rbind_eq_Inr by auto
  have "ok_captures record limit (out, artifact, display, w)"
    by (rule run_captures_ok [OF c assms(2,3)])
  from finish_outcome_ok [OF this, of run t] show ?thesis by (simp add: r)
qed

text \<open>A container counts as stopped only if the one kill that was made succeeded.\<close>

lemma cleanup_stopped_iff:
  "cr_container_stopped (fst (cleanup_stop k id w)) =
     (if wd_reason w = None then k = None else wd_termination_error w = None)"
  by (simp add: cleanup_stop_def finish_def Let_def)

subsection \<open>Borrowing and returning the container\<close>

datatype acquisition_error = SandboxAcquisitionError exn

text \<open>
  \<open>execute\<close> over the manager's two operations: \<open>get\<close> and \<open>release\<close> act on the manager's state,
  \<open>runs\<close> gives the replies of the container that \<open>get\<close> hands out.
\<close>

definition sandbox_execute ::
  "('s \<Rightarrow> (exn + 'c) \<times> 's) \<Rightarrow> ('c \<Rightarrow> bool \<Rightarrow> 's \<Rightarrow> 's) \<Rightarrow> ('c \<Rightarrow> container_run) \<Rightarrow>
     ProblemRecord \<Rightarrow> pystr \<Rightarrow> int \<Rightarrow> int \<Rightarrow> 's \<Rightarrow> (acquisition_error + SandboxExecutionOutcome) \<times> 's" where
  "sandbox_execute get release runs record shellgei limit_chars started_at s =
     (case get s of
        (Inl e, s1) \<Rightarrow> (Inl (SandboxAcquisitionError e), s1)
      | (Inr container, s1) \<Rightarrow>
          (let run = runs container in
           case execute_in_container run record shellgei limit_chars started_at of
             Inl e \<Rightarrow> (Inr (error_outcome e (cn_now run) started_at), release container False s1)
           | Inr (outcome, container_stopped) \<Rightarrow>
               (Inr outcome, release container container_stopped s1)))"

locale container_pool =
  fixes get :: "'s \<Rightarrow> (exn + 'c) \<times> 's"
    and release :: "'c \<Rightarrow> bool \<Rightarrow> 's \<Rightarrow> 's"
    and inv :: "'s \<Rightarrow> bool"
    and leased :: "'s \<Rightarrow> 'c set"
    and discarded :: "'s \<Rightarrow> 'c \<Rightarrow> 's \<Rightarrow> bool"
  assumes get_inv: "inv s \<Longrightarrow> inv (snd (get s))"
    and get_ok: "inv s \<Longrightarrow> get s = (Inr c, s') \<Longrightarrow> c \<notin> leased s \<and> leased s' = insert c (leased s)"
    and get_fail: "inv s \<Longrightarrow> get s = (Inl e, s') \<Longrightarrow> leased s' = leased s"
    and release_inv: "inv s \<Longrightarrow> c \<in> leased s \<Longrightarrow> inv (release c stopped s)"
    and release_leased: "inv s \<Longrightarrow> c \<in> leased s \<Longrightarrow> leased (release c stopped s) = leased s - {c}"
    and release_discards: "inv s \<Longrightarrow> c \<in> leased s \<Longrightarrow> discarded s c (release c stopped s)"
begin

lemma execute_returns:
  assumes "inv s"
  shows "inv (snd (sandbox_execute get release runs record shellgei limit t s))
    \<and> leased (snd (sandbox_execute get release runs record shellgei limit t s)) = leased s"
proof (cases "get s")
  case (Pair res s1)
  show ?thesis
  proof (cases res)
    case (Inl e)
    then show ?thesis using Pair assms get_inv [OF assms] get_fail [OF assms, of e s1]
      by (simp add: sandbox_execute_def)
  next
    case (Inr c)
    have l: "c \<notin> leased s" "leased s1 = insert c (leased s)" and i: "inv s1"
      using Pair Inr get_ok [OF assms, of c s1] get_inv [OF assms] by auto
    then have "inv (release c b s1) \<and> leased (release c b s1) = leased s" for b
      using release_inv [OF i] release_leased [OF i] by auto
    then show ?thesis using Pair Inr
      by (simp add: sandbox_execute_def Let_def split: sum.splits)
  qed
qed

lemma execute_discards:
  assumes "inv s" and "get s = (Inr c, s1)"
  shows "discarded s1 c (snd (sandbox_execute get release runs record shellgei limit t s))"
proof -
  have "inv s1" "c \<in> leased s1" using get_inv [OF assms(1)] get_ok [OF assms] assms(2) by auto
  then have "discarded s1 c (release c b s1)" for b by (rule release_discards)
  then show ?thesis using assms(2) by (simp add: sandbox_execute_def Let_def split: sum.splits)
qed

end

lemma sandbox_execute_ok:
  assumes "fst (sandbox_execute get release runs record shellgei limit t s) = Inr r"
    and "1 \<le> limit" and "ok_judge record"
  shows "ok_outcome record limit r"
  using assms error_outcome_ok [where limit = limit] execute_in_container_ok [OF _ assms(2,3)]
  by (auto simp: sandbox_execute_def Let_def split: prod.splits sum.splits)

end
