(* ===== verification/Run_Shellgei.thy ===== *)
theory Run_Shellgei
  imports Sandbox_Executor
begin

section \<open>The runner's entry point\<close>

text \<open>
  \<open>ShellgeiDockerClient\<close> of \<open>soj_runner/run_shellgei.py\<close>: decoding of the captured bytes, the
  conversion of an outcome into an \<open>ExecutionResult\<close> that passes its own validators, and the error
  path of every failure. \<open>run_with_timeout\<close> and its semaphore are in the theory \<open>Slots\<close>.
\<close>

definition make_error_result :: "pystr \<Rightarrow> int \<Rightarrow> ExecutionResult" where
  "make_error_result message duration =
     \<lparr>er_status = ERROR, er_stdout = [], er_stderr = [], er_exit_code = None, er_timed_out = False,
      er_truncated = False, er_duration_ms = duration, er_artifact = None,
      er_error = Some (slice_to (int MAX_EXECUTION_ERROR_CHARS) message), er_display_artifact = None\<rparr>"

definition error_result :: "pystr \<Rightarrow> value_error + ExecutionResult" where
  "error_result message = new_ExecutionResult (make_error_result message 0)"

definition decode_output :: "SandboxExecutionOutcome \<Rightarrow> int \<Rightarrow> pystr \<times> pystr \<times> bool" where
  "decode_output outcome limit_chars =
     (let stdout = utf8_decode_ignore (so_stdout outcome);
          stderr = utf8_decode_ignore (so_stderr outcome);
          stdout_limited = slice_to limit_chars stdout;
          stderr_limit = max 0 (limit_chars - int (length stdout_limited));
          stderr_limited = slice_to stderr_limit stderr;
          truncated = (so_truncated outcome \<or> length stdout_limited < length stdout
                       \<or> length stderr_limited < length stderr)
      in (stdout_limited, stderr_limited, truncated))"

definition opt_bind :: "'a option \<Rightarrow> ('a \<Rightarrow> value_error + 'b) \<Rightarrow> value_error + 'b option" where
  "opt_bind x f = (case x of None \<Rightarrow> Inr None | Some a \<Rightarrow> rbind (f a) (\<lambda>b. Inr (Some b)))"

definition judge_artifact_result ::
  "ExecutionStatus \<Rightarrow> ProblemRecord \<Rightarrow> bytes option \<Rightarrow> value_error + ExecutionArtifact option" where
  "judge_artifact_result status record artifact =
     (case pd_judge (pr_definition record) of
        ImageJudge spec \<Rightarrow>
          (if status = COMPLETED
           then opt_bind artifact (\<lambda>a. new_ExecutionArtifact (ia_path spec) (ia_media_type spec) (b64encode a))
           else Inr None)
      | TextJudge _ \<Rightarrow> Inr None)"

definition display_artifact_result ::
  "ExecutionStatus \<Rightarrow> bytes option \<Rightarrow> value_error + ExecutionArtifact option" where
  "display_artifact_result status artifact =
     (if status = COMPLETED
      then opt_bind artifact (\<lambda>a. new_ExecutionArtifact DISPLAY_GIF_PATH Image_gif (b64encode a))
      else Inr None)"

definition error_field :: "ExecutionStatus \<Rightarrow> exn option \<Rightarrow> pystr option" where
  "error_field status error =
     (if status = ERROR
      then Some (slice_to (int MAX_EXECUTION_ERROR_CHARS)
             (if no_error_text error then lit ''sandbox execution failed'' else the error))
      else map_option (slice_to (int MAX_EXECUTION_ERROR_CHARS)) error)"

definition to_execution_result ::
  "SandboxExecutionOutcome \<Rightarrow> ProblemRecord \<Rightarrow> int \<Rightarrow> value_error + ExecutionResult" where
  "to_execution_result outcome record limit_chars =
     (let (stdout, stderr, truncated) = decode_output outcome limit_chars;
          status = (if truncated \<and> so_status outcome = COMPLETED then OUTPUT_LIMIT else so_status outcome)
      in rbind (judge_artifact_result status record (so_artifact outcome)) (\<lambda>artifact.
         rbind (display_artifact_result status (so_display_artifact outcome)) (\<lambda>display_artifact.
         new_ExecutionResult
           \<lparr>er_status = status, er_stdout = stdout, er_stderr = stderr,
            er_exit_code = so_exit_code outcome, er_timed_out = so_timed_out outcome,
            er_truncated = truncated, er_duration_ms = so_duration_ms outcome, er_artifact = artifact,
            er_error = error_field status (so_error outcome), er_display_artifact = display_artifact\<rparr>)))"

text \<open>
  \<open>exec_shellgei\<close>; \<open>execute\<close> is the sandbox executor with the container manager's state, \<open>str_error\<close>
  the text of a validator's exception. An exception that escapes is the left summand.
\<close>

definition exec_shellgei ::
  "(value_error \<Rightarrow> pystr) \<Rightarrow> (pystr \<Rightarrow> ProblemRecord option) \<Rightarrow>
   (ProblemRecord \<Rightarrow> pystr \<Rightarrow> int \<Rightarrow> 's \<Rightarrow> (acquisition_error + SandboxExecutionOutcome) \<times> 's) \<Rightarrow>
   pystr \<Rightarrow> pystr \<Rightarrow> int \<Rightarrow> 's \<Rightarrow> (value_error + ExecutionResult) \<times> 's" where
  "exec_shellgei str_error repository execute shellgei problem_id limit_str s =
     (case validate_problem_id problem_id of
        Inl _ \<Rightarrow> (error_result (lit ''invalid problem ID''), s)
      | Inr _ \<Rightarrow>
          (case repository problem_id of
             None \<Rightarrow> (error_result (lit ''problem not found''), s)
           | Some record \<Rightarrow>
               (case execute record shellgei limit_str s of
                  (Inl (SandboxAcquisitionError e), s') \<Rightarrow>
                    (error_result (lit ''failed to get container: '' @ e), s')
                | (Inr outcome, s') \<Rightarrow>
                    (case to_execution_result outcome record limit_str of
                       Inr r \<Rightarrow> (Inr r, s')
                     | Inl e \<Rightarrow> (error_result (str_error e), s')))))"

subsection \<open>Error results\<close>

lemma error_result_iff: "error_result m = Inr r \<longleftrightarrow> m \<noteq> [] \<and> r = make_error_result m 0"
proof -
  have "consistent (make_error_result m 0) \<longleftrightarrow> m \<noteq> []"
    by (auto simp: consistent_def make_error_result_def ok_status_def artifacts_of_def
        MAX_EXECUTION_ERROR_CHARS_def)
  then show ?thesis by (auto simp: error_result_def new_ExecutionResult_iff)
qed

lemma error_result_ok: "m \<noteq> [] \<Longrightarrow> error_result m = Inr (make_error_result m 0)"
  by (simp add: error_result_iff)

subsection \<open>Outcomes become valid results\<close>

lemma decode_output_bounds:
  assumes "decode_output o' limit = (out, err, truncated)" and "0 \<le> limit"
  shows "int (length out + length err) \<le> limit"
    and "truncated \<longleftrightarrow> so_truncated o' \<or>
      int (length (utf8_decode_ignore (so_stdout o')) + length (utf8_decode_ignore (so_stderr o'))) > limit"
    and "\<not> truncated \<Longrightarrow> out = utf8_decode_ignore (so_stdout o') \<and> err = utf8_decode_ignore (so_stderr o')"
proof -
  let ?o = "utf8_decode_ignore (so_stdout o')" and ?e = "utf8_decode_ignore (so_stderr o')"
  have out: "out = take (nat limit) ?o" and err: "err = take (nat limit - length out) ?e"
    and tr: "truncated \<longleftrightarrow> so_truncated o' \<or> length out < length ?o \<or> length err < length ?e"
    using assms by (auto simp: decode_output_def Let_def slice_to_def nat_diff_distrib)
  obtain n where n: "limit = int n" using assms(2) nonneg_int_cases by blast
  show "int (length out + length err) \<le> limit" using out err n by (auto simp: min_def)
  show "truncated \<longleftrightarrow> so_truncated o' \<or> int (length ?o + length ?e) > limit"
    unfolding tr using out err assms(2) by auto
  show "\<not> truncated \<Longrightarrow> out = ?o \<and> err = ?e" unfolding tr out err by auto
qed

lemma b64_length_bound: "int (length (b64encode a)) = 4 * ((int (length a) + 2) div 3)"
  by (simp add: length_b64encode zdiv_int)

lemma used_chars_b64: "used_chars (Some a) = int (length (b64encode a))" "used_chars None = 0"
  by (simp_all add: used_chars_def b64_length_bound)

lemma remaining_bytes_b64:
  assumes "int (length d) \<le> remaining_bytes artifact" and "used_chars artifact \<le> 1000000"
  shows "int (length (b64encode d)) + used_chars artifact \<le> 1000000"
proof -
  let ?u = "(int (case artifact of None \<Rightarrow> 0 | Some a \<Rightarrow> length a) + 2) div 3"
  have u: "used_chars artifact = 4 * ?u" by (simp add: used_chars_def)
  have r: "remaining_bytes artifact = (1000000 - 4 * ?u) div 4 * 3"
    by (simp add: remaining_bytes_def u MAX_RUNNER_IMAGE_BASE64_CHARS_def)
  have "(1000000 - 4 * ?u) div 4 = 250000 - ?u" by simp
  then have "int (length d) \<le> (250000 - ?u) * 3" using assms(1) r by simp
  moreover have "x \<le> (250000 - u) * 3 \<Longrightarrow> (x + 2) div 3 \<le> 250000 - u" for x u :: int by presburger
  ultimately have "(int (length d) + 2) div 3 \<le> 250000 - ?u" by blast
  then show ?thesis unfolding u b64_length_bound by linarith
qed

lemma ok_artifact_b64:
  assumes "int (length a) \<le> ia_max_bytes spec" and "ok_artifact spec"
  shows "int (length (b64encode a)) \<le> 1000000"
proof -
  have "x \<le> m \<Longrightarrow> m \<le> 750000 \<Longrightarrow> 4 * ((x + 2) div 3) \<le> 1000000" for x m :: int by presburger
  then show ?thesis using assms unfolding b64_length_bound ok_artifact_def by blast
qed

lemma judge_artifact_result_ok:
  assumes "ok_judge rec" and "ok_artifacts rec a d"
  shows "\<exists>r. judge_artifact_result status rec a = Inr r
    \<and> (\<forall>x. r = Some x \<longrightarrow> (\<exists>b. a = Some b \<and> art_data x = b64encode b
          \<and> int (length (b64encode b)) \<le> 1000000))
    \<and> (status \<noteq> COMPLETED \<or> a = None \<longrightarrow> r = None)"
proof (cases "pd_judge (pr_definition rec)")
  case (ImageJudge spec)
  have spec: "ok_artifact spec" using assms(1) ImageJudge by (simp add: ok_judge_def)
  show ?thesis
  proof (cases "status = COMPLETED \<and> a \<noteq> None")
    case True
    then obtain b where b: "a = Some b" by blast
    then have "int (length b) \<le> ia_max_bytes spec" using assms(2) ImageJudge by (simp add: ok_artifacts_def)
    then have len: "int (length (b64encode b)) \<le> 1000000" using spec by (rule ok_artifact_b64)
    then have "new_ExecutionArtifact (ia_path spec) (ia_media_type spec) (b64encode b) =
        Inr \<lparr>art_path = ia_path spec, art_media_type = ia_media_type spec, art_data = b64encode b\<rparr>"
      using spec by (simp add: new_ExecutionArtifact_iff ok_artifact_def)
    then show ?thesis using True b ImageJudge len by (simp add: judge_artifact_result_def opt_bind_def)
  qed (auto simp: judge_artifact_result_def opt_bind_def ImageJudge)
qed (simp add: judge_artifact_result_def)

lemma display_artifact_result_ok:
  assumes "\<forall>b. d = Some b \<longrightarrow> int (length (b64encode b)) \<le> 1000000"
  shows "\<exists>r. display_artifact_result status d = Inr r
    \<and> (\<forall>x. r = Some x \<longrightarrow> (\<exists>b. d = Some b \<and> art_data x = b64encode b)
          \<and> art_path x = DISPLAY_GIF_PATH \<and> art_media_type x = Image_gif)
    \<and> (status \<noteq> COMPLETED \<or> d = None \<longrightarrow> r = None)"
proof (cases "status = COMPLETED \<and> d \<noteq> None")
  case True
  then obtain b where b: "d = Some b" by blast
  have "length DISPLAY_GIF_PATH \<le> 255" by (simp add: DISPLAY_GIF_PATH_def)
  then have "new_ExecutionArtifact DISPLAY_GIF_PATH Image_gif (b64encode b) =
      Inr \<lparr>art_path = DISPLAY_GIF_PATH, art_media_type = Image_gif, art_data = b64encode b\<rparr>"
    using assms b by (simp add: new_ExecutionArtifact_iff display_path_relative)
  then show ?thesis using True b by (simp add: display_artifact_result_def opt_bind_def)
qed (auto simp: display_artifact_result_def opt_bind_def)

lemma artifact_sizes:
  assumes "ok_judge rec" and "ok_artifacts rec a d"
  shows "used_chars a \<le> 1000000"
    and "d = Some b \<Longrightarrow> int (length (b64encode b)) + used_chars a \<le> 1000000"
proof -
  show u: "used_chars a \<le> 1000000"
  proof (cases a)
    case (Some b)
    then obtain spec where "pd_judge (pr_definition rec) = ImageJudge spec" "int (length b) \<le> ia_max_bytes spec"
      using assms(2) by (auto simp: ok_artifacts_def)
    then show ?thesis using assms(1) ok_artifact_b64 [of b spec] Some
      by (simp add: ok_judge_def used_chars_b64)
  qed (simp add: used_chars_b64)
  show "d = Some b \<Longrightarrow> int (length (b64encode b)) + used_chars a \<le> 1000000"
    using assms(2) u by (intro remaining_bytes_b64) (auto simp: ok_artifacts_def)
qed

lemma used_chars_nonneg: "0 \<le> used_chars a"
  by (simp add: used_chars_def)

lemma error_field_ok:
  "\<forall>e. error_field status error = Some e \<longrightarrow> length e \<le> 1000"
  "\<exists>e. error_field ERROR error = Some e \<and> e \<noteq> []"
  "status \<noteq> ERROR \<Longrightarrow> error_field status None = None"
proof -
  show "\<forall>e. error_field status error = Some e \<longrightarrow> length e \<le> 1000"
    by (auto simp: error_field_def MAX_EXECUTION_ERROR_CHARS_def split: if_splits)
  have "take 1000 x \<noteq> []" if "x \<noteq> []" for x :: pystr using that by simp
  then show "\<exists>e. error_field ERROR error = Some e \<and> e \<noteq> []"
    by (cases error) (auto simp: error_field_def MAX_EXECUTION_ERROR_CHARS_def no_error_text_def)
  show "status \<noteq> ERROR \<Longrightarrow> error_field status None = None" by (simp add: error_field_def)
qed

definition result_status :: "bool \<Rightarrow> SandboxExecutionOutcome \<Rightarrow> ExecutionStatus" where
  "result_status truncated outcome =
     (if truncated \<and> so_status outcome = COMPLETED then OUTPUT_LIMIT else so_status outcome)"

lemma result_status_ok:
  assumes "ok_outcome rec limit o'" and "so_truncated o' \<longrightarrow> truncated"
    and "er_status r = result_status truncated o'" and "er_exit_code r = so_exit_code o'"
    and "er_timed_out r = so_timed_out o'" and "er_truncated r = truncated"
    and "er_error r = error_field (result_status truncated o') (so_error o')"
  shows "ok_status r"
  using assms error_field_ok(2) [of "so_error o'"]
  by (cases "so_status o'")
    (auto simp: ok_outcome_def ok_status_def result_status_def error_field_ok(3))

text \<open>The central fact of the runner: no outcome of the sandbox layer is rejected by the result type.\<close>

lemma to_execution_result_total:
  assumes ok: "ok_outcome rec n o'" and judge: "ok_judge rec" and limit: "0 \<le> limit" "limit \<le> 1000"
  shows "\<exists>r. to_execution_result o' rec limit = Inr r \<and> consistent r"
proof -
  obtain out err truncated where d: "decode_output o' limit = (out, err, truncated)"
    by (cases "decode_output o' limit") auto
  define status where "status = result_status truncated o'"
  note db = decode_output_bounds [OF d limit(1)]
  have art: "ok_artifacts rec (so_artifact o') (so_display_artifact o')" using ok by (simp add: ok_outcome_def)
  note sizes = artifact_sizes [OF judge art]
  obtain a where a: "judge_artifact_result status rec (so_artifact o') = Inr a"
    and ax: "\<And>x. a = Some x \<Longrightarrow> \<exists>b. so_artifact o' = Some b \<and> art_data x = b64encode b
          \<and> int (length (b64encode b)) \<le> 1000000"
    and an: "status \<noteq> COMPLETED \<Longrightarrow> a = None"
    using judge_artifact_result_ok [OF judge art, of status] by blast
  have "int (length (b64encode b)) \<le> 1000000" if "so_display_artifact o' = Some b" for b
    using sizes(2) [OF that] used_chars_nonneg [of "so_artifact o'"] by linarith
  then obtain ds where ds: "display_artifact_result status (so_display_artifact o') = Inr ds"
    and dx: "\<And>x. ds = Some x \<Longrightarrow> (\<exists>b. so_display_artifact o' = Some b \<and> art_data x = b64encode b)
          \<and> art_path x = DISPLAY_GIF_PATH \<and> art_media_type x = Image_gif"
    and dn: "status \<noteq> COMPLETED \<Longrightarrow> ds = None"
    using display_artifact_result_ok [of "so_display_artifact o'" status] by blast
  define r where "r = \<lparr>er_status = status, er_stdout = out, er_stderr = err,
      er_exit_code = so_exit_code o', er_timed_out = so_timed_out o', er_truncated = truncated,
      er_duration_ms = so_duration_ms o', er_artifact = a, er_error = error_field status (so_error o'),
      er_display_artifact = ds\<rparr>"
  have "int (sum_list (map (length \<circ> art_data) (artifacts_of r))) \<le> 1000000"
  proof (cases a)
    case None
    then show ?thesis using dx sizes(2) used_chars_nonneg [of "so_artifact o'"]
      by (cases ds) (force simp: artifacts_of_def r_def)+
  next
    case (Some x)
    then obtain b where b: "so_artifact o' = Some b" "art_data x = b64encode b"
      "int (length (b64encode b)) \<le> 1000000" using ax by blast
    then show ?thesis using Some dx sizes(2)
      by (cases ds) (force simp: artifacts_of_def r_def used_chars_b64)+
  qed
  moreover have "ok_status r"
    by (rule result_status_ok [OF ok, of truncated]) (use db(2) in \<open>simp_all add: r_def status_def\<close>)
  moreover have "0 \<le> er_duration_ms r" using ok by (simp add: r_def ok_outcome_def)
  ultimately have "consistent r"
    using db(1) limit(2) error_field_ok(1) [of status "so_error o'"] dx an dn
    by (auto simp: consistent_def r_def)
  moreover have st: "(if truncated \<and> so_status o' = COMPLETED then OUTPUT_LIMIT else so_status o') = status"
    by (simp only: status_def result_status_def)
  moreover have "to_execution_result o' rec limit = new_ExecutionResult r"
    unfolding to_execution_result_def d Let_def prod.case st a ds rbind_simps r_def by (rule refl)
  ultimately have "to_execution_result o' rec limit = Inr r" "consistent r"
    by (simp_all add: new_ExecutionResult_iff)
  then show ?thesis by blast
qed

subsection \<open>The entry point\<close>

lemma exec_shellgei_total:
  assumes "\<And>p rec. repository p = Some rec \<Longrightarrow> ok_judge rec" and "1 \<le> limit" "limit \<le> 1000"
  shows "\<exists>r. fst (exec_shellgei str_error repository
      (\<lambda>rec sh l. sandbox_execute get release runs rec sh l t) shellgei problem_id limit s) = Inr r
    \<and> consistent r"
proof -
  have err: "\<exists>r. error_result m = Inr r \<and> consistent r" if "m \<noteq> []" for m
    using error_result_ok [OF that] new_ExecutionResult_iff unfolding error_result_def by blast
  have lits: "lit ''invalid problem ID'' \<noteq> []" "lit ''problem not found'' \<noteq> []"
    "lit ''failed to get container: '' @ e \<noteq> []" for e by simp_all
  show ?thesis
  proof (cases "validate_problem_id problem_id")
    case (Inl e)
    then show ?thesis using err [OF lits(1)] by (simp add: exec_shellgei_def)
  next
    case (Inr p)
    show ?thesis
    proof (cases "repository problem_id")
      case None
      then show ?thesis using Inr err [OF lits(2)] by (simp add: exec_shellgei_def)
    next
      case (Some rec)
      obtain res s' where x: "sandbox_execute get release runs rec shellgei limit t s = (res, s')"
        by (cases "sandbox_execute get release runs rec shellgei limit t s")
      show ?thesis
      proof (cases res)
        case (Inl e)
        then show ?thesis using \<open>validate_problem_id problem_id = Inr p\<close> Some x err [OF lits(3)]
          by (cases e) (simp add: exec_shellgei_def)
      next
        case (Inr outcome)
        have "ok_outcome rec limit outcome"
          using sandbox_execute_ok [of get release runs rec shellgei limit t s outcome] x Inr assms(1,2) Some
          by simp
        then obtain r where "to_execution_result outcome rec limit = Inr r" "consistent r"
          using to_execution_result_total [of rec limit outcome limit] assms Some by auto
        then show ?thesis using \<open>validate_problem_id problem_id = Inr p\<close> Some x Inr
          by (simp add: exec_shellgei_def)
      qed
    qed
  qed
qed

text \<open>Output within the character limit is never cut, whatever the UTF-8 length of its characters.\<close>

lemma no_overflow_within_limit:
  assumes "utf8_encode out = Some (printed False st)" and "utf8_encode err = Some (printed True st)"
    and "int (length out + length err) \<le> limit"
  shows "\<not> overflows limit st"
  using utf8_encode_length [OF assms(1)] utf8_encode_length [OF assms(2)] assms(3)
  by (simp add: overflows_def)

lemma run_captures_completed:
  assumes start: "exec_start (cn_exec run) = Inr (eid, st)" and raise: "xs_raise st = None" "xs_close st = None"
    and exit: "inspect_exit_code (cn_exec run) = Inr (Some code)"
    and no: "\<not> overflows limit st" and timer: "cn_timer run = None" and limit: "1 \<le> limit"
    and judge: "ok_judge rec"
  shows "\<exists>out a d. run_captures run rec limit new_watchdog = Inr (out, a, d, new_watchdog)
    \<and> cc_stdout out = printed False st \<and> cc_stderr out = printed True st
    \<and> cc_exit_code out = Some code \<and> \<not> cc_truncated out \<and> cc_error out = None"
proof -
  have tick: "tick run s w = w" for s w using timer by (simp add: tick_def)
  from capture_started [OF limit _ start, of new_watchdog "tick run After_capture_check" "cn_overflow_kill run"]
  obtain out where out: "capture_command_output (cn_exec run) (tick run After_capture_check) (cn_overflow_kill run)
      limit new_watchdog = Inr (out, new_watchdog)"
    "cc_stdout out = printed False st" "cc_stderr out = printed True st" "\<not> cc_truncated out"
    "cc_exit_code out = Some code" "cc_error out = None"
    using no raise exit by (auto simp: tick)
  obtain a where a: "(case pd_judge (pr_definition rec) of
              ImageJudge spec \<Rightarrow>
                (if wd_reason new_watchdog = None \<and> cc_error out = None
                 then capture_artifact (cn_artifact run) (ia_max_bytes spec) else Inr None)
            | TextJudge _ \<Rightarrow> Inr None) = Inr a"
  proof (cases "pd_judge (pr_definition rec)")
    case (ImageJudge spec)
    then have "0 \<le> ia_max_bytes spec" using judge by (auto simp: ok_judge_def ok_artifact_def)
    then obtain r where "capture_artifact (cn_artifact run) (ia_max_bytes spec) = Inr r"
      using capture_artifact_total by blast
    then show ?thesis using that [of r] ImageJudge out(6) by simp
  qed (simp add: that)
  obtain d where d: "capture_display_artifact (cn_display run) (remaining_bytes a) = Inr d"
    using capture_display_total by blast
  have "run_captures run rec limit new_watchdog = Inr (out, a, d, new_watchdog)"
    unfolding run_captures_def tick Let_def out(1) rbind_simps prod.case a using out(6) d by simp
  then show ?thesis using out by blast
qed

lemma to_execution_result_fields:
  assumes "to_execution_result o' rec limit = Inr r" and "decode_output o' limit = (out, err, truncated)"
  shows "er_status r = result_status truncated o'" and "er_stdout r = out" and "er_stderr r = err"
    and "er_exit_code r = so_exit_code o'" and "er_truncated r = truncated"
    and "judge_artifact_result (er_status r) rec (so_artifact o') = Inr (er_artifact r)"
proof -
  have "er_status r = result_status truncated o' \<and> er_stdout r = out \<and> er_stderr r = err
      \<and> er_exit_code r = so_exit_code o' \<and> er_truncated r = truncated
      \<and> judge_artifact_result (er_status r) rec (so_artifact o') = Inr (er_artifact r)"
    using assms(1) unfolding to_execution_result_def assms(2) Let_def prod.case
      result_status_def [symmetric] rbind_eq_Inr new_ExecutionResult_iff by force
  then show "er_status r = result_status truncated o'" and "er_stdout r = out" and "er_stderr r = err"
    and "er_exit_code r = so_exit_code o'" and "er_truncated r = truncated"
    and "judge_artifact_result (er_status r) rec (so_artifact o') = Inr (er_artifact r)" by auto
qed

lemma completed_end_to_end:
  assumes prep: "prepare run shellgei (record_fixtures rec) = Inr ()"
    and start: "exec_start (cn_exec run) = Inr (eid, st)" and raise: "xs_raise st = None" "xs_close st = None"
    and exit: "inspect_exit_code (cn_exec run) = Inr (Some code)"
    and enc: "utf8_encode out = Some (printed False st)" "utf8_encode err = Some (printed True st)"
    and len: "int (length out + length err) \<le> limit" "1 \<le> limit" "limit \<le> 1000"
    and timer: "cn_timer run = None" and kill: "cn_final_kill run = None" and judge: "ok_judge rec"
  shows "\<exists>outcome r. execute_in_container run rec shellgei limit t = Inr (outcome, True)
    \<and> to_execution_result outcome rec limit = Inr r \<and> er_status r = COMPLETED
    \<and> er_stdout r = out \<and> er_stderr r = err \<and> er_exit_code r = Some code \<and> \<not> er_truncated r"
proof -
  from run_captures_completed [OF start raise exit no_overflow_within_limit [OF enc len(1)] timer len(2) judge]
  obtain cap a d where c: "run_captures run rec limit new_watchdog = Inr (cap, a, d, new_watchdog)"
    "cc_stdout cap = printed False st" "cc_stderr cap = printed True st" "cc_exit_code cap = Some code"
    "\<not> cc_truncated cap" "cc_error cap = None" by blast
  let ?f = "finish_outcome run (cap, a, d, new_watchdog) t"
  have "final_status run cap new_watchdog = (COMPLETED, None)"
    using c kill by (simp add: final_status_def outcome_status_def cleanup_stop_def finish_def Let_def)
  then have f: "so_status (fst ?f) = COMPLETED" "so_stdout (fst ?f) = printed False st"
    "so_stderr (fst ?f) = printed True st" "so_exit_code (fst ?f) = Some code" "\<not> so_truncated (fst ?f)"
    "snd ?f = True"
    using c kill by (simp_all add: finish_outcome_simps cleanup_stopped_iff)
  have e: "execute_in_container run rec shellgei limit t = Inr (fst ?f, True)"
    unfolding execute_in_container_def prep c(1) rbind_simps sum.inject
    by (simp only: prod_eq_iff fst_conv snd_conv f(6) simp_thms)
  have ok: "ok_outcome rec limit (fst ?f)" by (rule execute_in_container_ok [OF e len(2) judge])
  obtain r where r: "to_execution_result (fst ?f) rec limit = Inr r"
    using to_execution_result_total [OF ok judge _ len(3)] len(2) by auto
  have dec: "utf8_decode_ignore (printed False st) = out" "utf8_decode_ignore (printed True st) = err"
    using enc utf8_decode_encode by auto
  obtain x y tr where d: "decode_output (fst ?f) limit = (x, y, tr)" by (cases "decode_output (fst ?f) limit") auto
  have "0 \<le> limit" using len(2) by simp
  note db = decode_output_bounds [OF d this]
  have tr: "\<not> tr" using db(2) f(2,3,5) dec len(1) by simp
  note fs = to_execution_result_fields [OF r d]
  show ?thesis using e r fs db(3) [OF tr] tr f dec
    by (intro exI [of _ "fst ?f"] exI [of _ r]) (simp add: result_status_def)
qed

subsection \<open>Properties\<close>

text \<open>A concrete problem and a concrete execution, for the witnesses.\<close>

definition sample_problem :: ProblemDefinitionV3 where
  "sample_problem =
     \<lparr>pd_id = lit ''STANDARD-1'', pd_category = Cat_STANDARD,
      pd_title = \<lparr>lt_ja = lit ''t'', lt_en = lit ''t''\<rparr>,
      pd_statement = \<lparr>lt_ja = lit ''s'', lt_en = lit ''s''\<rparr>,
      pd_reference_solution = lit ''echo ok'',
      pd_execution = \<lparr>es_stdin = [], es_fixtures = [], es_exit_code = Exit_zero, es_stderr = Stderr_merge\<rparr>,
      pd_judge = TextJudge (lit ''ok'')\<rparr>"

definition sample_record :: ProblemRecord where
  "sample_record = \<lparr>pr_definition = sample_problem, pr_answer_image = [], pr_answer_image_base64 = []\<rparr>"

definition sample_stream :: exec_stream where
  "sample_stream = \<lparr>xs_items = [(Some [111], None), (Some [107, 10], Some [])], xs_raise = None, xs_close = None\<rparr>"

definition sample_run :: container_run where
  "sample_run =
     \<lparr>cn_setup = (\<lambda>_. Inr (Some 0)),
      cn_exec = \<lparr>xa_create = Inr (PDict [(lit ''Id'', PStr (lit ''e1''))]), xa_start = Inr sample_stream,
                 xa_exit_code = Inr (PInt 0)\<rparr>,
      cn_artifact = Inl [], cn_display = Inr (Chunks [] None), cn_timer = None, cn_timer_kill = None,
      cn_overflow_kill = None, cn_final_kill = None, cn_now = 5000000\<rparr>"

lemma sample_record_ok: "ok_judge sample_record"
  by (simp add: ok_judge_def sample_record_def sample_problem_def)

text \<open>C4: Whatever Docker answers in an execution and wherever the timeout falls, the runner's entry
  point returns a result that satisfies the whole contract of \<open>ExecutionResult\<close>: no validation
  error and no other exception escapes from \<open>exec_shellgei\<close> for a schema-checked problem.\<close>

theorem exec_shellgei_always_valid:
  assumes "\<And>p rec. repository p = Some rec \<Longrightarrow> ok_judge rec" and "1 \<le> limit" and "limit \<le> 1000"
  shows "\<exists>r. fst (exec_shellgei str_error repository
      (\<lambda>rec sh l. sandbox_execute get release runs rec sh l started_at) shellgei problem_id limit s) = Inr r
    \<and> new_ExecutionResult r = Inr r"
  unfolding new_ExecutionResult_iff simp_thms by (rule exec_shellgei_total) (rule assms, assumption?)+

theorem exec_shellgei_always_valid_witness:
  "\<exists>r. fst (exec_shellgei (\<lambda>_. []) (\<lambda>p. if p = lit ''STANDARD-1'' then Some sample_record else None)
      (\<lambda>rec sh l. sandbox_execute (\<lambda>n. (Inr n, Suc n)) (\<lambda>c b n. n) (\<lambda>c. sample_run) rec sh l 0)
      (lit ''echo ok'') (lit ''STANDARD-1'') 1000 (0::nat)) = Inr r
    \<and> new_ExecutionResult r = Inr r"
  by (rule exec_shellgei_always_valid) (auto simp: sample_record_ok split: if_splits)

text \<open>C5: A command that ends by itself within the limits is reported exactly: if its two streams are
  the UTF-8 encodings of texts of at most \<open>limit\<close> characters together, the result is completed with
  those two texts, its exit code and no truncation, and the container counts as stopped.\<close>

theorem completed_run_is_exact:
  assumes "prepare run shellgei (record_fixtures rec) = Inr ()"
    and "exec_start (cn_exec run) = Inr (eid, st)" and "xs_raise st = None" "xs_close st = None"
    and "inspect_exit_code (cn_exec run) = Inr (Some code)"
    and "utf8_encode out = Some (printed False st)" "utf8_encode err = Some (printed True st)"
    and "int (length out + length err) \<le> limit" "1 \<le> limit" "limit \<le> 1000"
    and "cn_timer run = None" and "cn_final_kill run = None" and "ok_judge rec"
  shows "\<exists>outcome r. execute_in_container run rec shellgei limit started_at = Inr (outcome, True)
    \<and> to_execution_result outcome rec limit = Inr r \<and> er_status r = COMPLETED
    \<and> er_stdout r = out \<and> er_stderr r = err \<and> er_exit_code r = Some code \<and> \<not> er_truncated r"
  by (rule completed_end_to_end [OF assms])

theorem completed_run_is_exact_witness:
  "\<exists>outcome r. execute_in_container sample_run sample_record (lit ''echo ok'') 1000 0 = Inr (outcome, True)
    \<and> to_execution_result outcome sample_record 1000 = Inr r \<and> er_status r = COMPLETED
    \<and> er_stdout r = [111, 107, 10] \<and> er_stderr r = [] \<and> er_exit_code r = Some 0 \<and> \<not> er_truncated r"
proof (rule completed_run_is_exact)
  show "prepare sample_run (lit ''echo ok'') (record_fixtures sample_record) = Inr ()"
    by (simp add: prepare_def sample_run_def record_fixtures_def sample_record_def sample_problem_def
        build_execution_archive_def add_text_file_def utf8_encode_def utf8_char_def lit_def)
  show "exec_start (cn_exec sample_run) = Inr (lit ''e1'', sample_stream)"
    by (simp add: exec_start_def sample_run_def)
  show "inspect_exit_code (cn_exec sample_run) = Inr (Some 0)"
    by (simp add: inspect_exit_code_def sample_run_def)
  show "utf8_encode [111, 107, 10] = Some (printed False sample_stream)"
    "utf8_encode [] = Some (printed True sample_stream)"
    by (simp_all add: printed_def sample_stream_def utf8_encode_def utf8_char_def)
qed (simp_all add: sample_stream_def sample_run_def sample_record_ok)

end
