(* ===== verification/Container_State.thy ===== *)
theory Container_State
  imports Validation
begin

section \<open>The state of the container manager and its atomic regions\<close>

text \<open>
  The fields of \<open>ContainerManager\<close> (\<open>soj_runner/container_manager.py\<close>) and one operation per
  region that the code executes under \<open>self.lock\<close>, on the bounded semaphore, or as one Docker
  call. Threads may interleave between regions; \<open>cm_step\<close> is that interleaving, and \<open>cm_inv\<close> the
  invariant that every region keeps. The record has four ghost fields, which the code does not
  store: \<open>cm_reserved\<close> (slots acquired by a creation that has not recorded its name yet),
  \<open>cm_freed\<close> (entries forgotten whose slot is about to be released), \<open>cm_live_names\<close> and \<open>cm_live\<close>
  (containers that may exist in Docker, known by name or by identifier) and \<open>cm_leased\<close> (handed
  out by \<open>get_container\<close> and not yet returned).
\<close>

type_synonym cid = pystr
type_synonym cname = pystr

record manager =
  cm_pool_size :: nat
  cm_pool :: "cid list"
  cm_managed :: "cid list"
  cm_pending :: "cname list"
  cm_slots :: nat
  cm_shutting_down :: bool
  cm_initialized :: bool
  cm_degraded :: bool
  cm_image_validated :: bool
  cm_has_client :: bool
  cm_reserved :: nat
  cm_freed :: nat
  cm_live_names :: "cname list"
  cm_live :: "cid list"
  cm_leased :: "cid list"

subsection \<open>The regions\<close>

definition acquire_slot :: "manager \<Rightarrow> bool \<times> manager" where
  "acquire_slot s =
     (if cm_slots s = 0 then (False, s)
      else (True, s\<lparr>cm_slots := cm_slots s - 1, cm_reserved := cm_reserved s + 1\<rparr>))"

definition add_pending :: "cname \<Rightarrow> manager \<Rightarrow> manager" where
  "add_pending n s = s\<lparr>cm_pending := n # cm_pending s, cm_reserved := cm_reserved s - 1\<rparr>"

text \<open>A create call may leave a container behind whatever it answers.\<close>

definition docker_create :: "cname \<Rightarrow> manager \<Rightarrow> manager" where
  "docker_create n s = s\<lparr>cm_live_names := n # cm_live_names s\<rparr>"

definition docker_gone_name :: "cname \<Rightarrow> manager \<Rightarrow> manager" where
  "docker_gone_name n s = s\<lparr>cm_live_names := removeAll n (cm_live_names s)\<rparr>"

definition docker_gone :: "cid \<Rightarrow> manager \<Rightarrow> manager" where
  "docker_gone c s = s\<lparr>cm_live := removeAll c (cm_live s)\<rparr>"

text \<open>\<open>_pending_names.discard(name); _managed[id] = container\<close>\<close>

definition adopt :: "cname \<Rightarrow> cid \<Rightarrow> manager \<Rightarrow> manager" where
  "adopt n c s = s\<lparr>cm_pending := removeAll n (cm_pending s), cm_managed := cm_managed s @ [c],
     cm_live_names := removeAll n (cm_live_names s), cm_live := c # cm_live s\<rparr>"

text \<open>The two halves of \<open>_forget_pending_name\<close> and \<open>_forget_removed_container\<close>.\<close>

definition forget_pending_entry :: "cname \<Rightarrow> manager \<Rightarrow> bool \<times> manager" where
  "forget_pending_entry n s =
     (if n \<in> set (cm_pending s)
      then (True, s\<lparr>cm_pending := removeAll n (cm_pending s), cm_freed := cm_freed s + 1\<rparr>)
      else (False, s))"

definition forget_managed_entry :: "cid \<Rightarrow> manager \<Rightarrow> bool \<times> manager" where
  "forget_managed_entry c s =
     (if c \<in> set (cm_managed s)
      then (True, s\<lparr>cm_managed := removeAll c (cm_managed s), cm_freed := cm_freed s + 1\<rparr>)
      else (False, s))"

text \<open>\<open>BoundedSemaphore.release\<close>, which raises \<open>ValueError\<close> above its initial value.\<close>

definition release_slot :: "manager \<Rightarrow> value_error + manager" where
  "release_slot s =
     (if cm_slots s \<ge> cm_pool_size s then Inl (ValueError ''Semaphore released too many times'')
      else Inr (s\<lparr>cm_slots := cm_slots s + 1, cm_freed := cm_freed s - 1\<rparr>))"

definition pool_append :: "cid \<Rightarrow> manager \<Rightarrow> manager" where
  "pool_append c s = s\<lparr>cm_pool := cm_pool s @ [c]\<rparr>"

definition pool_popleft :: "manager \<Rightarrow> manager" where
  "pool_popleft s = s\<lparr>cm_pool := tl (cm_pool s), cm_leased := hd (cm_pool s) # cm_leased s\<rparr>"

definition lease_new :: "cid \<Rightarrow> manager \<Rightarrow> manager" where
  "lease_new c s = s\<lparr>cm_leased := c # cm_leased s\<rparr>"

definition lease_end :: "cid \<Rightarrow> manager \<Rightarrow> manager" where
  "lease_end c s = s\<lparr>cm_leased := removeAll c (cm_leased s)\<rparr>"

definition start_shutdown :: "manager \<Rightarrow> manager" where
  "start_shutdown s = s\<lparr>cm_shutting_down := True, cm_pool := []\<rparr>"

definition mark_degraded :: "manager \<Rightarrow> manager" where
  "mark_degraded s = (if cm_shutting_down s then s else s\<lparr>cm_degraded := True\<rparr>)"

definition set_client :: "manager \<Rightarrow> manager" where
  "set_client s = s\<lparr>cm_has_client := True\<rparr>"

definition set_image_validated :: "manager \<Rightarrow> manager" where
  "set_image_validated s = s\<lparr>cm_image_validated := True\<rparr>"

definition set_initialized :: "manager \<Rightarrow> manager" where
  "set_initialized s = s\<lparr>cm_initialized := True\<rparr>"

lemmas region_defs = acquire_slot_def add_pending_def docker_create_def docker_gone_name_def
  docker_gone_def adopt_def forget_pending_entry_def forget_managed_entry_def release_slot_def
  pool_append_def pool_popleft_def lease_new_def lease_end_def start_shutdown_def
  mark_degraded_def set_client_def set_image_validated_def set_initialized_def

subsection \<open>Interleaving of the regions\<close>

text \<open>
  The guards are what the code's control flow guarantees where a thread enters the region: a name
  is recorded by the thread that holds a slot, an entry is forgotten after Docker has confirmed the
  removal, and so on. Names and identifiers are fresh (random UUIDs, Docker's identifiers).
\<close>

inductive cm_step :: "manager \<Rightarrow> manager \<Rightarrow> bool" where
  st_acquire: "acquire_slot s = (True, t) \<Longrightarrow> cm_step s t"
| st_add_pending: "0 < cm_reserved s \<Longrightarrow> n \<notin> set (cm_pending s) \<Longrightarrow> cm_step s (add_pending n s)"
| st_create: "n \<in> set (cm_pending s) \<Longrightarrow> cm_step s (docker_create n s)"
| st_gone_name: "cm_step s (docker_gone_name n s)"
| st_gone: "cm_step s (docker_gone c s)"
| st_adopt: "n \<in> set (cm_pending s) \<Longrightarrow>
    c \<notin> set (cm_managed s) \<union> set (cm_leased s) \<union> set (cm_pool s) \<Longrightarrow> cm_step s (adopt n c s)"
| st_forget_pending: "forget_pending_entry n s = (True, t) \<Longrightarrow> n \<notin> set (cm_live_names s) \<Longrightarrow> cm_step s t"
| st_forget_managed: "forget_managed_entry c s = (True, t) \<Longrightarrow> c \<notin> set (cm_live s) \<Longrightarrow>
    c \<notin> set (cm_pool s) \<Longrightarrow> cm_step s t"
| st_release_slot: "0 < cm_freed s \<Longrightarrow> release_slot s = Inr t \<Longrightarrow> cm_step s t"
| st_pool_append: "c \<in> set (cm_managed s) \<Longrightarrow> c \<notin> set (cm_pool s) \<Longrightarrow> c \<notin> set (cm_leased s) \<Longrightarrow>
    \<not> cm_shutting_down s \<Longrightarrow> cm_step s (pool_append c s)"
| st_popleft: "cm_pool s \<noteq> [] \<Longrightarrow> cm_step s (pool_popleft s)"
| st_lease_new: "c \<notin> set (cm_pool s) \<Longrightarrow> c \<notin> set (cm_leased s) \<Longrightarrow> cm_step s (lease_new c s)"
| st_lease_end: "cm_step s (lease_end c s)"
| st_shutdown: "cm_step s (start_shutdown s)"
| st_degraded: "cm_step s (mark_degraded s)"
| st_client: "cm_step s (set_client s)"
| st_image: "cm_step s (set_image_validated s)"
| st_initialized: "cm_step s (set_initialized s)"

inductive_cases cm_stepE: "cm_step s t"

definition cm_counts :: "manager \<Rightarrow> bool" where
  "cm_counts s \<longleftrightarrow>
     cm_slots s + cm_reserved s + length (cm_managed s) + length (cm_pending s) + cm_freed s = cm_pool_size s
     \<and> distinct (cm_managed s) \<and> distinct (cm_pending s)"

definition cm_accounted :: "manager \<Rightarrow> bool" where
  "cm_accounted s \<longleftrightarrow> set (cm_live_names s) \<subseteq> set (cm_pending s) \<and> set (cm_live s) \<subseteq> set (cm_managed s)"

definition cm_pooled :: "manager \<Rightarrow> bool" where
  "cm_pooled s \<longleftrightarrow> set (cm_pool s) \<subseteq> set (cm_managed s) \<and> distinct (cm_pool s)
     \<and> set (cm_pool s) \<inter> set (cm_leased s) = {} \<and> distinct (cm_leased s)
     \<and> (cm_shutting_down s \<longrightarrow> cm_pool s = [])"

definition cm_inv :: "manager \<Rightarrow> bool" where
  "cm_inv s \<longleftrightarrow> cm_counts s \<and> cm_accounted s \<and> cm_pooled s"

lemmas cm_inv_defs = cm_inv_def cm_counts_def cm_accounted_def cm_pooled_def

definition new_manager :: "nat \<Rightarrow> manager" where
  "new_manager pool_size =
     \<lparr>cm_pool_size = pool_size, cm_pool = [], cm_managed = [], cm_pending = [], cm_slots = pool_size,
      cm_shutting_down = False, cm_initialized = False, cm_degraded = False,
      cm_image_validated = False, cm_has_client = False,
      cm_reserved = 0, cm_freed = 0, cm_live_names = [], cm_live = [], cm_leased = []\<rparr>"

lemma new_manager_inv: "cm_inv (new_manager n)"
  by (simp add: cm_inv_defs new_manager_def)

lemma removeAll_plus:
  assumes "distinct xs" and "x \<in> set xs"
  shows "length xs = length (removeAll x xs) + 1"
  using assms length_pos_if_in_set [OF assms(2)]
  by (simp add: length_remove1 flip: distinct_remove1_removeAll)

lemma cm_inv_step: "cm_inv s \<Longrightarrow> cm_step s t \<Longrightarrow> cm_inv t"
proof (erule cm_stepE, goal_cases)
  case (5 c) then show ?case by (auto simp: cm_inv_defs region_defs)
next
  case (6 n c) then show ?case
    using removeAll_plus [of "cm_pending s" n] by (auto simp: cm_inv_defs region_defs distinct_removeAll)
next
  case (7 n) then show ?case
    using removeAll_plus [of "cm_pending s" n]
    by (auto simp: cm_inv_defs region_defs distinct_removeAll split: if_splits)
next
  case (8 c) then show ?case
    using removeAll_plus [of "cm_managed s" c]
    by (auto simp: cm_inv_defs region_defs distinct_removeAll split: if_splits)
next
  case 11 then show ?case
    by (cases "cm_pool s") (auto simp: cm_inv_defs region_defs)
qed (auto simp: cm_inv_defs region_defs distinct_removeAll split: if_splits)

lemma cm_step_pool_size: "cm_step s t \<Longrightarrow> cm_pool_size t = cm_pool_size s"
  by (erule cm_stepE) (auto simp: region_defs split: if_splits)

definition cm_reachable :: "nat \<Rightarrow> manager \<Rightarrow> bool" where
  "cm_reachable n s \<longleftrightarrow> cm_step\<^sup>*\<^sup>* (new_manager n) s"

lemma cm_steps_inv: "cm_step\<^sup>*\<^sup>* s t \<Longrightarrow> cm_inv s \<Longrightarrow> cm_inv t \<and> cm_pool_size t = cm_pool_size s"
  by (induction rule: rtranclp_induct) (auto intro: cm_inv_step simp: cm_step_pool_size)

lemma cm_reachable_inv:
  assumes "cm_reachable n s"
  shows "cm_inv s" and "cm_pool_size s = n"
  using cm_steps_inv [of "new_manager n" s] new_manager_inv [of n] assms
  by (auto simp: cm_reachable_def new_manager_def)

text \<open>No more containers than the pool size can exist, however the threads interleave.\<close>

lemma live_bound:
  assumes "cm_inv s"
  shows "card (set (cm_live s)) + card (set (cm_live_names s)) \<le> cm_pool_size s"
proof -
  have "card (set (cm_live s)) \<le> length (cm_managed s)"
    using assms card_mono [of "set (cm_managed s)" "set (cm_live s)"] card_length [of "cm_managed s"]
    by (auto simp: cm_inv_defs)
  moreover have "card (set (cm_live_names s)) \<le> length (cm_pending s)"
    using assms card_mono [of "set (cm_pending s)" "set (cm_live_names s)"] card_length [of "cm_pending s"]
    by (auto simp: cm_inv_defs)
  ultimately show ?thesis using assms by (simp add: cm_inv_defs)
qed

lemma release_slot_ok: "cm_inv s \<Longrightarrow> 0 < cm_freed s \<Longrightarrow>
    release_slot s = Inr (s\<lparr>cm_slots := cm_slots s + 1, cm_freed := cm_freed s - 1\<rparr>)"
  by (auto simp: release_slot_def cm_inv_defs)

subsection \<open>Properties\<close>

text \<open>C1: However the threads of the runner interleave, at every moment the slots, the creations under
  way, the recorded containers and names and the slots about to be released add up to the pool
  size; every container that may exist in Docker is recorded, so there are never more than the
  pool size; and releasing a slot never overruns the bounded semaphore.\<close>

theorem container_capacity_is_never_exceeded:
  assumes "cm_reachable n s"
  shows "cm_slots s + cm_reserved s + length (cm_managed s) + length (cm_pending s) + cm_freed s = n
    \<and> set (cm_live s) \<subseteq> set (cm_managed s) \<and> set (cm_live_names s) \<subseteq> set (cm_pending s)
    \<and> card (set (cm_live s)) + card (set (cm_live_names s)) \<le> n
    \<and> (0 < cm_freed s \<longrightarrow> is_ok (release_slot s))"
  using cm_reachable_inv [OF assms] live_bound [of s] release_slot_ok [of s]
  by (auto simp: cm_inv_defs)

theorem container_capacity_is_never_exceeded_witness:
  "\<exists>s. cm_reachable 2 s \<and> cm_pending s = [[97]] \<and> card (set (cm_live s)) + card (set (cm_live_names s)) \<le> 2"
proof -
  let ?s0 = "new_manager 2"
  let ?s1 = "snd (acquire_slot ?s0)"
  let ?s2 = "add_pending [97] ?s1"
  have "cm_step ?s0 ?s1" by (rule st_acquire) (simp add: acquire_slot_def new_manager_def)
  moreover have "cm_step ?s1 ?s2" by (rule st_add_pending) (simp_all add: acquire_slot_def new_manager_def)
  moreover have "cm_step ?s2 (docker_create [97] ?s2)" by (rule st_create) (simp add: add_pending_def)
  ultimately have "cm_reachable 2 (docker_create [97] ?s2)"
    unfolding cm_reachable_def by (meson rtranclp.rtrancl_into_rtrancl rtranclp.rtrancl_refl)
  moreover have "cm_pending (docker_create [97] ?s2) = [[97]]"
    by (simp add: docker_create_def add_pending_def acquire_slot_def new_manager_def)
  ultimately show ?thesis using container_capacity_is_never_exceeded by blast
qed

end
