(* ===== verification/Container_Manager.thy ===== *)
theory Container_Manager
  imports Container_State Sandbox_Executor
begin

section \<open>The container manager's operations\<close>

text \<open>
  The methods of \<open>ContainerManager\<close> as sequences of the regions of \<open>Container_State\<close>. What Docker
  answers during one creation is a \<open>create_env\<close>, during one removal a \<open>removal_env\<close>. A method
  that raises returns the error on the left, together with the state it leaves.
\<close>

subsection \<open>Constants and configuration\<close>

text \<open>\<open>[^@\s]\<close>: every character but \<open>@\<close> and white space.\<close>

definition not_at_space :: cclass where
  "not_at_space = [(0, 8), (14, 27), (33, 63), (65, 132), (134, 159), (161, 5759), (5761, 8191),
     (8203, 8231), (8234, 8238), (8240, 8286), (8288, 12287), (12289, 1114111)]"

definition PINNED_IMAGE_PATTERN :: rexp where
  "PINNED_IMAGE_PATTERN =
     RSeq (ROpt (RSeq (RPlus (RCls not_at_space)) (RChr 64)))
       (RSeq (RLit (lit ''sha256:'')) (RRep 64 (RCls hex_lower)))"

definition SANDBOX_OWNER_ID_PATTERN :: rexp where
  "SANDBOX_OWNER_ID_PATTERN =
     RSeq (RCls alnum) (RUpTo 62 (RCls (alnum @ [(95, 95), (46, 46), (45, 45)])))"

definition SANDBOX_TMPFS :: "(pystr \<times> pyval) list" where
  "SANDBOX_TMPFS =
     [(lit ''/work'', PStr (lit ''rw,exec,nosuid,nodev,size=64M,nr_inodes=4096,mode=0700'')),
      (lit ''/tmp'', PStr (lit ''rw,exec,nosuid,nodev,size=32M,nr_inodes=4096,mode=1777'')),
      (lit ''/media'', PStr (lit ''rw,noexec,nosuid,nodev,size=100M,nr_inodes=1024,mode=0755'')),
      (lit ''/dev'', PStr (lit ''rw,noexec,nosuid,nodev,size=64M,nr_inodes=1024,mode=0755''))]"

definition EXPECTED_LIMITS :: "pystr list" where
  "EXPECTED_LIMITS = [lit ''536870912'', lit ''50'', lit ''50000 100000'']"

datatype manager_error =
    ShuttingDown
  | ContainerCapacityError
  | RootlessDockerRequiredError
  | CgroupResourceLimitsRequiredError
  | SandboxImageConfigurationError
  | SandboxMountConfigurationError
  | StaleContainersError
  | DockerError exn

text \<open>The constructor's checks; the state it builds is \<open>new_manager pool_size\<close>.\<close>

definition init_manager :: "pystr option \<Rightarrow> int \<Rightarrow> pystr \<Rightarrow> value_error + manager" where
  "init_manager image_id pool_size owner_id =
     (if pool_size < 1 then Inl (ValueError ''pool_size must be at least 1'')
      else if (case image_id of None \<Rightarrow> False | Some i \<Rightarrow> \<not> fullmatch PINNED_IMAGE_PATTERN i)
      then Inl (ValueError ''image_id must include a sha256 digest'')
      else if \<not> fullmatch SANDBOX_OWNER_ID_PATTERN owner_id
      then Inl (ValueError ''owner_id must contain only safe label characters'')
      else Inr (new_manager (nat pool_size)))"

subsection \<open>What Docker answers\<close>

record daemon_info =
  di_security_options :: "pystr list"
  di_cgroup_version :: "pystr option"
  di_cgroup_driver :: "pystr option"

datatype image_reply = Image_found pyval | Image_not_found | Image_error exn

datatype reply = Reply_ok | Reply_not_found | Reply_error exn

record removal_env =
  rm_kill :: reply
  rm_remove :: reply

record create_env =
  ce_info :: "exn + daemon_info"
  ce_image_get :: image_reply
  ce_image_pull :: "exn + pyval"
  ce_name :: cname
  ce_create :: "exn + cid"
  ce_attrs :: "exn + pyval"
  ce_pending_get :: reply
  ce_pending_remove :: reply
  ce_start :: "exn option"
  ce_limits :: "exn + int option \<times> bytes"
  ce_cleanup :: removal_env

subsection \<open>Docker client and image\<close>

definition validate_daemon :: "daemon_info \<Rightarrow> manager_error + unit" where
  "validate_daemon info =
     (if lit ''name=rootless'' \<notin> set (di_security_options info) then Inl RootlessDockerRequiredError
      else if di_cgroup_version info \<noteq> Some (lit ''2'') \<or> di_cgroup_driver info \<noteq> Some (lit ''systemd'')
      then Inl CgroupResourceLimitsRequiredError
      else Inr ())"

definition get_client :: "create_env \<Rightarrow> manager \<Rightarrow> (manager_error + unit) \<times> manager" where
  "get_client env s =
     (if cm_shutting_down s then (Inl ShuttingDown, s)
      else if cm_has_client s then (Inr (), s)
      else (case ce_info env of
              Inl e \<Rightarrow> (Inl (DockerError e), s)
            | Inr info \<Rightarrow>
                (case validate_daemon info of
                   Inl e \<Rightarrow> (Inl e, s)
                 | Inr _ \<Rightarrow> (Inr (), set_client s))))"

text \<open>Python truth of a JSON-like value, and \<open>dict.get\<close>.\<close>

definition truthy :: "pyval \<Rightarrow> bool" where
  "truthy v = (case v of PNone \<Rightarrow> False | PBool b \<Rightarrow> b | PInt i \<Rightarrow> i \<noteq> 0 | PStr s \<Rightarrow> s \<noteq> []
     | PList l \<Rightarrow> l \<noteq> [] | PDict d \<Rightarrow> d \<noteq> [])"

definition dict_get :: "pyval \<Rightarrow> string \<Rightarrow> pyval" where
  "dict_get v k = (case v of PDict d \<Rightarrow> (case map_of d (lit k) of None \<Rightarrow> PNone | Some x \<Rightarrow> x) | _ \<Rightarrow> PNone)"

definition is_dict :: "pyval \<Rightarrow> bool" where
  "is_dict v = (case v of PDict _ \<Rightarrow> True | _ \<Rightarrow> False)"

text \<open>Equality of a value with a dict of the source, which ignores the order of the keys.\<close>

definition equals_dict :: "pyval \<Rightarrow> (pystr \<times> pyval) list \<Rightarrow> bool" where
  "equals_dict v expected =
     (case v of
        PDict d \<Rightarrow> set (map fst d) = set (map fst expected)
          \<and> list_all (\<lambda>k. map_of d k = map_of expected k) (map fst expected)
      | _ \<Rightarrow> False)"

definition validate_sandbox_image :: "pyval \<Rightarrow> manager_error + unit" where
  "validate_sandbox_image attrs =
     (let config = dict_get attrs ''Config'' in
      if \<not> is_dict config then Inl SandboxImageConfigurationError
      else if dict_get config ''Volumes'' \<notin> {PNone, PDict []} then Inl SandboxImageConfigurationError
      else Inr ())"

definition ensure_sandbox_image ::
  "pystr option \<Rightarrow> create_env \<Rightarrow> manager \<Rightarrow> (manager_error + unit) \<times> manager" where
  "ensure_sandbox_image image_id env s =
     (if cm_image_validated s then (Inr (), s)
      else (case image_id of
        None \<Rightarrow> (Inl SandboxImageConfigurationError, s)
      | Some i \<Rightarrow>
          (let image =
             (case ce_image_get env of
                Image_found attrs \<Rightarrow> Inr attrs
              | Image_error e \<Rightarrow> Inl (DockerError e)
              | Image_not_found \<Rightarrow>
                  if startswith i (lit ''sha256:'') then Inl SandboxImageConfigurationError
                  else (case ce_image_pull env of Inl e \<Rightarrow> Inl (DockerError e) | Inr attrs \<Rightarrow> Inr attrs))
           in (case rbind image validate_sandbox_image of
                 Inl e \<Rightarrow> (Inl e, s)
               | Inr _ \<Rightarrow> (Inr (), set_image_validated s)))))"

subsection \<open>Checks of a created container\<close>

definition validate_container_mounts :: "exn + pyval \<Rightarrow> manager_error + unit" where
  "validate_container_mounts reply =
     (case reply of
        Inl e \<Rightarrow> Inl (DockerError e)
      | Inr attributes \<Rightarrow>
          (let host_config = dict_get attributes ''HostConfig'';
               container_config = dict_get attributes ''Config''
           in if \<not> is_dict host_config \<or> \<not> is_dict container_config
              then Inl SandboxMountConfigurationError
              else if truthy (dict_get attributes ''Mounts'') \<or> truthy (dict_get host_config ''Binds'')
                \<or> truthy (dict_get host_config ''Mounts'') \<or> truthy (dict_get host_config ''VolumesFrom'')
                \<or> truthy (dict_get container_config ''Volumes'')
              then Inl SandboxMountConfigurationError
              else if \<not> equals_dict (dict_get host_config ''Tmpfs'') SANDBOX_TMPFS
              then Inl SandboxMountConfigurationError
              else Inr ()))"

text \<open>\<open>decode("ascii", errors="replace").splitlines()\<close>\<close>

definition decode_ascii :: "bytes \<Rightarrow> pystr" where
  "decode_ascii bs = map (\<lambda>b. if unat b < 128 then unat b else 0xFFFD) bs"

definition line_break :: "nat \<Rightarrow> bool" where
  "line_break c = (c \<in> {10, 11, 12, 13, 28, 29, 30})"

fun splitlines_from :: "pystr \<Rightarrow> pystr \<Rightarrow> pystr list" where
  "splitlines_from acc [] = (if acc = [] then [] else [rev acc])"
| "splitlines_from acc (c # s) =
     (if c = 13 then
        (case s of [] \<Rightarrow> [rev acc] | d # s' \<Rightarrow> rev acc # splitlines_from [] (if d = 10 then s' else s))
      else if line_break c then rev acc # splitlines_from [] s
      else splitlines_from (c # acc) s)"

definition splitlines :: "pystr \<Rightarrow> pystr list" where
  "splitlines s = splitlines_from [] s"

definition validate_container_resource_limits :: "exn + int option \<times> bytes \<Rightarrow> manager_error + unit" where
  "validate_container_resource_limits reply =
     (case reply of
        Inl e \<Rightarrow> Inl (DockerError e)
      | Inr (exit_code, output) \<Rightarrow>
          if exit_code \<noteq> Some 0 \<or> splitlines (decode_ascii output) \<noteq> EXPECTED_LIMITS
          then Inl CgroupResourceLimitsRequiredError else Inr ())"

subsection \<open>Removal\<close>

text \<open>A kill changes nothing that the manager records, whatever Docker answers.\<close>

definition docker_kill :: "reply \<Rightarrow> cid \<Rightarrow> manager \<Rightarrow> manager" where
  "docker_kill kill_reply c s = s"

text \<open>\<open>_slots.release()\<close>; its error branch is unreachable (lemma \<open>release_slot_ok\<close>).\<close>

definition give_back_slot :: "manager \<Rightarrow> manager" where
  "give_back_slot s = (case release_slot s of Inr t \<Rightarrow> t | Inl _ \<Rightarrow> s)"

definition forget_removed_container :: "cid \<Rightarrow> manager \<Rightarrow> manager" where
  "forget_removed_container c s =
     (let (removed, s1) = forget_managed_entry c s in if removed then give_back_slot s1 else s1)"

definition forget_pending_name :: "cname \<Rightarrow> manager \<Rightarrow> manager" where
  "forget_pending_name n s =
     (let (removed, s1) = forget_pending_entry n s in if removed then give_back_slot s1 else s1)"

definition cleanup_pending_container ::
  "reply \<Rightarrow> reply \<Rightarrow> bool \<Rightarrow> cname \<Rightarrow> manager \<Rightarrow> bool \<times> manager" where
  "cleanup_pending_container get_reply remove_reply accept_not_found n s =
     (if \<not> cm_has_client s then (False, s)
      else (case get_reply of
              Reply_not_found \<Rightarrow> (accept_not_found, if accept_not_found then docker_gone_name n s else s)
            | Reply_error _ \<Rightarrow> (False, s)
            | Reply_ok \<Rightarrow>
                (case remove_reply of
                   Reply_error _ \<Rightarrow> (False, s)
                 | Reply_ok \<Rightarrow> (True, docker_gone_name n s)
                 | Reply_not_found \<Rightarrow> (True, docker_gone_name n s))))"

definition cleanup_container :: "bool \<Rightarrow> removal_env \<Rightarrow> cid \<Rightarrow> manager \<Rightarrow> bool \<times> manager" where
  "cleanup_container kill env c s =
     (let s1 = (if kill then docker_kill (rm_kill env) c s else s) in
      (case rm_remove env of
         Reply_not_found \<Rightarrow> (True, forget_removed_container c (docker_gone c s1))
       | Reply_error _ \<Rightarrow> (False, s1)
       | Reply_ok \<Rightarrow> (True, forget_removed_container c (docker_gone c s1))))"

subsection \<open>Creation\<close>

definition abandon_pending :: "create_env \<Rightarrow> manager \<Rightarrow> manager" where
  "abandon_pending env s =
     (let (gone, s1) = cleanup_pending_container (ce_pending_get env) (ce_pending_remove env) False (ce_name env) s
      in if gone then forget_pending_name (ce_name env) s1 else s1)"

text \<open>From the create call to the validated container, once a slot is held.\<close>

definition create_reserved :: "create_env \<Rightarrow> manager \<Rightarrow> (manager_error + cid) \<times> manager" where
  "create_reserved env s =
     (let s1 = docker_create (ce_name env) (add_pending (ce_name env) s) in
      (case ce_create env of
         Inl e \<Rightarrow> (Inl (DockerError e), abandon_pending env s1)
       | Inr c \<Rightarrow>
           (case validate_container_mounts (ce_attrs env) of
              Inl e \<Rightarrow> (Inl e, abandon_pending env s1)
            | Inr _ \<Rightarrow>
                (let s2 = adopt (ce_name env) c s1 in
                 case ce_start env of
                   Some e \<Rightarrow> (Inl (DockerError e), snd (cleanup_container False (ce_cleanup env) c s2))
                 | None \<Rightarrow>
                     (case validate_container_resource_limits (ce_limits env) of
                        Inl e \<Rightarrow> (Inl e, snd (cleanup_container True (ce_cleanup env) c s2))
                      | Inr _ \<Rightarrow> (Inr c, s2))))))"

definition create_container ::
  "pystr option \<Rightarrow> create_env \<Rightarrow> manager \<Rightarrow> (manager_error + cid) \<times> manager" where
  "create_container image_id env s =
     (if cm_shutting_down s then (Inl ShuttingDown, s)
      else (case get_client env s of
              (Inl e, s1) \<Rightarrow> (Inl e, s1)
            | (Inr _, s1) \<Rightarrow>
                (case ensure_sandbox_image image_id env s1 of
                   (Inl e, s2) \<Rightarrow> (Inl e, s2)
                 | (Inr _, s2) \<Rightarrow>
                     (case acquire_slot s2 of
                        (False, s3) \<Rightarrow> (Inl ContainerCapacityError, s3)
                      | (True, s3) \<Rightarrow> create_reserved env s3))))"

definition create_and_add ::
  "pystr option \<Rightarrow> create_env \<Rightarrow> manager \<Rightarrow> (manager_error + cid) \<times> manager" where
  "create_and_add image_id env s =
     (case create_container image_id env s of
        (Inl e, s1) \<Rightarrow> (Inl e, s1)
      | (Inr c, s1) \<Rightarrow>
          (if \<not> cm_shutting_down s1 then (Inr c, pool_append c s1)
           else (Inl ShuttingDown, snd (cleanup_container True (ce_cleanup env) c s1))))"

subsection \<open>Leasing\<close>

definition get_container :: "pystr option \<Rightarrow> create_env \<Rightarrow> manager \<Rightarrow> (manager_error + cid) \<times> manager" where
  "get_container image_id env s =
     (if cm_shutting_down s then (Inl ShuttingDown, s)
      else if cm_pool s \<noteq> [] then (Inr (hd (cm_pool s)), pool_popleft s)
      else (case create_container image_id env s of
              (Inr c, s1) \<Rightarrow> (Inr c, lease_new c s1)
            | (Inl ContainerCapacityError, s1) \<Rightarrow> (Inl ContainerCapacityError, s1)
            | (Inl e, s1) \<Rightarrow> (Inl e, mark_degraded s1)))"

definition release_container ::
  "pystr option \<Rightarrow> removal_env \<Rightarrow> create_env \<Rightarrow> cid \<Rightarrow> bool \<Rightarrow> manager \<Rightarrow> manager" where
  "release_container image_id removal env c already_stopped s =
     (let (removed, s1) = cleanup_container (\<not> already_stopped) removal c (lease_end c s);
          s2 = (if \<not> removed then mark_degraded s1 else s1);
          should_replenish = (removed \<and> \<not> cm_shutting_down s2)
      in if \<not> should_replenish then s2
         else (case create_and_add image_id env s2 of
                 (Inr _, s3) \<Rightarrow> s3
               | (Inl _, s3) \<Rightarrow> mark_degraded s3))"

subsection \<open>Startup and shutdown\<close>

definition begin_shutdown :: "manager \<Rightarrow> manager" where
  "begin_shutdown s = (if cm_shutting_down s then s else start_shutdown s)"

text \<open>The removals of \<open>shutdown_pool\<close>; afterwards \<open>client.close()\<close> may raise \<open>close\<close>.\<close>

definition remove_all ::
  "(cid \<Rightarrow> removal_env) \<Rightarrow> (cname \<Rightarrow> reply \<times> reply) \<Rightarrow> manager \<Rightarrow> manager" where
  "remove_all removals pending_replies s =
     (let s1 = begin_shutdown s;
          s2 = foldl (\<lambda>t c. snd (cleanup_container False (removals c) c t)) s1 (cm_managed s1)
      in foldl (\<lambda>t n. let (gone, t1) = cleanup_pending_container (fst (pending_replies n)) (snd (pending_replies n)) True n t
                      in if gone then forget_pending_name n t1 else t1) s2 (cm_pending s1))"

definition shutdown_pool ::
  "exn option \<Rightarrow> (cid \<Rightarrow> removal_env) \<Rightarrow> (cname \<Rightarrow> reply \<times> reply) \<Rightarrow> manager \<Rightarrow>
     (manager_error + unit) \<times> manager" where
  "shutdown_pool close removals pending_replies s =
     (case (cm_has_client s, close) of
        (True, Some e) \<Rightarrow> (Inl (DockerError e), remove_all removals pending_replies s)
      | _ \<Rightarrow> (Inr (), remove_all removals pending_replies s))"

text \<open>Containers of an earlier process: all are removed, or startup fails.\<close>

definition reconcile_stale_containers ::
  "create_env \<Rightarrow> (exn + reply list) \<Rightarrow> manager \<Rightarrow> (manager_error + unit) \<times> manager" where
  "reconcile_stale_containers env listing s =
     (case get_client env s of
        (Inl e, s1) \<Rightarrow> (Inl e, s1)
      | (Inr _, s1) \<Rightarrow>
          (case listing of
             Inl _ \<Rightarrow> (Inl StaleContainersError, s1)
           | Inr removals \<Rightarrow>
               (if list_all (\<lambda>r. r = Reply_ok \<or> r = Reply_not_found) removals then (Inr (), s1)
                else (Inl StaleContainersError, s1))))"

fun create_all :: "pystr option \<Rightarrow> create_env list \<Rightarrow> manager \<Rightarrow> (manager_error + unit) \<times> manager" where
  "create_all image_id [] s = (Inr (), s)"
| "create_all image_id (env # envs) s =
     (case create_and_add image_id env s of
        (Inl e, s1) \<Rightarrow> (Inl e, s1)
      | (Inr _, s1) \<Rightarrow> create_all image_id envs s1)"

definition initialize_pool ::
  "pystr option \<Rightarrow> create_env \<Rightarrow> (exn + reply list) \<Rightarrow> create_env list \<Rightarrow> (cid \<Rightarrow> removal_env) \<Rightarrow>
     (cname \<Rightarrow> reply \<times> reply) \<Rightarrow> exn option \<Rightarrow> manager \<Rightarrow> (manager_error + unit) \<times> manager" where
  "initialize_pool image_id env listing envs removals pending_replies close s =
     (if image_id = None then (Inl SandboxImageConfigurationError, s)
      else (case (case reconcile_stale_containers env listing s of
                    (Inl e, s1) \<Rightarrow> (Inl e, s1)
                  | (Inr _, s1) \<Rightarrow> create_all image_id (take (cm_pool_size s) envs) s1) of
              (Inl e, s1) \<Rightarrow>
                (case shutdown_pool close removals pending_replies s1 of
                   (Inl e', s2) \<Rightarrow> (Inl e', s2)
                 | (Inr _, s2) \<Rightarrow> (Inl e, s2))
            | (Inr _, s1) \<Rightarrow> (Inr (), set_initialized s1)))"

definition managed_count :: "manager \<Rightarrow> nat" where
  "managed_count s = length (cm_managed s) + length (cm_pending s)"

definition is_ready :: "manager \<Rightarrow> bool" where
  "is_ready s \<longleftrightarrow> cm_initialized s \<and> \<not> cm_degraded s \<and> \<not> cm_shutting_down s
     \<and> length (cm_managed s) = cm_pool_size s \<and> cm_pending s = []"

subsection \<open>Every method is a sequence of regions\<close>

abbreviation (input) steps :: "manager \<Rightarrow> manager \<Rightarrow> bool" where
  "steps \<equiv> cm_step\<^sup>*\<^sup>*"

lemma steps_trans: "steps s t \<Longrightarrow> steps t u \<Longrightarrow> steps s u"
  by (rule rtranclp_trans)

lemma steps_one: "cm_step s t \<Longrightarrow> steps s t"
  by blast

lemma steps_inv: "steps s t \<Longrightarrow> cm_inv s \<Longrightarrow> cm_inv t"
  using cm_steps_inv by blast

lemma give_back_slot_steps:
  assumes "cm_inv s" and "0 < cm_freed s"
  shows "cm_step s (give_back_slot s)"
  using st_release_slot [OF assms(2) release_slot_ok [OF assms]] release_slot_ok [OF assms]
  by (simp add: give_back_slot_def)

lemma forget_removed_steps:
  assumes "cm_inv s" and "c \<notin> set (cm_live s)" and "c \<notin> set (cm_pool s)"
  shows "steps s (forget_removed_container c s)"
proof (cases "c \<in> set (cm_managed s)")
  case True
  obtain t where f: "forget_managed_entry c s = (True, t)" using True by (simp add: forget_managed_entry_def)
  have st: "cm_step s t" by (rule st_forget_managed [OF f assms(2,3)])
  have "cm_inv t" by (rule cm_inv_step [OF assms(1) st])
  moreover have "0 < cm_freed t" using f by (auto simp: forget_managed_entry_def split: if_splits)
  ultimately have "cm_step t (give_back_slot t)" by (rule give_back_slot_steps)
  then have "steps s (give_back_slot t)" using st by (meson steps_one steps_trans)
  then show ?thesis using f by (simp add: forget_removed_container_def)
qed (simp add: forget_removed_container_def forget_managed_entry_def)

lemma forget_pending_steps:
  assumes "cm_inv s" and "n \<notin> set (cm_live_names s)"
  shows "steps s (forget_pending_name n s)"
proof (cases "n \<in> set (cm_pending s)")
  case True
  obtain t where f: "forget_pending_entry n s = (True, t)" using True by (simp add: forget_pending_entry_def)
  have st: "cm_step s t" by (rule st_forget_pending [OF f assms(2)])
  have "cm_inv t" by (rule cm_inv_step [OF assms(1) st])
  moreover have "0 < cm_freed t" using f by (auto simp: forget_pending_entry_def split: if_splits)
  ultimately have "cm_step t (give_back_slot t)" by (rule give_back_slot_steps)
  then have "steps s (give_back_slot t)" using st by (meson steps_one steps_trans)
  then show ?thesis using f by (simp add: forget_pending_name_def)
qed (simp add: forget_pending_name_def forget_pending_entry_def)

lemma cleanup_container_steps:
  assumes "cm_inv s" and "c \<notin> set (cm_pool s)"
  shows "steps s (snd (cleanup_container kill env c s))"
proof -
  have st: "cm_step s (docker_gone c s)" by (rule st_gone)
  have "steps (docker_gone c s) (forget_removed_container c (docker_gone c s))"
    by (rule forget_removed_steps [OF cm_inv_step [OF assms(1) st]])
      (use assms(2) in \<open>auto simp: docker_gone_def\<close>)
  then have "steps s (forget_removed_container c (docker_gone c s))"
    using steps_trans [OF steps_one [OF st]] by blast
  then show ?thesis
    by (simp add: cleanup_container_def docker_kill_def Let_def split: reply.splits)
qed

lemma cleanup_pending_steps:
  "steps s (snd (cleanup_pending_container g r a n s))"
  "fst (cleanup_pending_container g r a n s) \<Longrightarrow>
     n \<notin> set (cm_live_names (snd (cleanup_pending_container g r a n s)))"
proof -
  have "steps s (docker_gone_name n s)" by (rule steps_one [OF st_gone_name])
  then show "steps s (snd (cleanup_pending_container g r a n s))"
    by (simp add: cleanup_pending_container_def split: reply.splits)
  show "fst (cleanup_pending_container g r a n s) \<Longrightarrow>
     n \<notin> set (cm_live_names (snd (cleanup_pending_container g r a n s)))"
    by (auto simp: cleanup_pending_container_def docker_gone_name_def split: reply.splits if_splits)
qed

lemma cleanup_and_forget_steps:
  assumes "cm_inv s"
  shows "steps s (let (gone, t) = cleanup_pending_container g r a n s in if gone then forget_pending_name n t else t)"
proof -
  obtain gone t where c: "cleanup_pending_container g r a n s = (gone, t)"
    by (cases "cleanup_pending_container g r a n s")
  have st: "steps s t" using cleanup_pending_steps(1) [of s g r a n] c by simp
  show ?thesis
  proof (cases gone)
    case True
    then have "n \<notin> set (cm_live_names t)" using cleanup_pending_steps(2) [of g r a n s] c by simp
    then show ?thesis using steps_trans [OF st forget_pending_steps [OF steps_inv [OF st assms]]] c True by simp
  qed (use st c in simp)
qed

lemma abandon_pending_steps: "cm_inv s \<Longrightarrow> steps s (abandon_pending env s)"
  unfolding abandon_pending_def by (rule cleanup_and_forget_steps)

definition fresh_env :: "create_env \<Rightarrow> manager \<Rightarrow> bool" where
  "fresh_env env s \<longleftrightarrow> ce_name env \<notin> set (cm_pending s)
     \<and> (\<forall>c. ce_create env = Inr c \<longrightarrow> c \<notin> set (cm_managed s) \<union> set (cm_leased s) \<union> set (cm_pool s))"

text \<open>The parts of the state that a creation leaves alone.\<close>

definition same_pool :: "manager \<Rightarrow> manager \<Rightarrow> bool" where
  "same_pool s t \<longleftrightarrow> cm_pool t = cm_pool s \<and> cm_leased t = cm_leased s
     \<and> cm_shutting_down t = cm_shutting_down s \<and> cm_pool_size t = cm_pool_size s"

lemma same_pool_refl [simp]: "same_pool s s"
  by (simp add: same_pool_def)

lemma same_pool_trans: "same_pool s t \<Longrightarrow> same_pool t u \<Longrightarrow> same_pool s u"
  by (simp add: same_pool_def)

lemma give_back_slot_same: "same_pool s (give_back_slot s)"
  by (simp add: give_back_slot_def release_slot_def same_pool_def)

lemma forget_same:
  "same_pool s (forget_removed_container c s)" "same_pool s (forget_pending_name n s)"
  using same_pool_trans [OF _ give_back_slot_same]
  by (auto simp: forget_removed_container_def forget_pending_name_def forget_managed_entry_def
      forget_pending_entry_def same_pool_def give_back_slot_def release_slot_def)

lemma cleanup_same:
  "same_pool s (snd (cleanup_container kill env c s))"
  "same_pool s (abandon_pending env' s)"
proof -
  have "same_pool s (docker_gone c s)" by (simp add: same_pool_def docker_gone_def)
  then show "same_pool s (snd (cleanup_container kill env c s))"
    using same_pool_trans [OF _ forget_same(1)]
    by (auto simp: cleanup_container_def docker_kill_def Let_def split: reply.splits)
  have p: "same_pool s (snd (cleanup_pending_container g r a n s))" for g r a n
    by (auto simp: cleanup_pending_container_def docker_gone_name_def same_pool_def split: reply.splits)
  obtain gone t where c: "cleanup_pending_container (ce_pending_get env') (ce_pending_remove env') False
      (ce_name env') s = (gone, t)"
    by (cases "cleanup_pending_container (ce_pending_get env') (ce_pending_remove env') False (ce_name env') s")
  then have "same_pool s t" using p [of "ce_pending_get env'" "ce_pending_remove env'" False "ce_name env'"] by simp
  then show "same_pool s (abandon_pending env' s)"
    using c same_pool_trans [OF _ forget_same(2)] by (simp add: abandon_pending_def)
qed

definition created_ok :: "manager \<Rightarrow> (manager_error + cid) \<times> manager \<Rightarrow> bool" where
  "created_ok s r \<longleftrightarrow> steps s (snd r) \<and> same_pool s (snd r)
     \<and> (\<forall>c. fst r = Inr c \<longrightarrow> c \<in> set (cm_managed (snd r)) \<and> c \<notin> set (cm_pool s) \<and> c \<notin> set (cm_leased s))"

lemma created_error:
  "steps s t \<Longrightarrow> same_pool s t \<Longrightarrow> created_ok s (Inl e, t)"
  by (simp add: created_ok_def)

lemma created_after: "steps s t \<Longrightarrow> same_pool s t \<Longrightarrow> created_ok t r \<Longrightarrow> created_ok s r"
  using same_pool_trans steps_trans by (fastforce simp: created_ok_def same_pool_def)

lemma create_reserved_ok:
  assumes inv: "cm_inv s" and res: "0 < cm_reserved s" and fresh: "fresh_env env s"
  shows "created_ok s (create_reserved env s)"
proof -
  let ?n = "ce_name env"
  define s1 where "s1 = docker_create ?n (add_pending ?n s)"
  have "cm_step s (add_pending ?n s)" by (rule st_add_pending [OF res]) (use fresh in \<open>simp add: fresh_env_def\<close>)
  moreover have "cm_step (add_pending ?n s) s1"
    unfolding s1_def by (rule st_create) (simp add: add_pending_def)
  ultimately have st1: "steps s s1" by (meson steps_one steps_trans)
  have same1: "same_pool s s1" by (simp add: s1_def same_pool_def docker_create_def add_pending_def)
  have inv1: "cm_inv s1" by (rule steps_inv [OF st1 inv])
  have ab: "created_ok s (Inl e, abandon_pending env s1)" for e
    using created_error [OF steps_trans [OF st1 abandon_pending_steps [OF inv1]]
        same_pool_trans [OF same1 cleanup_same(2)]] .
  show ?thesis
  proof (cases "ce_create env")
    case (Inl e)
    then show ?thesis using ab by (simp add: create_reserved_def Let_def flip: s1_def)
  next
    case (Inr c)
    define s2 where "s2 = adopt ?n c s1"
    have c: "c \<notin> set (cm_managed s) \<union> set (cm_leased s) \<union> set (cm_pool s)"
      using fresh Inr by (auto simp: fresh_env_def)
    have "cm_step s1 s2"
      unfolding s2_def by (rule st_adopt)
        (use c in \<open>auto simp: s1_def docker_create_def add_pending_def\<close>)
    then have st2: "steps s s2" using st1 by (meson steps_one steps_trans)
    have same2: "same_pool s s2" using same1 by (simp add: s2_def same_pool_def adopt_def)
    have "c \<notin> set (cm_pool s2)" using c same2 by (simp add: same_pool_def)
    then have cl: "created_ok s (Inl e, snd (cleanup_container k (ce_cleanup env) c s2))" for e k
      using created_error [OF steps_trans [OF st2 cleanup_container_steps [OF steps_inv [OF st2 inv]]]
          same_pool_trans [OF same2 cleanup_same(1)]] by blast
    have "created_ok s (Inr c, s2)"
      using c st2 same2 by (simp add: created_ok_def s2_def adopt_def)
    then show ?thesis using Inr ab cl
      by (simp add: create_reserved_def Let_def flip: s1_def s2_def split: sum.splits option.splits)
  qed
qed

lemma get_client_ok:
  "steps s (snd (get_client env s))" "same_pool s (snd (get_client env s))"
  "cm_pending (snd (get_client env s)) = cm_pending s" "cm_managed (snd (get_client env s)) = cm_managed s"
  using steps_one [OF st_client, of s]
  by (auto simp: get_client_def same_pool_def set_client_def split: sum.splits)

lemma ensure_sandbox_image_ok:
  "steps s (snd (ensure_sandbox_image i env s))" "same_pool s (snd (ensure_sandbox_image i env s))"
  "cm_pending (snd (ensure_sandbox_image i env s)) = cm_pending s"
  "cm_managed (snd (ensure_sandbox_image i env s)) = cm_managed s"
  using steps_one [OF st_image, of s]
  by (auto simp: ensure_sandbox_image_def same_pool_def set_image_validated_def Let_def
      split: option.splits sum.splits)

lemma create_container_ok:
  assumes inv: "cm_inv s" and fresh: "fresh_env env s"
  shows "created_ok s (create_container i env s)"
proof (cases "cm_shutting_down s")
  case True
  then show ?thesis by (simp add: create_container_def created_ok_def)
next
  case False
  obtain r1 s1 where g: "get_client env s = (r1, s1)" by (cases "get_client env s")
  obtain r2 s2 where e: "ensure_sandbox_image i env s1 = (r2, s2)" by (cases "ensure_sandbox_image i env s1")
  obtain ok s3 where a: "acquire_slot s2 = (ok, s3)" by (cases "acquire_slot s2")
  have st1: "steps s s1" "same_pool s s1" "cm_pending s1 = cm_pending s" "cm_managed s1 = cm_managed s"
    using get_client_ok [where s = s and env = env] g by simp_all
  have st2: "steps s1 s2" "same_pool s1 s2" "cm_pending s2 = cm_pending s1" "cm_managed s2 = cm_managed s1"
    using ensure_sandbox_image_ok [where s = s1 and i = i and env = env] e by simp_all
  have st12: "steps s s2" "same_pool s s2" using st1 st2 steps_trans same_pool_trans by blast+
  have "created_ok s2 (create_reserved env s3)" if ok
  proof -
    have st: "cm_step s2 s3" using a that by (intro st_acquire) simp
    have s3: "0 < cm_reserved s3" "same_pool s2 s3" "cm_pending s3 = cm_pending s2" "cm_managed s3 = cm_managed s2"
      using a that by (auto simp: acquire_slot_def same_pool_def split: if_splits)
    have "fresh_env env s3" using fresh st1 st2 s3 by (simp add: fresh_env_def same_pool_def)
    moreover have "cm_inv s3" using steps_inv [OF steps_trans [OF st12(1) steps_one [OF st]] inv] .
    ultimately show ?thesis
      using created_after [OF steps_one [OF st] s3(2) create_reserved_ok] s3(1) by blast
  qed
  then have k: "ok \<Longrightarrow> created_ok s (create_reserved env s3)" using created_after [OF st12] by blast
  have n: "\<not> ok \<Longrightarrow> s3 = s2" using a by (auto simp: acquire_slot_def split: if_splits)
  show ?thesis
    unfolding create_container_def using False g e a k n created_error [OF st1(1,2)] created_error [OF st12]
    by (auto split: sum.splits bool.splits)
qed

lemma mark_degraded_ok: "steps s (mark_degraded s)" "same_pool s (mark_degraded s)"
  using steps_one [OF st_degraded, of s] by (auto simp: same_pool_def mark_degraded_def)

lemma create_and_add_steps:
  assumes inv: "cm_inv s" and fresh: "fresh_env env s"
  shows "steps s (snd (create_and_add i env s)) \<and> cm_leased (snd (create_and_add i env s)) = cm_leased s"
proof -
  obtain r t where c: "create_container i env s = (r, t)" by (cases "create_container i env s")
  have ok: "created_ok s (r, t)" using create_container_ok [OF inv fresh, of i] c by simp
  then have st: "steps s t" "same_pool s t" by (simp_all add: created_ok_def)
  show ?thesis
  proof (cases r)
    case (Inl e)
    then show ?thesis using st c by (simp add: create_and_add_def same_pool_def)
  next
    case (Inr k)
    then have k: "k \<in> set (cm_managed t)" "k \<notin> set (cm_pool t)" "k \<notin> set (cm_leased t)"
      using ok st(2) by (auto simp: created_ok_def same_pool_def)
    have "\<not> cm_shutting_down t \<Longrightarrow> steps s (pool_append k t)"
      using steps_trans [OF st(1) steps_one [OF st_pool_append [OF k]]] by blast
    moreover have "steps s (snd (cleanup_container True (ce_cleanup env) k t))"
      using steps_trans [OF st(1) cleanup_container_steps [OF steps_inv [OF st(1) inv] k(2)]] .
    moreover have "cm_leased (snd (cleanup_container True (ce_cleanup env) k t)) = cm_leased s"
      using same_pool_trans [OF st(2) cleanup_same(1)] by (simp add: same_pool_def)
    moreover have "cm_leased (pool_append k t) = cm_leased s"
      using st(2) by (simp add: pool_append_def same_pool_def)
    ultimately show ?thesis using c Inr by (simp add: create_and_add_def)
  qed
qed

lemma get_container_steps:
  assumes inv: "cm_inv s" and fresh: "fresh_env env s"
  shows "steps s (snd (get_container i env s))"
    and "fst (get_container i env s) = Inr c \<Longrightarrow>
      c \<notin> set (cm_leased s) \<and> cm_leased (snd (get_container i env s)) = c # cm_leased s"
    and "fst (get_container i env s) = Inl e \<Longrightarrow> cm_leased (snd (get_container i env s)) = cm_leased s"
proof -
  obtain r t where c: "create_container i env s = (r, t)" by (cases "create_container i env s")
  have ok: "created_ok s (r, t)" using create_container_ok [OF inv fresh, of i] c by simp
  then have st: "steps s t" "same_pool s t" by (simp_all add: created_ok_def)
  have lease: "steps s (lease_new k t)" "k \<notin> set (cm_leased s)" if "r = Inr k" for k
  proof -
    have k: "k \<notin> set (cm_pool t)" "k \<notin> set (cm_leased t)" "k \<notin> set (cm_leased s)"
      using ok st(2) that by (auto simp: created_ok_def same_pool_def)
    show "steps s (lease_new k t)" using steps_trans [OF st(1) steps_one [OF st_lease_new [OF k(1,2)]]] .
    show "k \<notin> set (cm_leased s)" by (rule k(3))
  qed
  have deg: "steps s (mark_degraded t)" "cm_leased (mark_degraded t) = cm_leased s"
    using steps_trans [OF st(1) mark_degraded_ok(1)] st(2) mark_degraded_ok(2) [of t]
    by (simp_all add: same_pool_def)
  have pop: "cm_pool s \<noteq> [] \<Longrightarrow> steps s (pool_popleft s)" using steps_one [OF st_popleft] by blast
  have hd: "cm_pool s \<noteq> [] \<Longrightarrow> hd (cm_pool s) \<notin> set (cm_leased s)"
    using inv hd_in_set [of "cm_pool s"] unfolding cm_inv_defs by blast
  have lt: "cm_leased t = cm_leased s" using st(2) by (simp add: same_pool_def)
  show "steps s (snd (get_container i env s))"
    unfolding get_container_def c using st(1) lease(1) deg(1) pop
    by (cases r) (auto split: manager_error.splits)
  show "fst (get_container i env s) = Inr c \<Longrightarrow>
      c \<notin> set (cm_leased s) \<and> cm_leased (snd (get_container i env s)) = c # cm_leased s" for c
    unfolding get_container_def \<open>create_container i env s = (r, t)\<close> using lease(2) hd lt
    by (cases r) (auto simp: pool_popleft_def lease_new_def split: manager_error.splits if_splits)
  show "fst (get_container i env s) = Inl e \<Longrightarrow> cm_leased (snd (get_container i env s)) = cm_leased s"
    unfolding get_container_def c using deg(2) lt
    by (cases r) (auto split: manager_error.splits if_splits)
qed

lemma release_container_steps:
  assumes inv: "cm_inv s" and fresh: "fresh_env env s" and leased: "c \<in> set (cm_leased s)"
  shows "steps s (release_container i removal env c stopped s)"
    and "cm_leased (release_container i removal env c stopped s) = removeAll c (cm_leased s)"
proof -
  define s0 where "s0 = lease_end c s"
  obtain removed s1 where cl: "cleanup_container (\<not> stopped) removal c s0 = (removed, s1)"
    by (cases "cleanup_container (\<not> stopped) removal c s0")
  define s2 where "s2 = (if \<not> removed then mark_degraded s1 else s1)"
  have st0: "steps s s0" unfolding s0_def by (rule steps_one [OF st_lease_end])
  have inv0: "cm_inv s0" by (rule steps_inv [OF st0 inv])
  have "c \<notin> set (cm_pool s0)" using inv leased by (auto simp: s0_def lease_end_def cm_inv_defs)
  then have "steps s0 s1" using cleanup_container_steps [OF inv0, of c "\<not> stopped" removal] cl by simp
  then have st1: "steps s s1" by (rule steps_trans [OF st0])
  have same1: "same_pool s0 s1" using cleanup_same(1) [of s0 "\<not> stopped" removal c] cl by simp
  have st2: "steps s s2" unfolding s2_def using st1 steps_trans [OF st1 mark_degraded_ok(1)] by simp
  have same2: "same_pool s0 s2"
    unfolding s2_def using same1 same_pool_trans [OF same1 mark_degraded_ok(2)] by simp
  have lease2: "cm_leased s2 = removeAll c (cm_leased s)"
    using same2 by (simp add: same_pool_def s0_def lease_end_def)
  have sub: "set (cm_pending s2) \<subseteq> set (cm_pending s) \<and> set (cm_managed s2) \<subseteq> set (cm_managed s)"
    using cl unfolding s2_def s0_def
    by (auto simp: cleanup_container_def docker_kill_def docker_gone_def lease_end_def mark_degraded_def
        forget_removed_container_def forget_managed_entry_def give_back_slot_def release_slot_def Let_def
        split: reply.splits if_splits)
  have "fresh_env env s2"
    using fresh sub lease2 same2 by (auto simp: fresh_env_def same_pool_def s0_def lease_end_def)
  from create_and_add_steps [OF steps_inv [OF st2 inv] this, of i]
  obtain r s3 where ca: "create_and_add i env s2 = (r, s3)" "steps s2 s3" "cm_leased s3 = cm_leased s2"
    by (cases "create_and_add i env s2") simp
  have st3: "steps s s3" "steps s (mark_degraded s3)"
    using steps_trans [OF st2 ca(2)] steps_trans [OF _ mark_degraded_ok(1)] by blast+
  have lease3: "cm_leased (mark_degraded s3) = cm_leased s2"
    using mark_degraded_ok(2) [of s3] ca(3) by (simp add: same_pool_def)
  have eq: "release_container i removal env c stopped s =
      (if \<not> (removed \<and> \<not> cm_shutting_down s2) then s2 else case r of Inr _ \<Rightarrow> s3 | Inl _ \<Rightarrow> mark_degraded s3)"
    unfolding release_container_def s0_def [symmetric] cl Let_def prod.case s2_def [symmetric] ca(1) by (rule refl)
  show "steps s (release_container i removal env c stopped s)"
    unfolding eq using st2 st3 by (auto split: sum.splits)
  show "cm_leased (release_container i removal env c stopped s) = removeAll c (cm_leased s)"
    unfolding eq using lease2 lease3 ca(3) by (auto split: sum.splits)
qed

subsection \<open>Freshness is kept\<close>

definition all_ids :: "manager \<Rightarrow> cid set" where
  "all_ids s = set (cm_managed s) \<union> set (cm_leased s) \<union> set (cm_pool s)"

definition grows :: "create_env \<Rightarrow> manager \<Rightarrow> manager \<Rightarrow> bool" where
  "grows env s t \<longleftrightarrow> set (cm_pending t) \<subseteq> insert (ce_name env) (set (cm_pending s))
     \<and> all_ids t \<subseteq> all_ids s \<union> {c. ce_create env = Inr c}"

lemma grows_trans: "grows env s t \<Longrightarrow> grows env t u \<Longrightarrow> grows env s u"
  unfolding grows_def by blast

lemma grows_regions [simp]:
  "grows env s s" "grows env s (docker_gone c s)" "grows env s (docker_gone_name n s)"
  "grows env s (docker_create n s)" "grows env s (mark_degraded s)" "grows env s (set_client s)"
  "grows env s (set_image_validated s)" "grows env s (lease_end c s)" "grows env s (give_back_slot s)"
  "grows env s (snd (acquire_slot s))" "grows env s (add_pending (ce_name env) s)"
  "grows env s (snd (forget_managed_entry c s))" "grows env s (snd (forget_pending_entry n s))"
  by (auto simp: grows_def all_ids_def region_defs give_back_slot_def)

lemma grows_forget [simp]:
  "grows env s (forget_removed_container c s)" "grows env s (forget_pending_name n s)"
proof -
  have "grows env s (give_back_slot (snd (forget_managed_entry c s)))"
    "grows env s (give_back_slot (snd (forget_pending_entry n s)))"
    using grows_trans [OF grows_regions(12) grows_regions(9)] grows_trans [OF grows_regions(13) grows_regions(9)] by blast+
  then show "grows env s (forget_removed_container c s)" "grows env s (forget_pending_name n s)"
    by (auto simp: forget_removed_container_def forget_pending_name_def forget_managed_entry_def
        forget_pending_entry_def)
qed

lemma grows_cleanup [simp]: "grows env s (snd (cleanup_container kill r c s))"
  using grows_trans [OF grows_regions(2) grows_forget(1)]
  by (simp add: cleanup_container_def docker_kill_def split: reply.splits)

lemma grows_abandon [simp]: "grows env s (abandon_pending env s)"
proof -
  obtain gone t where c: "cleanup_pending_container (ce_pending_get env) (ce_pending_remove env) False
      (ce_name env) s = (gone, t)"
    by (cases "cleanup_pending_container (ce_pending_get env) (ce_pending_remove env) False (ce_name env) s")
  then have "t = s \<or> t = docker_gone_name (ce_name env) s"
    by (auto simp: cleanup_pending_container_def split: reply.splits if_splits)
  then show ?thesis
    using c grows_trans [OF grows_regions(3) grows_forget(2)] by (auto simp: abandon_pending_def)
qed

lemma grows_create_reserved: "grows env s (snd (create_reserved env s))"
proof -
  define s1 where "s1 = docker_create (ce_name env) (add_pending (ce_name env) s)"
  have g1: "grows env s s1" unfolding s1_def using grows_trans [OF grows_regions(11) grows_regions(4)] .
  have ab: "grows env s (abandon_pending env s1)" using grows_trans [OF g1 grows_abandon] .
  have ad: "grows env s (adopt (ce_name env) c s1)" if "ce_create env = Inr c" for c
    by (rule grows_trans [OF g1]) (use that in \<open>auto simp: grows_def all_ids_def adopt_def\<close>)
  have "grows env s (snd (cleanup_container k (ce_cleanup env) c (adopt (ce_name env) c s1)))"
    if "ce_create env = Inr c" for c k
    using grows_trans [OF ad [OF that] grows_cleanup] .
  then show ?thesis using ab ad
    by (auto simp: create_reserved_def Let_def simp flip: s1_def split: sum.splits option.splits)
qed

lemma grows_create_container: "grows env s (snd (create_container i env s))"
proof -
  obtain r1 s1 where g: "get_client env s = (r1, s1)" by (cases "get_client env s")
  obtain r2 s2 where e: "ensure_sandbox_image i env s1 = (r2, s2)" by (cases "ensure_sandbox_image i env s1")
  obtain ok s3 where a: "acquire_slot s2 = (ok, s3)" by (cases "acquire_slot s2")
  have "s1 = s \<or> s1 = set_client s" using g by (auto simp: get_client_def split: if_splits sum.splits)
  then have g1: "grows env s s1" by auto
  have "s2 = s1 \<or> s2 = set_image_validated s1"
    using e by (auto simp: ensure_sandbox_image_def Let_def split: if_splits option.splits sum.splits)
  then have g2: "grows env s s2" using g1 grows_trans [OF g1 grows_regions(7)] by auto
  have g3: "grows env s s3" using grows_trans [OF g2 grows_regions(10)] a by simp
  show ?thesis
    unfolding create_container_def
    using g e a g1 g2 g3 grows_trans [OF g3 grows_create_reserved] by (auto split: sum.splits bool.splits)
qed

lemma created_value: "fst (create_container i env s) = Inr c \<Longrightarrow> ce_create env = Inr c"
  by (auto simp: create_container_def create_reserved_def Let_def split: if_splits prod.splits sum.splits
      option.splits bool.splits)

lemma grows_create_and_add: "grows env s (snd (create_and_add i env s))"
proof -
  obtain r t where c: "create_container i env s = (r, t)" by (cases "create_container i env s")
  have g: "grows env s t" using grows_create_container [of env s i] c by simp
  have "grows env s (pool_append k t)" if "r = Inr k" for k
    using g created_value [of i env s k] c that by (auto simp: grows_def all_ids_def pool_append_def)
  then show ?thesis using c g grows_trans [OF g grows_cleanup] by (auto simp: create_and_add_def split: sum.splits)
qed

lemma grows_get_container: "grows env s (snd (get_container i env s))"
proof -
  obtain r t where c: "create_container i env s = (r, t)" by (cases "create_container i env s")
  have g: "grows env s t" using grows_create_container [of env s i] c by simp
  have l: "grows env s (lease_new k t)" if "r = Inr k" for k
    using g created_value [of i env s k] c that by (auto simp: grows_def all_ids_def lease_new_def)
  have p: "cm_pool s \<noteq> [] \<Longrightarrow> grows env s (pool_popleft s)"
    by (cases "cm_pool s") (auto simp: grows_def all_ids_def pool_popleft_def)
  show ?thesis
    unfolding get_container_def c using g l p grows_trans [OF g grows_regions(5)]
    by (cases r) (auto split: manager_error.splits)
qed

lemma grows_release_container: "grows env s (release_container i removal env c stopped s)"
proof -
  define s0 where "s0 = lease_end c s"
  obtain removed s1 where cl: "cleanup_container (\<not> stopped) removal c s0 = (removed, s1)"
    by (cases "cleanup_container (\<not> stopped) removal c s0")
  define s2 where "s2 = (if \<not> removed then mark_degraded s1 else s1)"
  obtain r s3 where ca: "create_and_add i env s2 = (r, s3)" by (cases "create_and_add i env s2")
  have "grows env s s0" by (simp add: s0_def)
  then have g1: "grows env s s1" using grows_trans grows_cleanup [of env s0 "\<not> stopped" removal c] cl by fastforce
  then have g2: "grows env s s2" unfolding s2_def using grows_trans [OF g1 grows_regions(5)] by simp
  have g3: "grows env s s3" using grows_trans [OF g2] grows_create_and_add [of env s2 i] ca by simp
  have eq: "release_container i removal env c stopped s =
      (if \<not> (removed \<and> \<not> cm_shutting_down s2) then s2 else case r of Inr _ \<Rightarrow> s3 | Inl _ \<Rightarrow> mark_degraded s3)"
    unfolding release_container_def s0_def [symmetric] cl Let_def prod.case s2_def [symmetric] ca by (rule refl)
  show ?thesis unfolding eq using g2 g3 grows_trans [OF g3 grows_regions(5)] by (auto split: sum.splits)
qed

subsection \<open>The manager provides the executor's pool of containers\<close>

definition manager_error_text :: "manager_error \<Rightarrow> exn" where
  "manager_error_text e =
     (case e of
        ShuttingDown \<Rightarrow> lit ''container manager is shutting down''
      | ContainerCapacityError \<Rightarrow> lit ''managed container capacity reached''
      | RootlessDockerRequiredError \<Rightarrow> lit ''the sandbox Docker daemon must run in rootless mode''
      | CgroupResourceLimitsRequiredError \<Rightarrow> lit ''sandbox cgroup limits are not enforced''
      | SandboxImageConfigurationError \<Rightarrow> lit ''SANDBOX_IMAGE_ID is required''
      | SandboxMountConfigurationError \<Rightarrow> lit ''sandbox container has an unexpected mount or volume''
      | StaleContainersError \<Rightarrow> lit ''failed to list stale sandbox containers''
      | DockerError t \<Rightarrow> t)"

text \<open>
  The manager with the answers that Docker will give to its successive operations; the clock counts
  them. Every operation uses at most one fresh container.
\<close>

record pool_world =
  pw_manager :: manager
  pw_image :: "pystr option"
  pw_creates :: "nat \<Rightarrow> create_env"
  pw_removals :: "nat \<Rightarrow> removal_env"
  pw_clock :: nat

definition world_get :: "pool_world \<Rightarrow> (exn + cid) \<times> pool_world" where
  "world_get w =
     (let (r, s) = get_container (pw_image w) (pw_creates w (pw_clock w)) (pw_manager w)
      in (map_sum manager_error_text id r, w\<lparr>pw_manager := s, pw_clock := pw_clock w + 1\<rparr>))"

definition world_release :: "cid \<Rightarrow> bool \<Rightarrow> pool_world \<Rightarrow> pool_world" where
  "world_release c stopped w =
     w\<lparr>pw_manager := release_container (pw_image w) (pw_removals w (pw_clock w))
         (pw_creates w (pw_clock w)) c stopped (pw_manager w),
       pw_clock := pw_clock w + 1\<rparr>"

definition world_leased :: "pool_world \<Rightarrow> cid set" where
  "world_leased w = set (cm_leased (pw_manager w))"

definition distinct_envs :: "create_env \<Rightarrow> create_env \<Rightarrow> bool" where
  "distinct_envs a b \<longleftrightarrow> ce_name a \<noteq> ce_name b \<and> (\<forall>c. ce_create a = Inr c \<longrightarrow> ce_create b \<noteq> Inr c)"

definition world_inv :: "pool_world \<Rightarrow> bool" where
  "world_inv w \<longleftrightarrow> cm_inv (pw_manager w)
     \<and> (\<forall>n \<ge> pw_clock w. fresh_env (pw_creates w n) (pw_manager w))
     \<and> (\<forall>m n. pw_clock w \<le> m \<and> m < n \<longrightarrow> distinct_envs (pw_creates w m) (pw_creates w n))"

lemma fresh_after:
  assumes "grows env s t" and "fresh_env env' s" and "distinct_envs env env'"
  shows "fresh_env env' t"
proof -
  have "c \<notin> all_ids t" if c: "ce_create env' = Inr c" for c
  proof -
    have "c \<notin> all_ids s" using assms(2) c by (simp add: fresh_env_def all_ids_def)
    moreover have "ce_create env \<noteq> Inr c" using assms(3) c by (auto simp: distinct_envs_def)
    ultimately show ?thesis using assms(1) by (auto simp: grows_def)
  qed
  moreover have "ce_name env' \<notin> set (cm_pending t)"
    using assms by (auto simp: grows_def fresh_env_def distinct_envs_def)
  ultimately show ?thesis by (simp add: fresh_env_def all_ids_def)
qed

lemma world_inv_next:
  assumes w: "world_inv w" and g: "grows (pw_creates w (pw_clock w)) (pw_manager w) t" and "cm_inv t"
  shows "world_inv (w\<lparr>pw_manager := t, pw_clock := pw_clock w + 1\<rparr>)"
  using assms fresh_after [OF g] by (simp add: world_inv_def)

text \<open>
  What becomes of a container that is returned: it is neither pooled nor leased; once Docker has
  confirmed its removal the manager has forgotten it and it cannot exist any more, otherwise the
  manager is not ready until it is restarted.
\<close>

definition confirmed :: "reply \<Rightarrow> bool" where
  "confirmed r = (r = Reply_ok \<or> r = Reply_not_found)"

definition discarded_manager :: "removal_env \<Rightarrow> cid \<Rightarrow> manager \<Rightarrow> bool" where
  "discarded_manager removal c s \<longleftrightarrow> c \<notin> set (cm_pool s) \<and> c \<notin> set (cm_leased s)
     \<and> (if confirmed (rm_remove removal) then c \<notin> set (cm_managed s) \<and> c \<notin> set (cm_live s)
        else \<not> is_ready s)"

definition discarded :: "pool_world \<Rightarrow> cid \<Rightarrow> pool_world \<Rightarrow> bool" where
  "discarded w c w' \<longleftrightarrow> discarded_manager (pw_removals w (pw_clock w)) c (pw_manager w')"

lemma release_discards_manager:
  assumes inv: "cm_inv s" and fresh: "fresh_env env s" and leased: "c \<in> set (cm_leased s)"
  shows "discarded_manager removal c (release_container i removal env c stopped s)"
proof -
  define s0 where "s0 = lease_end c s"
  obtain removed s1 where cl: "cleanup_container (\<not> stopped) removal c s0 = (removed, s1)"
    by (cases "cleanup_container (\<not> stopped) removal c s0")
  define s2 where "s2 = (if \<not> removed then mark_degraded s1 else s1)"
  obtain r s3 where ca: "create_and_add i env s2 = (r, s3)" by (cases "create_and_add i env s2")
  let ?t = "release_container i removal env c stopped s"
  have eq: "?t =
      (if \<not> (removed \<and> \<not> cm_shutting_down s2) then s2 else case r of Inr _ \<Rightarrow> s3 | Inl _ \<Rightarrow> mark_degraded s3)"
    unfolding release_container_def s0_def [symmetric] cl Let_def prod.case s2_def [symmetric] ca by (rule refl)
  have "same_pool s0 s1" using cleanup_same(1) [of s0 "\<not> stopped" removal c] cl by simp
  then have "same_pool s0 s2" unfolding s2_def using same_pool_trans [OF _ mark_degraded_ok(2)] by auto
  then have p2: "c \<notin> set (cm_pool s2)" "c \<notin> set (cm_leased s2)"
    using inv leased by (auto simp: same_pool_def s0_def lease_end_def cm_inv_defs)
  have conf: "removed = confirmed (rm_remove removal)"
    using cl by (auto simp: cleanup_container_def confirmed_def Let_def split: reply.splits)
  have inv': "cm_inv ?t" using steps_inv [OF release_container_steps(1) [OF assms]] inv by blast
  show ?thesis
  proof (cases removed)
    case False
    then show ?thesis
      using p2 conf eq by (simp add: discarded_manager_def s2_def is_ready_def mark_degraded_def)
  next
    case True
    have "c \<notin> set (cm_managed s1)"
      using cl True by (auto simp: cleanup_container_def forget_removed_container_def forget_managed_entry_def
          give_back_slot_def release_slot_def Let_def split: reply.splits if_splits)
    then have "c \<notin> all_ids s2" using p2 True by (simp add: all_ids_def s2_def)
    moreover have "grows env s2 s3" using grows_create_and_add [of env s2 i] ca by simp
    moreover have "ce_create env \<noteq> Inr c" using fresh leased by (auto simp: fresh_env_def)
    ultimately have "c \<notin> all_ids s2" "c \<notin> all_ids s3" by (auto simp: grows_def)
    then have "c \<notin> all_ids ?t"
      unfolding eq by (auto simp: all_ids_def mark_degraded_def split: sum.splits)
    then show ?thesis using inv' True conf by (auto simp: discarded_manager_def all_ids_def cm_inv_defs)
  qed
qed

lemma world_now: "world_inv w \<Longrightarrow> cm_inv (pw_manager w) \<and> fresh_env (pw_creates w (pw_clock w)) (pw_manager w)"
  by (simp add: world_inv_def)

interpretation managed_pool: container_pool world_get world_release world_inv world_leased discarded
proof
  fix w :: pool_world and c :: cid and e :: exn and w' :: pool_world and stopped :: bool
  let ?env = "pw_creates w (pw_clock w)" and ?s = "pw_manager w"
  obtain r t where g: "get_container (pw_image w) ?env ?s = (r, t)" by (cases "get_container (pw_image w) ?env ?s")
  show "world_inv (snd (world_get w))" if w: "world_inv w"
  proof -
    have "cm_inv t" using get_container_steps(1) [of ?s ?env "pw_image w"] world_now [OF w] g steps_inv by fastforce
    moreover have "grows ?env ?s t" using grows_get_container [of ?env ?s "pw_image w"] g by simp
    ultimately show ?thesis using world_inv_next [OF w] g by (simp add: world_get_def)
  qed
  show "c \<notin> world_leased w \<and> world_leased w' = insert c (world_leased w)"
    if w: "world_inv w" and r: "world_get w = (Inr c, w')"
  proof -
    have "r = Inr c" "w' = w\<lparr>pw_manager := t, pw_clock := pw_clock w + 1\<rparr>"
      using r g by (auto simp: world_get_def map_sum_def split: sum.splits)
    then show ?thesis
      using get_container_steps(2) [of ?s ?env "pw_image w" c] world_now [OF w] g by (simp add: world_leased_def)
  qed
  show "world_leased w' = world_leased w" if w: "world_inv w" and r: "world_get w = (Inl e, w')"
  proof -
    obtain e' where "r = Inl e'" "w' = w\<lparr>pw_manager := t, pw_clock := pw_clock w + 1\<rparr>"
      using r g by (auto simp: world_get_def map_sum_def split: sum.splits)
    then show ?thesis
      using get_container_steps(3) [of ?s ?env "pw_image w" e'] world_now [OF w] g by (simp add: world_leased_def)
  qed
  show "world_inv (world_release c stopped w)" if w: "world_inv w" and l: "c \<in> world_leased w"
    using world_inv_next [OF w grows_release_container] world_now [OF w] l
      steps_inv [OF release_container_steps(1)] by (simp add: world_release_def world_leased_def)
  show "world_leased (world_release c stopped w) = world_leased w - {c}"
    if w: "world_inv w" and l: "c \<in> world_leased w"
    using release_container_steps(2) [of ?s ?env c] world_now [OF w] l
    by (simp add: world_release_def world_leased_def)
  show "discarded w c (world_release c stopped w)" if w: "world_inv w" and l: "c \<in> world_leased w"
    using release_discards_manager [of ?s ?env c] world_now [OF w] l
    by (simp add: discarded_def world_release_def world_leased_def)
qed

subsection \<open>Startup, shutdown, readiness\<close>

lemma ready_is_full:
  "cm_inv s \<Longrightarrow> is_ready s \<Longrightarrow> cm_slots s = 0 \<and> cm_reserved s = 0 \<and> cm_freed s = 0"
  by (auto simp: is_ready_def cm_inv_defs)

lemma begin_shutdown_ok: "steps s (begin_shutdown s)" "cm_shutting_down (begin_shutdown s)"
  using steps_one [OF st_shutdown, of s] by (auto simp: begin_shutdown_def start_shutdown_def)

lemma cleanup_fold_steps:
  assumes "cm_inv s" and "cm_shutting_down s"
  shows "steps s (foldl (\<lambda>t c. snd (cleanup_container False (rs c) c t)) s cs)"
  using assms
proof (induction cs arbitrary: s)
  case (Cons c cs)
  let ?t = "snd (cleanup_container False (rs c) c s)"
  have "c \<notin> set (cm_pool s)" using Cons.prems by (simp add: cm_inv_defs)
  from cleanup_container_steps [OF Cons.prems(1) this] have st: "steps s ?t" .
  have "cm_shutting_down ?t" using cleanup_same(1) [of s False "rs c" c] Cons.prems(2) by (simp add: same_pool_def)
  from steps_trans [OF st Cons.IH [OF steps_inv [OF st Cons.prems(1)] this]] show ?case by simp
qed simp

lemma pending_fold_steps:
  assumes "cm_inv s"
  shows "steps s (foldl (\<lambda>t n. let (gone, t1) = cleanup_pending_container (fst (ps n)) (snd (ps n)) True n t
                      in if gone then forget_pending_name n t1 else t1) s ns)"
  using assms
proof (induction ns arbitrary: s)
  case (Cons n ns)
  note st = cleanup_and_forget_steps [OF Cons.prems, of "fst (ps n)" "snd (ps n)" True n]
  from steps_trans [OF st Cons.IH [OF steps_inv [OF st Cons.prems]]] show ?case by simp
qed simp

lemma remove_all_steps:
  assumes "cm_inv s"
  shows "steps s (remove_all rs ps s)"
proof -
  let ?s1 = "begin_shutdown s"
  let ?s2 = "foldl (\<lambda>t c. snd (cleanup_container False (rs c) c t)) ?s1 (cm_managed ?s1)"
  have st1: "steps s ?s1" by (rule begin_shutdown_ok)
  have st2: "steps s ?s2"
    by (rule steps_trans [OF st1 cleanup_fold_steps [OF steps_inv [OF st1 assms] begin_shutdown_ok(2)]])
  show ?thesis
    unfolding remove_all_def Let_def
    by (rule steps_trans [OF st2 pending_fold_steps [OF steps_inv [OF st2 assms], unfolded Let_def]])
qed

lemma shutdown_pool_state [simp]: "snd (shutdown_pool close rs ps s) = remove_all rs ps s"
  by (simp add: shutdown_pool_def split: bool.splits option.splits)

text \<open>Every creation of a startup gets a name and an identifier of its own.\<close>

definition fresh_envs :: "create_env list \<Rightarrow> manager \<Rightarrow> bool" where
  "fresh_envs envs s \<longleftrightarrow> list_all (\<lambda>e. fresh_env e s) envs \<and> sorted_wrt distinct_envs envs"

lemma create_all_steps:
  assumes "cm_inv s" and "fresh_envs envs s"
  shows "steps s (snd (create_all i envs s))"
  using assms
proof (induction i envs s rule: create_all.induct)
  case (2 i env envs s)
  obtain r t where c: "create_and_add i env s = (r, t)" by fastforce
  have st: "steps s t" using create_and_add_steps [of s env i] c 2 by (simp add: fresh_envs_def)
  have g: "grows env s t" using grows_create_and_add [of env s i] c by simp
  have "fresh_envs envs t"
    using "2.prems"(2) fresh_after [OF g] by (auto simp: fresh_envs_def list_all_iff)
  then have "r = Inr k \<Longrightarrow> steps t (snd (create_all i envs t))" for k
    using "2.IH" [OF c [symmetric]] steps_inv [OF st "2.prems"(1)] by blast
  then show ?case using c st steps_trans by (cases r) auto
qed simp

lemma reconcile_steps:
  "steps s (snd (reconcile_stale_containers env listing s))"
  "same_pool s (snd (reconcile_stale_containers env listing s))"
  "cm_pending (snd (reconcile_stale_containers env listing s)) = cm_pending s"
  "cm_managed (snd (reconcile_stale_containers env listing s)) = cm_managed s"
  using get_client_ok [where s = s and env = env]
  by (auto simp: reconcile_stale_containers_def split: prod.splits sum.splits)

lemma initialize_pool_steps:
  assumes inv: "cm_inv s" and fresh: "fresh_envs (take (cm_pool_size s) envs) s"
  shows "steps s (snd (initialize_pool i env listing envs rs ps close s))"
proof -
  let ?envs = "take (cm_pool_size s) envs"
  obtain r1 s1 where rec: "reconcile_stale_containers env listing s = (r1, s1)" by fastforce
  note keep = reconcile_steps [where s = s and env = env and listing = listing, unfolded rec snd_conv]
  have inv1: "cm_inv s1" by (rule steps_inv [OF keep(1) inv])
  have fresh1: "fresh_envs ?envs s1"
    using fresh keep(2-) by (simp add: fresh_envs_def fresh_env_def same_pool_def)
  obtain r2 s2 where cr: "create_all i ?envs s1 = (r2, s2)" by fastforce
  have st2: "steps s s2" using steps_trans [OF keep(1)] create_all_steps [OF inv1 fresh1, of i] cr by simp
  have rm1: "steps s (remove_all rs ps s1)" using steps_trans [OF keep(1) remove_all_steps [OF inv1]] .
  have rm2: "steps s (remove_all rs ps s2)" using steps_trans [OF st2 remove_all_steps [OF steps_inv [OF st2 inv]]] .
  have init: "steps s (set_initialized s2)" using steps_trans [OF st2 steps_one [OF st_initialized]] .
  have drop: "snd (case shutdown_pool close rs ps t of (Inl e', u) \<Rightarrow> (Inl e', u) | (Inr _, u) \<Rightarrow> (Inl e, u))
      = remove_all rs ps t" for e t
    using shutdown_pool_state [of close rs ps t]
    by (cases "shutdown_pool close rs ps t") (auto split: sum.splits)
  show ?thesis
    unfolding initialize_pool_def rec cr using rm1 rm2 init by (auto simp: drop cr split: sum.splits)
qed

definition resolvable :: "reply \<times> reply \<Rightarrow> bool" where
  "resolvable r = (fst r = Reply_not_found \<or> (fst r = Reply_ok \<and> confirmed (snd r)))"

lemma give_back_slot_fields [simp]:
  "cm_managed (give_back_slot s) = cm_managed s" "cm_pending (give_back_slot s) = cm_pending s"
  "cm_has_client (give_back_slot s) = cm_has_client s"
  by (simp_all add: give_back_slot_def release_slot_def)

lemma cleanup_managed:
  "cm_managed (snd (cleanup_container k r c s)) =
     (if confirmed (rm_remove r) then removeAll c (cm_managed s) else cm_managed s)"
  "cm_pending (snd (cleanup_container k r c s)) = cm_pending s"
  "cm_has_client (snd (cleanup_container k r c s)) = cm_has_client s"
  by (auto simp: cleanup_container_def confirmed_def docker_kill_def forget_removed_container_def
      forget_managed_entry_def docker_gone_def Let_def removeAll_id split: reply.splits)

lemma cleanup_fold_managed:
  "cm_managed (foldl (\<lambda>t c. snd (cleanup_container False (rs c) c t)) s cs) =
      filter (\<lambda>c. c \<notin> set cs \<or> \<not> confirmed (rm_remove (rs c))) (cm_managed s)
    \<and> cm_pending (foldl (\<lambda>t c. snd (cleanup_container False (rs c) c t)) s cs) = cm_pending s
    \<and> cm_has_client (foldl (\<lambda>t c. snd (cleanup_container False (rs c) c t)) s cs) = cm_has_client s"
  by (induction cs arbitrary: s)
    (auto simp: cleanup_managed removeAll_filter_not_eq intro: filter_cong)

lemma cleanup_pending_result:
  assumes "cm_has_client s"
  shows "cm_pending (let (gone, t) = cleanup_pending_container (fst r) (snd r) True n s
      in if gone then forget_pending_name n t else t) =
      (if resolvable r then removeAll n (cm_pending s) else cm_pending s)"
    and "cm_managed (let (gone, t) = cleanup_pending_container (fst r) (snd r) True n s
      in if gone then forget_pending_name n t else t) = cm_managed s"
    and "cm_has_client (let (gone, t) = cleanup_pending_container (fst r) (snd r) True n s
      in if gone then forget_pending_name n t else t)"
  using assms
  by (auto simp: resolvable_def confirmed_def cleanup_pending_container_def forget_pending_name_def
      forget_pending_entry_def docker_gone_name_def removeAll_id split: reply.splits)

lemma pending_fold_pending:
  assumes "cm_has_client s"
  shows "cm_pending (foldl (\<lambda>t n. let (gone, t1) = cleanup_pending_container (fst (ps n)) (snd (ps n)) True n t
                      in if gone then forget_pending_name n t1 else t1) s ns) =
      filter (\<lambda>n. n \<notin> set ns \<or> \<not> resolvable (ps n)) (cm_pending s)
    \<and> cm_managed (foldl (\<lambda>t n. let (gone, t1) = cleanup_pending_container (fst (ps n)) (snd (ps n)) True n t
                      in if gone then forget_pending_name n t1 else t1) s ns) = cm_managed s"
  using assms
proof (induction ns arbitrary: s)
  case (Cons n ns)
  note r = cleanup_pending_result [OF Cons.prems, of "ps n" n]
  show ?case
    using Cons.IH [OF r(3)] r(1,2)
    by (auto simp: removeAll_filter_not_eq simp del: Let_def intro: filter_cong)
qed simp

text \<open>Exactly what Docker did not confirm is still recorded after the removals.\<close>

lemma remove_all_leaves:
  assumes "cm_has_client s"
  shows "cm_managed (remove_all rs ps s) = filter (\<lambda>c. \<not> confirmed (rm_remove (rs c))) (cm_managed s)"
    and "cm_pending (remove_all rs ps s) = filter (\<lambda>n. \<not> resolvable (ps n)) (cm_pending s)"
proof -
  let ?s1 = "begin_shutdown s"
  let ?s2 = "foldl (\<lambda>t c. snd (cleanup_container False (rs c) c t)) ?s1 (cm_managed ?s1)"
  have s1: "cm_has_client ?s1" "cm_managed ?s1 = cm_managed s" "cm_pending ?s1 = cm_pending s"
    using assms by (simp_all add: begin_shutdown_def start_shutdown_def)
  have s2: "cm_managed ?s2 = filter (\<lambda>c. \<not> confirmed (rm_remove (rs c))) (cm_managed s)"
    "cm_pending ?s2 = cm_pending s" "cm_has_client ?s2"
    using cleanup_fold_managed [of rs ?s1 "cm_managed ?s1"] s1 by (auto intro: filter_cong)
  have eq: "remove_all rs ps s =
      foldl (\<lambda>t n. let (gone, t1) = cleanup_pending_container (fst (ps n)) (snd (ps n)) True n t
                   in if gone then forget_pending_name n t1 else t1) ?s2 (cm_pending ?s1)"
    by (simp only: remove_all_def Let_def)
  show "cm_managed (remove_all rs ps s) = filter (\<lambda>c. \<not> confirmed (rm_remove (rs c))) (cm_managed s)"
    and "cm_pending (remove_all rs ps s) = filter (\<lambda>n. \<not> resolvable (ps n)) (cm_pending s)"
    unfolding eq using pending_fold_pending [where ps = ps and ns = "cm_pending ?s1", OF s2(3)] s1(3) s2(1,2)
    by (auto intro: filter_cong)
qed

text \<open>A container that is handed out or pooled has passed every check.\<close>

definition checked_container :: "create_env \<Rightarrow> cid \<Rightarrow> bool" where
  "checked_container env c \<longleftrightarrow> ce_create env = Inr c
     \<and> validate_container_mounts (ce_attrs env) = Inr () \<and> ce_start env = None
     \<and> validate_container_resource_limits (ce_limits env) = Inr ()"

lemma create_container_checked:
  "create_container i env s = (Inr c, t) \<Longrightarrow> checked_container env c"
  by (auto simp: create_container_def create_reserved_def checked_container_def Let_def
      split: if_splits prod.splits sum.splits option.splits bool.splits)

lemma get_client_fields:
  "get_client env s = (Inr u, t) \<Longrightarrow> t = s \<or> t = set_client s"
  by (auto simp: get_client_def split: if_splits sum.splits)

lemma ensure_image_fields:
  "ensure_sandbox_image i env s = (Inr u, t) \<Longrightarrow> t = s \<or> t = set_image_validated s"
  by (auto simp: ensure_sandbox_image_def Let_def split: if_splits sum.splits option.splits)

lemma create_container_success:
  assumes "create_container i env s = (Inr c, t)" and "cm_pending s = []"
  shows "cm_pending t = [] \<and> cm_managed t = cm_managed s @ [c] \<and> cm_pool t = cm_pool s
    \<and> cm_degraded t = cm_degraded s \<and> cm_pool_size t = cm_pool_size s \<and> \<not> cm_shutting_down t"
proof -
  from assms(1) obtain u s1 s2 s3 where ns: "\<not> cm_shutting_down s"
    and g: "get_client env s = (Inr u, s1)" and e: "ensure_sandbox_image i env s1 = (Inr u, s2)"
    and a: "acquire_slot s2 = (True, s3)" and r: "create_reserved env s3 = (Inr c, t)"
    by (auto simp: create_container_def split: if_splits prod.splits sum.splits bool.splits)
  have "t = adopt (ce_name env) c (docker_create (ce_name env) (add_pending (ce_name env) s3))"
    using r by (auto simp: create_reserved_def Let_def split: sum.splits option.splits)
  then show ?thesis
    using ns a get_client_fields [OF g] ensure_image_fields [OF e] assms(2)
    by (auto simp: adopt_def docker_create_def add_pending_def acquire_slot_def set_client_def
        set_image_validated_def split: if_splits)
qed

lemma create_and_add_success:
  assumes "create_and_add i env s = (Inr c, t)" and "cm_pending s = []"
  shows "cm_pending t = [] \<and> cm_managed t = cm_managed s @ [c] \<and> cm_pool t = cm_pool s @ [c]
    \<and> cm_degraded t = cm_degraded s \<and> cm_pool_size t = cm_pool_size s \<and> \<not> cm_shutting_down t
    \<and> checked_container env c"
  using assms create_container_success [of i env s] create_container_checked [of i env s]
  by (auto simp: create_and_add_def pool_append_def split: prod.splits sum.splits if_splits)

lemma create_all_success:
  assumes "create_all i envs s = (Inr u, t)" and "cm_pending s = []"
  shows "cm_pending t = [] \<and> length (cm_managed t) = length (cm_managed s) + length envs
    \<and> length (cm_pool t) = length (cm_pool s) + length envs \<and> cm_degraded t = cm_degraded s
    \<and> cm_pool_size t = cm_pool_size s \<and> (envs \<noteq> [] \<longrightarrow> \<not> cm_shutting_down t)
    \<and> list_all (\<lambda>env. \<exists>c. checked_container env c) envs"
  using assms
proof (induction i envs s rule: create_all.induct)
  case (2 i env envs s)
  obtain r s1 where c: "create_and_add i env s = (r, s1)" by (cases "create_and_add i env s")
  obtain k where k: "r = Inr k" using 2 c by (cases r) auto
  note ok = create_and_add_success [OF c [unfolded k] 2(3)]
  have "create_all i envs s1 = (Inr u, t)" using 2(2) c k by simp
  with "2.IH" [OF c [unfolded k, symmetric]] ok show ?case
    by (cases envs) auto
qed simp

lemma initialize_pool_success:
  assumes "initialize_pool i env listing envs rs ps close (new_manager n) = (Inr u, t)"
    and "n \<le> length envs" and "0 < n"
  shows "is_ready t \<and> length (cm_pool t) = n \<and> (\<forall>e \<in> set (take n envs). \<exists>c. checked_container e c)"
proof -
  from assms(1) obtain u' s1 t1 where r: "reconcile_stale_containers env listing (new_manager n) = (Inr u', s1)"
    and c: "create_all i (take n envs) s1 = (Inr u', t1)" and t: "t = set_initialized t1"
    by (auto simp: initialize_pool_def new_manager_def split: if_splits prod.splits sum.splits)
  have "s1 = new_manager n \<or> s1 = set_client (new_manager n)"
    using r get_client_fields [of env "new_manager n"]
    by (auto simp: reconcile_stale_containers_def split: prod.splits sum.splits if_splits)
  then have s1: "cm_pending s1 = []" "cm_managed s1 = []" "cm_pool s1 = []" "\<not> cm_degraded s1" "cm_pool_size s1 = n"
    by (auto simp: new_manager_def set_client_def)
  from create_all_success [OF c s1(1)] s1 assms(2,3) show ?thesis
    by (auto simp: t is_ready_def set_initialized_def list_all_iff)
qed

subsection \<open>Properties\<close>

definition sample_mounts :: pyval where
  "sample_mounts = PDict
     [(lit ''Mounts'', PList []),
      (lit ''HostConfig'', PDict [(lit ''Tmpfs'', PDict SANDBOX_TMPFS)]),
      (lit ''Config'', PDict [])]"

definition sample_limits :: bytes where
  "sample_limits = map of_char ''536870912'' @ [10] @ map of_char ''50'' @ [10] @ map of_char ''50000 100000'' @ [10]"

definition sample_env :: "nat \<Rightarrow> create_env" where
  "sample_env n =
     \<lparr>ce_info = Inr \<lparr>di_security_options = [lit ''name=rootless''], di_cgroup_version = Some (lit ''2''),
                     di_cgroup_driver = Some (lit ''systemd'')\<rparr>,
      ce_image_get = Image_found (PDict [(lit ''Config'', PDict [])]), ce_image_pull = Inl [],
      ce_name = [n], ce_create = Inr [n], ce_attrs = Inr sample_mounts,
      ce_pending_get = Reply_ok, ce_pending_remove = Reply_ok, ce_start = None,
      ce_limits = Inr (Some 0, sample_limits),
      ce_cleanup = \<lparr>rm_kill = Reply_ok, rm_remove = Reply_ok\<rparr>\<rparr>"

definition sample_world :: pool_world where
  "sample_world = \<lparr>pw_manager = new_manager 1, pw_image = Some (lit ''sha256:''), pw_creates = sample_env,
     pw_removals = (\<lambda>n. \<lparr>rm_kill = Reply_ok, rm_remove = Reply_ok\<rparr>), pw_clock = 0\<rparr>"

lemma sample_world_inv: "world_inv sample_world"
  by (auto simp: world_inv_def sample_world_def new_manager_inv fresh_env_def distinct_envs_def sample_env_def)
    (simp_all add: new_manager_def)

lemma sample_env_checked: "checked_container (sample_env n) [n]"
proof -
  have "validate_container_mounts (Inr sample_mounts) = Inr ()"
    by (simp add: validate_container_mounts_def sample_mounts_def dict_get_def is_dict_def truthy_def
        equals_dict_def SANDBOX_TMPFS_def)
  moreover have "validate_container_resource_limits (Inr (Some 0, sample_limits)) = Inr ()"
    by (simp add: validate_container_resource_limits_def sample_limits_def EXPECTED_LIMITS_def splitlines_def
        decode_ascii_def line_break_def lit_def)
  ultimately show ?thesis by (simp add: checked_container_def sample_env_def)
qed

lemma sample_create:
  assumes "\<not> cm_shutting_down s" "0 < cm_slots s"
  shows "\<exists>t. create_container (Some (lit ''sha256:'')) (sample_env n) s = (Inr [n], t) \<and> \<not> cm_shutting_down t"
proof -
  obtain i where d: "ce_info (sample_env n) = Inr i" "validate_daemon i = Inr ()"
    by (auto simp: sample_env_def validate_daemon_def)
  have img: "validate_sandbox_image (PDict [(lit ''Config'', PDict [])]) = Inr ()"
    by (simp add: validate_sandbox_image_def dict_get_def is_dict_def)
  have m: "validate_container_mounts (ce_attrs (sample_env n)) = Inr ()"
    and l: "validate_container_resource_limits (ce_limits (sample_env n)) = Inr ()"
    using sample_env_checked [of n] by (simp_all add: checked_container_def)
  have f: "ce_create (sample_env n) = Inr [n]" "ce_start (sample_env n) = None"
    "ce_image_get (sample_env n) = Image_found (PDict [(lit ''Config'', PDict [])])"
    by (simp_all add: sample_env_def)
  show ?thesis
    using assms by (cases "cm_has_client s") (simp_all add: create_container_def get_client_def d set_client_def ensure_sandbox_image_def f img m l
        acquire_slot_def create_reserved_def set_image_validated_def Let_def docker_create_def
        add_pending_def adopt_def)
qed

lemma sample_initialize:
  "\<exists>t. initialize_pool (Some (lit ''sha256:'')) (sample_env 0) (Inr [Reply_not_found]) [sample_env 3]
      (\<lambda>_. \<lparr>rm_kill = Reply_ok, rm_remove = Reply_ok\<rparr>) (\<lambda>_. (Reply_ok, Reply_ok)) close (new_manager 1) = (Inr (), t)"
proof -
  let ?s = "set_client (new_manager 1)"
  obtain t where t: "create_container (Some (lit ''sha256:'')) (sample_env 3) ?s = (Inr [3], t)" "\<not> cm_shutting_down t"
    using sample_create [of ?s 3] by (auto simp: set_client_def new_manager_def)
  have r: "reconcile_stale_containers (sample_env 0) (Inr [Reply_not_found]) (new_manager 1) = (Inr (), ?s)"
    by (simp add: reconcile_stale_containers_def get_client_def new_manager_def sample_env_def validate_daemon_def)
  have "create_all (Some (lit ''sha256:'')) [sample_env 3] ?s = (Inr (), pool_append [3] t)"
    using t by (simp add: create_and_add_def)
  moreover have "take (cm_pool_size (new_manager 1)) [sample_env 3] = [sample_env 3]"
    by (simp add: new_manager_def)
  ultimately have "initialize_pool (Some (lit ''sha256:'')) (sample_env 0) (Inr [Reply_not_found]) [sample_env 3]
      (\<lambda>_. \<lparr>rm_kill = Reply_ok, rm_remove = Reply_ok\<rparr>) (\<lambda>_. (Reply_ok, Reply_ok)) close (new_manager 1)
      = (Inr (), set_initialized (pool_append [3] t))"
    by (simp only: initialize_pool_def r prod.case sum.case option.distinct if_False)
  then show ?thesis by blast
qed

text \<open>C3: Every method of the manager is a sequence of the atomic regions, whatever Docker answers:
  starting the pool, creating, leasing and returning a container and both stages of the shutdown
  all stay within the capacity discipline. The names and identifiers of new containers are assumed
  to be new (random UUIDs, Docker's identifiers), and the container that is returned to be a leased
  one.\<close>

theorem manager_methods_are_region_sequences:
  assumes "cm_inv s" and "fresh_env env s" and "fresh_envs (take (cm_pool_size s) envs) s"
  shows "cm_step\<^sup>*\<^sup>* s (snd (initialize_pool img env listing envs removals pending_replies close s))
    \<and> cm_step\<^sup>*\<^sup>* s (snd (create_container img env s))
    \<and> cm_step\<^sup>*\<^sup>* s (snd (create_and_add img env s))
    \<and> cm_step\<^sup>*\<^sup>* s (snd (get_container img env s))
    \<and> (\<forall>c \<in> set (cm_leased s). cm_step\<^sup>*\<^sup>* s (release_container img removal env c stopped s))
    \<and> cm_step\<^sup>*\<^sup>* s (begin_shutdown s)
    \<and> cm_step\<^sup>*\<^sup>* s (snd (shutdown_pool close removals pending_replies s))"
  using initialize_pool_steps [OF assms(1,3)] create_container_ok [OF assms(1,2), of img]
    create_and_add_steps [OF assms(1,2), of img] get_container_steps(1) [OF assms(1,2)]
    release_container_steps(1) [OF assms(1,2)] begin_shutdown_ok(1) [of s] remove_all_steps [OF assms(1)]
  by (simp add: created_ok_def)

theorem manager_methods_are_region_sequences_witness:
  "cm_step\<^sup>*\<^sup>* (new_manager 1) (snd (initialize_pool (Some (lit ''sha256:'')) (sample_env 7)
     (Inr [Reply_not_found]) [sample_env 3] (\<lambda>_. \<lparr>rm_kill = Reply_ok, rm_remove = Reply_ok\<rparr>)
     (\<lambda>_. (Reply_ok, Reply_ok)) (Some [97]) (new_manager 1)))"
proof -
  have "fresh_env (sample_env 7) (new_manager 1)"
    "fresh_envs (take (cm_pool_size (new_manager 1)) [sample_env 3]) (new_manager 1)"
    by (simp_all add: fresh_envs_def fresh_env_def sample_env_def new_manager_def)
  from manager_methods_are_region_sequences [OF new_manager_inv this] show ?thesis by blast
qed

text \<open>C2: An execution gives its container back and never reuses it, whatever Docker and the command
  do: afterwards exactly the containers leased before are leased and the manager's invariant holds;
  and the container that the execution ran in is in no pool, and either Docker has confirmed its
  removal, and then the manager has forgotten it and it cannot exist any more, or the manager no
  longer reports itself ready.\<close>

theorem execution_leaks_no_container:
  assumes "world_inv w"
  shows "world_inv (snd (sandbox_execute world_get world_release runs rec shellgei limit started_at w))
    \<and> world_leased (snd (sandbox_execute world_get world_release runs rec shellgei limit started_at w)) = world_leased w
    \<and> (\<forall>c w1. world_get w = (Inr c, w1) \<longrightarrow>
         discarded w1 c (snd (sandbox_execute world_get world_release runs rec shellgei limit started_at w)))"
  using managed_pool.execute_returns [OF assms] managed_pool.execute_discards [OF assms] by blast

definition failing_run :: container_run where
  "failing_run =
     \<lparr>cn_setup = (\<lambda>_. Inr (Some 1)), cn_exec = \<lparr>xa_create = Inl [], xa_start = Inl [], xa_exit_code = Inl []\<rparr>,
      cn_artifact = Inl [], cn_display = Inl [], cn_timer = None, cn_timer_kill = None,
      cn_overflow_kill = None, cn_final_kill = None, cn_now = 0\<rparr>"

theorem execution_leaks_no_container_witness:
  "\<exists>w. snd (sandbox_execute world_get world_release (\<lambda>c. failing_run)
      \<lparr>pr_definition = sample_definition ''STANDARD-1'', pr_answer_image = [], pr_answer_image_base64 = []\<rparr>
      [97] 1000 0 sample_world) = w \<and> world_leased w = {} \<and> [0] \<notin> set (cm_managed (pw_manager w))"
proof -
  obtain t where t: "create_container (Some (lit ''sha256:'')) (sample_env 0) (new_manager 1) = (Inr [0], t)"
    using sample_create [of "new_manager 1" 0] by (auto simp: new_manager_def)
  then have "world_get sample_world =
      (Inr [0], sample_world\<lparr>pw_manager := lease_new [0] t, pw_clock := 1\<rparr>)"
    by (simp add: world_get_def sample_world_def get_container_def new_manager_def)
  then show ?thesis
    using execution_leaks_no_container [OF sample_world_inv]
    by (auto simp: discarded_def discarded_manager_def sample_world_def confirmed_def world_leased_def new_manager_def)
qed

text \<open>Shutdown removes everything: if Docker confirms each removal and each unresolved name, no
  container and no name is recorded afterwards and none can exist.\<close>

lemma shutdown_leaves_nothing:
  assumes "cm_inv s" and "cm_has_client s"
    and "\<And>c. confirmed (rm_remove (removals c))" and "\<And>n. resolvable (pending_replies n)"
  shows "managed_count (snd (shutdown_pool close removals pending_replies s)) = 0
    \<and> cm_live (snd (shutdown_pool close removals pending_replies s)) = []
    \<and> cm_live_names (snd (shutdown_pool close removals pending_replies s)) = []"
proof -
  have "cm_inv (remove_all removals pending_replies s)" by (rule steps_inv [OF remove_all_steps [OF assms(1)] assms(1)])
  then show ?thesis
    using remove_all_leaves [OF assms(2), of removals pending_replies] assms(3,4)
    by (simp add: managed_count_def cm_inv_defs)
qed

text \<open>Startup is all or nothing: if \<open>initialize_pool\<close> succeeds on a new manager, the pool is full and
  ready, and each of its containers passed the mount and cgroup checks.\<close>

lemma startup_gives_ready_pool:
  assumes "initialize_pool img env listing envs removals pending_replies close (new_manager n) = (Inr u, t)"
    and "n \<le> length envs" and "0 < n"
  shows "is_ready t \<and> length (cm_pool t) = n \<and> (\<forall>e \<in> set (take n envs). \<exists>c. checked_container e c)"
  by (rule initialize_pool_success [OF assms])

end
