(* ===== verification/Runner_Protocol.thy ===== *)
theory Runner_Protocol
  imports Execution Validation
begin

section \<open>Responses of the private runner\<close>

text \<open>
  The response models of \<open>soj_shared/runner_protocol.py\<close> and the JSON forms of \<open>ExecutionResult\<close>
  and \<open>ExecutionArtifact\<close>: what the runner sends and what the backend accepts. The byte syntax of
  JSON is not modelled; a document is a \<open>pyval\<close>. The models forbid extra fields and are strict, so
  an integer field takes only an integer, a flag only a Boolean and an enumeration only its texts.
\<close>

definition status_text :: "ExecutionStatus \<Rightarrow> pystr" where
  "status_text s = lit (case s of COMPLETED \<Rightarrow> ''completed'' | TIMED_OUT \<Rightarrow> ''timed_out''
     | OUTPUT_LIMIT \<Rightarrow> ''output_limit'' | ERROR \<Rightarrow> ''error'')"

definition parse_member :: "('a \<Rightarrow> pystr) \<Rightarrow> 'a list \<Rightarrow> pyval \<Rightarrow> value_error + 'a" where
  "parse_member text_of members v =
     (case List.find (\<lambda>m. PStr (text_of m) = v) members of
        None \<Rightarrow> Inl (ValueError ''not a member of the enumeration'') | Some m \<Rightarrow> Inr m)"

definition parse_status :: "pyval \<Rightarrow> value_error + ExecutionStatus" where
  "parse_status = parse_member status_text [COMPLETED, TIMED_OUT, OUTPUT_LIMIT, ERROR]"

definition parse_media_type :: "pyval \<Rightarrow> value_error + ImageMediaType" where
  "parse_media_type = parse_member media_text [Image_jpeg, Image_gif]"

definition as_int :: "pyval \<Rightarrow> value_error + int" where
  "as_int v = (case v of PInt i \<Rightarrow> Inr i | _ \<Rightarrow> Inl (ValueError ''not an integer''))"

definition as_bool :: "pyval \<Rightarrow> value_error + bool" where
  "as_bool v = (case v of PBool b \<Rightarrow> Inr b | _ \<Rightarrow> Inl (ValueError ''not a boolean''))"

definition as_option :: "(pyval \<Rightarrow> value_error + 'a) \<Rightarrow> pyval \<Rightarrow> value_error + 'a option" where
  "as_option p v = (case v of PNone \<Rightarrow> Inr None | _ \<Rightarrow> rbind (p v) (\<lambda>a. Inr (Some a)))"

text \<open>A field with a default may be absent.\<close>

definition with_default :: "string \<Rightarrow> pyval \<Rightarrow> pyval \<Rightarrow> pyval" where
  "with_default name d v =
     (case v of PDict kvs \<Rightarrow> if map_of kvs (lit name) = None then PDict (kvs @ [(lit name, d)]) else v | _ \<Rightarrow> v)"

definition parse_ExecutionArtifact :: "pyval \<Rightarrow> value_error + ExecutionArtifact" where
  "parse_ExecutionArtifact v =
     rbind (object_fields [''path'', ''media_type'', ''data''] v) (\<lambda>fs.
     rbind (as_str (fs ! 0)) (\<lambda>path.
     rbind (parse_media_type (fs ! 1)) (\<lambda>media.
     rbind (as_str (fs ! 2)) (\<lambda>data.
     new_ExecutionArtifact path media data))))"

definition result_names :: "string list" where
  "result_names = [''status'', ''stdout'', ''stderr'', ''exit_code'', ''timed_out'', ''truncated'',
     ''duration_ms'', ''artifact'', ''error'', ''display_artifact'']"

definition parse_ExecutionResult :: "pyval \<Rightarrow> value_error + ExecutionResult" where
  "parse_ExecutionResult v =
     rbind (object_fields result_names (with_default ''display_artifact'' PNone v)) (\<lambda>fs.
     rbind (parse_status (fs ! 0)) (\<lambda>status.
     rbind (as_str (fs ! 1)) (\<lambda>stdout.
     rbind (as_str (fs ! 2)) (\<lambda>stderr.
     rbind (as_option as_int (fs ! 3)) (\<lambda>exit_code.
     rbind (as_bool (fs ! 4)) (\<lambda>timed_out.
     rbind (as_bool (fs ! 5)) (\<lambda>truncated.
     rbind (as_int (fs ! 6)) (\<lambda>duration_ms.
     rbind (as_option parse_ExecutionArtifact (fs ! 7)) (\<lambda>artifact.
     rbind (as_option as_str (fs ! 8)) (\<lambda>error.
     rbind (as_option parse_ExecutionArtifact (fs ! 9)) (\<lambda>display_artifact.
     new_ExecutionResult
       \<lparr>er_status = status, er_stdout = stdout, er_stderr = stderr, er_exit_code = exit_code,
        er_timed_out = timed_out, er_truncated = truncated, er_duration_ms = duration_ms,
        er_artifact = artifact, er_error = error, er_display_artifact = display_artifact\<rparr>)))))))))))"

record RunnerExecutionResponse =
  rs_request_id :: pystr
  rs_problem_revision :: pystr
  rs_result :: ExecutionResult

definition parse_RunnerExecutionResponse :: "pyval \<Rightarrow> value_error + RunnerExecutionResponse" where
  "parse_RunnerExecutionResponse v =
     rbind (object_fields [''protocol_version'', ''request_id'', ''problem_revision'', ''result''] v) (\<lambda>fs.
     rbind (protocol_version_field (fs ! 0)) (\<lambda>_.
     rbind (RequestId (fs ! 1)) (\<lambda>r.
     rbind (ProblemRevision (fs ! 2)) (\<lambda>rev.
     rbind (parse_ExecutionResult (fs ! 3)) (\<lambda>result.
     Inr \<lparr>rs_request_id = r, rs_problem_revision = rev, rs_result = result\<rparr>)))))"

datatype RunnerReadinessStatus = READY | DEGRADED

definition readiness_text :: "RunnerReadinessStatus \<Rightarrow> pystr" where
  "readiness_text s = lit (case s of READY \<Rightarrow> ''ready'' | DEGRADED \<Rightarrow> ''degraded'')"

record RunnerReadinessResponse =
  rr_problem_revision :: pystr
  rr_status :: RunnerReadinessStatus

subsection \<open>The JSON forms that are sent\<close>

definition dump_option :: "('a \<Rightarrow> pyval) \<Rightarrow> 'a option \<Rightarrow> pyval" where
  "dump_option d x = (case x of None \<Rightarrow> PNone | Some a \<Rightarrow> d a)"

definition dump_ExecutionArtifact :: "ExecutionArtifact \<Rightarrow> pyval" where
  "dump_ExecutionArtifact a = PDict
     [(lit ''path'', PStr (art_path a)), (lit ''media_type'', PStr (media_text (art_media_type a))),
      (lit ''data'', PStr (art_data a))]"

definition dump_ExecutionResult :: "ExecutionResult \<Rightarrow> pyval" where
  "dump_ExecutionResult r = PDict
     [(lit ''status'', PStr (status_text (er_status r))), (lit ''stdout'', PStr (er_stdout r)),
      (lit ''stderr'', PStr (er_stderr r)), (lit ''exit_code'', dump_option PInt (er_exit_code r)),
      (lit ''timed_out'', PBool (er_timed_out r)), (lit ''truncated'', PBool (er_truncated r)),
      (lit ''duration_ms'', PInt (er_duration_ms r)),
      (lit ''artifact'', dump_option dump_ExecutionArtifact (er_artifact r)),
      (lit ''error'', dump_option PStr (er_error r)),
      (lit ''display_artifact'', dump_option dump_ExecutionArtifact (er_display_artifact r))]"

definition dump_RunnerExecutionResponse :: "RunnerExecutionResponse \<Rightarrow> pyval" where
  "dump_RunnerExecutionResponse r = PDict
     [(lit ''protocol_version'', PInt RUNNER_PROTOCOL_VERSION), (lit ''request_id'', PStr (rs_request_id r)),
      (lit ''problem_revision'', PStr (rs_problem_revision r)),
      (lit ''result'', dump_ExecutionResult (rs_result r))]"

subsection \<open>Reading back\<close>

lemma parse_status_text [simp]: "parse_status (PStr (status_text s)) = Inr s"
  by (cases s) (simp_all add: parse_status_def parse_member_def status_text_def)

lemma parse_media_text [simp]: "parse_media_type (PStr (media_text m)) = Inr m"
  by (cases m) (simp_all add: parse_media_type_def parse_member_def media_text_def)

lemma as_simps [simp]: "as_int (PInt i) = Inr i" "as_bool (PBool b) = Inr b"
  by (simp_all add: as_int_def as_bool_def)

lemma as_option_dump:
  "(\<And>a. d a \<noteq> PNone) \<Longrightarrow> (\<And>a. x = Some a \<Longrightarrow> p (d a) = Inr a) \<Longrightarrow> as_option p (dump_option d x) = Inr x"
  by (cases x) (auto simp: as_option_def dump_option_def split: pyval.splits)

lemma as_option_eq_Inr:
  "as_option p v = Inr x \<longleftrightarrow> (v = PNone \<and> x = None) \<or> (v \<noteq> PNone \<and> (\<exists>a. p v = Inr a \<and> x = Some a))"
  by (cases v) (auto simp: as_option_def rbind_eq_Inr)

definition valid_artifact :: "ExecutionArtifact \<Rightarrow> bool" where
  "valid_artifact a \<longleftrightarrow> length (art_path a) \<le> 255 \<and> is_relative_path (art_path a) \<and> length (art_data a) \<le> 1000000"

definition valid_result :: "ExecutionResult \<Rightarrow> bool" where
  "valid_result r \<longleftrightarrow> consistent r \<and> list_all valid_artifact (artifacts_of r)"

definition valid_response :: "RunnerExecutionResponse \<Rightarrow> bool" where
  "valid_response r \<longleftrightarrow> is_request_id (rs_request_id r) \<and> is_revision (rs_problem_revision r)
     \<and> valid_result (rs_result r)"

lemma new_ExecutionArtifact_valid: "new_ExecutionArtifact p m d = Inr a \<Longrightarrow> valid_artifact a"
  by (auto simp: new_ExecutionArtifact_iff valid_artifact_def)

lemma new_ExecutionArtifact_same:
  "valid_artifact a \<Longrightarrow> new_ExecutionArtifact (art_path a) (art_media_type a) (art_data a) = Inr a"
  by (simp add: new_ExecutionArtifact_iff valid_artifact_def)

lemma parse_dump_ExecutionArtifact:
  "valid_artifact a \<Longrightarrow> parse_ExecutionArtifact (dump_ExecutionArtifact a) = Inr a"
  by (simp add: parse_ExecutionArtifact_def dump_ExecutionArtifact_def object_fields_def
      new_ExecutionArtifact_same)

lemma parse_ExecutionArtifact_valid: "parse_ExecutionArtifact v = Inr a \<Longrightarrow> valid_artifact a"
  unfolding parse_ExecutionArtifact_def rbind_eq_Inr by (blast dest: new_ExecutionArtifact_valid)

lemma fields_dump_ExecutionResult:
  "object_fields result_names (with_default ''display_artifact'' PNone (dump_ExecutionResult r)) =
     Inr [PStr (status_text (er_status r)), PStr (er_stdout r), PStr (er_stderr r),
       dump_option PInt (er_exit_code r), PBool (er_timed_out r), PBool (er_truncated r),
       PInt (er_duration_ms r), dump_option dump_ExecutionArtifact (er_artifact r),
       dump_option PStr (er_error r), dump_option dump_ExecutionArtifact (er_display_artifact r)]"
  by (simp add: object_fields_def dump_ExecutionResult_def with_default_def result_names_def)

lemma dump_ExecutionArtifact_not_None [simp]: "dump_ExecutionArtifact a \<noteq> PNone"
  by (simp add: dump_ExecutionArtifact_def)

lemma artifact_option_round_trip:
  "(\<And>a. x = Some a \<Longrightarrow> valid_artifact a) \<Longrightarrow>
     as_option parse_ExecutionArtifact (dump_option dump_ExecutionArtifact x) = Inr x"
  by (rule as_option_dump) (simp_all add: parse_dump_ExecutionArtifact)

lemma valid_result_artifacts:
  "valid_result r \<Longrightarrow> er_artifact r = Some a \<Longrightarrow> valid_artifact a"
  "valid_result r \<Longrightarrow> er_display_artifact r = Some a \<Longrightarrow> valid_artifact a"
  by (simp_all add: valid_result_def artifacts_of_def)

lemma parse_dump_ExecutionResult:
  assumes "valid_result r"
  shows "parse_ExecutionResult (dump_ExecutionResult r) = Inr r"
proof -
  have arts: "as_option parse_ExecutionArtifact (dump_option dump_ExecutionArtifact (er_artifact r)) = Inr (er_artifact r)"
    "as_option parse_ExecutionArtifact (dump_option dump_ExecutionArtifact (er_display_artifact r)) = Inr (er_display_artifact r)"
    using valid_result_artifacts [OF assms] by (auto intro: artifact_option_round_trip)
  have opts: "as_option as_int (dump_option PInt (er_exit_code r)) = Inr (er_exit_code r)"
    "as_option as_str (dump_option PStr (er_error r)) = Inr (er_error r)"
    by (rule as_option_dump; simp)+
  have "new_ExecutionResult
      \<lparr>er_status = er_status r, er_stdout = er_stdout r, er_stderr = er_stderr r, er_exit_code = er_exit_code r,
       er_timed_out = er_timed_out r, er_truncated = er_truncated r, er_duration_ms = er_duration_ms r,
       er_artifact = er_artifact r, er_error = er_error r, er_display_artifact = er_display_artifact r\<rparr> = Inr r"
    using assms by (cases r) (simp add: new_ExecutionResult_iff valid_result_def)
  then show ?thesis
    by (simp add: parse_ExecutionResult_def fields_dump_ExecutionResult arts opts numeral_eq_Suc)
qed

lemma parse_ExecutionResult_valid: "parse_ExecutionResult v = Inr r \<Longrightarrow> valid_result r"
  unfolding parse_ExecutionResult_def rbind_eq_Inr new_ExecutionResult_iff as_option_eq_Inr
  by (auto simp: valid_result_def artifacts_of_def dest: parse_ExecutionArtifact_valid)

lemma parse_RunnerExecutionResponse_valid:
  "parse_RunnerExecutionResponse v = Inr r \<Longrightarrow> valid_response r"
  unfolding parse_RunnerExecutionResponse_def rbind_eq_Inr RequestId_iff ProblemRevision_iff
  by (auto simp: valid_response_def dest: parse_ExecutionResult_valid)

lemma parse_dump_RunnerExecutionResponse:
  assumes "valid_response r"
  shows "parse_RunnerExecutionResponse (dump_RunnerExecutionResponse r) = Inr r"
proof -
  have "RequestId (PStr (rs_request_id r)) = Inr (rs_request_id r)"
    "ProblemRevision (PStr (rs_problem_revision r)) = Inr (rs_problem_revision r)"
    using assms by (simp_all add: valid_response_def RequestId_iff ProblemRevision_iff)
  then show ?thesis
    using assms by (simp add: parse_RunnerExecutionResponse_def dump_RunnerExecutionResponse_def
        object_fields_def protocol_version_field_def parse_dump_ExecutionResult valid_response_def)
qed

subsection \<open>Properties\<close>

text \<open>A valid response that the runner sends is read back unchanged by the backend, and whatever
  the backend accepts is valid: well-formed identifiers and a result that meets the whole contract
  of results, artifacts included.\<close>

theorem runner_response_round_trip:
  "(valid_response r \<longrightarrow> parse_RunnerExecutionResponse (dump_RunnerExecutionResponse r) = Inr r)
    \<and> (parse_RunnerExecutionResponse v = Inr r \<longrightarrow> valid_response r)"
  using parse_dump_RunnerExecutionResponse parse_RunnerExecutionResponse_valid by blast

definition sample_result :: ExecutionResult where
  "sample_result = \<lparr>er_status = COMPLETED, er_stdout = [104, 105, 10], er_stderr = [], er_exit_code = Some 0,
     er_timed_out = False, er_truncated = False, er_duration_ms = 12, er_artifact = None, er_error = None,
     er_display_artifact = Some \<lparr>art_path = DISPLAY_GIF_PATH, art_media_type = Image_gif, art_data = [65, 65, 65, 65]\<rparr>\<rparr>"

definition sample_response :: RunnerExecutionResponse where
  "sample_response = \<lparr>rs_request_id = replicate 32 48, rs_problem_revision = replicate 64 102, rs_result = sample_result\<rparr>"

lemma sample_result_valid: "valid_result sample_result"
  by (simp add: valid_result_def sample_result_def consistent_def ok_status_def artifacts_of_def
      valid_artifact_def display_path_relative) (simp add: DISPLAY_GIF_PATH_def)

lemma sample_response_valid: "valid_response sample_response"
  by (simp add: valid_response_def sample_response_def sample_result_valid is_request_id_def
      is_revision_def list_all_iff in_cls_def hex_lower_def)

theorem runner_response_round_trip_witness:
  "parse_RunnerExecutionResponse (dump_RunnerExecutionResponse sample_response) = Inr sample_response"
  using runner_response_round_trip sample_response_valid by blast

end
