(* ===== verification/Structured_Log.thy ===== *)
theory Structured_Log
  imports Runner_Protocol
begin

section \<open>Structured events\<close>

text \<open>
  \<open>soj_shared/structured_logging.py\<close> and \<open>submission_status.py\<close>. An event is a record of enumeration
  members, a request ID and two numbers; \<open>log_safe_event\<close> validates it and appends it to the log,
  which is the explicit state. A rejected event raises instead of being logged.
\<close>

datatype SubmissionStatus = Sub_completed | Sub_problem_not_found | Sub_runner_busy | Sub_runner_unavailable

datatype SubmissionPersistenceStatus = Saved | Unavailable | Not_attempted

datatype LogComponent = Log_backend_http | Log_submission | Log_runner | Log_execution_log

datatype LogEvent =
    HTTP_REQUEST_COMPLETED
  | SUBMISSION_COMPLETED
  | SUBMISSION_FAILED
  | RUNNER_CLIENT_FAILED
  | RUNNER_EXECUTION_COMPLETED
  | EXECUTION_LOG_SAVE_COMPLETED
  | EXECUTION_LOG_SAVE_FAILED
  | EXECUTION_LOG_ROLLBACK_FAILED
  | EXECUTION_LOG_SESSION_CLOSE_FAILED

datatype LogEndpoint = LEGACY_SUBMISSION | V3_SUBMISSION

definition submission_status_text :: "SubmissionStatus \<Rightarrow> pystr" where
  "submission_status_text s = lit (case s of Sub_completed \<Rightarrow> ''completed''
     | Sub_problem_not_found \<Rightarrow> ''problem_not_found'' | Sub_runner_busy \<Rightarrow> ''runner_busy''
     | Sub_runner_unavailable \<Rightarrow> ''runner_unavailable'')"

definition persistence_text :: "SubmissionPersistenceStatus \<Rightarrow> pystr" where
  "persistence_text s = lit (case s of Saved \<Rightarrow> ''saved'' | Unavailable \<Rightarrow> ''unavailable''
     | Not_attempted \<Rightarrow> ''not_attempted'')"

definition component_text :: "LogComponent \<Rightarrow> pystr" where
  "component_text c = lit (case c of Log_backend_http \<Rightarrow> ''backend_http'' | Log_submission \<Rightarrow> ''submission''
     | Log_runner \<Rightarrow> ''runner'' | Log_execution_log \<Rightarrow> ''execution_log'')"

definition event_text :: "LogEvent \<Rightarrow> pystr" where
  "event_text e = lit (case e of
       HTTP_REQUEST_COMPLETED \<Rightarrow> ''http_request_completed''
     | SUBMISSION_COMPLETED \<Rightarrow> ''submission_completed''
     | SUBMISSION_FAILED \<Rightarrow> ''submission_failed''
     | RUNNER_CLIENT_FAILED \<Rightarrow> ''runner_client_failed''
     | RUNNER_EXECUTION_COMPLETED \<Rightarrow> ''runner_execution_completed''
     | EXECUTION_LOG_SAVE_COMPLETED \<Rightarrow> ''execution_log_save_completed''
     | EXECUTION_LOG_SAVE_FAILED \<Rightarrow> ''execution_log_save_failed''
     | EXECUTION_LOG_ROLLBACK_FAILED \<Rightarrow> ''execution_log_rollback_failed''
     | EXECUTION_LOG_SESSION_CLOSE_FAILED \<Rightarrow> ''execution_log_session_close_failed'')"

definition endpoint_text :: "LogEndpoint \<Rightarrow> pystr" where
  "endpoint_text e = lit (case e of LEGACY_SUBMISSION \<Rightarrow> ''legacy_submission'' | V3_SUBMISSION \<Rightarrow> ''v3_submission'')"

record SafeLogEvent =
  ev_event :: LogEvent
  ev_component :: LogComponent
  ev_request_id :: "pystr option"
  ev_endpoint :: "LogEndpoint option"
  ev_http_status :: "int option"
  ev_duration_ms :: "int option"
  ev_submission_status :: "SubmissionStatus option"
  ev_execution_status :: "ExecutionStatus option"
  ev_persistence_status :: "SubmissionPersistenceStatus option"

text \<open>An event with the keyword arguments left at their defaults.\<close>

definition blank_event :: "LogEvent \<Rightarrow> LogComponent \<Rightarrow> SafeLogEvent" where
  "blank_event e c = \<lparr>ev_event = e, ev_component = c, ev_request_id = None, ev_endpoint = None,
     ev_http_status = None, ev_duration_ms = None, ev_submission_status = None,
     ev_execution_status = None, ev_persistence_status = None\<rparr>"

definition in_range :: "int \<Rightarrow> int option \<Rightarrow> int option \<Rightarrow> bool" where
  "in_range low high v =
     (case v of None \<Rightarrow> True | Some i \<Rightarrow> low \<le> i \<and> (case high of None \<Rightarrow> True | Some h \<Rightarrow> i \<le> h))"

definition new_SafeLogEvent :: "SafeLogEvent \<Rightarrow> value_error + SafeLogEvent" where
  "new_SafeLogEvent e =
     rbind (case ev_request_id e of None \<Rightarrow> Inr None | Some r \<Rightarrow> rbind (RequestId (PStr r)) (\<lambda>q. Inr (Some q))) (\<lambda>_.
     rbind (require (in_range 100 (Some 599) (ev_http_status e)) ''http_status out of range'') (\<lambda>_.
     rbind (require (in_range 0 None (ev_duration_ms e)) ''duration_ms is negative'') (\<lambda>_.
     Inr e)))"

datatype log_level = INFO | WARNING | LOG_ERROR

type_synonym event_log = "(log_level \<times> SafeLogEvent) list"

definition log_safe_event :: "log_level \<Rightarrow> SafeLogEvent \<Rightarrow> event_log \<Rightarrow> (value_error + unit) \<times> event_log" where
  "log_safe_event level e log =
     (case new_SafeLogEvent e of
        Inl err \<Rightarrow> (Inl err, log)
      | Inr payload \<Rightarrow> (Inr (), log @ [(level, payload)]))"

text \<open>The JSON object of a logged event; fields that are \<open>None\<close> are left out.\<close>

definition field_if :: "string \<Rightarrow> ('a \<Rightarrow> pyval) \<Rightarrow> 'a option \<Rightarrow> (pystr \<times> pyval) list" where
  "field_if name d x = (case x of None \<Rightarrow> [] | Some a \<Rightarrow> [(lit name, d a)])"

definition event_json :: "SafeLogEvent \<Rightarrow> (pystr \<times> pyval) list" where
  "event_json e =
     [(lit ''event'', PStr (event_text (ev_event e))), (lit ''component'', PStr (component_text (ev_component e)))]
     @ field_if ''request_id'' PStr (ev_request_id e)
     @ field_if ''endpoint'' (PStr \<circ> endpoint_text) (ev_endpoint e)
     @ field_if ''http_status'' PInt (ev_http_status e)
     @ field_if ''duration_ms'' PInt (ev_duration_ms e)
     @ field_if ''submission_status'' (PStr \<circ> submission_status_text) (ev_submission_status e)
     @ field_if ''execution_status'' (PStr \<circ> status_text) (ev_execution_status e)
     @ field_if ''persistence_status'' (PStr \<circ> persistence_text) (ev_persistence_status e)"

subsection \<open>Which events are accepted\<close>

definition event_ok :: "SafeLogEvent \<Rightarrow> bool" where
  "event_ok e \<longleftrightarrow> (\<forall>r. ev_request_id e = Some r \<longrightarrow> is_request_id r)
     \<and> (\<forall>h. ev_http_status e = Some h \<longrightarrow> 100 \<le> h \<and> h \<le> 599)
     \<and> (\<forall>d. ev_duration_ms e = Some d \<longrightarrow> 0 \<le> d)"

lemma request_id_check:
  "(case x of None \<Rightarrow> Inr None | Some r \<Rightarrow> rbind (RequestId (PStr r)) (\<lambda>q. Inr (Some q))) = Inr y \<longleftrightarrow>
     y = x \<and> (\<forall>r. x = Some r \<longrightarrow> is_request_id r)"
  by (cases x) (auto simp: rbind_eq_Inr RequestId_iff)

lemma new_SafeLogEvent_iff: "new_SafeLogEvent e = Inr f \<longleftrightarrow> f = e \<and> event_ok e"
  unfolding new_SafeLogEvent_def rbind_eq_Inr require_eq_Inr request_id_check event_ok_def in_range_def
  by (auto split: option.splits)

lemma log_safe_event_ok: "event_ok e \<Longrightarrow> log_safe_event level e log = (Inr (), log @ [(level, e)])"
proof -
  assume "event_ok e"
  then have "new_SafeLogEvent e = Inr e" by (simp add: new_SafeLogEvent_iff)
  then show ?thesis by (simp add: log_safe_event_def)
qed

lemma log_safe_event_Inr:
  "log_safe_event level e log = (Inr u, log') \<longleftrightarrow> event_ok e \<and> log' = log @ [(level, e)]"
  by (auto simp: log_safe_event_def new_SafeLogEvent_iff split: sum.splits)
     (metis log_safe_event_ok new_SafeLogEvent_iff sum.distinct(1))

lemma event_ok_blank [simp]: "event_ok (blank_event e c)"
  by (simp add: event_ok_def blank_event_def)

lemma status_texts: "status_text s \<in> lit ` {''completed'', ''timed_out'', ''output_limit'', ''error''}"
  by (cases s) (simp_all add: status_text_def)

text \<open>The texts that an event can contain beside a request ID: they are fixed in the program.\<close>

definition fixed_texts :: "pystr set" where
  "fixed_texts = range event_text \<union> range component_text \<union> range endpoint_text
     \<union> range submission_status_text \<union> range status_text \<union> range persistence_text"

definition safe_value :: "pyval \<Rightarrow> bool" where
  "safe_value v \<longleftrightarrow> (\<exists>i. v = PInt i) \<or> (\<exists>t. v = PStr t \<and> (t \<in> fixed_texts \<or> is_request_id t))"

lemma fixed_texts_members [simp]:
  "event_text e \<in> fixed_texts" "component_text c \<in> fixed_texts" "endpoint_text p \<in> fixed_texts"
  "submission_status_text s \<in> fixed_texts" "status_text x \<in> fixed_texts" "persistence_text y \<in> fixed_texts"
  by (simp_all add: fixed_texts_def)

lemma safe_value_simps [simp]:
  "safe_value (PInt i)" "t \<in> fixed_texts \<Longrightarrow> safe_value (PStr t)" "is_request_id t \<Longrightarrow> safe_value (PStr t)"
  by (auto simp: safe_value_def)

lemma field_if_safe:
  "(k, v) \<in> set (field_if name d x) \<longleftrightarrow> (\<exists>a. x = Some a \<and> k = lit name \<and> v = d a)"
  by (cases x) (auto simp: field_if_def)

lemma event_json_safe:
  assumes "event_ok e" and "(k, v) \<in> set (event_json e)"
  shows "safe_value v"
proof -
  have rid: "is_request_id r" if "ev_request_id e = Some r" for r
    using assms(1) that by (simp add: event_ok_def)
  show ?thesis using assms(2) rid
    unfolding event_json_def by (auto simp: field_if_safe)
qed

subsection \<open>Properties\<close>

text \<open>C12: An event that is logged carries no text of a user: every value of its JSON object is a number,
  a text fixed in the program, or a request ID of 32 hexadecimal digits. An event that is not of this
  form is rejected and the log is left as it was.\<close>

theorem logged_events_carry_no_user_text:
  assumes "log_safe_event level e log = (r, log')"
  shows "(log' = log \<and> (\<exists>err. r = Inl err)) \<or> (log' = log @ [(level, e)] \<and> r = Inr () \<and>
    (\<forall>(k, v) \<in> set (event_json e). (\<exists>i. v = PInt i) \<or> (\<exists>t. v = PStr t \<and> (t \<in> fixed_texts \<or> is_request_id t))))"
proof (cases "new_SafeLogEvent e")
  case (Inl err)
  then show ?thesis using assms by (auto simp: log_safe_event_def)
next
  case (Inr f)
  then have "event_ok e" by (simp add: new_SafeLogEvent_iff)
  then have "\<forall>(k, v) \<in> set (event_json e). safe_value v" by (auto intro: event_json_safe)
  then show ?thesis
    using assms log_safe_event_ok [OF \<open>event_ok e\<close>, of level log] by (simp add: safe_value_def)
qed

theorem logged_events_carry_no_user_text_witness:
  "snd (log_safe_event INFO (blank_event SUBMISSION_FAILED Log_submission) []) =
     [(INFO, blank_event SUBMISSION_FAILED Log_submission)]"
  using logged_events_carry_no_user_text
    [of INFO "blank_event SUBMISSION_FAILED Log_submission" "[]" "Inr ()"
        "[(INFO, blank_event SUBMISSION_FAILED Log_submission)]"]
  by (simp add: log_safe_event_ok)

end
