(* ===== verification/Admission.thy ===== *)
theory Admission
  imports Prelude Complex_Main
begin

section \<open>The token bucket for sandbox starts\<close>

text \<open>
  \<open>SandboxStartRateLimiter\<close> of \<open>soj_runner/admission_control.py\<close>. Times, tokens and the rate are
  rational numbers: the rounding of Python's floats is not modelled, nor are infinities and NaN,
  which the constructor rejects. The value of the clock is an argument of each call.
\<close>

record limiter =
  rl_rate :: rat
  rl_burst :: int
  rl_tokens :: rat
  rl_updated_at :: rat

definition new_limiter :: "rat \<Rightarrow> int \<Rightarrow> rat \<Rightarrow> value_error + limiter" where
  "new_limiter rate burst now =
     (if rate \<le> 0 then Inl (ValueError ''rate_per_second must be a positive finite number'')
      else if burst < 1 then Inl (ValueError ''burst must be at least 1'')
      else Inr \<lparr>rl_rate = rate, rl_burst = burst, rl_tokens = of_int burst, rl_updated_at = now\<rparr>)"

definition try_acquire :: "rat \<Rightarrow> limiter \<Rightarrow> bool \<times> limiter" where
  "try_acquire now s =
     (let elapsed = max 0 (now - rl_updated_at s);
          tokens = min (of_int (rl_burst s)) (rl_tokens s + elapsed * rl_rate s);
          s1 = s\<lparr>rl_tokens := tokens, rl_updated_at := now\<rparr>
      in if tokens < 1 then (False, s1) else (True, s1\<lparr>rl_tokens := tokens - 1\<rparr>))"

text \<open>A sequence of calls at the given times: how many are admitted, and the state after them.\<close>

fun admit :: "rat list \<Rightarrow> limiter \<Rightarrow> nat \<times> limiter" where
  "admit [] s = (0, s)"
| "admit (now # ts) s =
     (let (ok, s1) = try_acquire now s; (n, s2) = admit ts s1 in ((if ok then Suc n else n), s2))"

definition limiter_ok :: "limiter \<Rightarrow> bool" where
  "limiter_ok s \<longleftrightarrow> 0 < rl_rate s \<and> 1 \<le> rl_burst s \<and> 0 \<le> rl_tokens s \<and> rl_tokens s \<le> of_int (rl_burst s)"

lemma new_limiter_ok: "new_limiter r b now = Inr s \<Longrightarrow> limiter_ok s \<and> rl_tokens s = of_int b \<and> rl_updated_at s = now"
  by (auto simp: new_limiter_def limiter_ok_def split: if_splits)

lemma try_acquire_fields [simp]:
  "rl_rate (snd (try_acquire now s)) = rl_rate s" "rl_burst (snd (try_acquire now s)) = rl_burst s"
  "rl_updated_at (snd (try_acquire now s)) = now"
  by (simp_all add: try_acquire_def Let_def)

lemma try_acquire_ok:
  assumes "limiter_ok s"
  shows "limiter_ok (snd (try_acquire now s))"
proof -
  have "0 \<le> max 0 (now - rl_updated_at s) * rl_rate s" using assms by (simp add: limiter_ok_def)
  moreover have "(0::rat) \<le> of_int (rl_burst s)" using assms by (simp add: limiter_ok_def)
  ultimately show ?thesis using assms
    by (auto simp: limiter_ok_def try_acquire_def Let_def min_def)
qed

text \<open>Tokens are only created by time, and each admission costs one.\<close>

lemma try_acquire_cost:
  assumes "limiter_ok s" and "rl_updated_at s \<le> now"
  shows "(if fst (try_acquire now s) then 1 else 0) + rl_tokens (snd (try_acquire now s)) \<le>
    rl_tokens s + (now - rl_updated_at s) * rl_rate s"
  using assms by (auto simp: try_acquire_def Let_def max_def min_def)

lemma admit_cost:
  assumes "limiter_ok s" and "sorted (rl_updated_at s # ts)"
  shows "of_nat (fst (admit ts s)) + rl_tokens (snd (admit ts s)) \<le>
    rl_tokens s + (last (rl_updated_at s # ts) - rl_updated_at s) * rl_rate s"
  using assms
proof (induction ts arbitrary: s)
  case (Cons now ts)
  obtain ok s1 where t: "try_acquire now s = (ok, s1)" by (cases "try_acquire now s")
  obtain n s2 where a: "admit ts s1 = (n, s2)" by (cases "admit ts s1")
  have s1: "rl_rate s1 = rl_rate s" "rl_updated_at s1 = now" "limiter_ok s1"
    using try_acquire_fields [of now s] try_acquire_ok [OF Cons.prems(1), of now] t by auto
  have "sorted (rl_updated_at s1 # ts)" using Cons.prems(2) s1(2) by simp
  from Cons.IH [OF s1(3) this]
  have ih: "of_nat n + rl_tokens s2 \<le> rl_tokens s1 + (last (now # ts) - now) * rl_rate s"
    using a s1 by simp
  have "(if ok then 1 else 0) + rl_tokens s1 \<le> rl_tokens s + (now - rl_updated_at s) * rl_rate s"
    using try_acquire_cost [OF Cons.prems(1), of now] Cons.prems(2) t by simp
  moreover have "(now - rl_updated_at s) * rl_rate s + (last (now # ts) - now) * rl_rate s =
      (last (now # ts) - rl_updated_at s) * rl_rate s"
    by (simp add: algebra_simps)
  ultimately have "(if ok then 1 else 0) + of_nat n + rl_tokens s2 \<le>
      rl_tokens s + (last (now # ts) - rl_updated_at s) * rl_rate s"
    using ih by linarith
  moreover have "last (rl_updated_at s # now # ts) = last (now # ts)" by simp
  ultimately show ?case using t a by (cases ok) simp_all
qed simp

lemma admit_ok: "limiter_ok s \<Longrightarrow> limiter_ok (snd (admit ts s))"
proof (induction ts arbitrary: s)
  case (Cons now ts)
  then show ?case using try_acquire_ok [OF Cons.prems, of now]
    by (auto simp: Let_def split: prod.splits) (metis snd_conv)
qed simp

subsection \<open>Properties\<close>

text \<open>C22: Rate limit: over any sequence of calls with a clock that does not run backwards, from any
  state of the limiter, at most \<open>burst\<close> starts plus \<open>rate\<close> times the elapsed time are admitted.\<close>

theorem starts_are_rate_limited:
  assumes "limiter_ok s" and "sorted (rl_updated_at s # ts)"
  shows "of_nat (fst (admit ts s)) \<le>
    of_int (rl_burst s) + (last (rl_updated_at s # ts) - rl_updated_at s) * rl_rate s"
proof -
  have "limiter_ok (snd (admit ts s))" by (rule admit_ok [OF assms(1)])
  then show ?thesis using admit_cost [OF assms] assms(1) by (simp add: limiter_ok_def)
qed

definition sample_limiter :: limiter where
  "sample_limiter = \<lparr>rl_rate = 1, rl_burst = 3, rl_tokens = 3, rl_updated_at = 0\<rparr>"

theorem starts_are_rate_limited_witness:
  "of_nat (fst (admit [0, 0, 0, 0, 1] sample_limiter)) \<le> (4 :: rat) \<and> fst (admit [0, 0, 0, 0, 1] sample_limiter) = 4"
proof -
  have "limiter_ok sample_limiter" "sorted (rl_updated_at sample_limiter # [0, 0, 0, 0, 1])"
    by (simp_all add: limiter_ok_def sample_limiter_def)
  from starts_are_rate_limited [OF this]
  have "of_nat (fst (admit [0, 0, 0, 0, 1] sample_limiter)) \<le> (4 :: rat)" by (simp add: sample_limiter_def)
  moreover have "fst (admit [0, 0, 0, 0, 1] sample_limiter) = 4"
    by (simp add: sample_limiter_def try_acquire_def)
  ultimately show ?thesis by blast
qed

text \<open>Nobody is starved: a call that comes at least one token's worth of time after the previous
  one, or finds a whole token, is admitted.\<close>

theorem starts_are_not_starved:
  assumes "limiter_ok s" and "1 \<le> rl_tokens s \<or> 1 \<le> (now - rl_updated_at s) * rl_rate s"
  shows "fst (try_acquire now s)"
proof -
  have b: "(1::rat) \<le> of_int (rl_burst s)" using assms(1) by (simp add: limiter_ok_def)
  have e: "(now - rl_updated_at s) * rl_rate s \<le> max 0 (now - rl_updated_at s) * rl_rate s"
    "0 \<le> max 0 (now - rl_updated_at s) * rl_rate s"
    using assms(1) by (auto simp: limiter_ok_def intro: mult_right_mono)
  then have "1 \<le> rl_tokens s + max 0 (now - rl_updated_at s) * rl_rate s"
    using assms unfolding limiter_ok_def by linarith
  then show ?thesis using b by (simp add: try_acquire_def Let_def)
qed

theorem starts_are_not_starved_witness:
  "fst (try_acquire 1 \<lparr>rl_rate = 1, rl_burst = 3, rl_tokens = 0, rl_updated_at = 0\<rparr>)"
  by (rule starts_are_not_starved) (simp_all add: limiter_ok_def)

end
