(* ===== verification/Runner_Client.thy ===== *)
theory Runner_Client
  imports Runner_Protocol Watchdog
begin

section \<open>The backend's client of the private runner\<close>

text \<open>
  \<open>soj_backend/runner_client.py\<close>: \<open>_execute_sync\<close>, the part that runs in a worker thread, and the
  mapping of its outcome by \<open>execute\<close> (the slots are the theory \<open>Slots\<close>). The network is a function
  from the request that is sent to what the opener yields; \<open>json_dump\<close> and \<open>json_parse\<close> stand for the
  byte syntax of JSON.
\<close>

definition RUNNER_RESPONSE_LIMIT_BYTES :: nat where "RUNNER_RESPONSE_LIMIT_BYTES = 1100000"

text \<open>The exceptions of the channel and every other exception.\<close>

datatype client_error = Channel runner_error | Other_error exn

record http_request =
  hq_path :: pystr
  hq_authorization :: pystr
  hq_body :: bytes

text \<open>What \<open>open\<close> and \<open>read\<close> yield: a 2xx response with its whole body, an HTTP status that raises
  \<open>HTTPError\<close>, an \<open>OSError\<close> (a refused connection, a timeout), or another exception.\<close>

datatype http_reply = Http_body bytes | Http_status int | Http_os_error | Http_exception exn

definition bearer :: "pystr \<Rightarrow> pystr" where
  "bearer secret = lit ''Bearer '' @ secret"

definition execution_payload :: "pystr \<Rightarrow> pystr \<Rightarrow> pystr \<Rightarrow> pystr \<Rightarrow> pyval" where
  "execution_payload shellgei problem_id request_id revision = PDict
     [(lit ''protocol_version'', PInt RUNNER_PROTOCOL_VERSION), (lit ''request_id'', PStr request_id),
      (lit ''problem_revision'', PStr revision), (lit ''shellgei'', PStr shellgei),
      (lit ''problem_id'', PStr problem_id)]"

definition read_response :: "http_reply \<Rightarrow> client_error + bytes" where
  "read_response reply =
     (case reply of
        Http_body body \<Rightarrow>
          (let response_body = take (RUNNER_RESPONSE_LIMIT_BYTES + 1) body in
           if length response_body > RUNNER_RESPONSE_LIMIT_BYTES then Inl (Channel RunnerUnavailableError)
           else Inr response_body)
      | Http_status code \<Rightarrow>
          if code = 429 then Inl (Channel RunnerBusyError)
          else if code = 409 then Inl (Channel RunnerUnavailableError)
          else Inl (Channel RunnerUnavailableError)
      | Http_os_error \<Rightarrow> Inl (Channel RunnerUnavailableError)
      | Http_exception e \<Rightarrow> Inl (Other_error e))"

definition verify_response ::
  "(bytes \<Rightarrow> pyval option) \<Rightarrow> pystr \<Rightarrow> pystr \<Rightarrow> bytes \<Rightarrow> client_error + ExecutionResult" where
  "verify_response json_parse problem_revision request_id response_body =
     (case json_parse response_body of
        None \<Rightarrow> Inl (Channel RunnerUnavailableError)
      | Some v \<Rightarrow>
          (case parse_RunnerExecutionResponse v of
             Inl _ \<Rightarrow> Inl (Channel RunnerUnavailableError)
           | Inr response \<Rightarrow>
               if rs_problem_revision response \<noteq> problem_revision then Inl (Channel RunnerUnavailableError)
               else if rs_request_id response \<noteq> request_id then Inl (Channel RunnerUnavailableError)
               else Inr (rs_result response)))"

definition RUNNER_EXECUTE_PATH :: pystr where
  "RUNNER_EXECUTE_PATH = lit ''/internal/execute''"

definition execute_sync ::
  "(pystr \<Rightarrow> pystr option) \<Rightarrow> exn + pystr \<Rightarrow> (pyval \<Rightarrow> bytes) \<Rightarrow> (bytes \<Rightarrow> pyval option) \<Rightarrow>
   (http_request \<Rightarrow> http_reply) \<Rightarrow> pystr \<Rightarrow> pystr \<Rightarrow> pystr \<Rightarrow> client_error + ExecutionResult" where
  "execute_sync env revision json_dump json_parse network shellgei problem_id request_id =
     (case get_runner_shared_secret env of
        Inl e \<Rightarrow> Inl (Channel e)
      | Inr secret \<Rightarrow>
          (case revision of
             Inl e \<Rightarrow> Inl (Other_error e)
           | Inr problem_revision \<Rightarrow>
               (case parse_RunnerExecutionRequest
                       (execution_payload shellgei problem_id request_id problem_revision) of
                  Inl (ValueError m) \<Rightarrow> Inl (Other_error (lit m))
                | Inr payload \<Rightarrow>
                    rbind (read_response (network
                        \<lparr>hq_path = RUNNER_EXECUTE_PATH, hq_authorization = bearer secret,
                         hq_body = json_dump (dump_RunnerExecutionRequest payload)\<rparr>))
                      (verify_response json_parse problem_revision request_id))))"

text \<open>\<open>execute\<close>: whether a slot was free, the outcome of the request ID provider, and the worker's
  outcome as a function of the ID; the provider runs before the \<open>try\<close>.\<close>

definition client_execute ::
  "bool \<Rightarrow> exn + pystr \<Rightarrow> (pystr \<Rightarrow> client_error + ExecutionResult) \<Rightarrow> client_error + ExecutionResult" where
  "client_execute slot provider worker =
     (if \<not> slot then Inl (Channel RunnerBusyError)
      else (case provider of
              Inl e \<Rightarrow> Inl (Other_error e)
            | Inr request_id \<Rightarrow>
                (case worker request_id of
                   Inl (Other_error _) \<Rightarrow> Inl (Channel RunnerUnavailableError)
                 | r \<Rightarrow> r)))"

subsection \<open>What a returned result guarantees\<close>

lemma read_response_iff:
  "read_response reply = Inr body \<longleftrightarrow> reply = Http_body body \<and> length body \<le> RUNNER_RESPONSE_LIMIT_BYTES"
  by (cases reply) (auto simp: read_response_def Let_def split: if_splits)

lemma verify_response_iff:
  "verify_response json_parse revision request_id body = Inr r \<longleftrightarrow>
     (\<exists>v resp. json_parse body = Some v \<and> parse_RunnerExecutionResponse v = Inr resp
        \<and> rs_problem_revision resp = revision \<and> rs_request_id resp = request_id \<and> rs_result resp = r)"
  by (auto simp: verify_response_def split: option.splits sum.splits)

lemma verify_response_valid:
  "verify_response json_parse revision request_id body = Inr r \<Longrightarrow> valid_result r"
  unfolding verify_response_iff using parse_RunnerExecutionResponse_valid
  by (auto simp: valid_response_def)

lemma fields_execution_payload:
  "object_fields [''shellgei'', ''problem_id'', ''protocol_version'', ''request_id'', ''problem_revision'']
     (execution_payload shellgei problem_id request_id revision) =
   Inr [PStr shellgei, PStr problem_id, PInt RUNNER_PROTOCOL_VERSION, PStr request_id, PStr revision]"
  by (simp add: object_fields_def execution_payload_def)

lemma parse_execution_payload:
  assumes "is_shellgei shellgei" "is_problem_id problem_id" "is_request_id request_id" "is_revision revision"
  shows "parse_RunnerExecutionRequest (execution_payload shellgei problem_id request_id revision) =
    Inr \<lparr>sd_shellgei = shellgei, sd_problem_id = problem_id, rq_request_id = request_id,
         rq_problem_revision = revision\<rparr>"
proof -
  have "ProblemId (PStr problem_id) = Inr problem_id" "RequestId (PStr request_id) = Inr request_id"
    "ProblemRevision (PStr revision) = Inr revision"
    using assms by (simp_all add: ProblemId_iff RequestId_iff ProblemRevision_iff)
  then show ?thesis using assms
    by (simp add: parse_RunnerExecutionRequest_def fields_execution_payload shellgei_field_PStr
        protocol_version_field_def)
qed

lemma execute_sync_Inr:
  assumes "execute_sync env revision json_dump json_parse network shellgei problem_id request_id = Inr r"
  obtains secret rev payload body where
    "get_runner_shared_secret env = Inr secret" "revision = Inr rev"
    "parse_RunnerExecutionRequest (execution_payload shellgei problem_id request_id rev) = Inr payload"
    "network \<lparr>hq_path = RUNNER_EXECUTE_PATH, hq_authorization = bearer secret,
       hq_body = json_dump (dump_RunnerExecutionRequest payload)\<rparr> = Http_body body"
    "length body \<le> RUNNER_RESPONSE_LIMIT_BYTES"
    "verify_response json_parse rev request_id body = Inr r"
  using assms
  by (auto simp: execute_sync_def rbind_eq_Inr read_response_iff split: sum.splits value_error.splits)

lemma client_execute_Inr:
  "client_execute slot provider worker = Inr r \<longleftrightarrow> slot \<and> (\<exists>rid. provider = Inr rid \<and> worker rid = Inr r)"
  by (auto simp: client_execute_def split: sum.splits client_error.splits)

text \<open>Once the slot is held and an ID is known, only the exceptions of the channel escape.\<close>

lemma client_execute_errors:
  "client_execute True (Inr rid) worker = Inl e \<Longrightarrow> \<exists>c. e = Channel c"
  by (auto simp: client_execute_def split: sum.splits client_error.splits)

lemma execute_sync_valid:
  "execute_sync env revision json_dump json_parse network shellgei problem_id request_id = Inr r \<Longrightarrow>
     valid_result r"
  by (erule execute_sync_Inr) (rule verify_response_valid)

subsection \<open>Properties\<close>

text \<open>C11: A result that the client returns was carried by a response of at most 1,100,000 bytes to the
  request it sent, and that response names the client's own revision and request ID; the result meets
  the whole result contract, whatever the network answered.\<close>

theorem client_returns_only_verified_results:
  assumes "execute_sync env revision json_dump json_parse network shellgei problem_id request_id = Inr r"
  shows "\<exists>q body v resp. network q = Http_body body \<and> length body \<le> 1100000 \<and> json_parse body = Some v
    \<and> parse_RunnerExecutionResponse v = Inr resp \<and> revision = Inr (rs_problem_revision resp)
    \<and> rs_request_id resp = request_id \<and> rs_result resp = r \<and> valid_result r"
proof -
  obtain secret rev payload body where "get_runner_shared_secret env = Inr secret" and f: "revision = Inr rev"
    and "parse_RunnerExecutionRequest (execution_payload shellgei problem_id request_id rev) = Inr payload"
    and g: "network \<lparr>hq_path = RUNNER_EXECUTE_PATH, hq_authorization = bearer secret,
       hq_body = json_dump (dump_RunnerExecutionRequest payload)\<rparr> = Http_body body"
    "length body \<le> RUNNER_RESPONSE_LIMIT_BYTES" "verify_response json_parse rev request_id body = Inr r"
    by (rule execute_sync_Inr [OF assms])
  obtain v resp where "json_parse body = Some v" "parse_RunnerExecutionResponse v = Inr resp"
    "rs_problem_revision resp = rev" "rs_request_id resp = request_id" "rs_result resp = r"
    using g(3) unfolding verify_response_iff by blast
  moreover have "valid_result r" using g(3) by (rule verify_response_valid)
  ultimately show ?thesis using f g(1,2) unfolding RUNNER_RESPONSE_LIMIT_BYTES_def
    by (intro exI [of _ "\<lparr>hq_path = RUNNER_EXECUTE_PATH, hq_authorization = bearer secret,
       hq_body = json_dump (dump_RunnerExecutionRequest payload)\<rparr>"] exI [of _ body] exI [of _ v] exI [of _ resp]) simp
qed

definition sample_env :: "pystr \<Rightarrow> pystr option" where
  "sample_env = (\<lambda>_. Some (replicate 32 97))"

definition sample_reply :: "http_request \<Rightarrow> http_reply" where
  "sample_reply = (\<lambda>_. Http_body [1])"

definition sample_json :: "bytes \<Rightarrow> pyval option" where
  "sample_json = (\<lambda>_. Some (dump_RunnerExecutionResponse sample_response))"

lemma sample_secret_not_example: "replicate 32 97 \<noteq> RUNNER_INSECURE_EXAMPLE_SECRET"
proof
  assume "replicate 32 97 = RUNNER_INSECURE_EXAMPLE_SECRET"
  then have "hd (replicate 32 (97::nat)) = hd RUNNER_INSECURE_EXAMPLE_SECRET" by simp
  then show False by (simp add: RUNNER_INSECURE_EXAMPLE_SECRET_def lit_def)
qed

lemma sample_secret: "get_runner_shared_secret sample_env = Inr (replicate 32 97)"
  by (simp add: get_runner_shared_secret_iff sample_env_def sample_secret_not_example
      RUNNER_SHARED_SECRET_CLASS_def in_cls_def list_all_iff)

lemma sample_execute_sync:
  "execute_sync sample_env (Inr (replicate 64 102)) (\<lambda>_. []) sample_json sample_reply [108, 115]
     (lit ''STANDARD-1'') (replicate 32 48) = Inr sample_result"
proof -
  have p: "parse_RunnerExecutionRequest (execution_payload [108, 115] (lit ''STANDARD-1'') (replicate 32 48)
      (replicate 64 102)) = Inr sample_request"
    using sample_request_ok parse_execution_payload
    by (simp add: request_ok_def sample_request_def)
  have v: "verify_response sample_json (replicate 64 102) (replicate 32 48) [1] = Inr sample_result"
    unfolding verify_response_iff sample_json_def
    using parse_dump_RunnerExecutionResponse [OF sample_response_valid]
    by (simp add: sample_response_def)
  show ?thesis
    by (simp add: execute_sync_def sample_secret p v sample_reply_def read_response_def
        RUNNER_RESPONSE_LIMIT_BYTES_def)
qed

theorem client_returns_only_verified_results_witness:
  "\<exists>v. sample_json [1] = Some v \<and> valid_result sample_result"
  using client_returns_only_verified_results [OF sample_execute_sync] by (auto simp: sample_json_def)

end
