(* ===== verification/Runner_Http.thy ===== *)
theory Runner_Http
  imports Structured_Log Repository Admission Runner_Client
begin

section \<open>The runner's HTTP boundary\<close>

text \<open>
  \<open>soj_runner/runner_http_security.py\<close> (the middleware that authenticates and bounds a request before
  its body is parsed) and \<open>soj_runner/main.py\<close> (the execution and readiness endpoints). A request is
  its ASGI scope and the list of messages that \<open>receive\<close> yields; the inner application is a function
  of the scope and of the messages it can receive. FastAPI's routing and JSON decoding stay outside:
  the endpoint takes the decoded document.
\<close>

subsection \<open>Requests\<close>

record http_scope =
  sc_type :: pystr
  sc_path :: "pystr option"
  sc_headers :: "(bytes \<times> bytes) list"

text \<open>An \<open>http.request\<close> message with its body and \<open>more_body\<close> flag, or a message of another type.\<close>

datatype asgi_message = Request_chunk bytes bool | Other_message pystr

definition ascii_bytes :: "pystr \<Rightarrow> bytes" where
  "ascii_bytes s = map of_nat s"

definition lower_byte :: "byte \<Rightarrow> byte" where
  "lower_byte b = (if 65 \<le> unat b \<and> unat b \<le> 90 then b + 32 else b)"

definition single_header :: "http_scope \<Rightarrow> bytes \<Rightarrow> bytes option" where
  "single_header scope name =
     (let values = map snd (filter (\<lambda>(header_name, _). map lower_byte header_name = name) (sc_headers scope))
      in if length values = 1 then Some (hd values) else None)"

definition authenticated :: "(pystr \<Rightarrow> pystr option) \<Rightarrow> http_scope \<Rightarrow> runner_error + bool" where
  "authenticated env scope =
     (case single_header scope (ascii_bytes (lit ''authorization'')) of
        None \<Rightarrow> Inr False
      | Some authorization \<Rightarrow>
          (case get_runner_shared_secret env of
             Inl e \<Rightarrow> Inl e
           | Inr secret \<Rightarrow> Inr (authorization = ascii_bytes (bearer secret))))"

text \<open>Python's \<open>int\<close> on a byte string: blanks around it, a sign, digits with single underscores.\<close>

definition blank_byte :: "nat \<Rightarrow> bool" where
  "blank_byte c = (c = 32 \<or> (9 \<le> c \<and> c \<le> 13))"

fun digits_value :: "nat \<Rightarrow> bool \<Rightarrow> nat list \<Rightarrow> nat option" where
  "digits_value acc after_digit [] = (if after_digit then Some acc else None)"
| "digits_value acc after_digit (c # cs) =
     (if 48 \<le> c \<and> c \<le> 57 then digits_value (acc * 10 + (c - 48)) True cs
      else if c = 95 \<and> after_digit then digits_value acc False cs
      else None)"

definition int_of_bytes :: "bytes \<Rightarrow> int option" where
  "int_of_bytes bs =
     (let s = rev (dropWhile blank_byte (rev (dropWhile blank_byte (map unat bs))));
          (negative, digits) =
            (case s of c # cs \<Rightarrow> if c = 45 then (True, cs) else if c = 43 then (False, cs) else (False, s)
                     | [] \<Rightarrow> (False, s))
      in if length (filter (\<lambda>c. c \<noteq> 95) digits) > 4300 then None
         else map_option (\<lambda>n. if negative then - int n else int n) (digits_value 0 False digits))"

definition declared_content_length :: "http_scope \<Rightarrow> value_error + int option" where
  "declared_content_length scope =
     (let name = ascii_bytes (lit ''content-length'') in
      case single_header scope name of
        None \<Rightarrow>
          (if list_ex (\<lambda>(n, _). map lower_byte n = name) (sc_headers scope)
           then Inl (ValueError ''duplicate content length'') else Inr None)
      | Some value \<Rightarrow>
          (case int_of_bytes value of
             None \<Rightarrow> Inl (ValueError ''invalid content length'')
           | Some n \<Rightarrow> if n < 0 then Inl (ValueError ''invalid content length'') else Inr (Some n)))"

subsection \<open>The bounded body\<close>

definition RUNNER_REQUEST_BODY_LIMIT_BYTES :: nat where "RUNNER_REQUEST_BODY_LIMIT_BYTES = 8192"

text \<open>The body with the message that ended it early, if any, and the messages not yet received;
  \<open>Body_waiting\<close> is a client that sends nothing more.\<close>

datatype body_read =
    Body_read bytes "asgi_message option" "asgi_message list"
  | Body_too_large
  | Body_waiting

fun read_bounded_body :: "bytes \<Rightarrow> asgi_message list \<Rightarrow> body_read" where
  "read_bounded_body body [] = Body_waiting"
| "read_bounded_body body (Other_message t # ms) = Body_read body (Some (Other_message t)) ms"
| "read_bounded_body body (Request_chunk chunk more_body # ms) =
     (let body' = body @ chunk in
      if length body' > RUNNER_REQUEST_BODY_LIMIT_BYTES then Body_too_large
      else if \<not> more_body then Body_read body' None ms
      else read_bounded_body body' ms)"

text \<open>The \<open>n\<close>-th message that the inner application receives.\<close>

definition replay_receive :: "bytes \<Rightarrow> asgi_message option \<Rightarrow> asgi_message list \<Rightarrow> nat \<Rightarrow> asgi_message option" where
  "replay_receive body terminal_message rest n =
     (if n = 0 then Some (Request_chunk body False)
      else (case terminal_message of
              Some m \<Rightarrow> Some m
            | None \<Rightarrow> if n - 1 < length rest then Some (rest ! (n - 1)) else None))"

definition direct_receive :: "asgi_message list \<Rightarrow> nat \<Rightarrow> asgi_message option" where
  "direct_receive ms n = (if n < length ms then Some (ms ! n) else None)"

datatype 'r served = App_called 'r | Error_sent int string | Middleware_raised runner_error | Never_answered

definition security_middleware ::
  "(pystr \<Rightarrow> pystr option) \<Rightarrow> (http_scope \<Rightarrow> (nat \<Rightarrow> asgi_message option) \<Rightarrow> 'r) \<Rightarrow>
   http_scope \<Rightarrow> asgi_message list \<Rightarrow> 'r served" where
  "security_middleware env app scope messages =
     (if sc_type scope \<noteq> lit ''http'' \<or> sc_path scope \<noteq> Some RUNNER_EXECUTE_PATH
      then App_called (app scope (direct_receive messages))
      else (case authenticated env scope of
              Inl e \<Rightarrow> Middleware_raised e
            | Inr False \<Rightarrow> Error_sent 401 ''Unauthorized''
            | Inr True \<Rightarrow>
                (case declared_content_length scope of
                   Inl _ \<Rightarrow> Error_sent 400 ''Invalid Content-Length''
                 | Inr declared_length \<Rightarrow>
                     if (case declared_length of None \<Rightarrow> False
                         | Some n \<Rightarrow> n > int RUNNER_REQUEST_BODY_LIMIT_BYTES)
                     then Error_sent 413 ''Request body too large''
                     else (case read_bounded_body [] messages of
                             Body_waiting \<Rightarrow> Never_answered
                           | Body_too_large \<Rightarrow> Error_sent 413 ''Request body too large''
                           | Body_read body terminal_message rest \<Rightarrow>
                               App_called (app scope (replay_receive body terminal_message rest))))))"

subsection \<open>The body of the error responses\<close>

definition send_error_body :: "string \<Rightarrow> pystr" where
  "send_error_body detail = lit ''{'' @ [34] @ lit ''detail'' @ [34] @ lit '':'' @ [34] @ lit detail @ [34] @ lit ''}''"

subsection \<open>What the inner application can see\<close>

lemma read_bounded_body_bound:
  "read_bounded_body acc ms = Body_read body t rest \<Longrightarrow> length acc \<le> RUNNER_REQUEST_BODY_LIMIT_BYTES \<Longrightarrow>
     length body \<le> RUNNER_REQUEST_BODY_LIMIT_BYTES"
  by (induction acc ms rule: read_bounded_body.induct) (auto simp: Let_def split: if_splits)

fun body_of :: "asgi_message list \<Rightarrow> bytes" where
  "body_of [] = []"
| "body_of (Other_message t # ms) = []"
| "body_of (Request_chunk chunk more_body # ms) = chunk @ (if more_body then body_of ms else [])"

lemma read_bounded_body_content:
  "read_bounded_body acc ms = Body_read body t rest \<Longrightarrow> body = acc @ body_of ms"
  by (induction acc ms rule: read_bounded_body.induct) (auto simp: Let_def split: if_splits)

text \<open>\<open>rest\<close> is a suffix of the messages, so nothing is invented or reordered.\<close>

lemma read_bounded_body_rest:
  "read_bounded_body acc ms = Body_read body t rest \<Longrightarrow>
     \<exists>used. ms = used @ rest \<and> used \<noteq> [] \<and> (t = None \<or> t = Some (last used))"
proof (induction acc ms rule: read_bounded_body.induct)
  case (3 acc chunk more ms)
  show ?case
  proof (cases more)
    case True
    then have "read_bounded_body (acc @ chunk) ms = Body_read body t rest"
      using "3.prems" by (auto simp: Let_def split: if_splits)
    then obtain used where "ms = used @ rest" "used \<noteq> []" "t = None \<or> t = Some (last used)"
      using 3 True by (auto simp: Let_def split: if_splits)
    then show ?thesis by (intro exI [of _ "Request_chunk chunk more # used"]) simp
  next
    case False
    then show ?thesis using "3.prems" by (auto simp: Let_def split: if_splits)
  qed
qed auto

lemma read_bounded_body_one:
  "length body \<le> RUNNER_REQUEST_BODY_LIMIT_BYTES \<Longrightarrow>
     read_bounded_body [] (Request_chunk body False # ms) = Body_read body None ms"
  by simp

lemma middleware_called:
  assumes "security_middleware env app scope messages = App_called r"
    and "sc_type scope = lit ''http''" and "sc_path scope = Some RUNNER_EXECUTE_PATH"
  obtains secret body t rest where "get_runner_shared_secret env = Inr secret"
    "single_header scope (ascii_bytes (lit ''authorization'')) = Some (ascii_bytes (bearer secret))"
    "read_bounded_body [] messages = Body_read body t rest" "r = app scope (replay_receive body t rest)"
  using assms
  by (auto simp: security_middleware_def authenticated_def split: sum.splits bool.splits option.splits
      body_read.splits if_splits)

subsection \<open>The execution endpoint\<close>

text \<open>
  The state of the runner process that a request changes: the limiter, the container side (of any
  type), the event log and the context variable with the current request ID.
\<close>

record 'c runner_state =
  rn_limiter :: limiter
  rn_sandbox :: 'c
  rn_log :: event_log
  rn_context :: reqctx

text \<open>The outcome of \<open>run_with_timeout\<close>, and of a handler: a response, an \<open>HTTPException\<close>, or
  another exception (which the framework answers with 500).\<close>

datatype run_reply = Run_result ExecutionResult | Run_busy | Run_exception exn

datatype 'a http_outcome = Http_ok 'a | Http_error int string | Http_raised exn

definition log_runner_completion ::
  "pystr \<Rightarrow> int \<Rightarrow> ExecutionStatus option \<Rightarrow> int option \<Rightarrow> event_log \<Rightarrow> (value_error + unit) \<times> event_log" where
  "log_runner_completion request_id http_status execution_status duration_ms events =
     log_safe_event (if http_status < 500 then INFO else LOG_ERROR)
       ((blank_event RUNNER_EXECUTION_COMPLETED Log_runner)
          \<lparr>ev_request_id := Some request_id, ev_http_status := Some http_status,
           ev_execution_status := execution_status, ev_duration_ms := duration_ms\<rparr>) events"

text \<open>The body of the inner \<open>try\<close>: the checks in order, then the sandbox.\<close>

definition attempt_execution ::
  "loaded_repository \<Rightarrow> rat \<Rightarrow> (pystr \<Rightarrow> pystr \<Rightarrow> 'c \<Rightarrow> run_reply \<times> 'c) \<Rightarrow> RunnerExecutionRequest \<Rightarrow>
   'c runner_state \<Rightarrow> (ExecutionResult \<times> pystr) http_outcome \<times> 'c runner_state" where
  "attempt_execution loaded now run req st =
     (case get_problem_repository loaded of
        Inl m \<Rightarrow> (Http_raised (lit m), st)
      | Inr repository \<Rightarrow>
          if rq_problem_revision req \<noteq> rp_revision repository
          then (Http_error 409 ''Problem revision mismatch'', st)
          else (case repository_get repository (sd_problem_id req) of
                  None \<Rightarrow> (Http_error 404 ''Problem not found'', st)
                | Some _ \<Rightarrow>
                    (let (admitted, lim) = try_acquire now (rn_limiter st);
                         st1 = st\<lparr>rn_limiter := lim\<rparr>
                     in if \<not> admitted then (Http_error 429 ''Runner is busy'', st1)
                        else (case run (sd_shellgei req) (sd_problem_id req) (rn_sandbox st1) of
                                (Run_busy, c) \<Rightarrow> (Http_error 429 ''Runner is busy'', st1\<lparr>rn_sandbox := c\<rparr>)
                              | (Run_exception e, c) \<Rightarrow> (Http_raised e, st1\<lparr>rn_sandbox := c\<rparr>)
                              | (Run_result r, c) \<Rightarrow> (Http_ok (r, rp_revision repository), st1\<lparr>rn_sandbox := c\<rparr>)))))"

definition new_RunnerExecutionResponse ::
  "pystr \<Rightarrow> pystr \<Rightarrow> ExecutionResult \<Rightarrow> value_error + RunnerExecutionResponse" where
  "new_RunnerExecutionResponse request_id revision result =
     rbind (RequestId (PStr request_id)) (\<lambda>r.
     rbind (ProblemRevision (PStr revision)) (\<lambda>revn.
     Inr \<lparr>rs_request_id = r, rs_problem_revision = revn, rs_result = result\<rparr>))"

text \<open>An exception of the logging call replaces the outcome.\<close>

definition logged :: "(value_error + unit) \<times> event_log \<Rightarrow> 'a http_outcome \<Rightarrow> 'c runner_state \<Rightarrow>
    'a http_outcome \<times> 'c runner_state" where
  "logged result outcome st =
     (case result of
        (Inl (ValueError m), events) \<Rightarrow> (Http_raised (lit m), st\<lparr>rn_log := events\<rparr>)
      | (Inr _, events) \<Rightarrow> (outcome, st\<lparr>rn_log := events\<rparr>))"

definition finish_execution ::
  "RunnerExecutionRequest \<Rightarrow> (ExecutionResult \<times> pystr) http_outcome \<Rightarrow> 'c runner_state \<Rightarrow>
   RunnerExecutionResponse http_outcome \<times> 'c runner_state" where
  "finish_execution req outcome st =
     (let complete = log_runner_completion (rq_request_id req) in
      case outcome of
        Http_error code detail \<Rightarrow> logged (complete code None None (rn_log st)) (Http_error code detail) st
      | Http_raised e \<Rightarrow> logged (complete 500 None None (rn_log st)) (Http_raised e) st
      | Http_ok (result, revision) \<Rightarrow>
          logged (complete 200 (Some (er_status result)) (Some (er_duration_ms result)) (rn_log st))
            (case new_RunnerExecutionResponse (rq_request_id req) revision result of
               Inl (ValueError m) \<Rightarrow> Http_raised (lit m) | Inr response \<Rightarrow> Http_ok response) st)"

definition execute_shellgei ::
  "loaded_repository \<Rightarrow> rat \<Rightarrow> (pystr \<Rightarrow> pystr \<Rightarrow> 'c \<Rightarrow> run_reply \<times> 'c) \<Rightarrow> RunnerExecutionRequest \<Rightarrow>
   'c runner_state \<Rightarrow> RunnerExecutionResponse http_outcome \<times> 'c runner_state" where
  "execute_shellgei loaded now run req st =
     (case bind_request_id (rq_request_id req)
             (\<lambda>ctx. (let (outcome, st1) = attempt_execution loaded now run req (st\<lparr>rn_context := ctx\<rparr>)
                     in finish_execution req outcome st1, ctx)) (rn_context st) of
        (Inl (ValueError m), ctx) \<Rightarrow> (Http_raised (lit m), st\<lparr>rn_context := ctx\<rparr>)
      | (Inr (outcome, st1), ctx) \<Rightarrow> (outcome, st1\<lparr>rn_context := ctx\<rparr>))"

subsection \<open>Readiness and liveness\<close>

definition readiness :: "loaded_repository \<Rightarrow> bool \<Rightarrow> exn + int \<times> RunnerReadinessResponse" where
  "readiness loaded manager_is_ready =
     (case get_problem_repository loaded of
        Inl m \<Rightarrow> Inl (lit m)
      | Inr repository \<Rightarrow>
          (let readiness_status = (if manager_is_ready then READY else DEGRADED) in
           case ProblemRevision (PStr (rp_revision repository)) of
             Inl (ValueError m) \<Rightarrow> Inl (lit m)
           | Inr revision \<Rightarrow>
               Inr (if readiness_status = DEGRADED then 503 else 200,
                    \<lparr>rr_problem_revision = revision, rr_status = readiness_status\<rparr>)))"

subsection \<open>What the endpoint does\<close>

definition completion_event :: "pystr \<Rightarrow> int \<Rightarrow> ExecutionStatus option \<Rightarrow> int option \<Rightarrow> log_level \<times> SafeLogEvent" where
  "completion_event rid code status duration =
     (if code < 500 then INFO else LOG_ERROR,
      (blank_event RUNNER_EXECUTION_COMPLETED Log_runner)
        \<lparr>ev_request_id := Some rid, ev_http_status := Some code, ev_execution_status := status,
         ev_duration_ms := duration\<rparr>)"

lemma log_runner_completion_ok:
  assumes "is_request_id rid" "100 \<le> code" "code \<le> 599" "\<forall>d. duration = Some d \<longrightarrow> 0 \<le> d"
  shows "log_runner_completion rid code status duration events =
    (Inr (), events @ [completion_event rid code status duration])"
  using assms by (simp add: log_runner_completion_def completion_event_def log_safe_event_ok event_ok_def)

text \<open>The outcomes of the checks and of the run all have a valid HTTP status.\<close>

lemma attempt_execution_codes:
  "fst (attempt_execution loaded now run req st) = Http_error code detail \<Longrightarrow> code \<in> {404, 409, 429}"
  by (auto simp: attempt_execution_def Let_def split: sum.splits option.splits if_splits prod.splits run_reply.splits)

lemma attempt_execution_frame:
  "attempt_execution loaded now run req st = (r, st') \<Longrightarrow> rn_log st' = rn_log st \<and> rn_context st' = rn_context st"
  by (auto simp: attempt_execution_def Let_def split: sum.splits option.splits if_splits prod.splits run_reply.splits)

lemma attempt_execution_ok:
  "fst (attempt_execution loaded now run req st) = Http_ok (r, revn) \<longleftrightarrow>
     (\<exists>repo record. loaded = Some repo \<and> rq_problem_revision req = rp_revision repo \<and> revn = rp_revision repo
        \<and> repository_get repo (sd_problem_id req) = Some record \<and> fst (try_acquire now (rn_limiter st))
        \<and> fst (run (sd_shellgei req) (sd_problem_id req) (rn_sandbox st)) = Run_result r)"
  by (cases loaded)
     (auto simp: attempt_execution_def get_problem_repository_def Let_def
       split: option.splits if_splits prod.splits run_reply.splits)

definition sane_run :: "(pystr \<Rightarrow> pystr \<Rightarrow> 'c \<Rightarrow> run_reply \<times> 'c) \<Rightarrow> bool" where
  "sane_run run \<longleftrightarrow> (\<forall>s p c r. fst (run s p c) = Run_result r \<longrightarrow> valid_result r)"

lemma finish_execution_error:
  "is_request_id (rq_request_id req) \<Longrightarrow> code \<in> {404, 409, 429} \<Longrightarrow>
     finish_execution req (Http_error code detail) st =
     (Http_error code detail, st\<lparr>rn_log := rn_log st @ [completion_event (rq_request_id req) code None None]\<rparr>)"
  by (auto simp: finish_execution_def logged_def log_runner_completion_ok)

lemma finish_execution_raised:
  "is_request_id (rq_request_id req) \<Longrightarrow>
     finish_execution req (Http_raised e) st =
     (Http_raised e, st\<lparr>rn_log := rn_log st @ [completion_event (rq_request_id req) 500 None None]\<rparr>)"
  by (simp add: finish_execution_def logged_def log_runner_completion_ok)

lemma finish_execution_ok:
  assumes "is_request_id (rq_request_id req)" "is_revision revn" "0 \<le> er_duration_ms r"
  shows "finish_execution req (Http_ok (r, revn)) st =
     (Http_ok \<lparr>rs_request_id = rq_request_id req, rs_problem_revision = revn, rs_result = r\<rparr>,
      st\<lparr>rn_log := rn_log st @ [completion_event (rq_request_id req) 200 (Some (er_status r)) (Some (er_duration_ms r))]\<rparr>)"
proof -
  have "RequestId (PStr (rq_request_id req)) = Inr (rq_request_id req)" "ProblemRevision (PStr revn) = Inr revn"
    using assms by (simp_all add: RequestId_iff ProblemRevision_iff)
  then show ?thesis using assms
    by (simp add: finish_execution_def logged_def log_runner_completion_ok new_RunnerExecutionResponse_def)
qed

definition loaded_ok :: "loaded_repository \<Rightarrow> bool" where
  "loaded_ok loaded \<longleftrightarrow> (\<forall>repo. loaded = Some repo \<longrightarrow> is_revision (rp_revision repo))"

lemma execute_shellgei_steps:
  assumes "is_request_id (rq_request_id req)"
  shows "execute_shellgei loaded now run req st =
    (let (outcome, st1) = attempt_execution loaded now run req (st\<lparr>rn_context := Some (rq_request_id req)\<rparr>);
         (answer, st2) = finish_execution req outcome st1
     in (answer, st2\<lparr>rn_context := rn_context st\<rparr>))"
  by (simp add: execute_shellgei_def bind_request_id_valid [OF assms] Let_def split: prod.splits)

lemma attempt_execution_context:
  "fst (attempt_execution loaded now run req (st\<lparr>rn_context := c\<rparr>)) = fst (attempt_execution loaded now run req st)"
  "rn_log (snd (attempt_execution loaded now run req (st\<lparr>rn_context := c\<rparr>))) = rn_log st"
  by (auto simp: attempt_execution_def Let_def split: sum.splits option.splits prod.splits run_reply.splits)

definition response_of :: "RunnerExecutionRequest \<Rightarrow> ExecutionResult \<Rightarrow> RunnerExecutionResponse" where
  "response_of req r =
     \<lparr>rs_request_id = rq_request_id req, rs_problem_revision = rq_problem_revision req, rs_result = r\<rparr>"

text \<open>The answer as a function of the outcome of the checks and the run.\<close>

definition answer_of ::
  "RunnerExecutionRequest \<Rightarrow> (ExecutionResult \<times> pystr) http_outcome \<Rightarrow> RunnerExecutionResponse http_outcome" where
  "answer_of req outcome =
     (case outcome of Http_ok (r, _) \<Rightarrow> Http_ok (response_of req r)
      | Http_error code detail \<Rightarrow> Http_error code detail | Http_raised e \<Rightarrow> Http_raised e)"

lemma execute_shellgei_answer:
  assumes req: "is_request_id (rq_request_id req)" and repo: "loaded_ok loaded" and run: "sane_run run"
  shows "fst (execute_shellgei loaded now run req st) = answer_of req (fst (attempt_execution loaded now run req st))"
    and "\<exists>ev. rn_log (snd (execute_shellgei loaded now run req st)) = rn_log st @ [ev]"
    and "rn_context (snd (execute_shellgei loaded now run req st)) = rn_context st"
proof -
  let ?st = "st\<lparr>rn_context := Some (rq_request_id req)\<rparr>"
  obtain outcome st1 where a: "attempt_execution loaded now run req ?st = (outcome, st1)" by fastforce
  have out: "outcome = fst (attempt_execution loaded now run req st)"
    by (metis a attempt_execution_context(1) fst_conv)
  have lg: "rn_log st1 = rn_log st" by (metis a attempt_execution_context(2) snd_conv)
  have "\<exists>ev. finish_execution req outcome st1 = (answer_of req outcome, st1\<lparr>rn_log := rn_log st @ [ev]\<rparr>)"
  proof (cases outcome)
    case (Http_ok p)
    obtain r revn where p: "p = (r, revn)" by fastforce
    have ok: "fst (attempt_execution loaded now run req st) = Http_ok (r, revn)" using out Http_ok p by simp
    obtain repo where "loaded = Some repo" "rq_problem_revision req = revn" "revn = rp_revision repo"
      "fst (run (sd_shellgei req) (sd_problem_id req) (rn_sandbox st)) = Run_result r"
      using ok unfolding attempt_execution_ok by auto
    then have "is_revision revn" "valid_result r" using repo run by (auto simp: loaded_ok_def sane_run_def)
    then have "finish_execution req outcome st1 = (Http_ok
        \<lparr>rs_request_id = rq_request_id req, rs_problem_revision = revn, rs_result = r\<rparr>,
        st1\<lparr>rn_log := rn_log st1 @ [completion_event (rq_request_id req) 200 (Some (er_status r)) (Some (er_duration_ms r))]\<rparr>)"
      using finish_execution_ok [OF req, of revn r st1] Http_ok p
      by (simp add: valid_result_def consistent_def)
    then show ?thesis using Http_ok p lg \<open>rq_problem_revision req = revn\<close>
      by (intro exI [of _ "completion_event (rq_request_id req) 200 (Some (er_status r)) (Some (er_duration_ms r))"])
        (simp add: answer_of_def response_of_def)
  next
    case (Http_error code detail)
    have "code \<in> {404, 409, 429}" using attempt_execution_codes out Http_error by metis
    then show ?thesis using Http_error lg
      by (intro exI [of _ "completion_event (rq_request_id req) code None None"])
        (simp only: answer_of_def finish_execution_error [OF req] http_outcome.case)
  next
    case (Http_raised e)
    then show ?thesis using lg
      by (intro exI [of _ "completion_event (rq_request_id req) 500 None None"])
        (simp add: answer_of_def finish_execution_raised [OF req])
  qed
  then obtain ev where f: "finish_execution req outcome st1 = (answer_of req outcome, st1\<lparr>rn_log := rn_log st @ [ev]\<rparr>)"
    by blast
  have e: "execute_shellgei loaded now run req st =
      (answer_of req outcome, st1\<lparr>rn_log := rn_log st @ [ev], rn_context := rn_context st\<rparr>)"
    by (simp add: execute_shellgei_steps [OF req] a f)
  show "fst (execute_shellgei loaded now run req st) = answer_of req (fst (attempt_execution loaded now run req st))"
    using e out by simp
  show "\<exists>ev. rn_log (snd (execute_shellgei loaded now run req st)) = rn_log st @ [ev]" using e by simp
  show "rn_context (snd (execute_shellgei loaded now run req st)) = rn_context st" using e by simp
qed

subsection \<open>Properties\<close>

text \<open>C10: The execution endpoint's application is called only for a request with exactly one
  Authorization header that carries the shared secret, and what it receives first is one message with
  the whole body sent so far, at most 8,192 bytes; a request without that header is refused before
  any of its body is read.\<close>

theorem middleware_admits_only_authenticated:
  assumes "sc_type scope = lit ''http''" and "sc_path scope = Some RUNNER_EXECUTE_PATH"
  shows "(security_middleware env app scope messages = App_called r \<longrightarrow>
      (\<exists>secret recv. get_runner_shared_secret env = Inr secret
        \<and> single_header scope (ascii_bytes (lit ''authorization'')) = Some (ascii_bytes (bearer secret))
        \<and> r = app scope recv \<and> recv 0 = Some (Request_chunk (body_of messages) False)
        \<and> length (body_of messages) \<le> 8192))
    \<and> (authenticated env scope = Inr False \<longrightarrow> security_middleware env app scope messages = Error_sent 401 ''Unauthorized'')"
proof -
  have "\<exists>secret recv. get_runner_shared_secret env = Inr secret
        \<and> single_header scope (ascii_bytes (lit ''authorization'')) = Some (ascii_bytes (bearer secret))
        \<and> r = app scope recv \<and> recv 0 = Some (Request_chunk (body_of messages) False)
        \<and> length (body_of messages) \<le> 8192"
    if called: "security_middleware env app scope messages = App_called r"
  proof -
    obtain secret body t rest where f: "get_runner_shared_secret env = Inr secret"
      "single_header scope (ascii_bytes (lit ''authorization'')) = Some (ascii_bytes (bearer secret))"
      "read_bounded_body [] messages = Body_read body t rest" "r = app scope (replay_receive body t rest)"
      by (rule middleware_called [OF called assms])
    have "body = body_of messages" "length body \<le> 8192"
      using read_bounded_body_content [OF f(3)] read_bounded_body_bound [OF f(3)]
      by (simp_all add: RUNNER_REQUEST_BODY_LIMIT_BYTES_def)
    then show ?thesis using f
      by (intro exI [of _ secret] exI [of _ "replay_receive body t rest"]) (simp add: replay_receive_def)
  qed
  then show ?thesis using assms by (simp add: security_middleware_def)
qed

definition sample_scope :: http_scope where
  "sample_scope = \<lparr>sc_type = lit ''http'', sc_path = Some RUNNER_EXECUTE_PATH, sc_headers = []\<rparr>"

theorem middleware_admits_only_authenticated_witness:
  "security_middleware sample_env (\<lambda>_ _. ()) sample_scope [] = Error_sent 401 ''Unauthorized''"
  using middleware_admits_only_authenticated [of sample_scope sample_env "\<lambda>_ _. ()" "[]" "()"]
  by (simp add: sample_scope_def authenticated_def single_header_def)

text \<open>The endpoint answers with a result exactly when the repository is loaded, the revisions agree,
  the problem is known, the rate limiter admits the start and the sandbox returns that result; every
  request logs exactly one completion and leaves the request context as it was.\<close>

theorem endpoint_answers_exactly_admitted_runs:
  assumes "is_request_id (rq_request_id req)" and "loaded_ok loaded" and "sane_run run"
  shows "(fst (execute_shellgei loaded now run req st) = Http_ok response \<longleftrightarrow>
      (\<exists>repo record r. loaded = Some repo \<and> rq_problem_revision req = rp_revision repo
        \<and> repository_get repo (sd_problem_id req) = Some record \<and> fst (try_acquire now (rn_limiter st))
        \<and> fst (run (sd_shellgei req) (sd_problem_id req) (rn_sandbox st)) = Run_result r
        \<and> response = response_of req r))
    \<and> (\<exists>ev. rn_log (snd (execute_shellgei loaded now run req st)) = rn_log st @ [ev])
    \<and> rn_context (snd (execute_shellgei loaded now run req st)) = rn_context st"
proof -
  note answer = execute_shellgei_answer [OF assms, of now st]
  have "answer_of req outcome = Http_ok response \<longleftrightarrow>
      (\<exists>r revn. outcome = Http_ok (r, revn) \<and> response = response_of req r)" for outcome
    by (auto simp: answer_of_def split: http_outcome.splits prod.splits)
  then show ?thesis using answer attempt_execution_ok [of loaded now run req st] by auto
qed

definition sample_repository :: ProblemRepository where
  "sample_repository = \<lparr>rp_records = [(lit ''STANDARD-1'', record_of ''STANDARD-1'')], rp_revision = replicate 64 102,
     rp_catalog = \<lparr>pc_response_body = [], pc_etag = [], pc_problem_count = 1\<rparr>\<rparr>"

definition sample_state :: "unit runner_state" where
  "sample_state = \<lparr>rn_limiter = sample_limiter, rn_sandbox = (), rn_log = [], rn_context = None\<rparr>"

definition sample_runner :: "pystr \<Rightarrow> pystr \<Rightarrow> unit \<Rightarrow> run_reply \<times> unit" where
  "sample_runner = (\<lambda>_ _ _. (Run_result sample_result, ()))"

lemma sample_endpoint:
  "is_request_id (rq_request_id sample_request)" "loaded_ok (Some sample_repository)" "sane_run sample_runner"
  "repository_get sample_repository (sd_problem_id sample_request) = Some (record_of ''STANDARD-1'')"
  "rq_problem_revision sample_request = rp_revision sample_repository"
  "fst (try_acquire 0 (rn_limiter sample_state))"
  using sample_request_ok sample_result_valid
  by (auto simp: request_ok_def loaded_ok_def sample_repository_def sample_request_def sane_run_def
      sample_runner_def repository_get_def sample_state_def sample_limiter_def try_acquire_def
      simp del: replicate.simps)

theorem endpoint_answers_exactly_admitted_runs_witness:
  "fst (execute_shellgei (Some sample_repository) 0 sample_runner sample_request sample_state) =
     Http_ok (response_of sample_request sample_result)"
proof -
  have "\<exists>repo record r. Some sample_repository = Some repo
      \<and> rq_problem_revision sample_request = rp_revision repo
      \<and> repository_get repo (sd_problem_id sample_request) = Some record
      \<and> fst (try_acquire 0 (rn_limiter sample_state))
      \<and> fst (sample_runner (sd_shellgei sample_request) (sd_problem_id sample_request) (rn_sandbox sample_state)) = Run_result r
      \<and> response_of sample_request sample_result = response_of sample_request r"
    using sample_endpoint by (auto simp: sample_runner_def)
  then show ?thesis
    using endpoint_answers_exactly_admitted_runs [OF sample_endpoint(1,2,3)] by blast
qed

end
