(* ===== verification/Runner_Channel.thy ===== *)
theory Runner_Channel
  imports Runner_Http Run_Shellgei
begin

section \<open>Backend and runner together\<close>

text \<open>
  The composition of the client (\<open>Runner_Client\<close>), the middleware and the endpoint (\<open>Runner_Http\<close>),
  and the sizes of the documents that cross the channel. What lies between them is stated as named
  hypotheses: the JSON codec reads back what it wrote and writes no character with more than six
  bytes (\<open>json_codec\<close>), HTTP delivers the request (\<open>delivers\<close>), the web framework hands the
  decoded body to the endpoint (\<open>routes_execution\<close>).
\<close>

subsection \<open>Sizes of JSON documents\<close>

text \<open>A printable ASCII character other than quote and backslash takes one byte; every other takes at
  most six (\<open>\u00XX\<close>, or up to four bytes of UTF-8).\<close>

definition plain_char :: "nat \<Rightarrow> bool" where
  "plain_char c = (32 \<le> c \<and> c \<le> 126 \<and> c \<noteq> 34 \<and> c \<noteq> 92)"

definition json_str_size :: "pystr \<Rightarrow> nat" where
  "json_str_size s = 2 + sum_list (map (\<lambda>c. if plain_char c then 1 else 6) s)"

fun decimal_width :: "nat \<Rightarrow> nat" where
  "decimal_width n = (if n < 10 then 1 else Suc (decimal_width (n div 10)))"

declare decimal_width.simps [simp del]

function json_size :: "pyval \<Rightarrow> nat" where
  "json_size PNone = 4"
| "json_size (PBool b) = 5"
| "json_size (PInt i) = 1 + decimal_width (nat \<bar>i\<bar>)"
| "json_size (PStr s) = json_str_size s"
| "json_size (PList vs) = 2 + sum_list (map (\<lambda>v. json_size v + 1) vs)"
| "json_size (PDict kvs) = 2 + sum_list (map (\<lambda>kv. json_str_size (fst kv) + json_size (snd kv) + 2) kvs)"
  by pat_completeness auto
termination
proof (relation "measure size")
  show "wf (measure (size :: pyval \<Rightarrow> nat))" by simp
  show "(v, PList vs) \<in> measure size" if "v \<in> set vs" for v vs
    using that by (induction vs) auto
  show "(snd kv, PDict kvs) \<in> measure size" if "kv \<in> set kvs" for kv kvs
    using that by (induction kvs) (auto simp: size_prod_simp)
qed

text \<open>What is relied on of the JSON codec for a document: it is read back, and no character takes more
  bytes than stated above.\<close>

definition json_codec :: "(pyval \<Rightarrow> bytes) \<Rightarrow> (bytes \<Rightarrow> pyval option) \<Rightarrow> pyval \<Rightarrow> bool" where
  "json_codec json_dump json_parse v \<longleftrightarrow>
     json_parse (json_dump v) = Some v \<and> length (json_dump v) \<le> json_size v"

lemma json_str_size_bound: "json_str_size s \<le> 2 + 6 * length s"
proof -
  have "sum_list (map (\<lambda>c. if plain_char c then 1 else 6) s) \<le> 6 * length s"
    by (induction s) auto
  then show ?thesis by (simp add: json_str_size_def)
qed

lemma json_str_size_plain: "list_all plain_char s \<Longrightarrow> json_str_size s = 2 + length s"
proof -
  assume "list_all plain_char s"
  then have "sum_list (map (\<lambda>c. if plain_char c then 1 else 6) s) = length s" by (induction s) auto
  then show ?thesis by (simp add: json_str_size_def)
qed

lemma decimal_width_bound: "n < 10 ^ Suc k \<Longrightarrow> decimal_width n \<le> Suc k"
proof (induction k arbitrary: n)
  case 0
  then show ?case by (simp add: decimal_width.simps)
next
  case (Suc k)
  show ?case
  proof (cases "n < 10")
    case True
    then show ?thesis by (simp add: decimal_width.simps)
  next
    case False
    have "n div 10 < 10 ^ Suc k" using Suc.prems by (simp add: less_mult_imp_div_less mult.commute)
    then have "decimal_width (n div 10) \<le> Suc k" by (rule Suc.IH)
    then show ?thesis using False by (simp add: decimal_width.simps [of n])
  qed
qed

lemma json_int_bound: "\<bar>i\<bar> < 10 ^ 20 \<Longrightarrow> json_size (PInt i) \<le> 21"
proof -
  assume "\<bar>i\<bar> < 10 ^ 20"
  then have "nat \<bar>i\<bar> < 10 ^ Suc 19" by simp
  from decimal_width_bound [OF this] show ?thesis by simp
qed

subsection \<open>Requests always fit\<close>

lemma request_fits:
  assumes "request_ok r"
  shows "json_size (dump_RunnerExecutionRequest r) \<le> 8192"
proof -
  have len: "length (sd_shellgei r) \<le> 1000" "length (sd_problem_id r) \<le> 64"
    "length (rq_request_id r) = 32" "length (rq_problem_revision r) = 64"
    using assms by (auto simp: request_ok_def is_shellgei_def is_problem_id_def is_request_id_def is_revision_def)
  have "decimal_width 4 = 1" by (simp add: decimal_width.simps)
  then show ?thesis
    using len json_str_size_bound [of "sd_shellgei r"] json_str_size_bound [of "sd_problem_id r"]
      json_str_size_bound [of "rq_request_id r"] json_str_size_bound [of "rq_problem_revision r"]
      json_str_size_bound [of "lit ''shellgei''"] json_str_size_bound [of "lit ''problem_id''"]
      json_str_size_bound [of "lit ''protocol_version''"] json_str_size_bound [of "lit ''request_id''"]
      json_str_size_bound [of "lit ''problem_revision''"]
    by (simp add: dump_RunnerExecutionRequest_def RUNNER_PROTOCOL_VERSION_def)
qed

subsection \<open>Responses of the runner always fit\<close>

definition small_int :: "int \<Rightarrow> bool" where "small_int i \<longleftrightarrow> \<bar>i\<bar> < 10 ^ 20"

definition compact_result :: "ExecutionResult \<Rightarrow> bool" where
  "compact_result r \<longleftrightarrow> list_all (\<lambda>a. list_all plain_char (art_data a)) (artifacts_of r)
     \<and> small_int (er_duration_ms r) \<and> (\<forall>i. er_exit_code r = Some i \<longrightarrow> small_int i)"

definition artifact_cost :: "ExecutionArtifact option \<Rightarrow> nat" where
  "artifact_cost x = (case x of None \<Rightarrow> 0 | Some a \<Rightarrow> length (art_data a))"

lemma lit_size: "json_str_size (lit s) \<le> 2 + 6 * length s"
  using json_str_size_bound [of "lit s"] by simp

lemma artifact_option_size:
  assumes "\<And>a. x = Some a \<Longrightarrow> valid_artifact a \<and> list_all plain_char (art_data a)"
  shows "json_size (dump_option dump_ExecutionArtifact x) \<le> 2000 + artifact_cost x"
proof (cases x)
  case None
  then show ?thesis by (simp add: dump_option_def)
next
  case (Some a)
  then have a: "length (art_path a) \<le> 255" "list_all plain_char (art_data a)"
    using assms by (auto simp: valid_artifact_def)
  have "json_str_size (media_text (art_media_type a)) \<le> 62"
    using lit_size [of "''image/jpeg''"] lit_size [of "''image/gif''"]
    by (cases "art_media_type a") (simp_all add: media_text_def)
  then show ?thesis
    using Some a(1) json_str_size_plain [OF a(2)] json_str_size_bound [of "art_path a"]
      lit_size [of "''path''"] lit_size [of "''media_type''"] lit_size [of "''data''"]
    by (simp add: dump_option_def dump_ExecutionArtifact_def artifact_cost_def)
qed

lemma artifact_costs:
  "artifact_cost (er_artifact r) + artifact_cost (er_display_artifact r) =
     sum_list (map (length \<circ> art_data) (artifacts_of r))"
  by (cases "er_artifact r"; cases "er_display_artifact r") (simp_all add: artifact_cost_def artifacts_of_def)

lemma status_size: "json_str_size (status_text s) \<le> 74"
  using lit_size [of "''completed''"] lit_size [of "''timed_out''"] lit_size [of "''output_limit''"]
    lit_size [of "''error''"]
  by (cases s) (simp_all add: status_text_def)

lemma result_fits:
  assumes "valid_result r" and "compact_result r"
  shows "json_size (dump_ExecutionResult r) \<le> 1020000"
proof -
  have arts: "json_size (dump_option dump_ExecutionArtifact (er_artifact r)) \<le> 2000 + artifact_cost (er_artifact r)"
    "json_size (dump_option dump_ExecutionArtifact (er_display_artifact r)) \<le> 2000 + artifact_cost (er_display_artifact r)"
    using assms by (auto intro!: artifact_option_size simp: valid_result_def compact_result_def artifacts_of_def)
  have total: "artifact_cost (er_artifact r) + artifact_cost (er_display_artifact r) \<le> 1000000"
    using assms by (simp add: artifact_costs valid_result_def consistent_def)
  have out: "json_str_size (er_stdout r) + json_str_size (er_stderr r) \<le> 6004"
    using assms json_str_size_bound [of "er_stdout r"] json_str_size_bound [of "er_stderr r"]
    by (auto simp: valid_result_def consistent_def)
  have err: "json_size (dump_option PStr (er_error r)) \<le> 6004"
  proof (cases "er_error r")
    case (Some e)
    then have "length e \<le> 1000" using assms by (simp add: valid_result_def consistent_def)
    then show ?thesis using Some json_str_size_bound [of e] by (simp add: dump_option_def)
  qed (simp add: dump_option_def)
  have code: "json_size (dump_option PInt (er_exit_code r)) \<le> 21"
    using assms json_int_bound
    by (cases "er_exit_code r") (auto simp: dump_option_def compact_result_def small_int_def)
  have dur: "json_size (PInt (er_duration_ms r)) \<le> 21"
    using assms json_int_bound by (simp add: compact_result_def small_int_def)
  show ?thesis
    using arts total out err code dur status_size [of "er_status r"]
      lit_size [of "''status''"] lit_size [of "''stdout''"] lit_size [of "''stderr''"] lit_size [of "''exit_code''"]
      lit_size [of "''timed_out''"] lit_size [of "''truncated''"] lit_size [of "''duration_ms''"]
      lit_size [of "''artifact''"] lit_size [of "''error''"] lit_size [of "''display_artifact''"]
    by (simp add: dump_ExecutionResult_def)
qed

lemma response_fits:
  assumes "valid_response r" and "compact_result (rs_result r)"
  shows "json_size (dump_RunnerExecutionResponse r) \<le> 1100000"
proof -
  have "length (rs_request_id r) = 32" "length (rs_problem_revision r) = 64"
    using assms by (auto simp: valid_response_def is_request_id_def is_revision_def)
  moreover have "decimal_width 4 = 1" by (simp add: decimal_width.simps)
  moreover have "json_size (dump_ExecutionResult (rs_result r)) \<le> 1020000"
    using assms by (simp add: result_fits valid_response_def)
  ultimately show ?thesis
    using json_str_size_bound [of "rs_request_id r"] json_str_size_bound [of "rs_problem_revision r"]
      lit_size [of "''protocol_version''"] lit_size [of "''request_id''"] lit_size [of "''problem_revision''"]
      lit_size [of "''result''"]
    by (simp add: dump_RunnerExecutionResponse_def RUNNER_PROTOCOL_VERSION_def)
qed

text \<open>Base64 text is plain, so the artifacts of every result of the runner are.\<close>

lemma b64_plain: "list_all plain_char (b64encode bs)"
proof -
  obtain u v where uv: "b64encode bs = u @ v" "list_all (\<lambda>c. c = 61) v"
    "list_all (in_cls [(65, 90), (97, 122), (48, 57), (43, 43), (47, 47)]) u"
    using b64encode_pattern [of bs] unfolding fullmatch_b64_pattern by blast
  then show ?thesis by (auto simp: list_all_iff in_cls_def plain_char_def)
qed

lemma opt_bind_artifact_plain:
  "opt_bind x (\<lambda>a. new_ExecutionArtifact p m (b64encode a)) = Inr (Some y) \<Longrightarrow>
     valid_artifact y \<and> list_all plain_char (art_data y)"
  by (auto simp: opt_bind_def rbind_eq_Inr new_ExecutionArtifact_iff valid_artifact_def b64_plain
      split: option.splits)

lemma to_execution_result_plain:
  assumes "to_execution_result outcome record limit = Inr r"
  shows "valid_result r \<and> list_all (\<lambda>a. list_all plain_char (art_data a)) (artifacts_of r)"
proof -
  obtain status art disp where a: "judge_artifact_result status record (so_artifact outcome) = Inr art"
    and d: "display_artifact_result status (so_display_artifact outcome) = Inr disp"
    and r: "consistent r" "er_artifact r = art" "er_display_artifact r = disp"
    using assms by (auto simp: to_execution_result_def Let_def rbind_eq_Inr new_ExecutionResult_iff split: prod.splits)
  have "valid_artifact y \<and> list_all plain_char (art_data y)" if "art = Some y" for y
    using a that opt_bind_artifact_plain
    by (auto simp: judge_artifact_result_def split: JudgeSpecification.splits if_splits)
  moreover have "valid_artifact y \<and> list_all plain_char (art_data y)" if "disp = Some y" for y
    using d that opt_bind_artifact_plain by (auto simp: display_artifact_result_def split: if_splits)
  ultimately show ?thesis
    using r by (auto simp: valid_result_def artifacts_of_def opt_items_def split: option.splits)
qed

lemma exec_shellgei_plain:
  assumes "fst (exec_shellgei str_error repository execute shellgei problem_id limit s) = Inr r"
  shows "valid_result r \<and> list_all (\<lambda>a. list_all plain_char (art_data a)) (artifacts_of r)"
proof -
  have err: "valid_result r \<and> list_all (\<lambda>a. list_all plain_char (art_data a)) (artifacts_of r)"
    if "error_result m = Inr r" for m
  proof -
    have "consistent r" using that by (simp add: error_result_def new_ExecutionResult_iff)
    then show ?thesis using that
      by (auto simp: error_result_iff make_error_result_def valid_result_def artifacts_of_def)
  qed
  have "(\<exists>m. error_result m = Inr r) \<or> (\<exists>out rc. to_execution_result out rc limit = Inr r)"
  proof (rule ccontr)
    assume no: "\<not> ?thesis"
    show False using assms no
      by (simp add: exec_shellgei_def split: sum.splits option.splits prod.splits acquisition_error.splits)
  qed
  then show ?thesis using err to_execution_result_plain by metis
qed

subsection \<open>What lies between the two programs\<close>

text \<open>The messages carry the body in one or more chunks.\<close>

fun carries :: "asgi_message list \<Rightarrow> bytes \<Rightarrow> bool" where
  "carries (Request_chunk chunk False # ms) body = (chunk = body)"
| "carries (Request_chunk chunk True # ms) body =
     (startswith body chunk \<and> carries ms (drop (length chunk) body))"
| "carries _ body = False"

definition delivers :: "(http_request \<Rightarrow> http_scope \<times> asgi_message list) \<Rightarrow> bool" where
  "delivers deliver \<longleftrightarrow> (\<forall>q. let (scope, messages) = deliver q in
     sc_type scope = lit ''http'' \<and> sc_path scope = Some (hq_path q)
     \<and> single_header scope (ascii_bytes (lit ''authorization'')) = Some (ascii_bytes (hq_authorization q))
     \<and> (declared_content_length scope = Inr None
        \<or> declared_content_length scope = Inr (Some (int (length (hq_body q)))))
     \<and> carries messages (hq_body q))"

definition routes_execution ::
  "(bytes \<Rightarrow> pyval option) \<Rightarrow> (http_scope \<Rightarrow> (nat \<Rightarrow> asgi_message option) \<Rightarrow> 'r) \<Rightarrow>
   (RunnerExecutionRequest \<Rightarrow> 'r) \<Rightarrow> bool" where
  "routes_execution json_parse app endpoint \<longleftrightarrow>
     (\<forall>scope recv body v req. recv 0 = Some (Request_chunk body False) \<longrightarrow> json_parse body = Some v \<longrightarrow>
        parse_RunnerExecutionRequest v = Inr req \<longrightarrow> app scope recv = endpoint req)"

text \<open>How an answer looks to the client.\<close>

definition wire :: "(pyval \<Rightarrow> bytes) \<Rightarrow> RunnerExecutionResponse http_outcome served \<Rightarrow> http_reply" where
  "wire json_dump answer =
     (case answer of
        App_called (Http_ok response) \<Rightarrow> Http_body (json_dump (dump_RunnerExecutionResponse response))
      | App_called (Http_error code _) \<Rightarrow> Http_status code
      | App_called (Http_raised _) \<Rightarrow> Http_status 500
      | Error_sent code _ \<Rightarrow> Http_status code
      | Middleware_raised _ \<Rightarrow> Http_status 500
      | Never_answered \<Rightarrow> Http_os_error)"

definition channel_network ::
  "(pystr \<Rightarrow> pystr option) \<Rightarrow> (pyval \<Rightarrow> bytes) \<Rightarrow> (http_request \<Rightarrow> http_scope \<times> asgi_message list) \<Rightarrow>
   (http_scope \<Rightarrow> (nat \<Rightarrow> asgi_message option) \<Rightarrow> RunnerExecutionResponse http_outcome) \<Rightarrow> http_request \<Rightarrow> http_reply" where
  "channel_network env json_dump deliver app q =
     (let (scope, messages) = deliver q in wire json_dump (security_middleware env app scope messages))"

lemma carries_read:
  "carries ms body \<Longrightarrow> length (acc @ body) \<le> RUNNER_REQUEST_BODY_LIMIT_BYTES \<Longrightarrow>
     \<exists>rest. read_bounded_body acc ms = Body_read (acc @ body) None rest"
proof (induction ms body arbitrary: acc rule: carries.induct)
  case (2 chunk ms body)
  then have d: "body = chunk @ drop (length chunk) body"
    by (metis append_take_drop_id carries.simps(2) startswith_def)
  then obtain rest where "read_bounded_body (acc @ chunk) ms = Body_read ((acc @ chunk) @ drop (length chunk) body) None rest"
    using "2.IH" [of "acc @ chunk"] "2.prems" by fastforce
  moreover have "length (acc @ chunk) \<le> RUNNER_REQUEST_BODY_LIMIT_BYTES"
    using "2.prems"(2) d by (metis append.assoc dual_order.trans length_append le_add1)
  ultimately show ?case using d by (simp add: Let_def)
qed auto

lemma middleware_forwards:
  assumes "get_runner_shared_secret env = Inr secret" and "deliver q = (scope, messages)" and "delivers deliver"
    and "hq_path q = RUNNER_EXECUTE_PATH" and "hq_authorization q = bearer secret" and "length (hq_body q) \<le> 8192"
  shows "\<exists>recv. recv 0 = Some (Request_chunk (hq_body q) False)
    \<and> security_middleware env app scope messages = App_called (app scope recv)"
proof -
  have d: "sc_type scope = lit ''http''" "sc_path scope = Some (hq_path q)"
    "single_header scope (ascii_bytes (lit ''authorization'')) = Some (ascii_bytes (hq_authorization q))"
    "declared_content_length scope = Inr None
        \<or> declared_content_length scope = Inr (Some (int (length (hq_body q))))"
    "carries messages (hq_body q)"
    using assms(2,3) by (auto simp: delivers_def Let_def split: prod.splits)
  have auth: "authenticated env scope = Inr True" using d(3) assms(1,5) by (simp add: authenticated_def)
  obtain rest where body: "read_bounded_body [] messages = Body_read (hq_body q) None rest"
    using carries_read [OF d(5), of "[]"] assms(6) by (auto simp: RUNNER_REQUEST_BODY_LIMIT_BYTES_def)
  have "security_middleware env app scope messages = App_called (app scope (replay_receive (hq_body q) None rest))"
    using d(1,2,4) assms(4,6) auth body
    by (auto simp: security_middleware_def RUNNER_REQUEST_BODY_LIMIT_BYTES_def)
  then show ?thesis
    by (intro exI [of _ "replay_receive (hq_body q) None rest"]) (simp add: replay_receive_def)
qed

text \<open>The client's view of the runner's answer.\<close>

definition client_view :: "RunnerExecutionResponse http_outcome \<Rightarrow> client_error + ExecutionResult" where
  "client_view answer =
     (case answer of
        Http_ok response \<Rightarrow> Inr (rs_result response)
      | Http_error code _ \<Rightarrow> Inl (Channel (if code = 429 then RunnerBusyError else RunnerUnavailableError))
      | Http_raised _ \<Rightarrow> Inl (Channel RunnerUnavailableError))"

lemma client_reads_answer:
  assumes codec: "\<And>resp. answer = Http_ok resp \<Longrightarrow> json_codec json_dump json_parse (dump_RunnerExecutionResponse resp)"
    and ok: "\<And>resp. answer = Http_ok resp \<Longrightarrow> valid_response resp \<and> compact_result (rs_result resp)
      \<and> rs_request_id resp = rid \<and> rs_problem_revision resp = revn"
  shows "rbind (read_response (wire json_dump (App_called answer))) (verify_response json_parse revn rid)
    = client_view answer"
proof (cases answer)
  case (Http_ok resp)
  note r = ok [OF Http_ok]
  let ?body = "json_dump (dump_RunnerExecutionResponse resp)"
  have "length ?body \<le> RUNNER_RESPONSE_LIMIT_BYTES"
    using codec [OF Http_ok] response_fits [of resp] r unfolding json_codec_def RUNNER_RESPONSE_LIMIT_BYTES_def
    by (meson dual_order.trans)
  then have "read_response (wire json_dump (App_called answer)) = Inr ?body"
    by (simp add: read_response_iff wire_def Http_ok)
  moreover have "verify_response json_parse revn rid ?body = Inr (rs_result resp)"
    unfolding verify_response_iff using codec [OF Http_ok] r parse_dump_RunnerExecutionResponse
    by (auto simp: json_codec_def)
  ultimately show ?thesis by (simp add: client_view_def Http_ok)
qed (auto simp: wire_def read_response_def client_view_def)

definition compact_run :: "(pystr \<Rightarrow> pystr \<Rightarrow> 'c \<Rightarrow> run_reply \<times> 'c) \<Rightarrow> bool" where
  "compact_run run \<longleftrightarrow> (\<forall>s p c r. fst (run s p c) = Run_result r \<longrightarrow> compact_result r)"

lemma execute_shellgei_response:
  assumes "is_request_id (rq_request_id req)" "is_revision (rq_problem_revision req)" "loaded_ok loaded"
    and run: "sane_run run" "compact_run run"
    and "fst (execute_shellgei loaded now run req st) = Http_ok resp"
  shows "valid_response resp \<and> compact_result (rs_result resp) \<and> rs_request_id resp = rq_request_id req
    \<and> rs_problem_revision resp = rq_problem_revision req"
proof -
  have "answer_of req (fst (attempt_execution loaded now run req st)) = Http_ok resp"
    using assms(6) execute_shellgei_answer(1) [OF assms(1,3) run(1), of now st] by simp
  then obtain r revn where a: "fst (attempt_execution loaded now run req st) = Http_ok (r, revn)"
    and resp: "resp = response_of req r"
    by (auto simp: answer_of_def split: http_outcome.splits prod.splits)
  have "fst (run (sd_shellgei req) (sd_problem_id req) (rn_sandbox st)) = Run_result r"
    using a unfolding attempt_execution_ok by blast
  then have "valid_result r" "compact_result r" using run by (auto simp: sane_run_def compact_run_def)
  then show ?thesis using assms(1,2) by (simp add: resp response_of_def valid_response_def)
qed

subsection \<open>Properties\<close>

text \<open>C9: The channel is transparent. When client and runner share the secret, a valid command sent by the
  client passes the middleware's size limit and authentication, and the client returns exactly what
  the endpoint answered: its result, busy for status 429, unavailable for every other refusal.\<close>

theorem client_sees_endpoint_answer:
  assumes "get_runner_shared_secret env = Inr secret" and "delivers deliver"
    and routes: "routes_execution json_parse app (\<lambda>req. fst (execute_shellgei loaded now run req st))"
    and req: "req = \<lparr>sd_shellgei = shellgei, sd_problem_id = problem_id, rq_request_id = request_id,
         rq_problem_revision = revision\<rparr>" and ok: "request_ok req"
    and "loaded_ok loaded" "sane_run run" "compact_run run"
    and codec: "json_codec json_dump json_parse (dump_RunnerExecutionRequest req)"
      "\<And>resp. fst (execute_shellgei loaded now run req st) = Http_ok resp \<Longrightarrow>
         json_codec json_dump json_parse (dump_RunnerExecutionResponse resp)"
  shows "execute_sync env (Inr revision) json_dump json_parse (channel_network env json_dump deliver app)
      shellgei problem_id request_id
    = client_view (fst (execute_shellgei loaded now run req st))"
proof -
  let ?q = "\<lparr>hq_path = RUNNER_EXECUTE_PATH, hq_authorization = bearer secret,
     hq_body = json_dump (dump_RunnerExecutionRequest req)\<rparr>"
  let ?answer = "fst (execute_shellgei loaded now run req st)"
  obtain scope messages where d: "deliver ?q = (scope, messages)" by fastforce
  have "length (hq_body ?q) \<le> 8192"
    using codec(1) request_fits [OF ok] by (auto simp: json_codec_def)
  then obtain recv where recv: "recv 0 = Some (Request_chunk (hq_body ?q) False)"
    "security_middleware env app scope messages = App_called (app scope recv)"
    using middleware_forwards [OF assms(1) d assms(2), of app] by auto
  have "app scope recv = ?answer"
    using routes recv(1) codec(1) parse_dump_RunnerExecutionRequest [OF ok]
    by (simp add: routes_execution_def json_codec_def)
  then have net: "channel_network env json_dump deliver app ?q = wire json_dump (App_called ?answer)"
    using d recv(2) by (simp add: channel_network_def)
  have payload: "parse_RunnerExecutionRequest (execution_payload shellgei problem_id request_id revision) = Inr req"
    using ok parse_execution_payload unfolding req by (simp add: request_ok_def)
  have ids: "is_request_id (rq_request_id req)" "is_revision (rq_problem_revision req)"
    using ok by (simp_all add: request_ok_def)
  have "execute_sync env (Inr revision) json_dump json_parse (channel_network env json_dump deliver app)
      shellgei problem_id request_id =
    rbind (read_response (wire json_dump (App_called ?answer))) (verify_response json_parse revision request_id)"
    by (simp add: execute_sync_def assms(1) payload net)
  also have "\<dots> = client_view ?answer"
    using execute_shellgei_response [OF ids assms(6,7,8)] codec(2) req
    by (intro client_reads_answer) simp_all
  finally show ?thesis .
qed

definition sample_deliver :: "http_request \<Rightarrow> http_scope \<times> asgi_message list" where
  "sample_deliver q =
     (\<lparr>sc_type = lit ''http'', sc_path = Some (hq_path q),
       sc_headers = [(ascii_bytes (lit ''Authorization''), ascii_bytes (hq_authorization q))]\<rparr>,
      [Request_chunk (hq_body q) False])"

definition sample_dump :: "pyval \<Rightarrow> bytes" where
  "sample_dump v = (if v = dump_RunnerExecutionRequest sample_request then [1] else [2])"

definition sample_parse :: "bytes \<Rightarrow> pyval option" where
  "sample_parse bs = Some (if bs = [1] then dump_RunnerExecutionRequest sample_request
     else dump_RunnerExecutionResponse (response_of sample_request sample_result))"

definition sample_app :: "http_scope \<Rightarrow> (nat \<Rightarrow> asgi_message option) \<Rightarrow> RunnerExecutionResponse http_outcome" where
  "sample_app scope recv =
     (case recv 0 of
        Some (Request_chunk body _) \<Rightarrow>
          (case sample_parse body of
             Some v \<Rightarrow>
               (case parse_RunnerExecutionRequest v of
                  Inr req \<Rightarrow> fst (execute_shellgei (Some sample_repository) 0 sample_runner req sample_state)
                | Inl _ \<Rightarrow> Http_error 422 ''Unprocessable'')
           | None \<Rightarrow> Http_error 422 ''Unprocessable'')
      | _ \<Rightarrow> Http_error 400 ''Bad Request'')"

lemma sample_delivers: "delivers sample_deliver"
proof -
  have h: "map lower_byte (ascii_bytes (lit ''Authorization'')) = ascii_bytes (lit ''authorization'')"
    by (simp add: ascii_bytes_def lit_def lower_byte_def)
  have n: "ascii_bytes (lit ''authorization'') \<noteq> ascii_bytes (lit ''content-length'')"
    by (simp add: ascii_bytes_def lit_def)
  show ?thesis
    by (simp add: delivers_def sample_deliver_def single_header_def h n declared_content_length_def Let_def)
qed

lemma sample_answer:
  "fst (execute_shellgei (Some sample_repository) 0 sample_runner sample_request sample_state) =
     Http_ok (response_of sample_request sample_result)"
proof -
  have "fst (attempt_execution (Some sample_repository) 0 sample_runner sample_request sample_state) =
      Http_ok (sample_result, rp_revision sample_repository)"
    unfolding attempt_execution_ok using sample_endpoint by (auto simp: sample_runner_def)
  then show ?thesis
    using execute_shellgei_answer(1) [OF sample_endpoint(1,2,3), of 0 sample_state] by (simp add: answer_of_def)
qed

theorem client_sees_endpoint_answer_witness:
  "execute_sync sample_env (Inr (replicate 64 102)) sample_dump sample_parse
     (channel_network sample_env sample_dump sample_deliver sample_app) [108, 115] (lit ''STANDARD-1'')
     (replicate 32 48) = Inr sample_result"
proof -
  have routes: "routes_execution sample_parse sample_app
      (\<lambda>req. fst (execute_shellgei (Some sample_repository) 0 sample_runner req sample_state))"
    by (simp add: routes_execution_def sample_app_def)
  have big: "2 \<le> json_size (dump_RunnerExecutionRequest sample_request)"
    "2 \<le> json_size (dump_RunnerExecutionResponse (response_of sample_request sample_result))"
    by (simp_all add: dump_RunnerExecutionRequest_def dump_RunnerExecutionResponse_def)
  have "dump_RunnerExecutionResponse (response_of sample_request sample_result) \<noteq> dump_RunnerExecutionRequest sample_request"
    by (simp add: dump_RunnerExecutionRequest_def dump_RunnerExecutionResponse_def)
  then have codec: "json_codec sample_dump sample_parse (dump_RunnerExecutionRequest sample_request)"
    "json_codec sample_dump sample_parse (dump_RunnerExecutionResponse (response_of sample_request sample_result))"
    using big by (simp_all add: json_codec_def sample_dump_def sample_parse_def)
  have "compact_run sample_runner"
    by (simp add: compact_run_def sample_runner_def sample_result_def compact_result_def artifacts_of_def
        plain_char_def small_int_def)
  then show ?thesis
    using client_sees_endpoint_answer [OF sample_secret sample_delivers routes _ sample_request_ok
        sample_endpoint(2,3) _ codec(1)] codec(2) sample_answer
    by (simp add: sample_request_def client_view_def response_of_def)
qed

text \<open>Every result of the runner's entry point, sent with valid identifiers, is a response of at most
  1,100,000 bytes, which is the client's limit: no answer is lost to the limit.\<close>

theorem runner_responses_fit:
  assumes "fst (exec_shellgei str_error repository execute shellgei problem_id limit s) = Inr (rs_result resp)"
    and "is_request_id (rs_request_id resp)" and "is_revision (rs_problem_revision resp)"
    and "small_int (er_duration_ms (rs_result resp))"
    and "\<And>i. er_exit_code (rs_result resp) = Some i \<Longrightarrow> small_int i"
  shows "json_size (dump_RunnerExecutionResponse resp) \<le> RUNNER_RESPONSE_LIMIT_BYTES"
  using response_fits [of resp] exec_shellgei_plain [OF assms(1)] assms(2,3,4,5)
  by (simp add: valid_response_def compact_result_def RUNNER_RESPONSE_LIMIT_BYTES_def)

theorem runner_responses_fit_witness:
  "json_size (dump_RunnerExecutionResponse
     \<lparr>rs_request_id = replicate 32 48, rs_problem_revision = replicate 64 102,
      rs_result = make_error_result (lit ''invalid problem ID'') 0\<rparr>) \<le> RUNNER_RESPONSE_LIMIT_BYTES"
proof -
  have "validate_problem_id [] = Inl (ValueError ''problem_id must be between 1 and 64 characters'')"
    by (simp add: validate_problem_id_def)
  then have "fst (exec_shellgei (\<lambda>_. []) (\<lambda>_. None) (\<lambda>_ _ _ s. (Inl (SandboxAcquisitionError []), s)) [] [] 0 ()) =
      Inr (make_error_result (lit ''invalid problem ID'') 0)"
    by (simp add: exec_shellgei_def error_result_ok)
  moreover have "is_request_id (replicate 32 48)" "is_revision (replicate 64 102)"
    using sample_response_valid by (simp_all add: valid_response_def sample_response_def)
  ultimately show ?thesis
    using runner_responses_fit [of "\<lambda>_. []" "\<lambda>_. None" "\<lambda>_ _ _ s. (Inl (SandboxAcquisitionError []), s)" "[]" "[]" 0 "()"
        "\<lparr>rs_request_id = replicate 32 48, rs_problem_revision = replicate 64 102,
          rs_result = make_error_result (lit ''invalid problem ID'') 0\<rparr>"]
    by (simp add: make_error_result_def small_int_def)
qed

end
