(* ===== verification/Slots.thy ===== *)
theory Slots
  imports Prelude
begin

section \<open>Bounded admission to worker threads\<close>

text \<open>
  Three places admit work with a \<open>BoundedSemaphore\<close> and hand it to a thread pool of the same size:
  \<open>ShellgeiDockerClient.run_with_timeout\<close>, \<open>RunnerClient.execute\<close> and \<open>_ExecutionLogExecutor\<close>. A
  caller may stop waiting (timeout, cancellation) while its thread still runs, and the slot must
  then stay taken until the thread ends. The locale \<open>slot_machine\<close> is what the three have in
  common; each is an interleaving of its calls' steps and an interpretation of the locale.
\<close>

locale slot_machine =
  fixes init :: 's
    and step :: "'s \<Rightarrow> 's \<Rightarrow> bool"
    and cap :: nat
    and free :: "'s \<Rightarrow> nat"
    and holders :: "'s \<Rightarrow> 'i set"
    and running :: "'s \<Rightarrow> 'i set"
  assumes init_free: "free init = cap" and init_none: "holders init = {}" "running init = {}"
    and step_cases: "step s t \<Longrightarrow> running s \<subseteq> holders s \<Longrightarrow>
      (free t = free s \<and> holders t = holders s \<and> running t = running s)
      \<or> (\<exists>i. i \<notin> holders s \<and> free s = Suc (free t) \<and> holders t = insert i (holders s) \<and> running t = running s)
      \<or> (\<exists>i. i \<in> holders s \<and> i \<notin> running s \<and> free t = Suc (free s) \<and> holders t = holders s - {i}
            \<and> running t = running s)
      \<or> (\<exists>i. i \<in> holders s \<and> free t = free s \<and> holders t = holders s \<and> running t = insert i (running s))
      \<or> (\<exists>i. free t = free s \<and> holders t = holders s \<and> running t = running s - {i})"
begin

lemma slot_invariant:
  "step\<^sup>*\<^sup>* init s \<Longrightarrow>
     finite (holders s) \<and> free s + card (holders s) = cap \<and> running s \<subseteq> holders s"
proof (induction rule: rtranclp_induct)
  case base
  then show ?case by (simp add: init_free init_none)
next
  case (step s t)
  then have inv: "finite (holders s)" "free s + card (holders s) = cap" "running s \<subseteq> holders s" by auto
  have del: "Suc f + card (holders s - {i}) = f + card (holders s)" if "i \<in> holders s" for i f
    using card.remove [OF inv(1) that] by simp
  show ?case
    using step_cases [OF step.hyps(2) inv(3)] inv
    by (elim disjE exE conjE) (auto simp: del simp del: card_Diff_insert card_Diff_singleton add_Suc)
qed

lemma running_bounded: "step\<^sup>*\<^sup>* init s \<Longrightarrow> card (running s) \<le> cap - free s"
  using slot_invariant [of s] card_mono [of "holders s" "running s"] by fastforce

lemma release_in_bounds:
  assumes "step\<^sup>*\<^sup>* init s" and "i \<in> holders s"
  shows "free s < cap"
  using slot_invariant [OF assms(1)] card_gt_0_iff [of "holders s"] assms(2) by auto

end

subsection \<open>A call that waits for its thread\<close>

text \<open>
  The life of one call of \<open>run_with_timeout\<close> or \<open>execute\<close>: \<open>W_returning\<close> is the \<open>finally\<close> clause
  before the release, \<open>W_detached\<close> a call that has stopped waiting and left the release to the
  future's callback, \<open>W_stuck\<close> a call that raised after taking its slot and before its \<open>try\<close>.
\<close>

datatype wait_outcome = O_result | O_submit_error | O_timeout | O_cancelled

datatype wait_phase =
    W_new
  | W_busy
  | W_acquired
  | W_waiting
  | W_returning wait_outcome
  | W_detached wait_outcome
  | W_over wait_outcome
  | W_stuck

datatype future = F_none | F_running | F_done

record 'i wait_state =
  ws_free :: nat
  ws_phase :: "'i \<Rightarrow> wait_phase"
  ws_future :: "'i \<Rightarrow> future"

definition wait_init :: "nat \<Rightarrow> 'i wait_state" where
  "wait_init capacity = \<lparr>ws_free = capacity, ws_phase = (\<lambda>_. W_new), ws_future = (\<lambda>_. F_none)\<rparr>"

definition set_phase :: "'i \<Rightarrow> wait_phase \<Rightarrow> 'i wait_state \<Rightarrow> 'i wait_state" where
  "set_phase i p s = s\<lparr>ws_phase := (ws_phase s)(i := p)\<rparr>"

text \<open>
  \<open>with_timeout\<close>: the wait has a deadline (\<open>run_with_timeout\<close>). \<open>id_first\<close>: the request ID is
  computed between the acquisition and the \<open>try\<close> (\<open>execute\<close>), where it may raise.
\<close>

inductive wait_step :: "bool \<Rightarrow> bool \<Rightarrow> 'i wait_state \<Rightarrow> 'i wait_state \<Rightarrow> bool"
  for with_timeout id_first where
  ws_acquire: "ws_phase s i = W_new \<Longrightarrow> ws_free s = Suc n \<Longrightarrow>
    wait_step with_timeout id_first s (set_phase i W_acquired (s\<lparr>ws_free := n\<rparr>))"
| ws_busy: "ws_phase s i = W_new \<Longrightarrow> ws_free s = 0 \<Longrightarrow>
    wait_step with_timeout id_first s (set_phase i W_busy s)"
| ws_stuck: "id_first \<Longrightarrow> ws_phase s i = W_acquired \<Longrightarrow>
    wait_step with_timeout id_first s (set_phase i W_stuck s)"
| ws_submit: "ws_phase s i = W_acquired \<Longrightarrow>
    wait_step with_timeout id_first s
      (set_phase i W_waiting (s\<lparr>ws_future := (ws_future s)(i := F_running)\<rparr>))"
| ws_submit_error: "ws_phase s i = W_acquired \<Longrightarrow>
    wait_step with_timeout id_first s (set_phase i (W_returning O_submit_error) s)"
| ws_thread_end: "ws_future s i = F_running \<Longrightarrow>
    wait_step with_timeout id_first s (s\<lparr>ws_future := (ws_future s)(i := F_done)\<rparr>)"
| ws_done: "ws_phase s i = W_waiting \<Longrightarrow> ws_future s i = F_done \<Longrightarrow>
    wait_step with_timeout id_first s (set_phase i (W_returning O_result) s)"
| ws_timeout: "with_timeout \<Longrightarrow> ws_phase s i = W_waiting \<Longrightarrow>
    wait_step with_timeout id_first s (set_phase i (W_detached O_timeout) s)"
| ws_cancel: "ws_phase s i = W_waiting \<Longrightarrow>
    wait_step with_timeout id_first s (set_phase i (W_detached O_cancelled) s)"
| ws_finally: "ws_phase s i = W_returning o' \<Longrightarrow>
    wait_step with_timeout id_first s (set_phase i (W_over o') (s\<lparr>ws_free := Suc (ws_free s)\<rparr>))"
| ws_callback: "ws_phase s i = W_detached o' \<Longrightarrow> ws_future s i = F_done \<Longrightarrow>
    wait_step with_timeout id_first s (set_phase i (W_over o') (s\<lparr>ws_free := Suc (ws_free s)\<rparr>))"

inductive_cases wait_stepE: "wait_step wt idf s t"

fun holds_slot :: "wait_phase \<Rightarrow> bool" where
  "holds_slot W_new = False" | "holds_slot W_busy = False" | "holds_slot (W_over o') = False"
| "holds_slot _ = True"

definition wait_holders :: "'i wait_state \<Rightarrow> 'i set" where
  "wait_holders s = {i. holds_slot (ws_phase s i)}"

text \<open>The calls whose thread has not ended, with the phase that the call must then be in.\<close>

definition wait_running :: "'i wait_state \<Rightarrow> 'i set" where
  "wait_running s = {i. ws_future s i = F_running
     \<and> (ws_phase s i = W_waiting \<or> (\<exists>o'. ws_phase s i = W_detached o'))}"

text \<open>A running thread always belongs to a waiting or detached call.\<close>

definition wait_consistent :: "'i wait_state \<Rightarrow> bool" where
  "wait_consistent s \<longleftrightarrow> (\<forall>i. ws_future s i = F_running \<longrightarrow> i \<in> wait_running s)
     \<and> (\<forall>i. ws_phase s i \<in> {W_new, W_busy, W_acquired, W_stuck} \<longrightarrow> ws_future s i = F_none)"

lemma wait_consistent_step: "wait_consistent s \<Longrightarrow> wait_step wt idf s t \<Longrightarrow> wait_consistent t"
  unfolding wait_consistent_def wait_running_def
  by (erule wait_stepE) (auto simp: set_phase_def)

lemma wait_consistent_reachable: "(wait_step wt idf)\<^sup>*\<^sup>* (wait_init n) s \<Longrightarrow> wait_consistent s"
proof (induction rule: rtranclp_induct)
  case base
  then show ?case by (simp add: wait_consistent_def wait_init_def)
next
  case (step s t)
  then show ?case by (blast intro: wait_consistent_step)
qed

definition wait_cases :: "'i wait_state \<Rightarrow> 'i wait_state \<Rightarrow> bool" where
  "wait_cases s t \<longleftrightarrow>
      (ws_free t = ws_free s \<and> wait_holders t = wait_holders s \<and> wait_running t = wait_running s)
      \<or> (\<exists>i. i \<notin> wait_holders s \<and> ws_free s = Suc (ws_free t) \<and> wait_holders t = insert i (wait_holders s)
            \<and> wait_running t = wait_running s)
      \<or> (\<exists>i. i \<in> wait_holders s \<and> i \<notin> wait_running s \<and> ws_free t = Suc (ws_free s)
            \<and> wait_holders t = wait_holders s - {i} \<and> wait_running t = wait_running s)
      \<or> (\<exists>i. i \<in> wait_holders s \<and> ws_free t = ws_free s \<and> wait_holders t = wait_holders s
            \<and> wait_running t = insert i (wait_running s))
      \<or> (\<exists>i. ws_free t = ws_free s \<and> wait_holders t = wait_holders s \<and> wait_running t = wait_running s - {i})"

lemma wait_holders_set:
  "wait_holders (set_phase i p s) = (if holds_slot p then insert i (wait_holders s) else wait_holders s - {i})"
  by (auto simp: wait_holders_def set_phase_def)

lemma wait_step_cases: "wait_step wt idf s t \<Longrightarrow> wait_cases s t"
proof (induction rule: wait_step.induct)
  case (ws_acquire s i n)
  let ?t = "set_phase i W_acquired (s\<lparr>ws_free := n\<rparr>)"
  have "i \<notin> wait_holders s \<and> ws_free s = Suc (ws_free ?t) \<and> wait_holders ?t = insert i (wait_holders s)
      \<and> wait_running ?t = wait_running s"
    using ws_acquire by (auto simp: wait_holders_def wait_running_def set_phase_def)
  then show ?case unfolding wait_cases_def by blast
next
  case (ws_busy s i)
  then show ?case unfolding wait_cases_def
    by (intro disjI1) (auto simp: wait_holders_def wait_running_def set_phase_def)
next
  case (ws_stuck s i)
  then show ?case unfolding wait_cases_def
    by (intro disjI1) (auto simp: wait_holders_def wait_running_def set_phase_def)
next
  case (ws_submit s i)
  then have "i \<in> wait_holders s \<and> ws_free (set_phase i W_waiting (s\<lparr>ws_future := (ws_future s)(i := F_running)\<rparr>)) = ws_free s
      \<and> wait_holders (set_phase i W_waiting (s\<lparr>ws_future := (ws_future s)(i := F_running)\<rparr>)) = wait_holders s
      \<and> wait_running (set_phase i W_waiting (s\<lparr>ws_future := (ws_future s)(i := F_running)\<rparr>)) = insert i (wait_running s)"
    by (auto simp: wait_holders_def wait_running_def set_phase_def)
  then show ?case unfolding wait_cases_def by blast
next
  case (ws_submit_error s i)
  then show ?case unfolding wait_cases_def
    by (intro disjI1) (auto simp: wait_holders_def wait_running_def set_phase_def)
next
  case (ws_thread_end s i)
  then have "ws_free (s\<lparr>ws_future := (ws_future s)(i := F_done)\<rparr>) = ws_free s
      \<and> wait_holders (s\<lparr>ws_future := (ws_future s)(i := F_done)\<rparr>) = wait_holders s
      \<and> wait_running (s\<lparr>ws_future := (ws_future s)(i := F_done)\<rparr>) = wait_running s - {i}"
    by (auto simp: wait_holders_def wait_running_def)
  then show ?case unfolding wait_cases_def by blast
next
  case (ws_done s i)
  then show ?case unfolding wait_cases_def
    by (intro disjI1) (auto simp: wait_holders_def wait_running_def set_phase_def)
next
  case (ws_timeout s i)
  then show ?case unfolding wait_cases_def
    by (intro disjI1) (auto simp: wait_holders_def wait_running_def set_phase_def)
next
  case (ws_cancel s i)
  then show ?case unfolding wait_cases_def
    by (intro disjI1) (auto simp: wait_holders_def wait_running_def set_phase_def)
next
  case (ws_finally s i o')
  then have "i \<in> wait_holders s \<and> i \<notin> wait_running s" by (simp add: wait_holders_def wait_running_def)
  moreover have "wait_running (set_phase i (W_over o') (s\<lparr>ws_free := Suc (ws_free s)\<rparr>)) = wait_running s"
    using ws_finally by (auto simp: wait_running_def set_phase_def)
  moreover have "wait_holders (set_phase i (W_over o') (s\<lparr>ws_free := Suc (ws_free s)\<rparr>)) = wait_holders s - {i}"
    by (auto simp: wait_holders_def set_phase_def)
  moreover have "ws_free (set_phase i (W_over o') (s\<lparr>ws_free := Suc (ws_free s)\<rparr>)) = Suc (ws_free s)"
    by (simp add: set_phase_def)
  ultimately show ?case unfolding wait_cases_def by blast
next
  case (ws_callback s i o')
  then have "i \<in> wait_holders s \<and> i \<notin> wait_running s" by (simp add: wait_holders_def wait_running_def)
  moreover have "wait_running (set_phase i (W_over o') (s\<lparr>ws_free := Suc (ws_free s)\<rparr>)) = wait_running s"
    using ws_callback by (auto simp: wait_running_def set_phase_def)
  moreover have "wait_holders (set_phase i (W_over o') (s\<lparr>ws_free := Suc (ws_free s)\<rparr>)) = wait_holders s - {i}"
    by (auto simp: wait_holders_def set_phase_def)
  moreover have "ws_free (set_phase i (W_over o') (s\<lparr>ws_free := Suc (ws_free s)\<rparr>)) = Suc (ws_free s)"
    by (simp add: set_phase_def)
  ultimately show ?case unfolding wait_cases_def by blast
qed

interpretation runner_slots: slot_machine "wait_init n" "wait_step True False" n ws_free wait_holders wait_running for n
  by unfold_locales
    (simp_all only: wait_step_cases [unfolded wait_cases_def],
      auto simp: wait_init_def wait_holders_def wait_running_def)

interpretation client_slots: slot_machine "wait_init n" "wait_step False True" n ws_free wait_holders wait_running for n
  by unfold_locales
    (simp_all only: wait_step_cases [unfolded wait_cases_def],
      auto simp: wait_init_def wait_holders_def wait_running_def)

subsection \<open>The execution log's workers\<close>

text \<open>
  \<open>_ExecutionLogExecutor.submit\<close> runs under its admission lock, so an admission is one step: refused
  when closing or full, an error of the pool closes the executor and gives the slot back, and
  otherwise the future's callback gives it back when the save has ended.
\<close>

datatype save_phase = S_new | S_refused | S_failed | S_submitted | S_over

record 'i log_state =
  ls_free :: nat
  ls_closing :: bool
  ls_phase :: "'i \<Rightarrow> save_phase"
  ls_future :: "'i \<Rightarrow> future"

definition log_init :: "nat \<Rightarrow> 'i log_state" where
  "log_init capacity = \<lparr>ls_free = capacity, ls_closing = False, ls_phase = (\<lambda>_. S_new), ls_future = (\<lambda>_. F_none)\<rparr>"

definition set_save :: "'i \<Rightarrow> save_phase \<Rightarrow> 'i log_state \<Rightarrow> 'i log_state" where
  "set_save i p s = s\<lparr>ls_phase := (ls_phase s)(i := p)\<rparr>"

definition log_submit :: "bool \<Rightarrow> 'i \<Rightarrow> 'i log_state \<Rightarrow> 'i log_state" where
  "log_submit pool_ok i s =
     (if ls_closing s \<or> ls_free s = 0 then set_save i S_refused s
      else if pool_ok
      then set_save i S_submitted
        (s\<lparr>ls_free := ls_free s - 1, ls_future := (ls_future s)(i := F_running)\<rparr>)
      else set_save i S_failed (s\<lparr>ls_closing := True\<rparr>))"

inductive log_step :: "'i log_state \<Rightarrow> 'i log_state \<Rightarrow> bool" where
  ls_submit: "ls_phase s i = S_new \<Longrightarrow> ls_future s i = F_none \<Longrightarrow> log_step s (log_submit pool_ok i s)"
| ls_thread_end: "ls_future s i = F_running \<Longrightarrow> log_step s (s\<lparr>ls_future := (ls_future s)(i := F_done)\<rparr>)"
| ls_release: "ls_phase s i = S_submitted \<Longrightarrow> ls_future s i = F_done \<Longrightarrow>
    log_step s (set_save i S_over (s\<lparr>ls_free := Suc (ls_free s)\<rparr>))"
| ls_shutdown: "log_step s (s\<lparr>ls_closing := True\<rparr>)"

inductive_cases log_stepE: "log_step s t"

definition log_holders :: "'i log_state \<Rightarrow> 'i set" where
  "log_holders s = {i. ls_phase s i = S_submitted}"

definition log_running :: "'i log_state \<Rightarrow> 'i set" where
  "log_running s = {i. ls_phase s i = S_submitted \<and> ls_future s i = F_running}"

text \<open>The slot and the thread of an accepted save are taken in one step, so an interpretation counts
  the save as holding both at once: the step is an acquisition followed by a start.\<close>

definition log_mid :: "'i \<Rightarrow> 'i log_state \<Rightarrow> 'i log_state" where
  "log_mid i s = set_save i S_submitted (s\<lparr>ls_free := ls_free s - 1\<rparr>)"

inductive log_micro :: "'i log_state \<Rightarrow> 'i log_state \<Rightarrow> bool" where
  lm_take: "ls_phase s i = S_new \<Longrightarrow> ls_future s i = F_none \<Longrightarrow> ls_free s \<noteq> 0 \<Longrightarrow> log_micro s (log_mid i s)"
| lm_start: "ls_phase s i = S_submitted \<Longrightarrow> log_micro s (s\<lparr>ls_future := (ls_future s)(i := F_running)\<rparr>)"
| lm_close: "log_micro s (s\<lparr>ls_closing := True\<rparr>)"
| lm_refuse: "ls_phase s i = S_new \<Longrightarrow> p = S_refused \<or> p = S_failed \<Longrightarrow> log_micro s (set_save i p s)"
| lm_end: "ls_future s i = F_running \<Longrightarrow> log_micro s (s\<lparr>ls_future := (ls_future s)(i := F_done)\<rparr>)"
| lm_release: "ls_phase s i = S_submitted \<Longrightarrow> ls_future s i = F_done \<Longrightarrow>
    log_micro s (set_save i S_over (s\<lparr>ls_free := Suc (ls_free s)\<rparr>))"

lemma log_submit_micro:
  assumes "ls_phase s i = S_new" and "ls_future s i = F_none"
  shows "log_micro\<^sup>*\<^sup>* s (log_submit pool_ok i s)"
proof -
  consider "ls_closing s \<or> ls_free s = 0" | "\<not> ls_closing s \<and> ls_free s \<noteq> 0 \<and> pool_ok"
    | "\<not> ls_closing s \<and> ls_free s \<noteq> 0 \<and> \<not> pool_ok" by blast
  then show ?thesis
  proof cases
    case 1
    then show ?thesis using lm_refuse [OF assms(1), of S_refused] by (auto simp: log_submit_def)
  next
    case 2
    have a: "log_micro s (log_mid i s)" by (rule lm_take [OF assms]) (use 2 in blast)
    have e: "log_submit pool_ok i s = (log_mid i s)\<lparr>ls_future := (ls_future (log_mid i s))(i := F_running)\<rparr>"
      using 2 by (cases s) (simp add: log_mid_def set_save_def log_submit_def)
    have b: "log_micro (log_mid i s) ((log_mid i s)\<lparr>ls_future := (ls_future (log_mid i s))(i := F_running)\<rparr>)"
      by (rule lm_start) (simp add: log_mid_def set_save_def)
    show ?thesis unfolding e using rtranclp.rtrancl_into_rtrancl [OF r_into_rtranclp [of log_micro, OF a] b] .
  next
    case 3
    let ?c = "s\<lparr>ls_closing := True\<rparr>"
    have a: "log_micro s ?c" by (rule lm_close)
    have b: "log_micro ?c (set_save i S_failed ?c)" by (rule lm_refuse) (use assms in simp_all)
    have e: "log_submit pool_ok i s = set_save i S_failed ?c" using 3 by (simp add: log_submit_def)
    show ?thesis unfolding e using rtranclp.rtrancl_into_rtrancl [OF r_into_rtranclp [of log_micro, OF a] b] .
  qed
qed

lemma log_step_micro: "log_step s t \<Longrightarrow> log_micro\<^sup>*\<^sup>* s t"
  by (erule log_stepE) (auto intro: log_submit_micro lm_close lm_end lm_release)

lemma log_steps_micro: "log_step\<^sup>*\<^sup>* s t \<Longrightarrow> log_micro\<^sup>*\<^sup>* s t"
  by (induction rule: rtranclp_induct) (auto intro: rtranclp_trans log_step_micro)

definition log_cases :: "'i log_state \<Rightarrow> 'i log_state \<Rightarrow> bool" where
  "log_cases s t \<longleftrightarrow>
      (ls_free t = ls_free s \<and> log_holders t = log_holders s \<and> log_running t = log_running s)
      \<or> (\<exists>i. i \<notin> log_holders s \<and> ls_free s = Suc (ls_free t) \<and> log_holders t = insert i (log_holders s)
            \<and> log_running t = log_running s)
      \<or> (\<exists>i. i \<in> log_holders s \<and> i \<notin> log_running s \<and> ls_free t = Suc (ls_free s)
            \<and> log_holders t = log_holders s - {i} \<and> log_running t = log_running s)
      \<or> (\<exists>i. i \<in> log_holders s \<and> ls_free t = ls_free s \<and> log_holders t = log_holders s
            \<and> log_running t = insert i (log_running s))
      \<or> (\<exists>i. ls_free t = ls_free s \<and> log_holders t = log_holders s \<and> log_running t = log_running s - {i})"

lemma log_micro_cases: "log_micro s t \<Longrightarrow> log_cases s t"
proof (induction rule: log_micro.induct)
  case (lm_take s i)
  then have "i \<notin> log_holders s \<and> ls_free s = Suc (ls_free (log_mid i s))
      \<and> log_holders (log_mid i s) = insert i (log_holders s) \<and> log_running (log_mid i s) = log_running s"
    by (auto simp: log_holders_def log_running_def log_mid_def set_save_def)
  then show ?case unfolding log_cases_def by blast
next
  case (lm_start s i)
  let ?t = "s\<lparr>ls_future := (ls_future s)(i := F_running)\<rparr>"
  have "i \<in> log_holders s \<and> ls_free ?t = ls_free s \<and> log_holders ?t = log_holders s
      \<and> log_running ?t = insert i (log_running s)"
    using lm_start by (auto simp: log_holders_def log_running_def)
  then show ?case unfolding log_cases_def by blast
next
  case (lm_close s)
  then show ?case by (simp add: log_cases_def log_holders_def log_running_def)
next
  case (lm_refuse s i p)
  then show ?case unfolding log_cases_def
    by (intro disjI1) (auto simp: log_holders_def log_running_def set_save_def)
next
  case (lm_end s i)
  let ?t = "s\<lparr>ls_future := (ls_future s)(i := F_done)\<rparr>"
  have "ls_free ?t = ls_free s \<and> log_holders ?t = log_holders s \<and> log_running ?t = log_running s - {i}"
    by (auto simp: log_holders_def log_running_def)
  then show ?case unfolding log_cases_def by blast
next
  case (lm_release s i)
  let ?t = "set_save i S_over (s\<lparr>ls_free := Suc (ls_free s)\<rparr>)"
  have "i \<in> log_holders s \<and> i \<notin> log_running s \<and> ls_free ?t = Suc (ls_free s)
      \<and> log_holders ?t = log_holders s - {i} \<and> log_running ?t = log_running s"
    using lm_release by (auto simp: log_holders_def log_running_def set_save_def)
  then show ?case unfolding log_cases_def by blast
qed

interpretation log_slots: slot_machine "log_init n" log_micro n ls_free log_holders log_running for n
  by unfold_locales
    (simp_all only: log_micro_cases [unfolded log_cases_def],
      auto simp: log_init_def log_holders_def log_running_def)

subsection \<open>Properties\<close>

text \<open>C21: However calls, timeouts, cancellations and threads interleave, the runner never has more
  sandbox threads than its capacity, the free slots and the calls that hold one always add up to
  the capacity, every running thread belongs to a call that still holds its slot, and a release
  never overruns the bounded semaphore.\<close>

theorem sandbox_threads_bounded:
  assumes "(wait_step True False)\<^sup>*\<^sup>* (wait_init n) s"
  shows "ws_free s + card (wait_holders s) = n \<and> card {i. ws_future s i = F_running} \<le> n
    \<and> {i. ws_future s i = F_running} \<subseteq> wait_holders s \<and> (wait_holders s \<noteq> {} \<longrightarrow> ws_free s < n)"
proof -
  have run: "{i. ws_future s i = F_running} = wait_running s"
    using wait_consistent_reachable [OF assms] by (auto simp: wait_consistent_def wait_running_def)
  show ?thesis
    unfolding run
    using runner_slots.slot_invariant [OF assms] runner_slots.running_bounded [OF assms]
      runner_slots.release_in_bounds [OF assms] by auto
qed

theorem sandbox_threads_bounded_witness:
  "\<exists>s. (wait_step True False)\<^sup>*\<^sup>* (wait_init 1) (s :: nat wait_state) \<and> ws_phase s 0 = W_detached O_timeout
    \<and> ws_free s = 0"
proof -
  let ?s0 = "wait_init 1 :: nat wait_state"
  let ?s1 = "set_phase 0 W_acquired (?s0\<lparr>ws_free := 0\<rparr>)"
  let ?s2 = "set_phase 0 W_waiting (?s1\<lparr>ws_future := (ws_future ?s1)(0 := F_running)\<rparr>)"
  let ?s3 = "set_phase 0 (W_detached O_timeout) ?s2"
  have "wait_step True False ?s0 ?s1" by (rule ws_acquire) (simp_all add: wait_init_def)
  moreover have "wait_step True False ?s1 ?s2" by (rule ws_submit) (simp add: set_phase_def)
  moreover have "wait_step True False ?s2 ?s3" by (rule ws_timeout) (simp_all add: set_phase_def)
  ultimately have r: "(wait_step True False)\<^sup>*\<^sup>* ?s0 ?s3"
    by (meson converse_rtranclp_into_rtranclp r_into_rtranclp)
  have "0 \<in> wait_holders ?s3" by (simp add: wait_holders_def set_phase_def)
  then have "ws_free ?s3 = 0" using sandbox_threads_bounded [OF r] by auto
  then show ?thesis using r by (intro exI [of _ ?s3]) (simp add: set_phase_def)
qed

text \<open>The same for the execution log's workers: accepted saves never exceed the capacity, whatever
  saves are refused or fail to start, and after closing nothing is accepted.\<close>

theorem log_saves_bounded:
  assumes "log_step\<^sup>*\<^sup>* (log_init n) s"
  shows "ls_free s + card (log_holders s) = n \<and> card (log_running s) \<le> n
    \<and> (ls_closing s \<longrightarrow> log_holders (log_submit pool_ok i s) \<subseteq> log_holders s)"
  using log_slots.slot_invariant [OF log_steps_micro [OF assms]]
    log_slots.running_bounded [OF log_steps_micro [OF assms]]
  by (auto simp: log_submit_def log_holders_def set_save_def)

theorem log_saves_bounded_witness:
  "ls_free (log_submit True (1::nat) (log_init 2)) + card (log_holders (log_submit True (1::nat) (log_init 2))) = 2"
proof -
  have "log_step (log_init 2) (log_submit True (1::nat) (log_init 2))"
    by (rule ls_submit) (simp_all add: log_init_def)
  from log_saves_bounded [OF r_into_rtranclp [of log_step, OF this]] show ?thesis by (rule conjunct1)
qed

text \<open>A call of the backend's client that fails to obtain its request ID keeps its slot forever.\<close>

lemma client_slot_can_be_stuck:
  "\<exists>s. (wait_step False True)\<^sup>*\<^sup>* (wait_init 1 :: nat wait_state) s \<and> ws_phase s 0 = W_stuck \<and> ws_free s = 0"
proof -
  let ?s0 = "wait_init 1 :: nat wait_state"
  let ?s1 = "set_phase 0 W_acquired (?s0\<lparr>ws_free := 0\<rparr>)"
  let ?s2 = "set_phase 0 W_stuck ?s1"
  have "wait_step False True ?s0 ?s1" by (rule ws_acquire) (simp_all add: wait_init_def)
  moreover have "wait_step False True ?s1 ?s2" by (rule ws_stuck) (simp_all add: set_phase_def)
  ultimately have "(wait_step False True)\<^sup>*\<^sup>* ?s0 ?s2"
    by (meson converse_rtranclp_into_rtranclp r_into_rtranclp)
  then show ?thesis by (intro exI [of _ ?s2]) (simp add: set_phase_def)
qed

end
