(* ===== verification/Judge.thy ===== *)
theory Judge
  imports Execution Repository
begin

section \<open>Judging\<close>

text \<open>
  \<open>soj_backend/judge.py\<close>, \<open>image_validation.py\<close> and \<open>artifact_display.py\<close>. Pillow is a parameter:
  a function from the bytes of a file to what opening it gives (format, size, number of frames,
  and for each frame its size and RGBA bytes), with an exception possible at each access: one of those that
  \<open>decode_image_pixels\<close> lists; any other exception of Pillow, which the source would let through, is
  outside the model.
\<close>

subsection \<open>Images\<close>

record pil_image =
  pi_format :: pystr
  pi_size :: "nat \<times> nat"
  pi_n_frames :: nat
  pi_frame :: "nat \<Rightarrow> pystr + (nat \<times> nat) \<times> bytes"

type_synonym pil = "bytes \<Rightarrow> pil_image option"
type_synonym pixels = "(nat \<times> nat) \<times> bytes list"

definition MAX_DECODED_IMAGE_PIXELS :: nat where "MAX_DECODED_IMAGE_PIXELS = 4000000"

definition matches_media_type :: "bytes \<Rightarrow> ImageMediaType \<Rightarrow> bool" where
  "matches_media_type payload media =
     (if media = Image_jpeg
      then 4 \<le> length payload \<and> startswith payload [0xff, 0xd8] \<and> endswith payload [0xff, 0xd9]
      else 7 \<le> length payload
        \<and> take 6 payload \<in> {map of_char ''GIF87a'', map of_char ''GIF89a''}
        \<and> endswith payload [0x3b])"

fun decode_frames :: "pil_image \<Rightarrow> nat list \<Rightarrow> bytes list option" where
  "decode_frames img [] = Some []"
| "decode_frames img (k # ks) =
     (case pi_frame img k of
        Inl _ \<Rightarrow> None
      | Inr (frame_size, rgba) \<Rightarrow>
          if frame_size \<noteq> pi_size img then None
          else map_option ((#) rgba) (decode_frames img ks))"

definition decode_image_pixels :: "pil \<Rightarrow> bytes \<Rightarrow> ImageMediaType \<Rightarrow> pixels option" where
  "decode_image_pixels pil payload media =
     (let expected_format = (if media = Image_jpeg then lit ''JPEG'' else lit ''GIF'') in
      (case pil payload of
         None \<Rightarrow> None
       | Some img \<Rightarrow>
           if pi_format img \<noteq> expected_format then None
           else (let (width, height) = pi_size img; frame_count = pi_n_frames img in
             if width * height * frame_count > MAX_DECODED_IMAGE_PIXELS then None
             else map_option (Pair (width, height)) (decode_frames img [0..<frame_count]))))"

definition select_display_artifact :: "pil \<Rightarrow> ExecutionResult \<Rightarrow> ExecutionArtifact option" where
  "select_display_artifact pil execution =
     (case er_display_artifact execution of
        None \<Rightarrow> er_artifact execution
      | Some candidate \<Rightarrow>
          (case b64decode (art_data candidate) of
             None \<Rightarrow> er_artifact execution
           | Some payload \<Rightarrow>
               if matches_media_type payload Image_gif \<and> decode_image_pixels pil payload Image_gif \<noteq> None
               then Some candidate else er_artifact execution))"

subsection \<open>Verdicts\<close>

datatype JudgeVerdict =
    ACCEPTED | WRONG_ANSWER | WRONG_IMAGE | WRONG_TEXT_AND_IMAGE | EXECUTION_FAILURE | JUDGE_ERROR

datatype JudgeReason =
    OUTPUT_MISMATCH | IMAGE_MISMATCH | OUTPUT_AND_IMAGE_MISMATCH | ARTIFACT_MISSING
  | ARTIFACT_PATH_MISMATCH | ARTIFACT_MEDIA_TYPE_MISMATCH | ARTIFACT_INVALID | NON_ZERO_EXIT
  | STDERR_NOT_EMPTY | Reason_TIMED_OUT | OUTPUT_TRUNCATED | EXECUTION_ERROR | INVALID_PROBLEM_ID
  | PROBLEM_NOT_FOUND

record JudgeResult =
  jr_verdict :: JudgeVerdict
  jr_reason :: "JudgeReason option"

definition judged :: "JudgeVerdict \<Rightarrow> JudgeReason option \<Rightarrow> JudgeResult" where
  "judged v r = \<lparr>jr_verdict = v, jr_reason = r\<rparr>"

definition legacy_code :: "JudgeResult \<Rightarrow> pystr" where
  "legacy_code j = lit (case jr_verdict j of
     ACCEPTED \<Rightarrow> ''1'' | WRONG_IMAGE \<Rightarrow> ''2'' | WRONG_ANSWER \<Rightarrow> ''3'' | WRONG_TEXT_AND_IMAGE \<Rightarrow> ''4''
   | EXECUTION_FAILURE \<Rightarrow> ''4'' | JUDGE_ERROR \<Rightarrow> ''4'')"

record TextJudgeInput =
  ti_stdout :: pystr
  ti_stderr :: pystr
  ti_exit_code :: int
  ti_timed_out :: bool
  ti_truncated :: bool

definition normalize_text_output :: "pystr \<Rightarrow> pystr" where
  "normalize_text_output value = rstrip [32, 10] (replace_char 13 [] value)"

definition execution_policy_failure ::
  "ExecutionSpecification \<Rightarrow> TextJudgeInput \<Rightarrow> JudgeResult option" where
  "execution_policy_failure spec e =
     (if ti_timed_out e then Some (judged EXECUTION_FAILURE (Some Reason_TIMED_OUT))
      else if ti_truncated e then Some (judged EXECUTION_FAILURE (Some OUTPUT_TRUNCATED))
      else if es_exit_code spec = Exit_zero \<and> ti_exit_code e \<noteq> 0
      then Some (judged EXECUTION_FAILURE (Some NON_ZERO_EXIT))
      else if es_stderr spec = Stderr_must_be_empty \<and> ti_stderr e \<noteq> []
      then Some (judged EXECUTION_FAILURE (Some STDERR_NOT_EMPTY))
      else None)"

definition judge_text :: "pystr \<Rightarrow> ExecutionSpecification \<Rightarrow> TextJudgeInput \<Rightarrow> JudgeResult" where
  "judge_text expected spec e =
     (case execution_policy_failure spec e of
        Some failure \<Rightarrow> failure
      | None \<Rightarrow>
          (let actual_output = (if es_stderr spec = Stderr_merge then ti_stdout e @ ti_stderr e else ti_stdout e)
           in if normalize_text_output actual_output = normalize_text_output expected
              then judged ACCEPTED None else judged WRONG_ANSWER (Some OUTPUT_MISMATCH)))"

definition judge_image ::
  "pil \<Rightarrow> ImageArtifactSpecification \<Rightarrow> bytes \<Rightarrow> ExecutionArtifact option \<Rightarrow> JudgeResult" where
  "judge_image pil spec expected_artifact actual_artifact =
     (case actual_artifact of
        None \<Rightarrow> judged WRONG_IMAGE (Some ARTIFACT_MISSING)
      | Some a \<Rightarrow>
          if art_path a \<noteq> ia_path spec then judged WRONG_IMAGE (Some ARTIFACT_PATH_MISMATCH)
          else if art_media_type a \<noteq> ia_media_type spec
          then judged WRONG_IMAGE (Some ARTIFACT_MEDIA_TYPE_MISMATCH)
          else (case b64decode (art_data a) of
            None \<Rightarrow> judged WRONG_IMAGE (Some ARTIFACT_INVALID)
          | Some payload \<Rightarrow>
              if \<not> matches_media_type payload (ia_media_type spec)
              then judged WRONG_IMAGE (Some ARTIFACT_INVALID)
              else (case (decode_image_pixels pil payload (ia_media_type spec),
                          decode_image_pixels pil expected_artifact (ia_media_type spec)) of
                (Some actual_pixels, Some expected_pixels) \<Rightarrow>
                  if actual_pixels = expected_pixels then judged ACCEPTED None
                  else judged WRONG_IMAGE (Some IMAGE_MISMATCH)
              | _ \<Rightarrow> judged WRONG_IMAGE (Some ARTIFACT_INVALID))))"

definition policy_input :: "ExecutionResult \<Rightarrow> TextJudgeInput" where
  "policy_input e =
     \<lparr>ti_stdout = er_stdout e, ti_stderr = er_stderr e,
      ti_exit_code = (case er_exit_code e of None \<Rightarrow> 0 | Some c \<Rightarrow> c),
      ti_timed_out = er_timed_out e, ti_truncated = er_truncated e\<rparr>"

definition judge :: "pil \<Rightarrow> (pystr \<Rightarrow> ProblemRecord option) \<Rightarrow> ExecutionResult \<Rightarrow> pystr \<Rightarrow> JudgeResult" where
  "judge pil repository execution problem_id =
     (case validate_problem_id problem_id of
        Inl _ \<Rightarrow> judged JUDGE_ERROR (Some INVALID_PROBLEM_ID)
      | Inr _ \<Rightarrow>
          (case repository problem_id of
             None \<Rightarrow> judged JUDGE_ERROR (Some PROBLEM_NOT_FOUND)
           | Some rec \<Rightarrow>
               (let d = pr_definition rec in
                if er_status execution = ERROR then judged EXECUTION_FAILURE (Some EXECUTION_ERROR)
                else (case pd_judge d of
                  TextJudge expected \<Rightarrow> judge_text expected (pd_execution d) (policy_input execution)
                | ImageJudge spec \<Rightarrow>
                    (case execution_policy_failure (pd_execution d) (policy_input execution) of
                       Some failure \<Rightarrow> failure
                     | None \<Rightarrow> judge_image pil spec (pr_answer_image rec) (er_artifact execution))))))"

subsection \<open>When an answer is accepted\<close>

lemma judged_eq [simp]: "judged v r = judged v' r' \<longleftrightarrow> v = v' \<and> r = r'"
  by (simp add: judged_def)

lemma judged_verdict [simp]: "jr_verdict (judged v r) = v" "jr_reason (judged v r) = r"
  by (simp_all add: judged_def)

definition policy_met :: "ExecutionSpecification \<Rightarrow> TextJudgeInput \<Rightarrow> bool" where
  "policy_met spec e \<longleftrightarrow> \<not> ti_timed_out e \<and> \<not> ti_truncated e
     \<and> (es_exit_code spec = Exit_zero \<longrightarrow> ti_exit_code e = 0)
     \<and> (es_stderr spec = Stderr_must_be_empty \<longrightarrow> ti_stderr e = [])"

lemma execution_policy_failure_None: "execution_policy_failure spec e = None \<longleftrightarrow> policy_met spec e"
  by (auto simp: execution_policy_failure_def policy_met_def)

lemma execution_policy_failure_verdict:
  "execution_policy_failure spec e = Some f \<Longrightarrow> jr_verdict f = EXECUTION_FAILURE \<and> jr_reason f \<noteq> None"
  by (auto simp: execution_policy_failure_def split: if_splits)

definition judged_text :: "ExecutionSpecification \<Rightarrow> TextJudgeInput \<Rightarrow> pystr" where
  "judged_text spec e = (if es_stderr spec = Stderr_merge then ti_stdout e @ ti_stderr e else ti_stdout e)"

lemma judge_text_accepted:
  "jr_verdict (judge_text expected spec e) = ACCEPTED \<longleftrightarrow> policy_met spec e
     \<and> normalize_text_output (judged_text spec e) = normalize_text_output expected"
  using execution_policy_failure_None [of spec e] execution_policy_failure_verdict [of spec e]
  by (auto simp: judge_text_def judged_text_def Let_def split: option.splits if_splits)

text \<open>Normalised texts are equal exactly when the texts without carriage returns differ at most in
  trailing spaces and newlines.\<close>

lemma normalize_text_output_iff:
  "normalize_text_output a = normalize_text_output b \<longleftrightarrow>
     (\<exists>t u v. filter (\<lambda>c. c \<noteq> 13) a = t @ u \<and> filter (\<lambda>c. c \<noteq> 13) b = t @ v
        \<and> set u \<subseteq> {32, 10} \<and> set v \<subseteq> {32, 10})"
proof -
  have n: "normalize_text_output x = rstrip [32, 10] (filter (\<lambda>c. c \<noteq> 13) x)" for x
    by (simp add: normalize_text_output_def replace_char_delete)
  show ?thesis
  proof
    assume "normalize_text_output a = normalize_text_output b"
    then have eq: "rstrip [32, 10] (filter (\<lambda>c. c \<noteq> 13) a) = rstrip [32, 10] (filter (\<lambda>c. c \<noteq> 13) b)"
      by (simp add: n)
    obtain u where u: "filter (\<lambda>c. c \<noteq> 13) a = rstrip [32, 10] (filter (\<lambda>c. c \<noteq> 13) a) @ u" "set u \<subseteq> {32, 10}"
      using rstrip_decomp [of "filter (\<lambda>c. c \<noteq> 13) a" "[32, 10]"] by auto
    obtain v where v: "filter (\<lambda>c. c \<noteq> 13) b = rstrip [32, 10] (filter (\<lambda>c. c \<noteq> 13) b) @ v" "set v \<subseteq> {32, 10}"
      using rstrip_decomp [of "filter (\<lambda>c. c \<noteq> 13) b" "[32, 10]"] by auto
    show "\<exists>t u v. filter (\<lambda>c. c \<noteq> 13) a = t @ u \<and> filter (\<lambda>c. c \<noteq> 13) b = t @ v
        \<and> set u \<subseteq> {32, 10} \<and> set v \<subseteq> {32, 10}"
      by (rule exI [of _ "rstrip [32, 10] (filter (\<lambda>c. c \<noteq> 13) a)"], rule exI [of _ u], rule exI [of _ v])
        (metis eq u v)
  next
    assume "\<exists>t u v. filter (\<lambda>c. c \<noteq> 13) a = t @ u \<and> filter (\<lambda>c. c \<noteq> 13) b = t @ v
        \<and> set u \<subseteq> {32, 10} \<and> set v \<subseteq> {32, 10}"
    then obtain t u v where t: "filter (\<lambda>c. c \<noteq> 13) a = t @ u" "filter (\<lambda>c. c \<noteq> 13) b = t @ v"
      "set u \<subseteq> {32, 10}" "set v \<subseteq> {32, 10}" by blast
    then show "normalize_text_output a = normalize_text_output b"
      using rstrip_append_in [of u "[32, 10]" t] rstrip_append_in [of v "[32, 10]" t] by (simp add: n)
  qed
qed

lemma judge_image_accepted:
  "jr_verdict (judge_image pil spec expected actual) = ACCEPTED \<longleftrightarrow>
     (\<exists>a payload px. actual = Some a \<and> art_path a = ia_path spec \<and> art_media_type a = ia_media_type spec
        \<and> b64decode (art_data a) = Some payload \<and> matches_media_type payload (ia_media_type spec)
        \<and> decode_image_pixels pil payload (ia_media_type spec) = Some px
        \<and> decode_image_pixels pil expected (ia_media_type spec) = Some px)"
  by (auto simp: judge_image_def split: option.splits)

lemma decode_frames_length:
  "decode_frames img ks = Some fs \<Longrightarrow> length fs = length ks
    \<and> (\<forall>k \<in> set ks. \<exists>rgba. pi_frame img k = Inr (pi_size img, rgba))"
  by (induction ks arbitrary: fs) (auto split: sum.splits if_splits)

lemma decode_image_pixels_bounded:
  assumes "decode_image_pixels pil payload media = Some ((w, h), frames)"
  shows "w * h * length frames \<le> 4000000"
proof -
  obtain img where "pil payload = Some img" "pi_size img = (w, h)"
    "w * h * pi_n_frames img \<le> MAX_DECODED_IMAGE_PIXELS"
    "decode_frames img [0..<pi_n_frames img] = Some frames"
    using assms by (auto simp: decode_image_pixels_def Let_def split: option.splits if_splits prod.splits)
  then show ?thesis using decode_frames_length by (fastforce simp: MAX_DECODED_IMAGE_PIXELS_def)
qed

lemma select_display_sound:
  "select_display_artifact pil r = Some a \<Longrightarrow>
     er_artifact r = Some a \<or> (er_display_artifact r = Some a
       \<and> (\<exists>p px. b64decode (art_data a) = Some p \<and> decode_image_pixels pil p Image_gif = Some px))"
  by (auto simp: select_display_artifact_def split: option.splits if_splits)

subsection \<open>Properties\<close>

text \<open>C20: A text answer is accepted exactly when the execution met the problem's policy (no timeout, no
  truncation, exit code and stderr as required) and its output, without carriage returns, differs
  from the expected output at most in trailing spaces and newlines.\<close>

theorem text_accepted_iff:
  "jr_verdict (judge_text expected spec e) = ACCEPTED \<longleftrightarrow>
     \<not> ti_timed_out e \<and> \<not> ti_truncated e \<and> (es_exit_code spec \<noteq> Exit_zero \<or> ti_exit_code e = 0)
     \<and> (es_stderr spec \<noteq> Stderr_must_be_empty \<or> ti_stderr e = [])
     \<and> (\<exists>t u v. filter (\<lambda>c. c \<noteq> 13) (if es_stderr spec = Stderr_merge then ti_stdout e @ ti_stderr e
            else ti_stdout e) = t @ u
          \<and> filter (\<lambda>c. c \<noteq> 13) expected = t @ v \<and> set u \<subseteq> {32, 10} \<and> set v \<subseteq> {32, 10})"
  unfolding judge_text_accepted policy_met_def normalize_text_output_iff judged_text_def by blast

definition sample_input :: TextJudgeInput where
  "sample_input = \<lparr>ti_stdout = [111, 107, 13, 10], ti_stderr = [], ti_exit_code = 0,
     ti_timed_out = False, ti_truncated = False\<rparr>"

definition sample_spec :: ExecutionSpecification where
  "sample_spec = \<lparr>es_stdin = [], es_fixtures = [], es_exit_code = Exit_zero, es_stderr = Stderr_must_be_empty\<rparr>"

theorem text_accepted_iff_witness:
  "jr_verdict (judge_text [111, 107] sample_spec sample_input) = ACCEPTED"
  unfolding text_accepted_iff
  by (intro conjI exI [of _ "[111, 107]"] exI [of _ "[10]"] exI [of _ "[]"])
    (simp_all add: sample_input_def sample_spec_def)

text \<open>An image answer is accepted exactly when an artifact of the right path and type was captured, its
  Base64 text decodes, and it has the same size, frames and RGBA pixels as the expected image.\<close>

theorem image_accepted_iff:
  "jr_verdict (judge_image pil spec expected actual) = ACCEPTED \<longleftrightarrow>
     (\<exists>a payload px. actual = Some a \<and> art_path a = ia_path spec \<and> art_media_type a = ia_media_type spec
        \<and> b64decode (art_data a) = Some payload \<and> matches_media_type payload (ia_media_type spec)
        \<and> decode_image_pixels pil payload (ia_media_type spec) = Some px
        \<and> decode_image_pixels pil expected (ia_media_type spec) = Some px)"
  by (rule judge_image_accepted)

text \<open>No image is decoded beyond the pixel limit, counting every frame.\<close>

theorem decoded_images_are_bounded:
  assumes "decode_image_pixels pil payload media = Some ((w, h), frames)"
  shows "w * h * length frames \<le> 4000000"
  by (rule decode_image_pixels_bounded [OF assms])

theorem decoded_images_are_bounded_witness:
  "(2::nat) * 3 * length [[1 :: byte], [2]] \<le> 4000000"
  by (rule decoded_images_are_bounded [of "\<lambda>_. Some \<lparr>pi_format = lit ''GIF'', pi_size = (2, 3), pi_n_frames = 2,
      pi_frame = (\<lambda>k. Inr ((2, 3), [of_nat k + 1]))\<rparr>" "[]" Image_gif])
    (simp add: decode_image_pixels_def MAX_DECODED_IMAGE_PIXELS_def upt_rec numeral_2_eq_2)

end
