(* ===== verification/Execution_Log.thy ===== *)
theory Execution_Log
  imports Judge Structured_Log Watchdog
begin

section \<open>Execution log entries\<close>

text \<open>
  \<open>soj_backend/models/execution_log.py\<close>, \<open>execution_log_retention.py\<close> and the repository of
  \<open>execution_log_repository.py\<close>. The database is a parameter in the sense that every call into it
  may raise: a record of faults says which do; a call that does not raise has its documented effect
  on the session (\<open>add\<close>, \<open>flush\<close>, \<open>delete\<close>, \<open>commit\<close>, \<open>rollback\<close>, \<open>close\<close>). The worker's admission is
  the theory \<open>Slots\<close>.
\<close>

record ExecutionLogEntry =
  le_problem_id :: pystr
  le_shellgei :: pystr
  le_legacy_output :: pystr
  le_legacy_judge :: pystr
  le_execution_status :: ExecutionStatus
  le_stdout :: pystr
  le_stderr :: pystr
  le_exit_code :: "int option"
  le_timed_out :: bool
  le_truncated :: bool
  le_duration_ms :: int
  le_verdict :: JudgeVerdict
  le_judge_reason :: "JudgeReason option"

definition validate_execution_fields :: "ExecutionLogEntry \<Rightarrow> value_error + ExecutionLogEntry" where
  "validate_execution_fields e =
     rbind (require (length (le_stdout e) + length (le_stderr e) \<le> MAX_CAPTURED_OUTPUT_CHARS)
             ''combined execution log output exceeds the limit'') (\<lambda>_.
     rbind (case le_execution_status e of
              COMPLETED \<Rightarrow> require (\<not> (le_exit_code e = None \<or> le_timed_out e \<or> le_truncated e))
                ''completed execution log is inconsistent''
            | TIMED_OUT \<Rightarrow> require (le_timed_out e) ''timed out execution log is inconsistent''
            | OUTPUT_LIMIT \<Rightarrow> require (\<not> (le_timed_out e \<or> \<not> le_truncated e))
                ''output limited execution log is inconsistent''
            | ERROR \<Rightarrow> require (\<not> le_timed_out e) ''failed execution log is inconsistent'') (\<lambda>_.
     Inr e))"

definition new_ExecutionLogEntry :: "ExecutionLogEntry \<Rightarrow> value_error + ExecutionLogEntry" where
  "new_ExecutionLogEntry e =
     rbind (ProblemId (PStr (le_problem_id e))) (\<lambda>_.
     rbind (require (1 \<le> length (le_shellgei e) \<and> length (le_shellgei e) \<le> 1000) ''shellgei length'') (\<lambda>_.
     rbind (require (length (le_legacy_output e) \<le> MAX_CAPTURED_OUTPUT_CHARS + 3) ''legacy_output too long'') (\<lambda>_.
     rbind (require (length (le_legacy_judge e) = 1) ''legacy_judge length'') (\<lambda>_.
     rbind (require (length (le_stdout e) \<le> MAX_CAPTURED_OUTPUT_CHARS) ''stdout too long'') (\<lambda>_.
     rbind (require (length (le_stderr e) \<le> MAX_CAPTURED_OUTPUT_CHARS) ''stderr too long'') (\<lambda>_.
     rbind (require (0 \<le> le_duration_ms e) ''duration_ms is negative'') (\<lambda>_.
     validate_execution_fields e)))))))"

definition from_results ::
  "pystr \<Rightarrow> pystr \<Rightarrow> ExecutionResult \<Rightarrow> JudgeResult \<Rightarrow> value_error + ExecutionLogEntry" where
  "from_results problem_id shellgei execution judgment =
     (let legacy = (if er_status execution = ERROR then lit ''Error during execution''
                    else legacy_output (int MAX_CAPTURED_OUTPUT_CHARS) execution)
      in new_ExecutionLogEntry
        \<lparr>le_problem_id = problem_id, le_shellgei = shellgei, le_legacy_output = legacy,
         le_legacy_judge = legacy_code judgment, le_execution_status = er_status execution,
         le_stdout = er_stdout execution, le_stderr = er_stderr execution,
         le_exit_code = er_exit_code execution, le_timed_out = er_timed_out execution,
         le_truncated = er_truncated execution, le_duration_ms = er_duration_ms execution,
         le_verdict = jr_verdict judgment, le_judge_reason = jr_reason judgment\<rparr>)"

subsection \<open>Every judged result can be logged\<close>

lemma length_legacy_code: "length (legacy_code j) = 1"
  by (cases "jr_verdict j") (simp_all add: legacy_code_def)

definition log_status_ok :: "ExecutionLogEntry \<Rightarrow> bool" where
  "log_status_ok e \<longleftrightarrow>
     (case le_execution_status e of
        COMPLETED \<Rightarrow> le_exit_code e \<noteq> None \<and> \<not> le_timed_out e \<and> \<not> le_truncated e
      | TIMED_OUT \<Rightarrow> le_timed_out e
      | OUTPUT_LIMIT \<Rightarrow> \<not> le_timed_out e \<and> le_truncated e
      | ERROR \<Rightarrow> \<not> le_timed_out e)"

definition entry_ok :: "ExecutionLogEntry \<Rightarrow> bool" where
  "entry_ok e \<longleftrightarrow> is_problem_id (le_problem_id e) \<and> 1 \<le> length (le_shellgei e) \<and> length (le_shellgei e) \<le> 1000
     \<and> length (le_legacy_output e) \<le> 1003 \<and> length (le_legacy_judge e) = 1 \<and> 0 \<le> le_duration_ms e
     \<and> length (le_stdout e) + length (le_stderr e) \<le> 1000 \<and> log_status_ok e"

lemma validate_execution_fields_iff:
  "validate_execution_fields e = Inr f \<longleftrightarrow>
     f = e \<and> length (le_stdout e) + length (le_stderr e) \<le> 1000 \<and> log_status_ok e"
  unfolding validate_execution_fields_def rbind_eq_Inr require_eq_Inr
  by (cases "le_execution_status e") (auto simp: log_status_ok_def MAX_CAPTURED_OUTPUT_CHARS_def)

lemma new_ExecutionLogEntry_iff: "new_ExecutionLogEntry e = Inr f \<longleftrightarrow> f = e \<and> entry_ok e"
  unfolding new_ExecutionLogEntry_def rbind_eq_Inr require_eq_Inr validate_execution_fields_iff ProblemId_iff
    entry_ok_def MAX_CAPTURED_OUTPUT_CHARS_def by auto

definition entry_of :: "pystr \<Rightarrow> pystr \<Rightarrow> ExecutionResult \<Rightarrow> JudgeResult \<Rightarrow> ExecutionLogEntry" where
  "entry_of problem_id shellgei execution judgment =
     \<lparr>le_problem_id = problem_id, le_shellgei = shellgei,
      le_legacy_output = (if er_status execution = ERROR then lit ''Error during execution''
                          else legacy_output 1000 execution),
      le_legacy_judge = legacy_code judgment, le_execution_status = er_status execution,
      le_stdout = er_stdout execution, le_stderr = er_stderr execution,
      le_exit_code = er_exit_code execution, le_timed_out = er_timed_out execution,
      le_truncated = er_truncated execution, le_duration_ms = er_duration_ms execution,
      le_verdict = jr_verdict judgment, le_judge_reason = jr_reason judgment\<rparr>"

lemma entry_of_ok:
  assumes "is_problem_id problem_id" "is_shellgei shellgei" "consistent execution"
  shows "entry_ok (entry_of problem_id shellgei execution j)"
proof -
  have "length (legacy_output 1000 execution) \<le> 1003"
    using length_legacy_output [of 1000 execution] by simp
  moreover have "log_status_ok (entry_of problem_id shellgei execution j)"
    using assms(3) by (cases "er_status execution") (auto simp: consistent_def ok_status_def log_status_ok_def entry_of_def)
  ultimately show ?thesis
    using assms length_legacy_code [of j]
    by (simp add: entry_ok_def entry_of_def is_shellgei_def consistent_def)
qed

lemma from_results_eq: "from_results p s x j = new_ExecutionLogEntry (entry_of p s x j)"
  by (simp add: from_results_def entry_of_def MAX_CAPTURED_OUTPUT_CHARS_def Let_def)

lemma from_results_total:
  "is_problem_id p \<Longrightarrow> is_shellgei s \<Longrightarrow> consistent x \<Longrightarrow> from_results p s x j = Inr (entry_of p s x j)"
  by (simp add: from_results_eq new_ExecutionLogEntry_iff entry_of_ok)

end
