(* ===== verification/Log_Store.thy ===== *)
theory Log_Store
  imports Execution_Log
begin

section \<open>Storing execution logs\<close>

text \<open>
  \<open>ExecutionLogRepo.save\<close> and \<open>prune\<close>, \<open>save_execution_log_async\<close> and \<open>prune_execution_logs\<close>. A
  session sees the committed table with its own changes; \<open>commit\<close> publishes them, \<open>rollback\<close> and
  \<open>close\<close> drop them. Every call into the database can fail, as the record of faults says. Times are
  microseconds since the year 1, as in Python's \<open>datetime\<close>.
\<close>

subsection \<open>Rows\<close>

record log_row =
  lr_id :: int
  lr_problem_id :: "pystr option"
  lr_shellgei :: "pystr option"
  lr_output :: "pystr option"
  lr_judge :: "pystr option"
  lr_execution_status :: pystr
  lr_stdout :: pystr
  lr_stderr :: pystr
  lr_exit_code :: "int option"
  lr_timed_out :: bool
  lr_truncated :: bool
  lr_duration_ms :: "int option"
  lr_verdict :: pystr
  lr_judge_reason :: "pystr option"
  lr_created_at :: "int option"

definition verdict_text :: "JudgeVerdict \<Rightarrow> pystr" where
  "verdict_text v = lit (case v of ACCEPTED \<Rightarrow> ''accepted'' | WRONG_ANSWER \<Rightarrow> ''wrong_answer''
     | WRONG_IMAGE \<Rightarrow> ''wrong_image'' | WRONG_TEXT_AND_IMAGE \<Rightarrow> ''wrong_text_and_image''
     | EXECUTION_FAILURE \<Rightarrow> ''execution_failure'' | JUDGE_ERROR \<Rightarrow> ''judge_error'')"

definition reason_text :: "JudgeReason \<Rightarrow> pystr" where
  "reason_text r = lit (case r of
       OUTPUT_MISMATCH \<Rightarrow> ''output_mismatch'' | IMAGE_MISMATCH \<Rightarrow> ''image_mismatch''
     | OUTPUT_AND_IMAGE_MISMATCH \<Rightarrow> ''output_and_image_mismatch'' | ARTIFACT_MISSING \<Rightarrow> ''artifact_missing''
     | ARTIFACT_PATH_MISMATCH \<Rightarrow> ''artifact_path_mismatch''
     | ARTIFACT_MEDIA_TYPE_MISMATCH \<Rightarrow> ''artifact_media_type_mismatch''
     | ARTIFACT_INVALID \<Rightarrow> ''artifact_invalid'' | NON_ZERO_EXIT \<Rightarrow> ''non_zero_exit''
     | STDERR_NOT_EMPTY \<Rightarrow> ''stderr_not_empty'' | Reason_TIMED_OUT \<Rightarrow> ''timed_out''
     | OUTPUT_TRUNCATED \<Rightarrow> ''output_truncated'' | EXECUTION_ERROR \<Rightarrow> ''execution_error''
     | INVALID_PROBLEM_ID \<Rightarrow> ''invalid_problem_id'' | PROBLEM_NOT_FOUND \<Rightarrow> ''problem_not_found'')"

definition normalize_execution_log_text :: "pystr \<Rightarrow> pystr" where
  "normalize_execution_log_text value = replace_char 0 [65533] value"

definition EXECUTION_LOG_OUTPUT_MAX_CHARS :: nat where "EXECUTION_LOG_OUTPUT_MAX_CHARS = 1000"

text \<open>The ORM object built from an entry; its ID and creation time are set by the database.\<close>

definition row_of_entry :: "ExecutionLogEntry \<Rightarrow> log_row" where
  "row_of_entry e =
     \<lparr>lr_id = 0, lr_problem_id = Some (normalize_execution_log_text (le_problem_id e)),
      lr_shellgei = Some (normalize_execution_log_text (le_shellgei e)),
      lr_output = Some (take EXECUTION_LOG_OUTPUT_MAX_CHARS (normalize_execution_log_text (le_legacy_output e))),
      lr_judge = Some (le_legacy_judge e), lr_execution_status = status_text (le_execution_status e),
      lr_stdout = normalize_execution_log_text (le_stdout e), lr_stderr = normalize_execution_log_text (le_stderr e),
      lr_exit_code = le_exit_code e, lr_timed_out = le_timed_out e, lr_truncated = le_truncated e,
      lr_duration_ms = Some (le_duration_ms e), lr_verdict = verdict_text (le_verdict e),
      lr_judge_reason = map_option reason_text (le_judge_reason e), lr_created_at = None\<rparr>"

subsection \<open>Sessions\<close>

text \<open>Which calls raise, the ID the database assigns, and its clock.\<close>

record db_faults =
  f_open :: "exn option"
  f_add :: "exn option"
  f_flush :: "exn option"
  f_max :: "exn option"
  f_delete :: "exn option"
  f_commit :: "exn commit_reply"
  f_rollback :: "exn option"
  f_close :: "exn option"
  f_new_id :: "int option"
  f_now :: int

datatype db_call = Called_commit | Called_rollback | Called_close

record session =
  ss_db :: "log_row list"
  ss_rows :: "log_row list"
  ss_pending :: "log_row option"
  ss_id :: "int option"
  ss_calls :: "db_call list"

definition open_session :: "log_row list \<Rightarrow> session" where
  "open_session db = \<lparr>ss_db = db, ss_rows = db, ss_pending = None, ss_id = None, ss_calls = []\<rparr>"

text \<open>A database call that raises when the record of faults says so.\<close>

definition raising :: "exn option \<Rightarrow> 's \<Rightarrow> 'a \<times> 's \<Rightarrow> (exn + 'a) \<times> 's" where
  "raising fault s ok = (case fault of Some e \<Rightarrow> (Inl e, s) | None \<Rightarrow> (Inr (fst ok), snd ok))"

definition db_add :: "db_faults \<Rightarrow> log_row \<Rightarrow> session \<Rightarrow> (exn + unit) \<times> session" where
  "db_add f row s = raising (f_add f) s ((), s\<lparr>ss_pending := Some row\<rparr>)"

definition db_flush :: "db_faults \<Rightarrow> session \<Rightarrow> (exn + unit) \<times> session" where
  "db_flush f s = raising (f_flush f) s
     ((), case ss_pending s of
            None \<Rightarrow> s
          | Some row \<Rightarrow>
              s\<lparr>ss_pending := None, ss_id := f_new_id f,
                ss_rows := (case f_new_id f of
                              None \<Rightarrow> ss_rows s
                            | Some i \<Rightarrow> ss_rows s @ [row\<lparr>lr_id := i, lr_created_at := Some (f_now f)\<rparr>])\<rparr>)"

definition newest :: "log_row list \<Rightarrow> int option" where
  "newest rows = (if rows = [] then None else Some (Max (set (map lr_id rows))))"

definition db_max_id :: "db_faults \<Rightarrow> session \<Rightarrow> (exn + int option) \<times> session" where
  "db_max_id f s = raising (f_max f) s (newest (ss_rows s), s)"

definition db_delete :: "db_faults \<Rightarrow> (log_row \<Rightarrow> bool) \<Rightarrow> session \<Rightarrow> (exn + nat) \<times> session" where
  "db_delete f P s = raising (f_delete f) s
     (length (filter P (ss_rows s)), s\<lparr>ss_rows := filter (\<lambda>r. \<not> P r) (ss_rows s)\<rparr>)"

definition db_commit :: "db_faults \<Rightarrow> session \<Rightarrow> (exn + unit) \<times> session" where
  "db_commit f s =
     (let s = s\<lparr>ss_calls := ss_calls s @ [Called_commit]\<rparr> in
      case f_commit f of
        Commit_done \<Rightarrow> (Inr (), s\<lparr>ss_db := ss_rows s\<rparr>)
      | Commit_failed e \<Rightarrow> (Inl e, s)
      | Commit_lost e \<Rightarrow> (Inl e, s\<lparr>ss_db := ss_rows s\<rparr>))"

definition db_rollback :: "db_faults \<Rightarrow> session \<Rightarrow> (exn + unit) \<times> session" where
  "db_rollback f s =
     (let s = s\<lparr>ss_calls := ss_calls s @ [Called_rollback]\<rparr> in
      raising (f_rollback f) s ((), s\<lparr>ss_rows := ss_db s, ss_pending := None\<rparr>))"

definition db_close :: "db_faults \<Rightarrow> session \<Rightarrow> (exn + unit) \<times> session" where
  "db_close f s =
     (let s = s\<lparr>ss_calls := ss_calls s @ [Called_close], ss_rows := ss_db s, ss_pending := None\<rparr> in
      raising (f_close f) s ((), s))"

subsection \<open>Retention\<close>

definition DAY :: int where "DAY = 86400000000"

text \<open>The SQL condition: an unknown creation time never makes a row expire.\<close>

definition expired :: "int \<Rightarrow> log_row \<Rightarrow> bool" where
  "expired cutoff r = (case lr_created_at r of None \<Rightarrow> False | Some t \<Rightarrow> t < cutoff)"

definition outside_window :: "int option \<Rightarrow> int \<Rightarrow> log_row \<Rightarrow> bool" where
  "outside_window newest_id max_rows r =
     (case newest_id of None \<Rightarrow> False | Some n \<Rightarrow> lr_id r < n - max_rows + 1)"

text \<open>\<open>current_time - timedelta(days=retention_days)\<close>, which overflows for more than 999,999,999 days or
  before the year 1.\<close>

definition retention_cutoff :: "int \<Rightarrow> int \<Rightarrow> exn + int" where
  "retention_cutoff now days =
     (if days > 999999999 \<or> now - days * DAY < 0 then Inl (lit ''OverflowError'') else Inr (now - days * DAY))"

definition prune_execution_logs :: "db_faults \<Rightarrow> int \<Rightarrow> int \<Rightarrow> int \<Rightarrow> session \<Rightarrow> (exn + nat) \<times> session" where
  "prune_execution_logs f now retention_days max_rows s =
     (if retention_days < 1 \<or> max_rows < 1
      then (Inl (lit ''execution log retention limits must be positive''), s)
      else sbind (db_flush f s) (\<lambda>_ s.
           sbind (retention_cutoff now retention_days, s) (\<lambda>cutoff s.
           sbind (db_max_id f s) (\<lambda>newest_id s.
           db_delete f (\<lambda>r. expired cutoff r \<or> outside_window newest_id max_rows r) s))))"

definition positive_integer_from_env ::
  "(pystr \<Rightarrow> int option) \<Rightarrow> pystr option \<Rightarrow> int \<Rightarrow> value_error + int" where
  "positive_integer_from_env python_int raw_value default_value =
     (case raw_value of
        None \<Rightarrow> Inr default_value
      | Some raw \<Rightarrow>
          (case python_int raw of
             None \<Rightarrow> Inl (ValueError ''must be a positive integer'')
           | Some value \<Rightarrow>
               if value < 1 then Inl (ValueError ''must be a positive integer'') else Inr value))"

subsection \<open>The repository\<close>

datatype log_repo_error = ExecutionLogRepositoryError

text \<open>The \<open>try\<close>/\<open>except\<close>/\<open>finally\<close> around a session that \<open>save\<close> and \<open>prune\<close> share: the committed table, the
  event log and the calls made afterwards.\<close>

definition with_session ::
  "db_faults \<Rightarrow> (session \<Rightarrow> (exn + 'a) \<times> session) \<Rightarrow> log_row list \<Rightarrow> event_log \<Rightarrow>
   (log_repo_error + 'a) \<times> log_row list \<times> event_log \<times> db_call list" where
  "with_session f body db events =
     (case f_open f of
        Some _ \<Rightarrow> (Inl ExecutionLogRepositoryError, db, events, [])
      | None \<Rightarrow>
          (let (r, s) = body (open_session db);
               (s1, events1) =
                 (case r of
                    Inr _ \<Rightarrow> (s, events)
                  | Inl _ \<Rightarrow>
                      (case db_rollback f s of
                         (Inr _, s1) \<Rightarrow> (s1, events)
                       | (Inl _, s1) \<Rightarrow>
                           (s1, snd (log_safe_event LOG_ERROR
                                  (blank_event EXECUTION_LOG_ROLLBACK_FAILED Log_execution_log) events))));
               (s2, events2) =
                 (case db_close f s1 of
                    (Inr _, s2) \<Rightarrow> (s2, events1)
                  | (Inl _, s2) \<Rightarrow>
                      (s2, snd (log_safe_event LOG_ERROR
                             (blank_event EXECUTION_LOG_SESSION_CLOSE_FAILED Log_execution_log) events1)))
           in (case r of Inl _ \<Rightarrow> Inl ExecutionLogRepositoryError | Inr a \<Rightarrow> Inr a, ss_db s2, events2, ss_calls s2)))"

definition save_body :: "db_faults \<Rightarrow> int \<Rightarrow> int \<Rightarrow> int \<Rightarrow> ExecutionLogEntry \<Rightarrow> session \<Rightarrow> (exn + int) \<times> session" where
  "save_body f now retention_days max_rows entry s =
     sbind (db_add f (row_of_entry entry) s) (\<lambda>_ s.
     sbind (prune_execution_logs f now retention_days max_rows s) (\<lambda>_ s.
     case ss_id s of
       None \<Rightarrow> (Inl (lit ''execution log ID was not assigned''), s)
     | Some log_id \<Rightarrow> sbind (db_commit f s) (\<lambda>_ s. (Inr log_id, s))))"

definition save :: "db_faults \<Rightarrow> int \<Rightarrow> int \<Rightarrow> int \<Rightarrow> ExecutionLogEntry \<Rightarrow> log_row list \<Rightarrow> event_log \<Rightarrow>
    (log_repo_error + int) \<times> log_row list \<times> event_log \<times> db_call list" where
  "save f now retention_days max_rows entry = with_session f (save_body f now retention_days max_rows entry)"

definition prune_body :: "db_faults \<Rightarrow> int \<Rightarrow> int \<Rightarrow> int \<Rightarrow> session \<Rightarrow> (exn + nat) \<times> session" where
  "prune_body f now retention_days max_rows s =
     sbind (prune_execution_logs f now retention_days max_rows s) (\<lambda>deleted s.
     sbind (db_commit f s) (\<lambda>_ s. (Inr deleted, s)))"

definition prune :: "db_faults \<Rightarrow> int \<Rightarrow> int \<Rightarrow> int \<Rightarrow> log_row list \<Rightarrow> event_log \<Rightarrow>
    (log_repo_error + nat) \<times> log_row list \<times> event_log \<times> db_call list" where
  "prune f now retention_days max_rows = with_session f (prune_body f now retention_days max_rows)"

text \<open>\<open>save_execution_log_async\<close>: what the submission to the worker and the wait for it yield, and two
  readings of the monotonic clock.\<close>

datatype save_reply = Save_done int | Save_repository_error | Save_exception exn

definition elapsed_ms :: "int \<Rightarrow> int \<Rightarrow> int" where
  "elapsed_ms started_ns now_ns = max 0 ((now_ns - started_ns) div 1000000)"

definition save_event :: "LogEvent \<Rightarrow> pystr option \<Rightarrow> int \<Rightarrow> SafeLogEvent" where
  "save_event e request_id duration =
     (blank_event e Log_execution_log)\<lparr>ev_request_id := request_id, ev_duration_ms := Some duration\<rparr>"

definition save_execution_log_async ::
  "save_reply \<Rightarrow> int \<Rightarrow> int \<Rightarrow> pystr option \<Rightarrow> event_log \<Rightarrow> (value_error + log_repo_error + int) \<times> event_log" where
  "save_execution_log_async reply started_ns now_ns request_id events =
     (let duration = elapsed_ms started_ns now_ns;
          failed = (case log_safe_event WARNING (save_event EXECUTION_LOG_SAVE_FAILED request_id duration) events of
                      (Inl e, events1) \<Rightarrow> (Inl e, events1)
                    | (Inr _, events1) \<Rightarrow> (Inr (Inl ExecutionLogRepositoryError), events1))
      in case reply of
           Save_repository_error \<Rightarrow> failed
         | Save_exception _ \<Rightarrow> failed
         | Save_done log_id \<Rightarrow>
             (case log_safe_event INFO (save_event EXECUTION_LOG_SAVE_COMPLETED request_id duration) events of
                (Inl e, events1) \<Rightarrow> (Inl e, events1)
              | (Inr _, events1) \<Rightarrow> (Inr (Inr log_id), events1)))"

subsection \<open>What retention keeps\<close>

lemma raising_Inr: "raising fault s ok = (Inr a, t) \<longleftrightarrow> fault = None \<and> ok = (a, t)"
  by (cases ok) (auto simp: raising_def split: option.splits)

definition kept :: "int \<Rightarrow> int option \<Rightarrow> int \<Rightarrow> log_row \<Rightarrow> bool" where
  "kept cutoff newest_id max_rows r \<longleftrightarrow> \<not> (expired cutoff r \<or> outside_window newest_id max_rows r)"

definition retained :: "int \<Rightarrow> int \<Rightarrow> log_row list \<Rightarrow> log_row list" where
  "retained cutoff max_rows rows = filter (kept cutoff (newest rows) max_rows) rows"

lemma prune_execution_logs_Inr:
  assumes "prune_execution_logs f now days m s = (Inr n, t)"
  obtains cutoff s1 where "1 \<le> days" "1 \<le> m" "db_flush f s = (Inr (), s1)" "retention_cutoff now days = Inr cutoff"
    "t = s1\<lparr>ss_rows := retained cutoff m (ss_rows s1)\<rparr>"
    "n = length (ss_rows s1) - length (retained cutoff m (ss_rows s1))"
proof -
  obtain s1 cutoff where b: "1 \<le> days" "1 \<le> m" "db_flush f s = (Inr (), s1)" "retention_cutoff now days = Inr cutoff"
    and t: "n = length (filter (\<lambda>r. expired cutoff r \<or> outside_window (newest (ss_rows s1)) m r) (ss_rows s1))"
      "t = s1\<lparr>ss_rows := filter (\<lambda>r. \<not> (expired cutoff r \<or> outside_window (newest (ss_rows s1)) m r)) (ss_rows s1)\<rparr>"
    using assms
    by (auto simp: prune_execution_logs_def sbind_Inr raising_Inr db_max_id_def db_delete_def split: if_splits)
  have kept_eq: "kept cutoff (newest (ss_rows s1)) m = (\<lambda>r. \<not> (expired cutoff r \<or> outside_window (newest (ss_rows s1)) m r))"
    by (simp add: kept_def fun_eq_iff)
  have "n = length (ss_rows s1) - length (retained cutoff m (ss_rows s1))"
    using distinct_filter_count [of "\<lambda>r. expired cutoff r \<or> outside_window (newest (ss_rows s1)) m r" "ss_rows s1"]
    unfolding t(1) retained_def kept_eq by linarith
  moreover have "t = s1\<lparr>ss_rows := retained cutoff m (ss_rows s1)\<rparr>"
    unfolding t(2) retained_def kept_eq by (rule refl)
  ultimately show ?thesis using b that by blast
qed

text \<open>Distinct IDs in a window of \<open>m\<close> numbers: at most \<open>m\<close> rows.\<close>

lemma retained_length:
  assumes "distinct (map lr_id rows)" and "1 \<le> m"
  shows "int (length (retained cutoff m rows)) \<le> m"
proof (cases "rows = []")
  case True
  then show ?thesis using assms by (simp add: retained_def)
next
  case False
  let ?n = "Max (set (map lr_id rows))"
  have n: "newest rows = Some ?n" using False by (simp add: newest_def)
  have "set (map lr_id (retained cutoff m rows)) \<subseteq> {?n - m + 1..?n}"
    by (auto simp: retained_def kept_def outside_window_def n)
  then have "card (set (map lr_id (retained cutoff m rows))) \<le> card {?n - m + 1..?n}"
    by (intro card_mono) simp_all
  moreover have "distinct (map lr_id (retained cutoff m rows))"
    unfolding retained_def using assms(1) by (rule distinct_map_filter)
  ultimately have "length (retained cutoff m rows) \<le> card {?n - m + 1..?n}"
    by (metis distinct_card length_map)
  then show ?thesis using assms(2) by simp
qed

lemma retained_newest:
  assumes "rows \<noteq> []" and "1 \<le> m" and "r \<in> set rows" and "lr_id r = Max (set (map lr_id rows))"
  shows "r \<in> set (retained cutoff m rows) \<longleftrightarrow> \<not> expired cutoff r"
proof -
  have "newest rows = Some (lr_id r)" using assms by (simp add: newest_def)
  then show ?thesis using assms(2,3) by (simp add: retained_def kept_def outside_window_def)
qed

subsection \<open>Transactions\<close>

lemma flush_frame: "db_flush f s = (r, t) \<Longrightarrow> ss_db t = ss_db s \<and> ss_calls t = ss_calls s"
  by (auto simp: db_flush_def raising_def split: option.splits)

lemma prune_frame:
  "prune_execution_logs f now days m s = (r, t) \<Longrightarrow> ss_db t = ss_db s \<and> ss_calls t = ss_calls s"
  by (auto simp: prune_execution_logs_def sbind_def db_max_id_def db_delete_def raising_def
      split: if_splits prod.splits sum.splits option.splits dest: flush_frame)

lemma commit_cases:
  "db_commit f s = (r, t) \<Longrightarrow> ss_calls t = ss_calls s @ [Called_commit]
     \<and> (r = Inr () \<and> f_commit f = Commit_done \<and> ss_db t = ss_rows s
        \<or> is_ok r = False \<and> f_commit f \<noteq> Commit_done \<and> (ss_db t = ss_db s \<or> (\<exists>e. f_commit f = Commit_lost e)))"
  by (auto simp: db_commit_def Let_def split: commit_reply.splits)

text \<open>What any \<open>try\<close> body of the repository guarantees about the committed table.\<close>

definition body_ok :: "db_faults \<Rightarrow> log_row list \<Rightarrow> (exn + 'a) \<times> session \<Rightarrow> bool" where
  "body_ok f db res \<longleftrightarrow> (case res of
     (Inr _, s) \<Rightarrow> f_commit f = Commit_done \<and> ss_calls s = [Called_commit]
   | (Inl _, s) \<Rightarrow> ss_calls s \<in> {[], [Called_commit]} \<and> (ss_db s = db \<or> (\<exists>e. f_commit f = Commit_lost e)))"

lemma commit_body_ok:
  assumes "ss_db s = db" and "ss_calls s = []"
  shows "body_ok f db (sbind (db_commit f s) (\<lambda>_ s. (Inr a, s)))"
proof -
  obtain r t where c: "db_commit f s = (r, t)" by fastforce
  show ?thesis using commit_cases [OF c] assms c
    by (cases r) (auto simp: body_ok_def sbind_def)
qed

lemma body_ok_error: "ss_db s = db \<Longrightarrow> ss_calls s = [] \<Longrightarrow> body_ok f db (Inl e, s)"
  by (simp add: body_ok_def)

lemma body_ok_sbind:
  assumes "\<And>r t. m = (r, t) \<Longrightarrow> ss_db t = db \<and> ss_calls t = []"
    and "\<And>a t. m = (Inr a, t) \<Longrightarrow> body_ok f db (g a t)"
  shows "body_ok f db (sbind m g)"
  using assms by (cases m) (auto simp: sbind_def body_ok_error split: sum.splits)

lemma prune_body_ok: "body_ok f db (prune_body f now days m (open_session db))"
  unfolding prune_body_def
proof (rule body_ok_sbind)
  fix r t assume "prune_execution_logs f now days m (open_session db) = (r, t)"
  from prune_frame [OF this] show "ss_db t = db \<and> ss_calls t = []" by (simp add: open_session_def)
next
  fix a t assume "prune_execution_logs f now days m (open_session db) = (Inr a, t)"
  from prune_frame [OF this] show "body_ok f db (sbind (db_commit f t) (\<lambda>_ s. (Inr a, s)))"
    by (intro commit_body_ok) (simp_all add: open_session_def)
qed

lemma save_body_ok: "body_ok f db (save_body f now days m entry (open_session db))"
  unfolding save_body_def
proof (rule body_ok_sbind)
  fix r t assume "db_add f (row_of_entry entry) (open_session db) = (r, t)"
  then show "ss_db t = db \<and> ss_calls t = []"
    by (auto simp: db_add_def raising_def open_session_def split: option.splits)
  then have frame: "ss_db u = db \<and> ss_calls u = []" if "prune_execution_logs f now days m t = (a, u)" for a u
    using prune_frame [OF that] by simp
  show "body_ok f db (sbind (prune_execution_logs f now days m t) (\<lambda>_ s.
      case ss_id s of None \<Rightarrow> (Inl (lit ''execution log ID was not assigned''), s)
      | Some log_id \<Rightarrow> sbind (db_commit f s) (\<lambda>_ s. (Inr log_id, s))))"
  proof (rule body_ok_sbind)
    fix a u assume u: "prune_execution_logs f now days m t = (Inr a, u)"
    show "body_ok f db (case ss_id u of None \<Rightarrow> (Inl (lit ''execution log ID was not assigned''), u)
      | Some log_id \<Rightarrow> sbind (db_commit f u) (\<lambda>_ s. (Inr log_id, s)))"
      using frame [OF u] commit_body_ok [of u db] by (cases "ss_id u") (simp_all add: body_ok_error)
  qed (rule frame)
qed

definition clean_end :: "db_faults \<Rightarrow> log_row list \<Rightarrow> log_row list \<Rightarrow> db_call list \<Rightarrow> bool" where
  "clean_end f db db' calls \<longleftrightarrow>
     (db' = db \<or> (\<exists>e. f_commit f = Commit_lost e))
     \<and> (if f_open f \<noteq> None then calls = []
        else calls \<in> {[Called_rollback, Called_close], [Called_commit, Called_rollback, Called_close]})"

lemma rollback_frame: "db_rollback f s = (r, t) \<Longrightarrow> ss_db t = ss_db s \<and> ss_calls t = ss_calls s @ [Called_rollback]"
  by (auto simp: db_rollback_def raising_def Let_def split: option.splits)

lemma close_frame: "db_close f s = (r, t) \<Longrightarrow> ss_db t = ss_db s \<and> ss_calls t = ss_calls s @ [Called_close]"
  by (auto simp: db_close_def raising_def Let_def split: option.splits)

lemma with_session_error:
  assumes ok: "body_ok f db (body (open_session db))"
    and w: "with_session f body db events = (Inl e, db', events', calls)"
  shows "clean_end f db db' calls \<and> (db' = db \<or> (\<exists>x s. body (open_session db) = (Inl x, s) \<and> db' = ss_db s))"
proof (cases "f_open f")
  case (Some x)
  then show ?thesis using w by (simp add: with_session_def clean_end_def)
next
  case None
  obtain r s where b: "body (open_session db) = (r, s)" by fastforce
  then obtain x where r: "r = Inl x" using w None
    by (auto simp: with_session_def Let_def split: sum.splits prod.splits)
  obtain q1 s1 where rb: "db_rollback f s = (q1, s1)" by fastforce
  obtain q2 s2 where cl: "db_close f s1 = (q2, s2)" by fastforce
  have "db' = ss_db s2 \<and> calls = ss_calls s2"
    using w None b r rb cl by (cases q1; cases q2) (auto simp: with_session_def Let_def)
  then show ?thesis
    using ok b r None rollback_frame [OF rb] close_frame [OF cl] by (auto simp: body_ok_def clean_end_def)
qed

lemma with_session_success:
  assumes ok: "body_ok f db (body (open_session db))"
    and w: "with_session f body db events = (Inr a, db', events', calls)"
  shows "f_commit f = Commit_done \<and> calls = [Called_commit, Called_close]
    \<and> (\<exists>s. body (open_session db) = (Inr a, s) \<and> db' = ss_db s)"
proof -
  have o: "f_open f = None" using w by (auto simp: with_session_def split: option.splits)
  obtain r s where b: "body (open_session db) = (r, s)" by fastforce
  then have r: "r = Inr a" using w o
    by (auto simp: with_session_def Let_def split: sum.splits prod.splits)
  obtain q2 s2 where cl: "db_close f s = (q2, s2)" by fastforce
  have "db' = ss_db s2 \<and> calls = ss_calls s2"
    using w o b r cl by (cases q2) (auto simp: with_session_def Let_def)
  then show ?thesis using ok b r close_frame [OF cl] by (auto simp: body_ok_def)
qed

text \<open>The row as it is stored.\<close>

definition stored_row :: "db_faults \<Rightarrow> int \<Rightarrow> ExecutionLogEntry \<Rightarrow> log_row" where
  "stored_row f i entry = (row_of_entry entry)\<lparr>lr_id := i, lr_created_at := Some (f_now f)\<rparr>"

lemma commit_done_rows: "db_commit f s = (Inr u, t) \<Longrightarrow> ss_db t = ss_rows s"
  by (auto simp: db_commit_def Let_def split: commit_reply.splits)

text \<open>The rows of the session when \<open>save\<close> reaches its commit.\<close>

lemma save_rows_at_commit:
  assumes a: "db_add f (row_of_entry entry) (open_session db) = (Inr (), s1)"
    and p: "prune_execution_logs f now days m s1 = (Inr n, s2)" and i: "ss_id s2 = Some i"
  shows "f_new_id f = Some i \<and> 1 \<le> m
    \<and> (\<exists>cutoff. retention_cutoff now days = Inr cutoff \<and> ss_rows s2 = retained cutoff m (db @ [stored_row f i entry]))"
proof -
  obtain cutoff s4 where q: "1 \<le> m" "db_flush f s1 = (Inr (), s4)" "retention_cutoff now days = Inr cutoff"
    "s2 = s4\<lparr>ss_rows := retained cutoff m (ss_rows s4)\<rparr>"
    using prune_execution_logs_Inr [OF p] by metis
  have s1: "s1 = (open_session db)\<lparr>ss_pending := Some (row_of_entry entry)\<rparr>"
    using a by (auto simp: db_add_def raising_Inr)
  have s4: "ss_id s4 = f_new_id f"
    "ss_rows s4 = (case f_new_id f of None \<Rightarrow> db | Some j \<Rightarrow> db @ [stored_row f j entry])"
    using q(2) by (cases "f_new_id f"; auto simp: db_flush_def raising_Inr s1 open_session_def stored_row_def)+
  then have "f_new_id f = Some i" using i q(4) by simp
  then show ?thesis using q(1,3,4) s4 by simp
qed

lemma save_body_Inr:
  assumes "save_body f now days m entry (open_session db) = (Inr i, s)"
  shows "f_new_id f = Some i \<and> 1 \<le> m
    \<and> (\<exists>cutoff. retention_cutoff now days = Inr cutoff \<and> ss_db s = retained cutoff m (db @ [stored_row f i entry]))"
proof -
  obtain s1 n s2 where "db_add f (row_of_entry entry) (open_session db) = (Inr (), s1)"
    "prune_execution_logs f now days m s1 = (Inr n, s2)" "ss_id s2 = Some i"
    and c: "db_commit f s2 = (Inr (), s)"
    using assms by (auto simp: save_body_def sbind_Inr split: option.splits)
  then show ?thesis using save_rows_at_commit commit_done_rows [OF c] by metis
qed

text \<open>What a \<open>save\<close> that raises has done to the committed table: nothing, unless the commit took place and
  its answer was lost; then it has done all of it.\<close>

lemma save_body_Inl:
  assumes "save_body f now days m entry (open_session db) = (Inl e, s)"
  shows "ss_db s = db \<or> ((\<exists>x. f_commit f = Commit_lost x)
    \<and> (\<exists>i cutoff. f_new_id f = Some i \<and> retention_cutoff now days = Inr cutoff
         \<and> ss_db s = retained cutoff m (db @ [stored_row f i entry])))"
proof -
  obtain ra s1 where a: "db_add f (row_of_entry entry) (open_session db) = (ra, s1)" by fastforce
  have s1: "ss_db s1 = db" using a by (auto simp: db_add_def raising_def open_session_def split: option.splits)
  obtain rp s2 where p: "prune_execution_logs f now days m s1 = (rp, s2)" by fastforce
  have s2: "ss_db s2 = db" using prune_frame [OF p] s1 by simp
  show ?thesis
  proof (cases "(\<exists>u. ra = Inr u) \<and> (\<exists>n. rp = Inr n) \<and> (\<exists>i. ss_id s2 = Some i)")
    case False
    then have "s \<in> {s1, s2}"
      using assms a p by (cases ra; cases rp; cases "ss_id s2") (auto simp: save_body_def sbind_def)
    then show ?thesis using s1 s2 by auto
  next
    case True
    then obtain u n i where ok: "ra = Inr u" "rp = Inr n" "ss_id s2 = Some i" by blast
    have "db_commit f s2 = (Inl e, s)"
      using assms a p ok by (auto simp: save_body_def sbind_def split: prod.splits sum.splits)
    then have "ss_db s = ss_db s2 \<or> ((\<exists>x. f_commit f = Commit_lost x) \<and> ss_db s = ss_rows s2)"
      by (auto simp: db_commit_def Let_def split: commit_reply.splits)
    moreover have "f_new_id f = Some i \<and> 1 \<le> m
      \<and> (\<exists>cutoff. retention_cutoff now days = Inr cutoff \<and> ss_rows s2 = retained cutoff m (db @ [stored_row f i entry]))"
      using save_rows_at_commit [of f entry db s1 now days m n s2 i] a p ok by simp
    ultimately show ?thesis using s2 by auto
  qed
qed

lemma prune_body_Inr:
  assumes "prune_body f now days m (open_session db) = (Inr n, s)"
  shows "1 \<le> m \<and> (\<exists>cutoff. retention_cutoff now days = Inr cutoff \<and> ss_db s = retained cutoff m db
    \<and> n = length db - length (retained cutoff m db))"
proof -
  obtain s2 where p: "prune_execution_logs f now days m (open_session db) = (Inr n, s2)"
    and c: "db_commit f s2 = (Inr (), s)"
    using assms by (auto simp: prune_body_def sbind_Inr)
  obtain cutoff s4 where q: "1 \<le> m" "db_flush f (open_session db) = (Inr (), s4)" "retention_cutoff now days = Inr cutoff"
    "s2 = s4\<lparr>ss_rows := retained cutoff m (ss_rows s4)\<rparr>"
    "n = length (ss_rows s4) - length (retained cutoff m (ss_rows s4))"
    using prune_execution_logs_Inr [OF p] by metis
  have "ss_rows s4 = db" using q(2) by (auto simp: db_flush_def raising_Inr open_session_def)
  then show ?thesis using q commit_done_rows [OF c] by auto
qed

lemma save_success:
  assumes "save f now days m entry db events = (Inr i, db', events', calls)"
  shows "f_commit f = Commit_done \<and> calls = [Called_commit, Called_close] \<and> f_new_id f = Some i \<and> 1 \<le> m
    \<and> (\<exists>cutoff. retention_cutoff now days = Inr cutoff \<and> db' = retained cutoff m (db @ [stored_row f i entry]))"
  using with_session_success [OF save_body_ok assms [unfolded save_def]] save_body_Inr by fastforce

lemma save_failure:
  assumes "save f now days m entry db events = (Inl e, db', events', calls)"
  shows "clean_end f db db' calls
    \<and> (db' = db \<or> ((\<exists>x. f_commit f = Commit_lost x)
         \<and> (\<exists>i cutoff. f_new_id f = Some i \<and> retention_cutoff now days = Inr cutoff
              \<and> db' = retained cutoff m (db @ [stored_row f i entry]))))"
  using with_session_error [OF save_body_ok assms [unfolded save_def]] save_body_Inl by fastforce

lemma save_bounded:
  assumes "save f now days m entry db events = (Inr i, db', events', calls)"
    and "distinct (map lr_id db)" and "i \<notin> set (map lr_id db)"
  shows "int (length db') \<le> m \<and> distinct (map lr_id db')"
proof -
  obtain cutoff where m: "1 \<le> m" and db': "db' = retained cutoff m (db @ [stored_row f i entry])"
    using save_success [OF assms(1)] by blast
  have d: "distinct (map lr_id (db @ [stored_row f i entry]))"
    using assms(2,3) by (simp add: stored_row_def)
  then show ?thesis
    using retained_length [OF d m] unfolding db' retained_def by (auto intro: distinct_map_filter)
qed

subsection \<open>What can be stored\<close>

lemma column_texts_fit:
  "length (verdict_text v) \<le> 32" "length (status_text s) \<le> 32" "length (reason_text r) \<le> 64"
  by (cases v, simp_all add: verdict_text_def) (cases s, simp_all add: status_text_def, cases r, simp_all add: reason_text_def)

lemma normalized_no_nul: "0 \<notin> set (normalize_execution_log_text s)"
  unfolding normalize_execution_log_text_def by (rule notin_set_replace_char) simp

lemma normalized_length: "length (normalize_execution_log_text s) = length s"
  by (simp add: normalize_execution_log_text_def replace_char_single)

text \<open>PostgreSQL refuses a text with a NUL and a text longer than its column.\<close>

definition storable :: "log_row \<Rightarrow> bool" where
  "storable r \<longleftrightarrow> list_all (\<lambda>t. 0 \<notin> set t) ([lr_execution_status r, lr_stdout r, lr_stderr r, lr_verdict r]
       @ concat (map opt_items [lr_problem_id r, lr_shellgei r, lr_output r, lr_judge_reason r]))
     \<and> length (lr_execution_status r) \<le> 32 \<and> length (lr_verdict r) \<le> 32
     \<and> (\<forall>t. lr_judge_reason r = Some t \<longrightarrow> length t \<le> 64)
     \<and> (\<forall>t. lr_output r = Some t \<longrightarrow> length t \<le> 1000)"

lemma fixed_text_no_nul: "0 \<notin> set (verdict_text v)" "0 \<notin> set (status_text s)" "0 \<notin> set (reason_text r)"
  by (cases v, simp_all add: verdict_text_def lit_def)
     (cases s, simp_all add: status_text_def lit_def, cases r, simp_all add: reason_text_def lit_def)

lemma row_of_entry_storable: "storable (row_of_entry e)"
  using normalized_no_nul fixed_text_no_nul column_texts_fit
  by (auto simp: storable_def row_of_entry_def opt_items_def EXECUTION_LOG_OUTPUT_MAX_CHARS_def
      dest: in_set_takeD split: option.splits)

subsection \<open>Properties\<close>

text \<open>C14: Saving is atomic. If \<open>save\<close> returns an ID, the database assigned it, the transaction was
  committed once and closed, and the table is the old one with the new row, pruned. If it raises, the
  table is as it was, or, only where the commit was carried out but its answer got lost, the table of
  a successful save; and a session that was opened has been rolled back and closed.\<close>

theorem save_is_atomic:
  "case save f now days m entry db events of
     (Inr i, db', _, calls) \<Rightarrow>
       f_new_id f = Some i \<and> calls = [Called_commit, Called_close]
       \<and> (\<exists>cutoff. retention_cutoff now days = Inr cutoff \<and> db' = retained cutoff m (db @ [stored_row f i entry]))
   | (Inl _, db', _, calls) \<Rightarrow>
       (db' = db \<or> ((\<exists>e. f_commit f = Commit_lost e)
          \<and> (\<exists>i cutoff. f_new_id f = Some i \<and> retention_cutoff now days = Inr cutoff
               \<and> db' = retained cutoff m (db @ [stored_row f i entry]))))
       \<and> (if f_open f \<noteq> None then calls = []
          else calls \<in> {[Called_rollback, Called_close], [Called_commit, Called_rollback, Called_close]})"
proof -
  obtain r db' events' calls where s: "save f now days m entry db events = (r, db', events', calls)"
    by (cases "save f now days m entry db events") auto
  show ?thesis
  proof (cases r)
    case (Inl e)
    show ?thesis using save_failure [OF s [unfolded Inl]] unfolding s Inl clean_end_def prod.case sum.case by blast
  next
    case (Inr i)
    then show ?thesis using save_success s by fastforce
  qed
qed

text \<open>C15: Pruning keeps exactly the rows that are neither expired nor older than the window of the newest
  \<open>m\<close> IDs, so at most \<open>m\<close> rows remain, the newest row stays unless it is expired, and the number
  reported is the number of rows removed.\<close>

theorem prune_keeps_the_recent_window:
  assumes "prune f now days m db events = (Inr n, db', events', calls)" and "distinct (map lr_id db)"
  shows "\<exists>cutoff. retention_cutoff now days = Inr cutoff
    \<and> db' = filter (\<lambda>r. \<not> (expired cutoff r \<or> outside_window (newest db) m r)) db
    \<and> int (length db') \<le> m \<and> n + length db' = length db
    \<and> (\<forall>r \<in> set db. newest db = Some (lr_id r) \<and> \<not> expired cutoff r \<longrightarrow> r \<in> set db')"
proof -
  obtain s where s: "prune_body f now days m (open_session db) = (Inr n, s)" "db' = ss_db s"
    using with_session_success [OF prune_body_ok assms(1) [unfolded prune_def]] by blast
  obtain cutoff where c: "1 \<le> m" "retention_cutoff now days = Inr cutoff" "db' = retained cutoff m db"
    "n = length db - length (retained cutoff m db)"
    using prune_body_Inr [OF s(1)] s(2) by blast
  have "length (retained cutoff m db) \<le> length db" by (simp add: retained_def)
  moreover have "r \<in> set db'" if "r \<in> set db" "newest db = Some (lr_id r)" "\<not> expired cutoff r" for r
    using that c(1) by (simp add: c(3) retained_def kept_def outside_window_def)
  ultimately show ?thesis
    using c retained_length [OF assms(2) c(1), of cutoff] by (auto simp: retained_def kept_def [abs_def])
qed

definition no_faults :: db_faults where
  "no_faults = \<lparr>f_open = None, f_add = None, f_flush = None, f_max = None, f_delete = None,
     f_commit = Commit_done, f_rollback = None, f_close = None, f_new_id = Some 3, f_now = 63000000000000000\<rparr>"

definition sample_row :: "int \<Rightarrow> log_row" where
  "sample_row i = \<lparr>lr_id = i, lr_problem_id = None, lr_shellgei = None, lr_output = None, lr_judge = None,
     lr_execution_status = status_text COMPLETED, lr_stdout = [], lr_stderr = [], lr_exit_code = Some 0,
     lr_timed_out = False, lr_truncated = False, lr_duration_ms = None, lr_verdict = verdict_text ACCEPTED,
     lr_judge_reason = None, lr_created_at = None\<rparr>"

lemma sample_prune:
  "prune no_faults 63000000000000000 365 2 [sample_row 1, sample_row 2, sample_row 3] [] =
     (Inr 1, [sample_row 2, sample_row 3], [], [Called_commit, Called_close])"
  by (simp add: prune_def with_session_def no_faults_def prune_body_def prune_execution_logs_def open_session_def
      sbind_def raising_def db_flush_def retention_cutoff_def DAY_def db_max_id_def newest_def db_delete_def
      expired_def outside_window_def sample_row_def db_commit_def db_close_def Let_def)

theorem prune_keeps_the_recent_window_witness:
  "int (length [sample_row 2, sample_row 3]) \<le> 2"
proof -
  have "distinct (map lr_id [sample_row 1, sample_row 2, sample_row 3])" by (simp add: sample_row_def)
  from prune_keeps_the_recent_window [OF sample_prune this] show ?thesis by blast
qed

end
