(* ===== verification/Submission.thy ===== *)
theory Submission
  imports Log_Store Runner_Client Repository
begin

section \<open>The submission use case\<close>

text \<open>
  \<open>soj_backend/models/submission.py\<close> and \<open>submit_solution.py\<close>. The four ports of the service are a
  record of functions over a world of any type; the state also records the calls made to them, the
  event log and the context variable. A port's exception is the left summand of what it returns.
\<close>

subsection \<open>Submission results\<close>

text \<open>A \<open>datetime\<close>: local microseconds and the offset from UTC, absent for a naive one.\<close>

record date_time =
  dt_local :: int
  dt_offset :: "int option"

record SubmissionResult =
  sr_status :: SubmissionStatus
  sr_submitted_at :: date_time
  sr_execution :: "ExecutionResult option"
  sr_judgment :: "JudgeResult option"
  sr_log_id :: "int option"
  sr_persistence :: SubmissionPersistenceStatus

definition validate_consistent_result :: "SubmissionResult \<Rightarrow> value_error + SubmissionResult" where
  "validate_consistent_result r =
     (if dt_offset (sr_submitted_at r) = None
      then Inl (ValueError ''submission timestamp must include a timezone'')
      else if sr_status r = Sub_completed
      then (if sr_execution r = None \<or> sr_judgment r = None
            then Inl (ValueError ''completed submission must contain results'')
            else if sr_persistence r = Saved
            then (if sr_log_id r = None then Inl (ValueError ''saved submission must contain a log ID'') else Inr r)
            else if sr_persistence r = Unavailable
            then (if sr_log_id r \<noteq> None then Inl (ValueError ''unsaved submission must not contain a log ID'')
                  else Inr r)
            else Inl (ValueError ''completed submission must attempt persistence''))
      else if sr_execution r \<noteq> None \<or> sr_judgment r \<noteq> None \<or> sr_log_id r \<noteq> None
              \<or> sr_persistence r \<noteq> Not_attempted
      then Inl (ValueError ''rejected submission must not contain execution results'')
      else Inr r)"

definition new_SubmissionResult :: "SubmissionResult \<Rightarrow> value_error + SubmissionResult" where
  "new_SubmissionResult r =
     rbind (require (case sr_log_id r of None \<Rightarrow> True | Some i \<Rightarrow> 0 < i) ''log_id must be positive'') (\<lambda>_.
     validate_consistent_result r)"

subsection \<open>The service\<close>

datatype save_error = Log_repository_error | Log_exception exn

record 'w ports =
  port_get :: "pystr \<Rightarrow> ProblemRecord option"
  port_execute :: "pystr \<Rightarrow> pystr \<Rightarrow> 'w \<Rightarrow> (client_error + ExecutionResult) \<times> 'w"
  port_judge :: "ExecutionResult \<Rightarrow> pystr \<Rightarrow> exn + JudgeResult"
  port_save :: "ExecutionLogEntry \<Rightarrow> pystr \<Rightarrow> 'w \<Rightarrow> (save_error + int) \<times> 'w"

datatype port_call = Call_get pystr | Call_execute pystr pystr | Call_judge ExecutionResult pystr
  | Call_save ExecutionLogEntry pystr

record 'w service_state =
  su_world :: 'w
  su_calls :: "port_call list"
  su_log :: event_log
  su_context :: reqctx

definition note_call :: "port_call \<Rightarrow> 'w service_state \<Rightarrow> 'w service_state" where
  "note_call c st = st\<lparr>su_calls := su_calls st @ [c]\<rparr>"

definition rejected :: "SubmissionStatus \<Rightarrow> date_time \<Rightarrow> value_error + SubmissionResult" where
  "rejected s submitted_at = new_SubmissionResult
     \<lparr>sr_status = s, sr_submitted_at = submitted_at, sr_execution = None, sr_judgment = None,
      sr_log_id = None, sr_persistence = Not_attempted\<rparr>"

definition completion_record :: "SubmissionResult \<Rightarrow> pystr \<Rightarrow> SafeLogEvent" where
  "completion_record r request_id =
     (blank_event SUBMISSION_COMPLETED Log_submission)
       \<lparr>ev_request_id := Some request_id, ev_submission_status := Some (sr_status r),
        ev_execution_status := map_option er_status (sr_execution r),
        ev_duration_ms := map_option er_duration_ms (sr_execution r),
        ev_persistence_status := Some (sr_persistence r)\<rparr>"

definition record_result ::
  "log_level \<Rightarrow> pystr \<Rightarrow> value_error + SubmissionResult \<Rightarrow> 'w service_state \<Rightarrow> (exn + SubmissionResult) \<times> 'w service_state" where
  "record_result level request_id built st =
     (case built of
        Inl (ValueError m) \<Rightarrow> (Inl (lit m), st)
      | Inr r \<Rightarrow>
          (case log_safe_event level (completion_record r request_id) (su_log st) of
             (Inl (ValueError m), events) \<Rightarrow> (Inl (lit m), st\<lparr>su_log := events\<rparr>)
           | (Inr _, events) \<Rightarrow> (Inr r, st\<lparr>su_log := events\<rparr>)))"

definition completed_result ::
  "date_time \<Rightarrow> ExecutionResult \<Rightarrow> JudgeResult \<Rightarrow> int option \<Rightarrow> SubmissionPersistenceStatus \<Rightarrow>
   value_error + SubmissionResult" where
  "completed_result submitted_at execution j log_id persistence = new_SubmissionResult
     \<lparr>sr_status = Sub_completed, sr_submitted_at = submitted_at, sr_execution = Some execution,
      sr_judgment = Some j, sr_log_id = log_id, sr_persistence = persistence\<rparr>"

text \<open>From the runner's result to the end of \<open>_submit\<close>.\<close>

definition judge_and_save ::
  "'w ports \<Rightarrow> date_time \<Rightarrow> pystr \<Rightarrow> pystr \<Rightarrow> pystr \<Rightarrow> ExecutionResult \<Rightarrow> 'w service_state \<Rightarrow>
   (exn + SubmissionResult) \<times> 'w service_state" where
  "judge_and_save ports submitted_at shellgei problem_id request_id execution st =
     (let st = note_call (Call_judge execution problem_id) st in
      case port_judge ports execution problem_id of
        Inl e \<Rightarrow> (Inl e, st)
      | Inr j \<Rightarrow>
          (case from_results problem_id shellgei execution j of
             Inl (ValueError m) \<Rightarrow> (Inl (lit m), st)
           | Inr entry \<Rightarrow>
               (let (saved, w) = port_save ports entry request_id (su_world st);
                    st = (note_call (Call_save entry request_id) st)\<lparr>su_world := w\<rparr>
                in case saved of
                     Inl Log_repository_error \<Rightarrow>
                       record_result WARNING request_id (completed_result submitted_at execution j None Unavailable) st
                   | Inl (Log_exception e) \<Rightarrow> (Inl e, st)
                   | Inr log_id \<Rightarrow>
                       record_result INFO request_id (completed_result submitted_at execution j (Some log_id) Saved) st)))"

definition submit_inner ::
  "'w ports \<Rightarrow> date_time \<Rightarrow> pystr \<Rightarrow> pystr \<Rightarrow> pystr \<Rightarrow> 'w service_state \<Rightarrow>
   (exn + SubmissionResult) \<times> 'w service_state" where
  "submit_inner ports submitted_at shellgei problem_id request_id st =
     (let st = note_call (Call_get problem_id) st in
      case port_get ports problem_id of
        None \<Rightarrow> record_result INFO request_id (rejected Sub_problem_not_found submitted_at) st
      | Some _ \<Rightarrow>
          (let (executed, w) = port_execute ports shellgei problem_id (su_world st);
               st = (note_call (Call_execute shellgei problem_id) st)\<lparr>su_world := w\<rparr>
           in case executed of
                Inl (Channel RunnerBusyError) \<Rightarrow>
                  record_result INFO request_id (rejected Sub_runner_busy submitted_at) st
              | Inl (Channel RunnerUnavailableError) \<Rightarrow>
                  record_result INFO request_id (rejected Sub_runner_unavailable submitted_at) st
              | Inl (Channel RunnerConfigurationError) \<Rightarrow> (Inl (lit ''RunnerConfigurationError''), st)
              | Inl (Other_error e) \<Rightarrow> (Inl e, st)
              | Inr execution \<Rightarrow> judge_and_save ports submitted_at shellgei problem_id request_id execution st))"

definition failure_event :: "pystr \<Rightarrow> SafeLogEvent" where
  "failure_event request_id = (blank_event SUBMISSION_FAILED Log_submission)\<lparr>ev_request_id := Some request_id\<rparr>"

text \<open>The \<open>try\<close> around \<open>_submit\<close>.\<close>

definition submit_guarded ::
  "'w ports \<Rightarrow> date_time \<Rightarrow> pystr \<Rightarrow> pystr \<Rightarrow> pystr \<Rightarrow> 'w service_state \<Rightarrow>
   (exn + SubmissionResult) \<times> 'w service_state" where
  "submit_guarded ports submitted_at shellgei problem_id request_id st =
     (case submit_inner ports submitted_at shellgei problem_id request_id st of
        (Inr r, st1) \<Rightarrow> (Inr r, st1)
      | (Inl e, st1) \<Rightarrow>
          (case log_safe_event LOG_ERROR (failure_event request_id) (su_log st1) of
             (Inl (ValueError m), events) \<Rightarrow> (Inl (lit m), st1\<lparr>su_log := events\<rparr>)
           | (Inr _, events) \<Rightarrow> (Inl e, st1\<lparr>su_log := events\<rparr>)))"

definition submit ::
  "'w ports \<Rightarrow> date_time \<Rightarrow> bytes \<Rightarrow> pystr \<Rightarrow> pystr \<Rightarrow> 'w service_state \<Rightarrow>
   (exn + SubmissionResult) \<times> 'w service_state" where
  "submit ports now random shellgei problem_id st =
     (let request_id = (case current_request_id (su_context st) of
                          Some r \<Rightarrow> if r = [] then new_request_id random else r
                        | None \<Rightarrow> new_request_id random)
      in case bind_request_id request_id
                (\<lambda>ctx. (submit_guarded ports now shellgei problem_id request_id (st\<lparr>su_context := ctx\<rparr>), ctx))
                (su_context st) of
           (Inl (ValueError m), ctx) \<Rightarrow> (Inl (lit m), st\<lparr>su_context := ctx\<rparr>)
         | (Inr (r, st1), ctx) \<Rightarrow> (r, st1\<lparr>su_context := ctx\<rparr>))"

subsection \<open>Results are consistent\<close>

definition result_ok :: "SubmissionResult \<Rightarrow> bool" where
  "result_ok r \<longleftrightarrow> dt_offset (sr_submitted_at r) \<noteq> None \<and> (\<forall>i. sr_log_id r = Some i \<longrightarrow> 0 < i)
     \<and> (if sr_status r = Sub_completed
        then sr_execution r \<noteq> None \<and> sr_judgment r \<noteq> None
          \<and> (sr_persistence r = Saved \<and> sr_log_id r \<noteq> None \<or> sr_persistence r = Unavailable \<and> sr_log_id r = None)
        else sr_execution r = None \<and> sr_judgment r = None \<and> sr_log_id r = None \<and> sr_persistence r = Not_attempted)"

lemma new_SubmissionResult_iff: "new_SubmissionResult r = Inr q \<longleftrightarrow> q = r \<and> result_ok r"
  unfolding new_SubmissionResult_def rbind_eq_Inr require_eq_Inr validate_consistent_result_def result_ok_def
  by (auto split: option.splits if_splits)

lemma rejected_ok:
  "dt_offset t \<noteq> None \<Longrightarrow> s \<noteq> Sub_completed \<Longrightarrow> rejected s t = Inr
     \<lparr>sr_status = s, sr_submitted_at = t, sr_execution = None, sr_judgment = None,
      sr_log_id = None, sr_persistence = Not_attempted\<rparr>"
  by (simp add: rejected_def new_SubmissionResult_iff result_ok_def)

lemma record_result_cases:
  "record_result level rid built st = (res, st') \<Longrightarrow>
     su_calls st' = su_calls st \<and> su_world st' = su_world st \<and> su_context st' = su_context st
     \<and> (\<forall>r. res = Inr r \<longrightarrow> built = Inr r)"
  by (auto simp: record_result_def split: sum.splits prod.splits value_error.splits)

lemma record_result_ok:
  assumes "is_request_id rid" and "\<forall>x. sr_execution r = Some x \<longrightarrow> 0 \<le> er_duration_ms x"
  shows "record_result level rid (Inr r) st =
    (Inr r, st\<lparr>su_log := su_log st @ [(level, completion_record r rid)]\<rparr>)"
proof -
  have "event_ok (completion_record r rid)"
    using assms by (auto simp: event_ok_def completion_record_def blank_event_def)
  then show ?thesis by (simp add: record_result_def log_safe_event_ok)
qed

subsection \<open>The order of the calls\<close>

definition calls_of :: "pystr \<Rightarrow> pystr \<Rightarrow> pystr \<Rightarrow> ExecutionResult \<Rightarrow> ExecutionLogEntry \<Rightarrow> port_call list" where
  "calls_of shellgei problem_id rid x e =
     [Call_get problem_id, Call_execute shellgei problem_id, Call_judge x problem_id, Call_save e rid]"

text \<open>How far a submission with a given answer got.\<close>

definition progress :: "exn + SubmissionResult \<Rightarrow> nat \<Rightarrow> bool" where
  "progress res n \<longleftrightarrow> (case res of
     Inl _ \<Rightarrow> 1 \<le> n \<and> n \<le> 4
   | Inr r \<Rightarrow> (case sr_status r of Sub_problem_not_found \<Rightarrow> n = 1 | Sub_runner_busy \<Rightarrow> n = 2
       | Sub_runner_unavailable \<Rightarrow> n = 2 | Sub_completed \<Rightarrow> n = 4))"

lemma rejected_status: "rejected s t = Inr r \<Longrightarrow> sr_status r = s"
  by (auto simp: rejected_def new_SubmissionResult_iff)

lemma completed_fields: "completed_result t x j i p = Inr r \<Longrightarrow>
    sr_status r = Sub_completed \<and> sr_execution r = Some x \<and> sr_judgment r = Some j"
  by (auto simp: completed_result_def new_SubmissionResult_iff)

definition submission_trace ::
  "pystr \<Rightarrow> pystr \<Rightarrow> pystr \<Rightarrow> port_call list \<Rightarrow> exn + SubmissionResult \<Rightarrow> port_call list \<Rightarrow> bool" where
  "submission_trace shellgei problem_id rid before res after \<longleftrightarrow>
     (\<exists>x e n. after = before @ take n (calls_of shellgei problem_id rid x e) \<and> progress res n
        \<and> (\<forall>r. res = Inr r \<and> sr_status r = Sub_completed \<longrightarrow> sr_execution r = Some x
              \<and> (\<exists>j. sr_judgment r = Some j \<and> from_results problem_id shellgei x j = Inr e)))"

lemma trace_intro:
  "after = before @ take n (calls_of s p rid x e) \<Longrightarrow> progress res n \<Longrightarrow>
   (\<And>r. res = Inr r \<Longrightarrow> sr_status r = Sub_completed \<Longrightarrow> sr_execution r = Some x
      \<and> (\<exists>j. sr_judgment r = Some j \<and> from_results p s x j = Inr e)) \<Longrightarrow>
   submission_trace s p rid before res after"
  unfolding submission_trace_def by blast

lemma record_progress:
  assumes "record_result level rid built st = (res, st')"
    and "\<And>r. built = Inr r \<Longrightarrow> progress (Inr r) n" and "1 \<le> n" "n \<le> 4"
  shows "progress res n"
  using record_result_cases [OF assms(1)] assms(2,3,4) by (cases res) (auto simp: progress_def)

lemma judge_and_save_trace:
  assumes j: "judge_and_save ports t s p rid x st = (res, st')"
    and calls: "su_calls st = before @ [Call_get p, Call_execute s p]"
  shows "submission_trace s p rid before res (su_calls st')"
proof (cases "port_judge ports x p")
  case (Inl e)
  then have "res = Inl e" "su_calls st' = before @ [Call_get p, Call_execute s p, Call_judge x p]"
    using j calls by (auto simp: judge_and_save_def note_call_def Let_def)
  then show ?thesis
    by (intro trace_intro [of _ _ 3]) (simp_all add: calls_of_def numeral_3_eq_3 progress_def)
next
  case judged: (Inr jd)
  show ?thesis
  proof (cases "from_results p s x jd")
    case (Inl v)
    then obtain m where "res = Inl m" "su_calls st' = before @ [Call_get p, Call_execute s p, Call_judge x p]"
      using j calls judged by (cases v) (auto simp: judge_and_save_def note_call_def Let_def)
    then show ?thesis
      by (intro trace_intro [of _ _ 3]) (simp_all add: calls_of_def numeral_3_eq_3 progress_def)
  next
    case (Inr e)
    obtain saved w where sv: "port_save ports e rid (su_world st) = (saved, w)" by fastforce
    let ?st = "(note_call (Call_save e rid) (note_call (Call_judge x p) st))\<lparr>su_world := w\<rparr>"
    have four: "su_calls ?st = before @ calls_of s p rid x e"
      using calls by (simp add: note_call_def calls_of_def)
    have "(\<exists>m. res = Inl m \<and> st' = ?st)
        \<or> (\<exists>level i pers. record_result level rid (completed_result t x jd i pers) ?st = (res, st'))"
      using j judged Inr sv
      by (auto simp: judge_and_save_def Let_def note_call_def split: sum.splits save_error.splits)
    then show ?thesis
    proof
      assume "\<exists>m. res = Inl m \<and> st' = ?st"
      then show ?thesis using four
        by (intro trace_intro [of _ _ 4 _ _ _ x e]) (auto simp: calls_of_def progress_def)
    next
      assume "\<exists>level i pers. record_result level rid (completed_result t x jd i pers) ?st = (res, st')"
      then obtain level i pers where r: "record_result level rid (completed_result t x jd i pers) ?st = (res, st')"
        by blast
      have "progress res 4"
        using r by (rule record_progress) (auto simp: progress_def dest: completed_fields)
      moreover have "su_calls st' = before @ take 4 (calls_of s p rid x e)"
        using record_result_cases [OF r] four by (simp add: calls_of_def)
      ultimately show ?thesis
        using record_result_cases [OF r] Inr by (intro trace_intro [of _ _ 4 _ _ _ x e]) (auto dest: completed_fields)
    qed
  qed
qed

lemma note_call_simps [simp]:
  "su_world (note_call c st) = su_world st" "su_calls (note_call c st) = su_calls st @ [c]"
  "su_log (note_call c st) = su_log st" "su_context (note_call c st) = su_context st"
  by (simp_all add: note_call_def)

lemma rejected_trace:
  assumes "record_result level rid (rejected q t) st = (res, st')" and "q \<noteq> Sub_completed"
    and "su_calls st = before @ take n (calls_of s p rid undefined undefined)"
    and "n = (if q = Sub_problem_not_found then 1 else 2)"
  shows "submission_trace s p rid before res (su_calls st')"
proof (rule trace_intro)
  show "su_calls st' = before @ take n (calls_of s p rid undefined undefined)"
    using record_result_cases [OF assms(1)] assms(3) by simp
  show "progress res n"
    using assms(1) by (rule record_progress)
      (use assms(2,4) in \<open>auto simp: progress_def dest: rejected_status split: SubmissionStatus.splits\<close>)
  show "sr_execution r = Some undefined \<and> (\<exists>j. sr_judgment r = Some j \<and> from_results p s undefined j = Inr undefined)"
    if "res = Inr r" "sr_status r = Sub_completed" for r
    using record_result_cases [OF assms(1)] that assms(2) by (auto dest: rejected_status)
qed

lemma submit_inner_trace:
  assumes i: "submit_inner ports t s p rid st = (res, st')"
  shows "submission_trace s p rid (su_calls st) res (su_calls st')"
proof (cases "port_get ports p")
  case None
  then have "record_result INFO rid (rejected Sub_problem_not_found t) (note_call (Call_get p) st) = (res, st')"
    using i by (simp add: submit_inner_def Let_def)
  then show ?thesis
    by (rule rejected_trace) (simp_all add: note_call_def calls_of_def)
next
  case known: (Some rc)
  obtain ex w where x: "port_execute ports s p (su_world st) = (ex, w)" by fastforce
  let ?st = "(note_call (Call_execute s p) (note_call (Call_get p) st))\<lparr>su_world := w\<rparr>"
  have two: "su_calls ?st = su_calls st @ [Call_get p, Call_execute s p]" by (simp add: note_call_def)
  have case_of: "submit_inner ports t s p rid st = (case ex of
      Inl (Channel RunnerBusyError) \<Rightarrow> record_result INFO rid (rejected Sub_runner_busy t) ?st
    | Inl (Channel RunnerUnavailableError) \<Rightarrow> record_result INFO rid (rejected Sub_runner_unavailable t) ?st
    | Inl (Channel RunnerConfigurationError) \<Rightarrow> (Inl (lit ''RunnerConfigurationError''), ?st)
    | Inl (Other_error e) \<Rightarrow> (Inl e, ?st)
    | Inr y \<Rightarrow> judge_and_save ports t s p rid y ?st)"
    using known x by (simp add: submit_inner_def Let_def)
  have failed: "submission_trace s p rid (su_calls st) (Inl e) (su_calls ?st)" for e
    using two by (intro trace_intro [of _ _ 2]) (simp_all add: calls_of_def numeral_2_eq_2 progress_def)
  have busy: "submission_trace s p rid (su_calls st) res (su_calls st')"
    if "record_result INFO rid (rejected q t) ?st = (res, st')" "q \<in> {Sub_runner_busy, Sub_runner_unavailable}" for q
    using that(1) by (rule rejected_trace) (use that(2) two in \<open>auto simp: calls_of_def numeral_2_eq_2\<close>)
  show ?thesis
  proof (cases ex)
    case (Inr y)
    then have "judge_and_save ports t s p rid y ?st = (res, st')" using case_of i by simp
    then show ?thesis using two by (rule judge_and_save_trace)
  next
    case (Inl e)
    show ?thesis
    proof (cases e)
      case (Other_error m)
      then show ?thesis using case_of i Inl failed by auto
    next
      case (Channel c)
      then show ?thesis using case_of i Inl failed busy by (cases c) auto
    qed
  qed
qed

lemma submit_guarded_trace:
  assumes "submit_guarded ports t s p rid st = (res, st')"
  shows "submission_trace s p rid (su_calls st) res (su_calls st')"
proof -
  obtain r0 st1 where i: "submit_inner ports t s p rid st = (r0, st1)" by fastforce
  note tr = submit_inner_trace [OF i]
  show ?thesis
  proof (cases r0)
    case (Inr r)
    then show ?thesis using assms i tr by (simp add: submit_guarded_def)
  next
    case (Inl e)
    obtain x en n where "su_calls st1 = su_calls st @ take n (calls_of s p rid x en)" "1 \<le> n" "n \<le> 4"
      using tr Inl by (auto simp: submission_trace_def progress_def)
    moreover obtain e' where "res = Inl e'" "su_calls st' = su_calls st1"
      using assms i Inl by (auto simp: submit_guarded_def split: sum.splits prod.splits value_error.splits)
    ultimately show ?thesis
      by (intro trace_intro [of _ _ n]) (simp_all add: progress_def)
  qed
qed

lemma submit_guarded_result_ok:
  assumes "submit_guarded ports t s p rid st = (Inr r, st')"
  shows "result_ok r"
proof -
  have built: "result_ok r" if "record_result level rid (new_SubmissionResult q) st1 = (Inr r, st2)"
    for level q st1 st2
    using record_result_cases [OF that] by (simp add: new_SubmissionResult_iff)
  have "submit_inner ports t s p rid st = (Inr r, st')"
    using assms by (auto simp: submit_guarded_def split: sum.splits prod.splits value_error.splits)
  then show ?thesis using built
    unfolding submit_inner_def judge_and_save_def rejected_def completed_result_def Let_def
    by (auto split: option.splits prod.splits sum.splits client_error.splits runner_error.splits
        value_error.splits save_error.splits)
qed

subsection \<open>What the ports promise\<close>

text \<open>
  The contract under which a submission never fails: the runner yields valid results or its two
  ordinary refusals, the judge is total on known problems, and the log yields a positive ID or the
  repository's own error. \<open>inv\<close> is the invariant of the world that the ports share.
\<close>

locale submission_ports =
  fixes ports :: "'w ports" and inv :: "'w \<Rightarrow> bool"
  assumes execute_valid: "inv w \<Longrightarrow> port_execute ports s p w = (Inr r, w') \<Longrightarrow> valid_result r \<and> inv w'"
    and execute_refusal: "inv w \<Longrightarrow> port_execute ports s p w = (Inl e, w') \<Longrightarrow>
      e \<in> {Channel RunnerBusyError, Channel RunnerUnavailableError} \<and> inv w'"
    and judge_total: "port_get ports p \<noteq> None \<Longrightarrow> valid_result r \<Longrightarrow> \<exists>j. port_judge ports r p = Inr j"
    and save_total: "inv w \<Longrightarrow> is_request_id rid \<Longrightarrow> port_save ports entry rid w = (saved, w') \<Longrightarrow>
      inv w' \<and> (saved = Inl Log_repository_error \<or> (\<exists>i. saved = Inr i \<and> 0 < i))"
begin

lemma judge_and_save_total:
  assumes "inv (su_world st)" "valid_result x" "port_get ports p \<noteq> None" "is_request_id rid"
    and "is_problem_id p" "is_shellgei s" "dt_offset t \<noteq> None"
  shows "\<exists>r st' ev. judge_and_save ports t s p rid x st = (Inr r, st') \<and> su_log st' = su_log st @ [ev]
    \<and> inv (su_world st')"
proof -
  obtain j where j: "port_judge ports x p = Inr j" using judge_total [OF assms(3,2)] by blast
  have x: "consistent x" using assms(2) by (simp add: valid_result_def)
  obtain e where e: "from_results p s x j = Inr e" using from_results_total [OF assms(5,6) x] by blast
  obtain saved w where sv: "port_save ports e rid (su_world st) = (saved, w)" by fastforce
  have s: "inv w" "saved = Inl Log_repository_error \<or> (\<exists>i. saved = Inr i \<and> 0 < i)"
    using save_total [OF assms(1,4) sv] by auto
  have dur: "0 \<le> er_duration_ms x" using x by (simp add: consistent_def)
  have ok: "\<exists>r. completed_result t x j i pers = Inr r \<and> sr_execution r = Some x"
    if "i = None \<and> pers = Unavailable \<or> (\<exists>k. i = Some k \<and> 0 < k) \<and> pers = Saved" for i pers
    using that assms(7) by (auto simp: completed_result_def new_SubmissionResult_iff result_ok_def)
  let ?st = "(note_call (Call_save e rid) (note_call (Call_judge x p) st))\<lparr>su_world := w\<rparr>"
  obtain level i pers where b: "judge_and_save ports t s p rid x st =
      record_result level rid (completed_result t x j i pers) ?st"
    and ip: "i = None \<and> pers = Unavailable \<or> (\<exists>k. i = Some k \<and> 0 < k) \<and> pers = Saved"
    using s(2) sv j e by (auto simp: judge_and_save_def note_call_def Let_def)
  obtain r where r: "completed_result t x j i pers = Inr r" "sr_execution r = Some x" using ok [OF ip] by blast
  have "record_result level rid (Inr r) ?st = (Inr r, ?st\<lparr>su_log := su_log ?st @ [(level, completion_record r rid)]\<rparr>)"
    using assms(4) dur r(2) by (intro record_result_ok) simp_all
  then show ?thesis unfolding b r(1) using s(1) by (auto simp: note_call_def)
qed

lemma submit_inner_total:
  assumes "inv (su_world st)" "is_request_id rid" "is_problem_id p" "is_shellgei s" "dt_offset t \<noteq> None"
  shows "\<exists>r st' ev. submit_inner ports t s p rid st = (Inr r, st') \<and> su_log st' = su_log st @ [ev]
    \<and> inv (su_world st')"
proof -
  have rej: "\<exists>r st'' ev. record_result INFO rid (rejected q t) st' = (Inr r, st'') \<and> su_log st'' = su_log st' @ [ev]
      \<and> su_world st'' = su_world st'" if "q \<noteq> Sub_completed" for q and st' :: "'w service_state"
    by (simp add: rejected_ok [OF assms(5) that] record_result_ok [OF assms(2)])
  show ?thesis
  proof (cases "port_get ports p")
    case None
    then show ?thesis using rej [of Sub_problem_not_found "note_call (Call_get p) st"] assms(1)
      by (auto simp: submit_inner_def note_call_def Let_def)
  next
    case (Some rc)
    obtain ex w where x: "port_execute ports s p (su_world st) = (ex, w)" by fastforce
    let ?st = "(note_call (Call_execute s p) (note_call (Call_get p) st))\<lparr>su_world := w\<rparr>"
    show ?thesis
    proof (cases ex)
      case (Inl e)
      have "e \<in> {Channel RunnerBusyError, Channel RunnerUnavailableError}" "inv w"
        using execute_refusal [OF assms(1)] x Inl by auto
      then show ?thesis
        using Some x Inl rej [of Sub_runner_busy ?st] rej [of Sub_runner_unavailable ?st]
        by (auto simp: submit_inner_def note_call_def Let_def)
    next
      case (Inr y)
      have v: "valid_result y" "inv (su_world ?st)" using execute_valid [OF assms(1)] x Inr by auto
      have "port_get ports p \<noteq> None" using Some by simp
      from judge_and_save_total [OF v(2,1) this assms(2,3,4,5)] show ?thesis
        using Some x Inr by (simp add: submit_inner_def note_call_def Let_def)
    qed
  qed
qed

lemma submit_total:
  assumes "inv (su_world st)" "is_problem_id p" "is_shellgei s" "dt_offset t \<noteq> None"
    and ctx: "\<And>r. su_context st = Some r \<Longrightarrow> is_request_id r" and random: "16 \<le> length random"
  shows "\<exists>r st' ev. submit ports t random s p st = (Inr r, st') \<and> su_log st' = su_log st @ [ev]
    \<and> su_context st' = su_context st \<and> inv (su_world st')"
proof -
  define rid where "rid = (case su_context st of Some r \<Rightarrow> if r = [] then new_request_id random else r
    | None \<Rightarrow> new_request_id random)"
  have id_ok: "is_request_id rid"
    using ctx new_request_id_valid [OF random] by (auto simp: rid_def split: option.splits)
  obtain r st1 ev where s: "submit_inner ports t s p rid (st\<lparr>su_context := Some rid\<rparr>) = (Inr r, st1)"
    "su_log st1 = su_log st @ [ev]" "inv (su_world st1)"
    using submit_inner_total [of "st\<lparr>su_context := Some rid\<rparr>", OF _ id_ok assms(2,3,4)] assms(1) by auto
  then have "submit ports t random s p st = (Inr r, st1\<lparr>su_context := su_context st\<rparr>)"
    by (simp add: submit_def current_request_id_def rid_def [symmetric] bind_request_id_valid [OF id_ok]
        submit_guarded_def Let_def)
  then show ?thesis using s by auto
qed

end

lemma submit_guarded_run:
  assumes "submit ports t random s p st = (res, st')" and "\<And>r. su_context st = Some r \<Longrightarrow> is_request_id r"
    and "16 \<le> length random"
  obtains rid st1 where "is_request_id rid"
    "submit_guarded ports t s p rid (st\<lparr>su_context := Some rid\<rparr>) = (res, st1)"
    "st' = st1\<lparr>su_context := su_context st\<rparr>"
proof -
  define rid where "rid = (case su_context st of Some r \<Rightarrow> if r = [] then new_request_id random else r
    | None \<Rightarrow> new_request_id random)"
  have id_ok: "is_request_id rid"
    using assms(2) new_request_id_valid [OF assms(3)] by (auto simp: rid_def split: option.splits)
  obtain r0 st1 where g: "submit_guarded ports t s p rid (st\<lparr>su_context := Some rid\<rparr>) = (r0, st1)" by fastforce
  then have "submit ports t random s p st = (r0, st1\<lparr>su_context := su_context st\<rparr>)"
    by (simp add: submit_def current_request_id_def rid_def [symmetric] bind_request_id_valid [OF id_ok] Let_def)
  then show ?thesis using that [OF id_ok, of st1] assms(1) g by simp
qed

subsection \<open>Properties\<close>

text \<open>C13: A submission calls its ports in the order problem, runner, judge, log, each at most once, and stops
  where its answer says: an unknown problem reaches no runner, a refusal of the runner no judge, and
  only a completed submission is saved, with the entry made from the runner's and the judge's result.
  An answer is always consistent, and the request context is restored.\<close>

theorem submit_calls_ports_in_order:
  assumes "submit ports t random s p st = (res, st')" and "\<And>r. su_context st = Some r \<Longrightarrow> is_request_id r"
    and "16 \<le> length random"
  shows "\<exists>rid x e n. su_calls st' = su_calls st @ take n [Call_get p, Call_execute s p, Call_judge x p, Call_save e rid]
    \<and> progress res n \<and> su_context st' = su_context st
    \<and> (\<forall>r. res = Inr r \<longrightarrow> result_ok r \<and> (sr_status r = Sub_completed \<longrightarrow> sr_execution r = Some x
          \<and> (\<exists>j. sr_judgment r = Some j \<and> from_results p s x j = Inr e)))"
proof -
  obtain rid st1 where g: "is_request_id rid"
    "submit_guarded ports t s p rid (st\<lparr>su_context := Some rid\<rparr>) = (res, st1)"
    "st' = st1\<lparr>su_context := su_context st\<rparr>"
    by (rule submit_guarded_run [OF assms])
  obtain x e n where tr: "su_calls st1 = su_calls st @ take n (calls_of s p rid x e)" "progress res n"
    "\<forall>r. res = Inr r \<and> sr_status r = Sub_completed \<longrightarrow> sr_execution r = Some x
       \<and> (\<exists>j. sr_judgment r = Some j \<and> from_results p s x j = Inr e)"
    using submit_guarded_trace [OF g(2)] by (auto simp: submission_trace_def)
  have "result_ok r" if "res = Inr r" for r
    using submit_guarded_result_ok g(2) that by blast
  then show ?thesis
    using tr g(3) by (intro exI [of _ rid] exI [of _ x] exI [of _ e] exI [of _ n]) (simp add: calls_of_def)
qed

definition sample_ports :: "unit ports" where
  "sample_ports = \<lparr>port_get = (\<lambda>_. None), port_execute = (\<lambda>_ _ w. (Inl (Channel RunnerBusyError), w)),
     port_judge = (\<lambda>_ _. Inl []), port_save = (\<lambda>_ _ w. (Inl Log_repository_error, w))\<rparr>"

definition sample_service :: "unit service_state" where
  "sample_service = \<lparr>su_world = (), su_calls = [], su_log = [], su_context = None\<rparr>"

definition sample_time :: date_time where
  "sample_time = \<lparr>dt_local = 0, dt_offset = Some 32400000000\<rparr>"

theorem submit_calls_ports_in_order_witness:
  "length (su_calls (snd (submit sample_ports sample_time (replicate 16 0) [108, 115] (lit ''STANDARD-1'') sample_service)))
     \<le> 4"
proof -
  obtain res st' where s: "submit sample_ports sample_time (replicate 16 0) [108, 115] (lit ''STANDARD-1'') sample_service
      = (res, st')" by fastforce
  have "\<exists>rid x e n. su_calls st' = su_calls sample_service @ take n [Call_get (lit ''STANDARD-1''),
      Call_execute [108, 115] (lit ''STANDARD-1''), Call_judge x (lit ''STANDARD-1''), Call_save e rid]"
    using submit_calls_ports_in_order [OF s] by (auto simp: sample_service_def)
  then obtain n :: nat and cs :: "port_call list" where "su_calls st' = take n cs" "length cs = 4"
    by (auto simp: sample_service_def)
  then show ?thesis using s by simp
qed

end
