(* ===== verification/Public_Api.thy ===== *)
theory Public_Api
  imports Submission Runner_Channel
begin

section \<open>The public API\<close>

text \<open>
  \<open>soj_backend/models/public_api.py\<close>, \<open>models/legacy_api.py\<close> and \<open>api/api_shellgei.py\<close>: how a submission
  result becomes an HTTP answer, for the v3 interface and for the older one, and the problem list
  with its ETag. Formatting a date is a parameter (\<open>strftime\<close>, ISO 8601), as is the JSON codec. An
  exception of a handler (answered with status 500 by the framework) is the left summand.
\<close>

subsection \<open>The v3 response\<close>

record PublicArtifactV3 =
  pa_media_type :: ImageMediaType
  pa_data :: pystr

definition new_PublicArtifactV3 :: "ImageMediaType \<Rightarrow> pystr \<Rightarrow> value_error + PublicArtifactV3" where
  "new_PublicArtifactV3 media_type data =
     rbind (require (4 \<le> length data \<and> length data \<le> MAX_RUNNER_IMAGE_BASE64_CHARS
                     \<and> fullmatch b64_pattern data) ''string constraint'') (\<lambda>_.
     Inr \<lparr>pa_media_type = media_type, pa_data = data\<rparr>)"

record PublicExecutionResultV3 =
  pe_status :: ExecutionStatus
  pe_stdout :: pystr
  pe_stderr :: pystr
  pe_exit_code :: "int option"
  pe_timed_out :: bool
  pe_truncated :: bool
  pe_duration_ms :: int

definition validate_output_limit :: "PublicExecutionResultV3 \<Rightarrow> value_error + PublicExecutionResultV3" where
  "validate_output_limit e =
     (if length (pe_stdout e) + length (pe_stderr e) > MAX_CAPTURED_OUTPUT_CHARS
      then Inl (ValueError ''combined public execution output exceeds the limit'') else Inr e)"

definition new_PublicExecutionResultV3 :: "PublicExecutionResultV3 \<Rightarrow> value_error + PublicExecutionResultV3" where
  "new_PublicExecutionResultV3 e =
     rbind (require (length (pe_stdout e) \<le> MAX_CAPTURED_OUTPUT_CHARS) ''stdout too long'') (\<lambda>_.
     rbind (require (length (pe_stderr e) \<le> MAX_CAPTURED_OUTPUT_CHARS) ''stderr too long'') (\<lambda>_.
     rbind (require (0 \<le> pe_duration_ms e) ''duration_ms is negative'') (\<lambda>_.
     validate_output_limit e)))"

definition from_execution :: "ExecutionResult \<Rightarrow> value_error + PublicExecutionResultV3" where
  "from_execution r = new_PublicExecutionResultV3
     \<lparr>pe_status = er_status r, pe_stdout = er_stdout r, pe_stderr = er_stderr r, pe_exit_code = er_exit_code r,
      pe_timed_out = er_timed_out r, pe_truncated = er_truncated r, pe_duration_ms = er_duration_ms r\<rparr>"

datatype PublicPersistenceStatusV3 = Public_saved | Public_unavailable

record SubmitSolutionResponseV3 =
  ps_submission_id :: "int option"
  ps_submitted_at :: date_time
  ps_verdict :: JudgeVerdict
  ps_reason :: "JudgeReason option"
  ps_execution :: PublicExecutionResultV3
  ps_artifact :: "PublicArtifactV3 option"
  ps_persistence :: PublicPersistenceStatusV3

definition validate_persistence :: "SubmitSolutionResponseV3 \<Rightarrow> value_error + SubmitSolutionResponseV3" where
  "validate_persistence r =
     (if dt_offset (ps_submitted_at r) = None
      then Inl (ValueError ''submission timestamp must include a timezone'')
      else if ps_persistence r = Public_saved
      then (if ps_submission_id r = None then Inl (ValueError ''saved response must contain a submission ID'') else Inr r)
      else if ps_submission_id r \<noteq> None then Inl (ValueError ''unsaved response must not contain a submission ID'')
      else Inr r)"

definition new_SubmitSolutionResponseV3 :: "SubmitSolutionResponseV3 \<Rightarrow> value_error + SubmitSolutionResponseV3" where
  "new_SubmitSolutionResponseV3 r =
     rbind (require (case ps_submission_id r of None \<Rightarrow> True | Some i \<Rightarrow> 0 < i) ''submission_id must be positive'') (\<lambda>_.
     validate_persistence r)"

definition public_artifact :: "ExecutionArtifact option \<Rightarrow> value_error + PublicArtifactV3 option" where
  "public_artifact artifact =
     (case artifact of
        None \<Rightarrow> Inr None
      | Some a \<Rightarrow> rbind (new_PublicArtifactV3 (art_media_type a) (art_data a)) (\<lambda>p. Inr (Some p)))"

definition from_submission :: "pil \<Rightarrow> SubmissionResult \<Rightarrow> value_error + SubmitSolutionResponseV3" where
  "from_submission pil result =
     (if sr_status result \<noteq> Sub_completed then Inl (ValueError ''submission result is not completed'')
      else (case (sr_execution result, sr_judgment result) of
         (Some execution, Some j) \<Rightarrow>
           (let artifact = select_display_artifact pil execution in
            rbind (case sr_persistence result of
                     Saved \<Rightarrow> Inr Public_saved
                   | Unavailable \<Rightarrow> Inr Public_unavailable
                   | Not_attempted \<Rightarrow> Inl (ValueError ''completed submission did not attempt persistence'')) (\<lambda>persistence.
            rbind (from_execution execution) (\<lambda>public_execution.
            rbind (public_artifact artifact) (\<lambda>public_artifact.
            new_SubmitSolutionResponseV3
              \<lparr>ps_submission_id = sr_log_id result, ps_submitted_at = sr_submitted_at result,
               ps_verdict = jr_verdict j, ps_reason = jr_reason j, ps_execution = public_execution,
               ps_artifact = public_artifact, ps_persistence = persistence\<rparr>))))
       | _ \<Rightarrow> Inl (ValueError ''completed submission result is inconsistent'')))"

datatype PublicApiErrorCodeV3 = Api_problem_not_found | Api_runner_busy | Api_runner_unavailable

record PublicApiErrorV3 =
  ae_code :: PublicApiErrorCodeV3
  ae_message :: pystr

definition new_PublicApiErrorV3 :: "PublicApiErrorCodeV3 \<Rightarrow> pystr \<Rightarrow> value_error + PublicApiErrorV3" where
  "new_PublicApiErrorV3 code message =
     rbind (require (1 \<le> length message \<and> length message \<le> 128) ''message length'') (\<lambda>_.
     Inr \<lparr>ae_code = code, ae_message = message\<rparr>)"

subsection \<open>JSON forms\<close>

definition dump_PublicExecution :: "PublicExecutionResultV3 \<Rightarrow> pyval" where
  "dump_PublicExecution e = PDict
     [(lit ''status'', PStr (status_text (pe_status e))), (lit ''stdout'', PStr (pe_stdout e)),
      (lit ''stderr'', PStr (pe_stderr e)), (lit ''exit_code'', dump_option PInt (pe_exit_code e)),
      (lit ''timed_out'', PBool (pe_timed_out e)), (lit ''truncated'', PBool (pe_truncated e)),
      (lit ''duration_ms'', PInt (pe_duration_ms e))]"

definition dump_PublicArtifact :: "PublicArtifactV3 \<Rightarrow> pyval" where
  "dump_PublicArtifact a = PDict
     [(lit ''media_type'', PStr (media_text (pa_media_type a))), (lit ''data'', PStr (pa_data a))]"

definition public_persistence_text :: "PublicPersistenceStatusV3 \<Rightarrow> pystr" where
  "public_persistence_text p = lit (case p of Public_saved \<Rightarrow> ''saved'' | Public_unavailable \<Rightarrow> ''unavailable'')"

definition dump_SubmitSolutionResponseV3 :: "(date_time \<Rightarrow> pystr) \<Rightarrow> SubmitSolutionResponseV3 \<Rightarrow> pyval" where
  "dump_SubmitSolutionResponseV3 isoformat r = PDict
     [(lit ''api_version'', PInt 3), (lit ''submission_id'', dump_option PInt (ps_submission_id r)),
      (lit ''submitted_at'', PStr (isoformat (ps_submitted_at r))),
      (lit ''verdict'', PStr (verdict_text (ps_verdict r))),
      (lit ''reason'', dump_option (PStr \<circ> reason_text) (ps_reason r)),
      (lit ''execution'', dump_PublicExecution (ps_execution r)),
      (lit ''artifact'', dump_option dump_PublicArtifact (ps_artifact r)),
      (lit ''persistence'', PStr (public_persistence_text (ps_persistence r)))]"

subsection \<open>The submission handlers\<close>

definition MAX_PUBLIC_SUBMISSION_RESPONSE_BYTES :: nat where
  "MAX_PUBLIC_SUBMISSION_RESPONSE_BYTES = 1025000"

type_synonym header_list = "(string \<times> string) list"

definition SUBMISSION_RESPONSE_HEADERS :: header_list where
  "SUBMISSION_RESPONSE_HEADERS = [(''Cache-Control'', ''no-store''), (''X-Content-Type-Options'', ''nosniff'')]"

definition TEMPORARY_FAILURE_HEADERS :: header_list where
  "TEMPORARY_FAILURE_HEADERS = SUBMISSION_RESPONSE_HEADERS @ [(''Retry-After'', ''1'')]"

datatype v3_answer = V3_response SubmitSolutionResponseV3 | V3_error int PublicApiErrorV3 header_list

definition public_error_response_v3 ::
  "int \<Rightarrow> PublicApiErrorCodeV3 \<Rightarrow> string \<Rightarrow> bool \<Rightarrow> exn + v3_answer" where
  "public_error_response_v3 status_code code message retryable =
     (case new_PublicApiErrorV3 code (lit message) of
        Inl (ValueError m) \<Rightarrow> Inl (lit m)
      | Inr e \<Rightarrow>
          Inr (V3_error status_code e
                 (if retryable then TEMPORARY_FAILURE_HEADERS else SUBMISSION_RESPONSE_HEADERS)))"

definition submission_response_v3 ::
  "pil \<Rightarrow> (date_time \<Rightarrow> pystr) \<Rightarrow> (pyval \<Rightarrow> bytes) \<Rightarrow> SubmissionResult \<Rightarrow> exn + v3_answer" where
  "submission_response_v3 pil isoformat json_dump result =
     (case sr_status result of
        Sub_problem_not_found \<Rightarrow>
          public_error_response_v3 404 Api_problem_not_found ''Problem not found'' False
      | Sub_runner_busy \<Rightarrow>
          public_error_response_v3 429 Api_runner_busy ''Runner capacity is temporarily exhausted'' True
      | Sub_runner_unavailable \<Rightarrow>
          public_error_response_v3 503 Api_runner_unavailable ''Runner is unavailable'' True
      | Sub_completed \<Rightarrow>
          (case from_submission pil result of
             Inl (ValueError m) \<Rightarrow> Inl (lit m)
           | Inr response \<Rightarrow>
               if length (json_dump (dump_SubmitSolutionResponseV3 isoformat response))
                    > MAX_PUBLIC_SUBMISSION_RESPONSE_BYTES
               then Inl (lit ''public submission response exceeded the byte limit'')
               else Inr (V3_response response)))"

record ShellgeiResultResponse =
  lg_output :: pystr
  lg_id :: pystr
  lg_date :: pystr
  lg_image :: pystr
  lg_image_media_type :: "ImageMediaType option"
  lg_judge :: pystr

datatype legacy_answer = Legacy_response ShellgeiResultResponse | Legacy_error int string

definition unavailable_response :: "(date_time \<Rightarrow> pystr) \<Rightarrow> string \<Rightarrow> SubmissionResult \<Rightarrow> ShellgeiResultResponse" where
  "unavailable_response strftime message result =
     \<lparr>lg_output = lit message, lg_id = lit ''-1'', lg_date = strftime (sr_submitted_at result), lg_image = [],
      lg_image_media_type = None, lg_judge = lit ''4''\<rparr>"

definition submission_response ::
  "pil \<Rightarrow> (date_time \<Rightarrow> pystr) \<Rightarrow> (int \<Rightarrow> pystr) \<Rightarrow> SubmissionResult \<Rightarrow> exn + legacy_answer" where
  "submission_response pil strftime decimal result =
     (case sr_status result of
        Sub_problem_not_found \<Rightarrow> Inr (Legacy_error 404 ''Problem not found'')
      | Sub_runner_busy \<Rightarrow>
          Inr (Legacy_response (unavailable_response strftime ''Error: server is busy.'' result))
      | Sub_runner_unavailable \<Rightarrow>
          Inr (Legacy_response (unavailable_response strftime ''Error: runner is unavailable.'' result))
      | Sub_completed \<Rightarrow>
          (case (sr_execution result, sr_judgment result) of
             (Some execution, Some j) \<Rightarrow>
               (let artifact = select_display_artifact pil execution in
                Inr (Legacy_response
                  \<lparr>lg_output = legacy_output (int MAX_CAPTURED_OUTPUT_CHARS) execution,
                   lg_id = decimal (case sr_log_id result of None \<Rightarrow> - 1 | Some i \<Rightarrow> i),
                   lg_date = strftime (sr_submitted_at result),
                   lg_image = (case artifact of None \<Rightarrow> [] | Some a \<Rightarrow> art_data a),
                   lg_image_media_type = map_option art_media_type artifact,
                   lg_judge = legacy_code j\<rparr>))
           | _ \<Rightarrow> Inl (lit ''completed submission result is inconsistent'')))"

subsection \<open>The problem handlers\<close>

definition PROBLEM_LIST_CACHE_CONTROL :: string where
  "PROBLEM_LIST_CACHE_CONTROL = ''public, max-age=300''"

datatype list_answer = Not_modified "(string \<times> pystr) list" | List_body bytes "(string \<times> pystr) list"

text \<open>\<open>str.strip()\<close> without arguments removes white space; its characters are a parameter.\<close>

definition get_problems_list ::
  "pystr \<Rightarrow> loaded_repository \<Rightarrow> pystr option \<Rightarrow> exn + list_answer" where
  "get_problems_list white_space loaded if_none_match =
     (case get_problem_repository loaded of
        Inl m \<Rightarrow> Inl (lit m)
      | Inr repository \<Rightarrow>
          (let catalog = rp_catalog repository;
               headers = [(''Cache-Control'', lit PROBLEM_LIST_CACHE_CONTROL), (''ETag'', pc_etag catalog)] in
           if (case if_none_match of None \<Rightarrow> False
               | Some v \<Rightarrow> pc_etag catalog \<in> set (map (strip white_space) (split_on 44 v)))
           then Inr (Not_modified headers)
           else Inr (List_body (pc_response_body catalog) headers)))"

definition get_problem ::
  "loaded_repository \<Rightarrow> pystr \<Rightarrow> exn + (pystr \<times> pystr) list option" where
  "get_problem loaded problem_id =
     (case get_problem_repository loaded of
        Inl m \<Rightarrow> Inl (lit m)
      | Inr repository \<Rightarrow> Inr (map_option api_detail (repository_get repository problem_id)))"

subsection \<open>Completed submissions can always be answered\<close>

text \<open>What the runner puts into an artifact: the Base64 text of a non-empty file.\<close>

definition wire_artifact :: "ExecutionArtifact \<Rightarrow> bool" where
  "wire_artifact a \<longleftrightarrow> valid_artifact a \<and> (\<exists>b. b \<noteq> [] \<and> art_data a = b64encode b)"

definition wire_result :: "ExecutionResult \<Rightarrow> bool" where
  "wire_result r \<longleftrightarrow> consistent r \<and> list_all wire_artifact (artifacts_of r)
     \<and> small_int (er_duration_ms r) \<and> (\<forall>i. er_exit_code r = Some i \<longrightarrow> small_int i)"

text \<open>The results of \<open>exec_shellgei\<close> over the sandbox executor have this form: it reports no empty file
  (\<open>ok_artifacts\<close>), and every artifact is encoded by \<open>to_execution_result\<close>.\<close>

lemma opt_bind_artifact_wire:
  assumes "opt_bind x (\<lambda>a. new_ExecutionArtifact p m (b64encode a)) = Inr (Some y)" and "\<forall>b. x = Some b \<longrightarrow> b \<noteq> []"
  shows "wire_artifact y"
  using assms by (auto simp: opt_bind_def rbind_eq_Inr new_ExecutionArtifact_iff valid_artifact_def wire_artifact_def
      split: option.splits)

lemma to_execution_result_wire:
  assumes "to_execution_result outcome record limit = Inr r"
    and "ok_artifacts record (so_artifact outcome) (so_display_artifact outcome)"
  shows "consistent r \<and> list_all wire_artifact (artifacts_of r)"
proof -
  have full: "\<forall>b. so_artifact outcome = Some b \<longrightarrow> b \<noteq> []" "\<forall>b. so_display_artifact outcome = Some b \<longrightarrow> b \<noteq> []"
    using assms(2) by (auto simp: ok_artifacts_def)
  obtain status art disp where a: "judge_artifact_result status record (so_artifact outcome) = Inr art"
    and d: "display_artifact_result status (so_display_artifact outcome) = Inr disp"
    and r: "consistent r" "er_artifact r = art" "er_display_artifact r = disp"
    using assms(1) by (auto simp: to_execution_result_def Let_def rbind_eq_Inr new_ExecutionResult_iff split: prod.splits)
  have "wire_artifact y" if "art = Some y" for y
    using a that opt_bind_artifact_wire [OF _ full(1)]
    by (auto simp: judge_artifact_result_def split: JudgeSpecification.splits if_splits)
  moreover have "wire_artifact y" if "disp = Some y" for y
    using d that opt_bind_artifact_wire [OF _ full(2)] by (auto simp: display_artifact_result_def split: if_splits)
  ultimately show ?thesis
    using r by (auto simp: artifacts_of_def opt_items_def split: option.splits)
qed

lemma exec_shellgei_wire:
  assumes "fst (exec_shellgei str_error repository
      (\<lambda>rec sh l. sandbox_execute get release runs rec sh l t) shellgei problem_id limit w) = Inr r"
    and judges: "\<And>p rec. repository p = Some rec \<Longrightarrow> ok_judge rec" and limit: "1 \<le> limit"
    and ints: "small_int (er_duration_ms r)" "\<And>i. er_exit_code r = Some i \<Longrightarrow> small_int i"
  shows "wire_result r"
proof -
  have err: "consistent r \<and> list_all wire_artifact (artifacts_of r)" if "error_result m = Inr r" for m
  proof -
    have "consistent r" using that by (simp add: error_result_def new_ExecutionResult_iff)
    then show ?thesis using that by (auto simp: error_result_iff make_error_result_def artifacts_of_def)
  qed
  have "(\<exists>m. error_result m = Inr r) \<or> (\<exists>rec out. repository problem_id = Some rec
      \<and> fst (sandbox_execute get release runs rec shellgei limit t w) = Inr out \<and> to_execution_result out rec limit = Inr r)"
  proof (rule ccontr)
    assume no: "\<not> ?thesis"
    show False using assms(1) no
      by (auto simp: exec_shellgei_def split: sum.splits option.splits prod.splits acquisition_error.splits)
  qed
  then have "consistent r \<and> list_all wire_artifact (artifacts_of r)"
  proof (elim disjE exE conjE)
    fix rec out assume rec: "repository problem_id = Some rec"
      and out: "fst (sandbox_execute get release runs rec shellgei limit t w) = Inr out"
      and r: "to_execution_result out rec limit = Inr r"
    have "ok_outcome rec limit out" by (rule sandbox_execute_ok [OF out limit judges [OF rec]])
    then show ?thesis using to_execution_result_wire [OF r] by (simp add: ok_outcome_def)
  qed (rule err)
  then show ?thesis using ints by (simp add: wire_result_def)
qed

lemma wire_artifact_public:
  assumes "wire_artifact a"
  shows "new_PublicArtifactV3 (art_media_type a) (art_data a) =
    Inr \<lparr>pa_media_type = art_media_type a, pa_data = art_data a\<rparr>"
proof -
  obtain b where b: "b \<noteq> []" "art_data a = b64encode b" "length (art_data a) \<le> 1000000"
    using assms by (auto simp: wire_artifact_def valid_artifact_def)
  have "3 \<le> length b + 2" using b(1) by (cases b) auto
  then have "1 \<le> (length b + 2) div 3" by (simp add: Suc_leI)
  then have "4 \<le> length (b64encode b)" by (simp add: length_b64encode)
  then show ?thesis
    using b b64encode_pattern [of b]
    by (simp add: new_PublicArtifactV3_def MAX_RUNNER_IMAGE_BASE64_CHARS_def del: fullmatch.simps)
qed

lemma select_display_artifact_cases:
  "select_display_artifact pil r = Some a \<Longrightarrow> a \<in> set (artifacts_of r)"
  by (auto simp: select_display_artifact_def artifacts_of_def split: option.splits if_splits)

definition public_of :: "ExecutionArtifact \<Rightarrow> PublicArtifactV3" where
  "public_of a = \<lparr>pa_media_type = art_media_type a, pa_data = art_data a\<rparr>"

lemma public_artifact_total:
  assumes "list_all wire_artifact (artifacts_of r)"
  shows "public_artifact (select_display_artifact pil r) = Inr (map_option public_of (select_display_artifact pil r))"
proof (cases "select_display_artifact pil r")
  case (Some a)
  then have "wire_artifact a" using assms select_display_artifact_cases by (auto simp: list_all_iff)
  then show ?thesis using Some by (simp add: public_artifact_def wire_artifact_public public_of_def)
qed (simp add: public_artifact_def)

lemma from_execution_total:
  "consistent r \<Longrightarrow> from_execution r = Inr
     \<lparr>pe_status = er_status r, pe_stdout = er_stdout r, pe_stderr = er_stderr r, pe_exit_code = er_exit_code r,
      pe_timed_out = er_timed_out r, pe_truncated = er_truncated r, pe_duration_ms = er_duration_ms r\<rparr>"
  by (simp add: from_execution_def new_PublicExecutionResultV3_def validate_output_limit_def consistent_def
      MAX_CAPTURED_OUTPUT_CHARS_def)

definition public_view :: "pil \<Rightarrow> SubmissionResult \<Rightarrow> ExecutionResult \<Rightarrow> JudgeResult \<Rightarrow> SubmitSolutionResponseV3" where
  "public_view pil s r j =
     \<lparr>ps_submission_id = sr_log_id s, ps_submitted_at = sr_submitted_at s, ps_verdict = jr_verdict j,
      ps_reason = jr_reason j,
      ps_execution = \<lparr>pe_status = er_status r, pe_stdout = er_stdout r, pe_stderr = er_stderr r,
        pe_exit_code = er_exit_code r, pe_timed_out = er_timed_out r, pe_truncated = er_truncated r,
        pe_duration_ms = er_duration_ms r\<rparr>,
      ps_artifact = map_option public_of (select_display_artifact pil r),
      ps_persistence = (if sr_persistence s = Saved then Public_saved else Public_unavailable)\<rparr>"

lemma from_submission_total:
  assumes "result_ok s" "sr_status s = Sub_completed" "sr_execution s = Some r" "sr_judgment s = Some j" "wire_result r"
  shows "from_submission pil s = Inr (public_view pil s r j)"
proof -
  have w: "consistent r" "list_all wire_artifact (artifacts_of r)" using assms(5) by (simp_all add: wire_result_def)
  have p: "sr_persistence s = Saved \<and> sr_log_id s \<noteq> None \<or> sr_persistence s = Unavailable \<and> sr_log_id s = None"
    "dt_offset (sr_submitted_at s) \<noteq> None" "\<forall>i. sr_log_id s = Some i \<longrightarrow> 0 < i"
    using assms(1,2) by (auto simp: result_ok_def)
  show ?thesis
    using p assms(2,3,4)
    by (auto simp: from_submission_def from_execution_total [OF w(1)] public_artifact_total [OF w(2)]
        new_SubmitSolutionResponseV3_def validate_persistence_def public_view_def Let_def)
qed

lemma verdict_size: "json_str_size (verdict_text v) \<le> 200"
  using lit_size [of "''accepted''"] lit_size [of "''wrong_answer''"] lit_size [of "''wrong_image''"]
    lit_size [of "''wrong_text_and_image''"] lit_size [of "''execution_failure''"] lit_size [of "''judge_error''"]
  by (cases v) (simp_all add: verdict_text_def)

lemma persistence_size: "json_str_size (public_persistence_text p) \<le> 200"
  using lit_size [of "''saved''"] lit_size [of "''unavailable''"]
  by (cases p) (simp_all add: public_persistence_text_def)

lemma reason_size: "json_size (dump_option (PStr \<circ> reason_text) x) \<le> 400"
proof (cases x)
  case (Some r)
  have "json_str_size (reason_text r) \<le> 2 + 6 * length (reason_text r)" by (rule json_str_size_bound)
  then show ?thesis using Some column_texts_fit(3) [of r] by (simp add: dump_option_def)
qed (simp add: dump_option_def)

lemma option_int_size: "(\<And>i. x = Some i \<Longrightarrow> small_int i) \<Longrightarrow> json_size (dump_option PInt x) \<le> 21"
  using json_int_bound by (cases x) (auto simp: dump_option_def small_int_def)

lemma public_execution_size:
  assumes "wire_result r"
  shows "json_size (dump_PublicExecution (ps_execution (public_view pil s r j))) \<le> 7000"
proof -
  have out: "json_str_size (er_stdout r) + json_str_size (er_stderr r) \<le> 6004"
    using assms json_str_size_bound [of "er_stdout r"] json_str_size_bound [of "er_stderr r"]
    by (auto simp: wire_result_def consistent_def)
  have ints: "json_size (dump_option PInt (er_exit_code r)) \<le> 21" "json_size (PInt (er_duration_ms r)) \<le> 21"
    using assms json_int_bound by (auto intro!: option_int_size simp: wire_result_def small_int_def)
  show ?thesis
    using out ints status_size [of "er_status r"]
      lit_size [of "''status''"] lit_size [of "''stdout''"] lit_size [of "''stderr''"] lit_size [of "''exit_code''"]
      lit_size [of "''timed_out''"] lit_size [of "''truncated''"] lit_size [of "''duration_ms''"]
    by (simp add: dump_PublicExecution_def public_view_def)
qed

lemma public_artifact_size:
  assumes "wire_result r"
  shows "json_size (dump_option dump_PublicArtifact (map_option public_of (select_display_artifact pil r))) \<le> 1001000"
proof (cases "select_display_artifact pil r")
  case (Some a)
  then have "wire_artifact a" using assms select_display_artifact_cases by (auto simp: wire_result_def list_all_iff)
  then have a: "json_str_size (art_data a) \<le> 1000002"
    using json_str_size_plain [OF b64_plain] by (auto simp: wire_artifact_def valid_artifact_def)
  have "json_str_size (media_text (art_media_type a)) \<le> 62"
    using lit_size [of "''image/jpeg''"] lit_size [of "''image/gif''"]
    by (cases "art_media_type a") (simp_all add: media_text_def)
  then show ?thesis
    using Some a lit_size [of "''media_type''"] lit_size [of "''data''"]
    by (simp add: dump_option_def dump_PublicArtifact_def public_of_def)
qed (simp add: dump_option_def)

lemma public_response_fits:
  assumes "wire_result r" and "length (isoformat (sr_submitted_at s)) \<le> 64"
    and "\<And>i. sr_log_id s = Some i \<Longrightarrow> small_int i"
  shows "json_size (dump_SubmitSolutionResponseV3 isoformat (public_view pil s r j)) \<le> MAX_PUBLIC_SUBMISSION_RESPONSE_BYTES"
proof -
  have t: "json_str_size (isoformat (sr_submitted_at s)) \<le> 386"
    using json_str_size_bound [of "isoformat (sr_submitted_at s)"] assms(2) by simp
  have three: "decimal_width 3 = 1" by (simp add: decimal_width.simps)
  have i: "json_size (dump_option PInt (sr_log_id s)) \<le> 21" using assms(3) by (rule option_int_size)
  show ?thesis
    using t three i public_execution_size [OF assms(1), of pil s j] public_artifact_size [OF assms(1), of pil]
      verdict_size [of "jr_verdict j"] reason_size [of "jr_reason j"]
      persistence_size [of "ps_persistence (public_view pil s r j)"]
      lit_size [of "''api_version''"] lit_size [of "''submission_id''"] lit_size [of "''submitted_at''"]
      lit_size [of "''verdict''"] lit_size [of "''reason''"] lit_size [of "''execution''"]
      lit_size [of "''artifact''"] lit_size [of "''persistence''"]
    by (simp add: dump_SubmitSolutionResponseV3_def MAX_PUBLIC_SUBMISSION_RESPONSE_BYTES_def
        public_view_def)
qed

subsection \<open>Properties\<close>

definition v3_view :: "pil \<Rightarrow> SubmissionResult \<Rightarrow> v3_answer" where
  "v3_view pil s =
     (case sr_status s of
        Sub_completed \<Rightarrow> V3_response (public_view pil s (the (sr_execution s)) (the (sr_judgment s)))
      | Sub_problem_not_found \<Rightarrow>
          V3_error 404 \<lparr>ae_code = Api_problem_not_found, ae_message = lit ''Problem not found''\<rparr> SUBMISSION_RESPONSE_HEADERS
      | Sub_runner_busy \<Rightarrow>
          V3_error 429 \<lparr>ae_code = Api_runner_busy, ae_message = lit ''Runner capacity is temporarily exhausted''\<rparr>
            TEMPORARY_FAILURE_HEADERS
      | Sub_runner_unavailable \<Rightarrow>
          V3_error 503 \<lparr>ae_code = Api_runner_unavailable, ae_message = lit ''Runner is unavailable''\<rparr>
            TEMPORARY_FAILURE_HEADERS)"

text \<open>A completed submission whose execution has the runner's form, or a refused one, is answered.\<close>

lemma submission_answered_v3:
  assumes "result_ok s" and wire: "\<And>r. sr_execution s = Some r \<Longrightarrow> wire_result r"
    and size: "\<And>v. length (json_dump v) \<le> json_size v"
    and "length (isoformat (sr_submitted_at s)) \<le> 64" and "\<And>i. sr_log_id s = Some i \<Longrightarrow> small_int i"
  shows "submission_response_v3 pil isoformat json_dump s = Inr (v3_view pil s)"
proof (cases "sr_status s")
  case Sub_completed
  then obtain r j where rj: "sr_execution s = Some r" "sr_judgment s = Some j"
    using assms(1) by (auto simp: result_ok_def)
  have w: "wire_result r" using rj(1) by (rule wire)
  have "json_size (dump_SubmitSolutionResponseV3 isoformat (public_view pil s r j)) \<le> MAX_PUBLIC_SUBMISSION_RESPONSE_BYTES"
    using w assms(4,5) by (rule public_response_fits)
  then have "length (json_dump (dump_SubmitSolutionResponseV3 isoformat (public_view pil s r j)))
      \<le> MAX_PUBLIC_SUBMISSION_RESPONSE_BYTES"
    using size order_trans by blast
  then show ?thesis
    using Sub_completed rj from_submission_total [OF assms(1) Sub_completed rj w, of pil]
    by (simp add: submission_response_v3_def v3_view_def)
qed (simp_all add: submission_response_v3_def v3_view_def public_error_response_v3_def new_PublicApiErrorV3_def)

text \<open>Whatever the submission result and the encoder, a response that is sent respects the limit.\<close>

lemma v3_body_bounded:
  assumes "submission_response_v3 pil isoformat json_dump s = Inr (V3_response response)"
  shows "length (json_dump (dump_SubmitSolutionResponseV3 isoformat response)) \<le> MAX_PUBLIC_SUBMISSION_RESPONSE_BYTES"
  using assms
  by (auto simp: submission_response_v3_def public_error_response_v3_def
      split: SubmissionStatus.splits sum.splits value_error.splits if_splits)

text \<open>C16: Every consistent submission result whose execution, where it has one, was returned by the
  runner's \<open>exec_shellgei\<close>, whatever the sandbox did, is answered by the v3 handler: a completed one by
  the response that shows it, a refused one by the fixed status, code and message of its kind; the
  handler does not raise. And whatever result it is given and however the JSON is encoded, it never
  sends a response body of more than 1,025,000 bytes. The numbers in the result are assumed to have at
  most 20 digits, a formatted date at most 64 characters.\<close>

theorem v3_answers_every_submission:
  assumes "result_ok s"
    and run: "\<And>r. sr_execution s = Some r \<Longrightarrow> fst (exec_shellgei str_error repository
      (\<lambda>rec sh l. sandbox_execute get release runs rec sh l t) shellgei problem_id limit w) = Inr r
      \<and> small_int (er_duration_ms r) \<and> (\<forall>i. er_exit_code r = Some i \<longrightarrow> small_int i)"
    and judges: "\<And>p rec. repository p = Some rec \<Longrightarrow> ok_judge rec" and limit: "1 \<le> limit"
    and size: "\<And>v. length (json_dump v) \<le> json_size v"
    and "length (isoformat (sr_submitted_at s)) \<le> 64" and "\<And>i. sr_log_id s = Some i \<Longrightarrow> small_int i"
  shows "submission_response_v3 pil isoformat json_dump s = Inr (v3_view pil s)
    \<and> (\<forall>dump s' response. submission_response_v3 pil isoformat dump s' = Inr (V3_response response) \<longrightarrow>
         length (dump (dump_SubmitSolutionResponseV3 isoformat response)) \<le> 1025000)"
proof
  have "wire_result r" if "sr_execution s = Some r" for r
    using exec_shellgei_wire [of str_error repository get release runs t shellgei problem_id limit w r]
      run [OF that] judges limit by blast
  then show "submission_response_v3 pil isoformat json_dump s = Inr (v3_view pil s)"
    using submission_answered_v3 [of s json_dump isoformat pil] assms(1,5,6,7) by blast
  show "\<forall>dump s' response. submission_response_v3 pil isoformat dump s' = Inr (V3_response response) \<longrightarrow>
         length (dump (dump_SubmitSolutionResponseV3 isoformat response)) \<le> 1025000"
    using v3_body_bounded by (auto simp: MAX_PUBLIC_SUBMISSION_RESPONSE_BYTES_def)
qed

definition sample_submission :: SubmissionResult where
  "sample_submission = \<lparr>sr_status = Sub_completed, sr_submitted_at = sample_time,
     sr_execution = Some (make_error_result (lit ''problem not found'') 0),
     sr_judgment = Some (judged EXECUTION_FAILURE (Some EXECUTION_ERROR)), sr_log_id = Some 7, sr_persistence = Saved\<rparr>"

theorem v3_answers_every_submission_witness:
  "submission_response_v3 (\<lambda>_. None) (\<lambda>_. []) (\<lambda>_. []) sample_submission = Inr (v3_view (\<lambda>_. None) sample_submission)"
proof -
  have "validate_problem_id (lit ''STANDARD-1'') = Inr (lit ''STANDARD-1'')"
    using sample_request_ok by (simp add: request_ok_def sample_request_def validate_problem_id_iff)
  then have run: "fst (exec_shellgei (\<lambda>_. []) (\<lambda>_. None)
      (\<lambda>rec sh l. sandbox_execute (\<lambda>w. (Inl [], w)) (\<lambda>c b w. w) (\<lambda>c. sample_run) rec sh l 0) [] (lit ''STANDARD-1'') 1000 ())
      = Inr (make_error_result (lit ''problem not found'') 0)"
    by (simp add: exec_shellgei_def error_result_ok)
  have ok: "result_ok sample_submission" by (simp add: result_ok_def sample_submission_def sample_time_def)
  have "fst (exec_shellgei (\<lambda>_. []) (\<lambda>_. None)
      (\<lambda>rec sh l. sandbox_execute (\<lambda>w. (Inl [], w)) (\<lambda>c b w. w) (\<lambda>c. sample_run) rec sh l 0) [] (lit ''STANDARD-1'') 1000 ())
      = Inr r \<and> small_int (er_duration_ms r) \<and> (\<forall>i. er_exit_code r = Some i \<longrightarrow> small_int i)"
    if "sr_execution sample_submission = Some r" for r
  proof -
    have r: "r = make_error_result (lit ''problem not found'') 0" using that by (simp add: sample_submission_def)
    show ?thesis unfolding r run by (simp add: make_error_result_def small_int_def)
  qed
  from v3_answers_every_submission [where repository = "\<lambda>_. None", OF ok this]
  show ?thesis by (simp add: sample_submission_def small_int_def)
qed

end
