(* ===== verification/Correlation.thy ===== *)
theory Correlation
  imports Public_Api
begin

section \<open>Request correlation\<close>

text \<open>
  \<open>soj_backend/request_correlation.py\<close>: the middleware that gives each public submission an ID of the
  server, puts it on the response and logs the completion. The inner application is a function of
  the context it runs in to the messages it sends, whether it raises, and the event log it leaves.
\<close>

definition REQUEST_ID_RESPONSE_HEADER :: bytes where
  "REQUEST_ID_RESPONSE_HEADER = ascii_bytes (lit ''x-request-id'')"

text \<open>\<open>http.response.start\<close> with status and headers, or another message.\<close>

datatype sent_message = Response_start int "(bytes \<times> bytes) list" | Response_other bytes

definition public_submission_endpoint :: "pystr \<Rightarrow> LogEndpoint option" where
  "public_submission_endpoint path =
     (if path = lit ''/api/shellgei'' then Some LEGACY_SUBMISSION
      else if path = lit ''/api/v3/submissions'' then Some V3_SUBMISSION else None)"

definition send_with_request_id :: "pystr \<Rightarrow> int \<Rightarrow> sent_message \<Rightarrow> int \<times> sent_message" where
  "send_with_request_id request_id http_status m =
     (case m of
        Response_start status headers \<Rightarrow>
          (status, Response_start status
             (filter (\<lambda>(name, _). map lower_byte name \<noteq> REQUEST_ID_RESPONSE_HEADER) headers
              @ [(REQUEST_ID_RESPONSE_HEADER, ascii_bytes request_id)]))
      | Response_other b \<Rightarrow> (http_status, Response_other b))"

fun send_all :: "pystr \<Rightarrow> int \<Rightarrow> sent_message list \<Rightarrow> int \<times> sent_message list" where
  "send_all request_id http_status [] = (http_status, [])"
| "send_all request_id http_status (m # ms) =
     (let (status, m') = send_with_request_id request_id http_status m;
          (final, ms') = send_all request_id status ms
      in (final, m' # ms'))"

record app_run =
  ar_sent :: "sent_message list"
  ar_raised :: "exn option"
  ar_log :: event_log

definition request_completed :: "pystr \<Rightarrow> LogEndpoint \<Rightarrow> int \<Rightarrow> int \<Rightarrow> SafeLogEvent" where
  "request_completed request_id endpoint http_status duration =
     (blank_event HTTP_REQUEST_COMPLETED Log_backend_http)
       \<lparr>ev_request_id := Some request_id, ev_endpoint := Some endpoint, ev_http_status := Some http_status,
        ev_duration_ms := Some duration\<rparr>"

text \<open>What the server sends and the exception that leaves the middleware; an exception of the logging
  call in the \<open>finally\<close> clause replaces the application's.\<close>

definition correlation_middleware ::
  "(reqctx \<Rightarrow> event_log \<Rightarrow> app_run) \<Rightarrow> pystr \<Rightarrow> int \<Rightarrow> int \<Rightarrow> pystr \<Rightarrow> pystr \<Rightarrow> reqctx \<Rightarrow> event_log \<Rightarrow> app_run \<times> reqctx" where
  "correlation_middleware app request_id started_ns finished_ns scope_type path ctx events =
     (case (if scope_type = lit ''http'' then public_submission_endpoint path else None) of
        None \<Rightarrow> (app ctx events, ctx)
      | Some endpoint \<Rightarrow>
          (case bind_request_id request_id
                  (\<lambda>c. (let run = app c events;
                           (http_status, sent) = send_all request_id 500 (ar_sent run);
                           (logged, events1) = log_safe_event INFO
                             (request_completed request_id endpoint http_status (elapsed_ms started_ns finished_ns))
                             (ar_log run)
                        in (\<lparr>ar_sent = sent,
                             ar_raised = (case logged of Inl (ValueError m) \<Rightarrow> Some (lit m) | Inr _ \<Rightarrow> ar_raised run),
                             ar_log = events1\<rparr>, c))) ctx of
             (Inl (ValueError m), c) \<Rightarrow> (\<lparr>ar_sent = [], ar_raised = Some (lit m), ar_log = events\<rparr>, c)
           | (Inr run, c) \<Rightarrow> (run, c)))"

subsection \<open>What is sent\<close>

definition id_headers :: "(bytes \<times> bytes) list \<Rightarrow> bytes list" where
  "id_headers hs = map snd (filter (\<lambda>(n, _). map lower_byte n = REQUEST_ID_RESPONSE_HEADER) hs)"

lemma lower_header [simp]: "map lower_byte REQUEST_ID_RESPONSE_HEADER = REQUEST_ID_RESPONSE_HEADER"
  by (simp add: REQUEST_ID_RESPONSE_HEADER_def ascii_bytes_def lit_def lower_byte_def)

lemma sent_id_headers:
  "id_headers (filter (\<lambda>(name, _). map lower_byte name \<noteq> REQUEST_ID_RESPONSE_HEADER) hs
     @ [(REQUEST_ID_RESPONSE_HEADER, v)]) = [v]"
  by (auto simp: id_headers_def filter_empty_conv)

lemma send_all_headers:
  "Response_start status hs \<in> set (snd (send_all rid st ms)) \<Longrightarrow> id_headers hs = [ascii_bytes rid]"
  by (induction rid st ms rule: send_all.induct)
     (auto simp: send_with_request_id_def sent_id_headers Let_def split: prod.splits sent_message.splits)

definition start_codes :: "sent_message list \<Rightarrow> int list" where
  "start_codes ms = concat (map (\<lambda>m. case m of Response_start c _ \<Rightarrow> [c] | Response_other _ \<Rightarrow> []) ms)"

lemma start_codes_simps [simp]:
  "start_codes [] = []" "start_codes (Response_start c h # ms) = c # start_codes ms"
  "start_codes (Response_other b # ms) = start_codes ms"
  by (simp_all add: start_codes_def)

lemma fst_send_all: "fst (send_all rid st (m # ms)) = fst (send_all rid (fst (send_with_request_id rid st m)) ms)"
  by (simp add: Let_def case_prod_beta)

lemma send_all_status: "fst (send_all rid st ms) = last (st # start_codes ms)"
proof (induction ms arbitrary: st)
  case (Cons m ms)
  then show ?case by (cases m) (simp_all add: fst_send_all send_with_request_id_def del: send_all.simps)
qed simp

subsection \<open>Properties\<close>

text \<open>C17: A public submission runs with the server's request ID as its context, every response it starts
  carries that ID in exactly one header whatever the application put there, one completion event with
  the status sent is logged even when the application raises, and the context is restored.\<close>

theorem submissions_are_correlated:
  assumes "is_request_id rid" and "public_submission_endpoint path = Some endpoint"
    and codes: "list_all (\<lambda>c. 100 \<le> c \<and> c \<le> 599) (start_codes (ar_sent (app (Some rid) events)))"
    and run: "correlation_middleware app rid t0 t1 (lit ''http'') path ctx events = (run, ctx')"
  shows "ctx' = ctx \<and> ar_raised run = ar_raised (app (Some rid) events)
    \<and> (\<forall>status hs. Response_start status hs \<in> set (ar_sent run) \<longrightarrow> id_headers hs = [ascii_bytes rid])
    \<and> (\<exists>status. ar_log run = ar_log (app (Some rid) events) @ [(INFO, request_completed rid endpoint status (elapsed_ms t0 t1))]
        \<and> status = last (500 # start_codes (ar_sent (app (Some rid) events))))"
proof -
  let ?app = "app (Some rid) events"
  obtain http_status sent where s: "send_all rid 500 (ar_sent ?app) = (http_status, sent)" by fastforce
  have status: "http_status = last (500 # start_codes (ar_sent ?app))"
    using send_all_status [of rid 500 "ar_sent ?app"] s by simp
  have "100 \<le> http_status \<and> http_status \<le> 599"
  proof (cases "start_codes (ar_sent ?app) = []")
    case False
    then have "http_status \<in> set (start_codes (ar_sent ?app))" using status by simp
    then show ?thesis using codes by (simp add: list_all_iff)
  qed (simp add: status)
  then have "event_ok (request_completed rid endpoint http_status (elapsed_ms t0 t1))"
    using assms(1) by (simp add: event_ok_def request_completed_def elapsed_ms_def)
  then have "run = \<lparr>ar_sent = sent, ar_raised = ar_raised ?app,
      ar_log = ar_log ?app @ [(INFO, request_completed rid endpoint http_status (elapsed_ms t0 t1))]\<rparr> \<and> ctx' = ctx"
    using run assms(2) s
    by (simp add: correlation_middleware_def bind_request_id_valid [OF assms(1)] log_safe_event_ok Let_def)
  moreover have "id_headers hs = [ascii_bytes rid]" if "Response_start c hs \<in> set sent" for c hs
    using send_all_headers [of c hs rid 500 "ar_sent ?app"] that s by simp
  ultimately show ?thesis using status by simp
qed

definition sample_run_app :: "reqctx \<Rightarrow> event_log \<Rightarrow> app_run" where
  "sample_run_app = (\<lambda>_ events. \<lparr>ar_sent = [Response_start 200 []], ar_raised = None, ar_log = events\<rparr>)"

theorem submissions_are_correlated_witness:
  "\<exists>run. correlation_middleware sample_run_app (replicate 32 48) 0 5000000 (lit ''http'') (lit ''/api/shellgei'') None []
     = (run, None) \<and> ar_log run = [(INFO, request_completed (replicate 32 48) LEGACY_SUBMISSION 200 5)]"
proof -
  obtain run ctx' where r: "correlation_middleware sample_run_app (replicate 32 48) 0 5000000 (lit ''http'')
      (lit ''/api/shellgei'') None [] = (run, ctx')" by fastforce
  have id: "is_request_id (replicate 32 48)"
    using sample_response_valid by (simp add: valid_response_def sample_response_def)
  have p: "public_submission_endpoint (lit ''/api/shellgei'') = Some LEGACY_SUBMISSION"
    by (simp add: public_submission_endpoint_def)
  have c: "list_all (\<lambda>c. 100 \<le> c \<and> c \<le> 599) (start_codes (ar_sent (sample_run_app (Some (replicate 32 48)) [])))"
    by (simp add: sample_run_app_def start_codes_def)
  show ?thesis
    using submissions_are_correlated [OF id p c r] r
    by (simp add: sample_run_app_def start_codes_def elapsed_ms_def)
qed

end
