(* ===== verification/Backend.thy ===== *)
theory Backend
  imports Correlation
begin

section \<open>The backend as a whole\<close>

text \<open>
  The ports of the submission service on the model's own components: the problem repository, the
  runner client over any network, the judge, and the execution log over any database faults. The
  interpretation discharges the contract \<open>submission_ports\<close>, so that the service's guarantees hold of
  this composition. \<open>LoadedProblemRepo\<close> and \<open>AsyncExecutionLogRepo\<close> are the adapters in between.
\<close>

text \<open>What the outside offers to the next submission.\<close>

record backend_world =
  bw_env :: "pystr \<Rightarrow> pystr option"
  bw_revision :: pystr
  bw_network :: "http_request \<Rightarrow> http_reply"
  bw_json_dump :: "pyval \<Rightarrow> bytes"
  bw_json_parse :: "bytes \<Rightarrow> pyval option"
  bw_client_slot :: bool
  bw_log_slot :: bool
  bw_request_id :: pystr
  bw_faults :: db_faults
  bw_now :: int
  bw_retention_days :: int
  bw_max_rows :: int
  bw_clock_ns :: "int \<times> int"
  bw_table :: "log_row list"
  bw_events :: event_log

definition backend_execute :: "pystr \<Rightarrow> pystr \<Rightarrow> backend_world \<Rightarrow> (client_error + ExecutionResult) \<times> backend_world" where
  "backend_execute shellgei problem_id w =
     (client_execute (bw_client_slot w) (Inr (bw_request_id w))
        (execute_sync (bw_env w) (Inr (bw_revision w)) (bw_json_dump w) (bw_json_parse w) (bw_network w) shellgei problem_id),
      w)"

text \<open>\<open>AsyncExecutionLogRepo.save\<close>: the worker may refuse, the repository may fail.\<close>

definition backend_save :: "ExecutionLogEntry \<Rightarrow> pystr \<Rightarrow> backend_world \<Rightarrow> (save_error + int) \<times> backend_world" where
  "backend_save entry request_id w =
     (let (reply, table, events) =
        (if \<not> bw_log_slot w then (Save_repository_error, bw_table w, bw_events w)
         else (case save (bw_faults w) (bw_now w) (bw_retention_days w) (bw_max_rows w) entry (bw_table w) (bw_events w) of
                 (Inl ExecutionLogRepositoryError, table, events, _) \<Rightarrow> (Save_repository_error, table, events)
               | (Inr i, table, events, _) \<Rightarrow> (Save_done i, table, events)));
          (started_ns, finished_ns) = bw_clock_ns w;
          (outcome, events1) = save_execution_log_async reply started_ns finished_ns (Some request_id) events
      in (case outcome of
            Inl (ValueError m) \<Rightarrow> Inl (Log_exception (lit m))
          | Inr (Inl ExecutionLogRepositoryError) \<Rightarrow> Inl Log_repository_error
          | Inr (Inr i) \<Rightarrow> Inr i,
          w\<lparr>bw_table := table, bw_events := events1\<rparr>))"

definition backend_ports :: "pil \<Rightarrow> ProblemRepository \<Rightarrow> backend_world ports" where
  "backend_ports pil repository =
     \<lparr>port_get = repository_get repository, port_execute = backend_execute,
      port_judge = (\<lambda>execution problem_id. Inr (judge pil (repository_get repository) execution problem_id)),
      port_save = backend_save\<rparr>"

text \<open>The configuration was validated at startup, and the database numbers its rows from one.\<close>

definition backend_inv :: "backend_world \<Rightarrow> bool" where
  "backend_inv w \<longleftrightarrow> is_ok (get_runner_shared_secret (bw_env w))
     \<and> (\<forall>i. f_new_id (bw_faults w) = Some i \<longrightarrow> 0 < i)"

lemma execute_sync_errors:
  assumes "is_ok (get_runner_shared_secret env)"
    and "execute_sync env revision json_dump json_parse network s p rid = Inl (Channel c)"
  shows "c \<noteq> RunnerConfigurationError"
  using assms
  by (auto simp: execute_sync_def is_ok_iff read_response_def verify_response_def rbind_def Let_def
      split: sum.splits value_error.splits http_reply.splits option.splits if_splits)

lemma backend_execute_refusal:
  assumes "backend_inv w" and "backend_execute s p w = (Inl e, w')"
  shows "e \<in> {Channel RunnerBusyError, Channel RunnerUnavailableError} \<and> backend_inv w'"
proof -
  have w: "w' = w" "client_execute (bw_client_slot w) (Inr (bw_request_id w))
      (execute_sync (bw_env w) (Inr (bw_revision w)) (bw_json_dump w) (bw_json_parse w) (bw_network w) s p) = Inl e"
    using assms(2) by (auto simp: backend_execute_def)
  have env: "is_ok (get_runner_shared_secret (bw_env w))" using assms(1) by (simp add: backend_inv_def)
  have "e \<in> {Channel RunnerBusyError, Channel RunnerUnavailableError}"
  proof (cases "bw_client_slot w")
    case False
    then show ?thesis using w(2) by (simp add: client_execute_def)
  next
    case True
    let ?sync = "execute_sync (bw_env w) (Inr (bw_revision w)) (bw_json_dump w) (bw_json_parse w) (bw_network w) s p
      (bw_request_id w)"
    show ?thesis
    proof (cases ?sync)
      case (Inr r)
      then show ?thesis using w(2) True by (simp add: client_execute_def)
    next
      case (Inl x)
      show ?thesis
      proof (cases x)
        case (Channel c)
        then have "c \<noteq> RunnerConfigurationError" using execute_sync_errors [OF env] Inl by blast
        then show ?thesis using w(2) True Inl Channel by (cases c) (auto simp: client_execute_def)
      next
        case (Other_error m)
        then show ?thesis using w(2) True Inl by (auto simp: client_execute_def)
      qed
    qed
  qed
  then show ?thesis using w(1) assms(1) by simp
qed

lemma save_event_ok: "is_request_id rid \<Longrightarrow> event_ok (save_event e (Some rid) (elapsed_ms a b))"
  by (simp add: event_ok_def save_event_def blank_event_def elapsed_ms_def)

lemma save_async_ok:
  assumes "is_request_id rid"
  shows "\<exists>events'. save_execution_log_async reply a b (Some rid) events =
    (Inr (case reply of Save_done i \<Rightarrow> Inr i | _ \<Rightarrow> Inl ExecutionLogRepositoryError), events')"
  using save_event_ok [OF assms]
  by (cases reply) (simp_all add: save_execution_log_async_def log_safe_event_ok Let_def)

lemma backend_save_total:
  assumes "backend_inv w" and rid: "is_request_id rid" and s: "backend_save entry rid w = (saved, w')"
  shows "backend_inv w' \<and> (saved = Inl Log_repository_error \<or> (\<exists>i. saved = Inr i \<and> 0 < i))"
proof -
  obtain a b where clock: "bw_clock_ns w = (a, b)" by fastforce
  have async: "\<exists>events'. save_execution_log_async reply a b (Some rid) events =
    (Inr (case reply of Save_done i \<Rightarrow> Inr i | _ \<Rightarrow> Inl ExecutionLogRepositoryError), events')" for reply events
    using save_async_ok [OF rid] .
  obtain r table events calls where sv: "save (bw_faults w) (bw_now w) (bw_retention_days w) (bw_max_rows w) entry
      (bw_table w) (bw_events w) = (r, table, events, calls)"
    by (metis prod_cases4)
  have inv: "backend_inv (w\<lparr>bw_table := t, bw_events := ev\<rparr>)" for t ev
    using assms(1) by (simp add: backend_inv_def)
  have pos: "0 < i" if "r = Inr i" for i
    using save_success sv that assms(1) by (fastforce simp: backend_inv_def)
  define reply where "reply = (if \<not> bw_log_slot w then Save_repository_error
    else case r of Inl _ \<Rightarrow> Save_repository_error | Inr i \<Rightarrow> Save_done i)"
  define ev0 where "ev0 = (if \<not> bw_log_slot w then bw_events w else events)"
  define tb where "tb = (if \<not> bw_log_slot w then bw_table w else table)"
  have parts: "(if \<not> bw_log_slot w then (Save_repository_error, bw_table w, bw_events w)
         else (case save (bw_faults w) (bw_now w) (bw_retention_days w) (bw_max_rows w) entry (bw_table w) (bw_events w) of
                 (Inl ExecutionLogRepositoryError, table, events, _) \<Rightarrow> (Save_repository_error, table, events)
               | (Inr i, table, events, _) \<Rightarrow> (Save_done i, table, events))) = (reply, tb, ev0)"
    by (cases r) (auto simp: sv reply_def ev0_def tb_def split: log_repo_error.splits)
  obtain events' where e: "save_execution_log_async reply a b (Some rid) ev0 =
      (Inr (case reply of Save_done i \<Rightarrow> Inr i | _ \<Rightarrow> Inl ExecutionLogRepositoryError), events')"
    using async by blast
  have "w' = w\<lparr>bw_table := tb, bw_events := events'\<rparr>
      \<and> saved = (case reply of Save_done i \<Rightarrow> Inr i | _ \<Rightarrow> Inl Log_repository_error)"
    using s unfolding backend_save_def parts by (auto simp: clock e split: save_reply.splits)
  moreover have "0 < i" if "reply = Save_done i" for i
    using that pos by (auto simp: reply_def split: if_splits sum.splits)
  ultimately show ?thesis using inv by (cases reply) auto
qed

interpretation backend: submission_ports "backend_ports pil repository" backend_inv for pil repository
proof
  show "valid_result r \<and> backend_inv w'" if "backend_inv w" "port_execute (backend_ports pil repository) s p w = (Inr r, w')"
    for w s p r w'
    using that by (auto simp: backend_ports_def backend_execute_def client_execute_Inr dest: execute_sync_valid)
  show "e \<in> {Channel RunnerBusyError, Channel RunnerUnavailableError} \<and> backend_inv w'"
    if "backend_inv w" "port_execute (backend_ports pil repository) s p w = (Inl e, w')" for w s p e w'
    using that backend_execute_refusal by (simp add: backend_ports_def)
  show "\<exists>j. port_judge (backend_ports pil repository) r p = Inr j" for r p
    by (simp add: backend_ports_def)
  show "backend_inv w' \<and> (saved = Inl Log_repository_error \<or> (\<exists>i. saved = Inr i \<and> 0 < i))"
    if "backend_inv w" "is_request_id rid" "port_save (backend_ports pil repository) entry rid w = (saved, w')"
    for w rid entry saved w'
    using that backend_save_total by (simp add: backend_ports_def)
qed

text \<open>Every valid submission has an answer of the legacy form.\<close>

lemma backend_submit_answers:
  assumes "backend_inv (su_world st)" and "is_problem_id p" and "is_shellgei s" and "dt_offset t \<noteq> None"
    and "\<And>r. su_context st = Some r \<Longrightarrow> is_request_id r" and "16 \<le> length random"
  shows "\<exists>r st' ev answer. submit (backend_ports pil repository) t random s p st = (Inr r, st') \<and> result_ok r
    \<and> su_log st' = su_log st @ [ev] \<and> su_context st' = su_context st
    \<and> submission_response pil strftime decimal r = Inr answer"
proof -
  obtain r st' ev where s: "submit (backend_ports pil repository) t random s p st = (Inr r, st')"
    "su_log st' = su_log st @ [ev]" "su_context st' = su_context st"
    using backend.submit_total [OF assms(1,2,3,4,5,6)] by blast
  obtain rid st1 where "submit_guarded (backend_ports pil repository) t s p rid (st\<lparr>su_context := Some rid\<rparr>) = (Inr r, st1)"
    using submit_guarded_run [OF s(1) assms(5,6)] by metis
  then have ok: "result_ok r" by (rule submit_guarded_result_ok)
  then have "\<exists>answer. submission_response pil strftime decimal r = Inr answer"
    by (cases "sr_status r") (auto simp: submission_response_def result_ok_def Let_def)
  then show ?thesis using s ok by blast
qed

subsection \<open>Properties\<close>

text \<open>The assembled backend answers every valid submission: whatever the network answers, whichever call
  into the database fails and whether or not a worker is free, the service returns a consistent result
  and logs one submission event, and the legacy handler turns that result into an answer.\<close>

theorem submission_never_fails:
  assumes "backend_inv (su_world st)" and "is_problem_id p" and "is_shellgei s" and "dt_offset t \<noteq> None"
    and "\<And>r. su_context st = Some r \<Longrightarrow> is_request_id r" and "16 \<le> length random"
  shows "\<exists>r st' ev answer. submit (backend_ports pil repository) t random s p st = (Inr r, st') \<and> result_ok r
    \<and> su_log st' = su_log st @ [ev] \<and> su_context st' = su_context st
    \<and> submission_response pil strftime decimal r = Inr answer"
  by (rule backend_submit_answers [OF assms])

definition sample_world :: backend_world where
  "sample_world = \<lparr>bw_env = sample_env, bw_revision = replicate 64 102, bw_network = (\<lambda>_. Http_os_error),
     bw_json_dump = (\<lambda>_. []), bw_json_parse = (\<lambda>_. None), bw_client_slot = True, bw_log_slot = True,
     bw_request_id = replicate 32 48, bw_faults = no_faults, bw_now = 63000000000000000, bw_retention_days = 365,
     bw_max_rows = 10000, bw_clock_ns = (0, 0), bw_table = [], bw_events = []\<rparr>"

theorem submission_never_fails_witness:
  "\<exists>r st'. submit (backend_ports (\<lambda>_. None) sample_repository) sample_time (replicate 16 0) [108, 115] (lit ''STANDARD-1'')
     \<lparr>su_world = sample_world, su_calls = [], su_log = [], su_context = None\<rparr> = (Inr r, st') \<and> result_ok r"
proof -
  have "backend_inv sample_world"
    by (simp add: backend_inv_def sample_world_def sample_secret no_faults_def)
  moreover have "is_problem_id (lit ''STANDARD-1'')" "is_shellgei [108, 115]"
    using sample_request_ok by (simp_all add: request_ok_def sample_request_def)
  ultimately show ?thesis
    using submission_never_fails [of "\<lparr>su_world = sample_world, su_calls = [], su_log = [], su_context = None\<rparr>"
        "lit ''STANDARD-1''" "[108, 115]" sample_time "replicate 16 0" "\<lambda>_. None" sample_repository "\<lambda>_. []" "\<lambda>_. []"]
    by (auto simp: sample_time_def)
qed

end
