(* ===== verification/Migrations.thy ===== *)
theory Migrations
  imports Prelude
begin

section \<open>Schema migrations of the execution log\<close>

text \<open>
  \<open>database_migrations.py\<close> and its two revisions, on PostgreSQL (the dialect of the service, whose DDL is
  transactional). A table is its columns and its rows; a row maps a column name to a cell and is \<open>Null\<close>
  outside the columns. Indexes and column types are not modelled. Every statement sent to the database
  can fail: \<open>tx_left\<close> counts the statements that still succeed, \<open>None\<close> meaning that all of them do.
\<close>

subsection \<open>Tables and statements\<close>

datatype cell = Null | Int_cell int | Text_cell string | Bool_cell bool | Time_cell int

type_synonym row = "string \<Rightarrow> cell"

record sql_table =
  tb_columns :: "string list"
  tb_not_null :: "string list"
  tb_rows :: "row list"

record schema =
  sc_logs :: "sql_table option"
  sc_versions :: "string list option"

datatype migration_exn = DatabaseMigrationError string | Other_exception string

record 'd transaction =
  tx_db :: 'd
  tx_left :: "nat option"

type_synonym ('d, 'a) db_step = "'d transaction \<Rightarrow> (migration_exn + 'a) \<times> 'd transaction"
type_synonym 'a migration_step = "(schema, 'a) db_step"

definition statement :: "('d \<Rightarrow> migration_exn + ('a \<times> 'd)) \<Rightarrow> ('d, 'a) db_step" where
  "statement f t =
     (if tx_left t = Some 0 then (Inl (Other_exception ''statement failed''), t)
      else case f (tx_db t) of
             Inl e \<Rightarrow> (Inl e, t)
           | Inr (a, s) \<Rightarrow> (Inr a, \<lparr>tx_db = s, tx_left = map_option (\<lambda>n. n - 1) (tx_left t)\<rparr>))"

definition fail :: "migration_exn \<Rightarrow> ('d, 'a) db_step" where
  "fail e t = (Inl e, t)"

primrec for_each :: "('x \<Rightarrow> ('d, unit) db_step) \<Rightarrow> 'x list \<Rightarrow> ('d, unit) db_step" where
  "for_each f [] t = (Inr (), t)"
| "for_each f (x # xs) t = sbind (f x t) (\<lambda>_. for_each f xs)"

text \<open>\<open>inspect(connection).has_table("execution_logs")\<close> and \<open>get_columns\<close>, which raises for a missing table.\<close>

definition has_logs_table :: "bool migration_step" where
  "has_logs_table = statement (\<lambda>s. Inr (sc_logs s \<noteq> None, s))"

definition get_log_columns :: "string list migration_step" where
  "get_log_columns = statement (\<lambda>s.
     case sc_logs s of None \<Rightarrow> Inl (Other_exception ''no such table'') | Some tb \<Rightarrow> Inr (tb_columns tb, s))"

text \<open>A statement on the existing table \<open>execution_logs\<close>.\<close>

definition alter_logs :: "(sql_table \<Rightarrow> migration_exn + sql_table) \<Rightarrow> unit migration_step" where
  "alter_logs f = statement (\<lambda>s.
     case sc_logs s of
       None \<Rightarrow> Inl (Other_exception ''no such table'')
     | Some tb \<Rightarrow> rbind (f tb) (\<lambda>tb'. Inr ((), s\<lparr>sc_logs := Some tb'\<rparr>)))"

definition add_column :: "string \<Rightarrow> unit migration_step" where
  "add_column c = alter_logs (\<lambda>tb.
     if c \<in> set (tb_columns tb) then Inl (Other_exception ''duplicate column'')
     else Inr (tb\<lparr>tb_columns := tb_columns tb @ [c], tb_rows := map (\<lambda>r. r(c := Null)) (tb_rows tb)\<rparr>))"

definition drop_column :: "string \<Rightarrow> unit migration_step" where
  "drop_column c = alter_logs (\<lambda>tb.
     if c \<notin> set (tb_columns tb) then Inl (Other_exception ''no such column'')
     else Inr (tb\<lparr>tb_columns := filter (\<lambda>d. d \<noteq> c) (tb_columns tb),
                   tb_not_null := filter (\<lambda>d. d \<noteq> c) (tb_not_null tb),
                   tb_rows := map (\<lambda>r. r(c := Null)) (tb_rows tb)\<rparr>))"

definition set_not_null :: "string \<Rightarrow> unit migration_step" where
  "set_not_null c = alter_logs (\<lambda>tb.
     if c \<notin> set (tb_columns tb) then Inl (Other_exception ''no such column'')
     else if \<exists>r\<in>set (tb_rows tb). r c = Null then Inl (Other_exception ''column contains null values'')
     else Inr (tb\<lparr>tb_not_null := tb_not_null tb @ [c]\<rparr>))"

subsection \<open>Revision 0001\<close>

definition revision_0001 :: string where "revision_0001 = ''0001_legacy_execution_logs''"

definition legacy_columns :: "string list" where
  "legacy_columns = [''id'', ''problem_id'', ''shellgei'', ''output'', ''judge'', ''created_at'']"

definition legacy_table :: sql_table where
  "legacy_table = \<lparr>tb_columns = legacy_columns, tb_not_null = [''id''], tb_rows = []\<rparr>"

definition upgrade_0001 :: "unit migration_step" where
  "upgrade_0001 t = sbind (has_logs_table t) (\<lambda>present.
     if present then fail (Other_exception ''execution_logs already exists before baseline migration'')
     else statement (\<lambda>s. Inr ((), s\<lparr>sc_logs := Some legacy_table\<rparr>)))"

text \<open>\<open>Table.drop(checkfirst=True)\<close>: a missing table is left alone.\<close>

definition downgrade_0001 :: "unit migration_step" where
  "downgrade_0001 t = sbind (has_logs_table t) (\<lambda>present.
     if present then statement (\<lambda>s. Inr ((), s\<lparr>sc_logs := None\<rparr>)) else (\<lambda>t. (Inr (), t)))"

subsection \<open>Revision 0002\<close>

definition revision_0002 :: string where "revision_0002 = ''0002_structured_execution_logs''"

definition STRUCTURED_COLUMNS :: "string list" where
  "STRUCTURED_COLUMNS = [''execution_status'', ''stdout'', ''stderr'', ''exit_code'', ''timed_out'',
     ''truncated'', ''duration_ms'', ''verdict'', ''judge_reason'']"

definition required_structured_columns :: "string list" where
  "required_structured_columns =
     [''execution_status'', ''stdout'', ''stderr'', ''timed_out'', ''truncated'', ''verdict'']"

definition coalesce :: "cell \<Rightarrow> cell \<Rightarrow> cell" where
  "coalesce c d = (if c = Null then d else c)"

text \<open>\<open>CASE CAST(judge AS VARCHAR) WHEN ...\<close>: the text of an integer is its decimal form, and the text of a
  boolean or a time is none of the four.\<close>

definition verdict_of_judge :: "cell \<Rightarrow> string" where
  "verdict_of_judge j =
     (if j = Text_cell ''1'' \<or> j = Int_cell 1 then ''accepted''
      else if j = Text_cell ''2'' \<or> j = Int_cell 2 then ''wrong_image''
      else if j = Text_cell ''3'' \<or> j = Int_cell 3 then ''wrong_answer''
      else if j = Text_cell ''4'' \<or> j = Int_cell 4 then ''legacy_failure''
      else ''legacy_unknown'')"

definition backfill :: "row \<Rightarrow> row" where
  "backfill r = r(''execution_status'' := Text_cell ''legacy_unknown'',
                  ''stdout'' := coalesce (r ''output'') (Text_cell ''''),
                  ''stderr'' := Text_cell '''',
                  ''timed_out'' := Bool_cell False,
                  ''truncated'' := Bool_cell False,
                  ''verdict'' := Text_cell (verdict_of_judge (r ''judge'')))"

text \<open>The \<open>UPDATE\<close>: an unknown column is an error.\<close>

definition update_logs :: "unit migration_step" where
  "update_logs = alter_logs (\<lambda>tb.
     if set ([''output'', ''judge''] @ required_structured_columns) \<subseteq> set (tb_columns tb)
     then Inr (tb\<lparr>tb_rows := map backfill (tb_rows tb)\<rparr>)
     else Inl (Other_exception ''no such column''))"

definition upgrade_0002 :: "unit migration_step" where
  "upgrade_0002 t = sbind (get_log_columns t) (\<lambda>existing.
     if set existing \<inter> set STRUCTURED_COLUMNS \<noteq> {}
     then fail (Other_exception ''structured execution columns already exist'')
     else (\<lambda>t. sbind (for_each add_column STRUCTURED_COLUMNS t) (\<lambda>_ t.
               sbind (update_logs t) (\<lambda>_.
               for_each set_not_null required_structured_columns))))"

definition downgrade_0002 :: "unit migration_step" where
  "downgrade_0002 t = sbind (get_log_columns t) (\<lambda>existing.
     if \<not> set STRUCTURED_COLUMNS \<subseteq> set existing
     then fail (Other_exception ''structured execution columns are missing'')
     else for_each drop_column (rev STRUCTURED_COLUMNS))"

subsection \<open>The sequence of revisions\<close>

record DatabaseMigration =
  mg_revision :: string
  mg_upgrade :: "unit migration_step"
  mg_downgrade :: "unit migration_step"

definition MIGRATIONS :: "DatabaseMigration list" where
  "MIGRATIONS =
     [\<lparr>mg_revision = revision_0001, mg_upgrade = upgrade_0001, mg_downgrade = downgrade_0001\<rparr>,
      \<lparr>mg_revision = revision_0002, mg_upgrade = upgrade_0002, mg_downgrade = downgrade_0002\<rparr>]"

definition known_revisions :: "string list" where
  "known_revisions = map mg_revision MIGRATIONS"

definition BASE_REVISION :: string where "BASE_REVISION = ''base''"
definition HEAD_REVISION :: string where "HEAD_REVISION = ''head''"

text \<open>The advisory lock serialises migrations; one migration is one transaction here.\<close>

definition acquire_migration_lock :: "unit migration_step" where
  "acquire_migration_lock = statement (\<lambda>s. Inr ((), s))"

definition create_version_table :: "unit migration_step" where
  "create_version_table t =
     sbind (statement (\<lambda>s. Inr (sc_versions s \<noteq> None, s)) t) (\<lambda>present.
       if present then (\<lambda>t. (Inr (), t)) else statement (\<lambda>s. Inr ((), s\<lparr>sc_versions := Some []\<rparr>)))"

definition select_revisions :: "string list migration_step" where
  "select_revisions = statement (\<lambda>s.
     case sc_versions s of None \<Rightarrow> Inl (Other_exception ''no such table'') | Some v \<Rightarrow> Inr (v, s))"

text \<open>The revision is the primary key of its table.\<close>

definition insert_revision :: "string \<Rightarrow> unit migration_step" where
  "insert_revision r = statement (\<lambda>s.
     case sc_versions s of
       None \<Rightarrow> Inl (Other_exception ''no such table'')
     | Some v \<Rightarrow> if r \<in> set v then Inl (Other_exception ''duplicate key'')
                 else Inr ((), s\<lparr>sc_versions := Some (v @ [r])\<rparr>))"

definition delete_revision :: "string \<Rightarrow> unit migration_step" where
  "delete_revision r = statement (\<lambda>s.
     case sc_versions s of
       None \<Rightarrow> Inl (Other_exception ''no such table'')
     | Some v \<Rightarrow> Inr ((), s\<lparr>sc_versions := Some (filter (\<lambda>x. x \<noteq> r) v)\<rparr>))"

definition legacy_execution_log_columns :: "string list migration_step" where
  "legacy_execution_log_columns t = sbind (has_logs_table t) (\<lambda>present.
     if present then get_log_columns else (\<lambda>t. (Inr [], t)))"

definition stamp_unversioned_legacy_database :: "unit migration_step" where
  "stamp_unversioned_legacy_database t =
     sbind (select_revisions t) (\<lambda>applied t.
     if applied \<noteq> [] then (Inr (), t)
     else sbind (legacy_execution_log_columns t) (\<lambda>columns t.
     if columns = [] then (Inr (), t)
     else if \<not> set legacy_columns \<subseteq> set columns
     then fail (DatabaseMigrationError ''unversioned execution_logs is missing'') t
     else if set columns \<inter> set STRUCTURED_COLUMNS \<noteq> {}
     then fail (DatabaseMigrationError ''unversioned execution_logs already contains structured columns'') t
     else insert_revision (mg_revision (MIGRATIONS ! 0)) t))"

definition applied_revisions :: "string list migration_step" where
  "applied_revisions t =
     sbind (select_revisions t) (\<lambda>applied t.
     let ordered = filter (\<lambda>r. r \<in> set applied) known_revisions in
     if \<not> set applied \<subseteq> set known_revisions
     then fail (DatabaseMigrationError ''unknown database revisions'') t
     else if ordered \<noteq> take (length ordered) known_revisions
     then fail (DatabaseMigrationError ''database revisions are not a contiguous prefix'') t
     else (Inr ordered, t))"

fun index_of :: "'a \<Rightarrow> 'a list \<Rightarrow> nat option" where
  "index_of x [] = None"
| "index_of x (y # ys) = (if x = y then Some 0 else map_option Suc (index_of x ys))"

definition target_count :: "string \<Rightarrow> migration_exn + nat" where
  "target_count target =
     (if target = BASE_REVISION then Inr 0
      else if target = HEAD_REVISION then Inr (length MIGRATIONS)
      else case index_of target (map mg_revision MIGRATIONS) of
             Some i \<Rightarrow> Inr (i + 1)
           | None \<Rightarrow> Inl (DatabaseMigrationError ''unknown migration target''))"

definition apply_migration :: "DatabaseMigration \<Rightarrow> unit migration_step" where
  "apply_migration m t = sbind (mg_upgrade m t) (\<lambda>_. insert_revision (mg_revision m))"

definition revert_migration :: "DatabaseMigration \<Rightarrow> unit migration_step" where
  "revert_migration m t = sbind (mg_downgrade m t) (\<lambda>_. delete_revision (mg_revision m))"

definition change_revisions :: "nat \<Rightarrow> nat \<Rightarrow> unit migration_step" where
  "change_revisions applied desired =
     (if applied < desired then for_each apply_migration (drop applied (take desired MIGRATIONS))
      else if applied > desired then for_each revert_migration (rev (drop desired (take applied MIGRATIONS)))
      else (\<lambda>t. (Inr (), t)))"

definition migrate_body :: "string \<Rightarrow> string list migration_step" where
  "migrate_body target t =
     sbind (acquire_migration_lock t) (\<lambda>_ t.
     sbind (create_version_table t) (\<lambda>_ t.
     sbind (stamp_unversioned_legacy_database t) (\<lambda>_ t.
     sbind (applied_revisions t) (\<lambda>applied t.
     sbind (target_count target, t) (\<lambda>desired_count t.
     sbind (change_revisions (length applied) desired_count t) (\<lambda>_.
     applied_revisions))))))"

text \<open>\<open>except Exception\<close>: another exception is wrapped.\<close>

definition migration_error :: "migration_exn \<Rightarrow> migration_exn" where
  "migration_error e = (case e of
       DatabaseMigrationError m \<Rightarrow> DatabaseMigrationError m
     | Other_exception _ \<Rightarrow> DatabaseMigrationError ''database migration failed'')"

text \<open>\<open>with engine.begin()\<close> commits after the block and rolls back on an exception.\<close>

definition migrate_database ::
  "nat option \<Rightarrow> migration_exn commit_reply \<Rightarrow> string \<Rightarrow> schema \<Rightarrow> (migration_exn + string list) \<times> schema" where
  "migrate_database faults commit target db =
     (case migrate_body target \<lparr>tx_db = db, tx_left = faults\<rparr> of
        (Inl e, _) \<Rightarrow> (Inl (migration_error e), db)
      | (Inr revisions, t) \<Rightarrow>
          (case commit of
             Commit_done \<Rightarrow> (Inr revisions, tx_db t)
           | Commit_failed e \<Rightarrow> (Inl (migration_error e), db)
           | Commit_lost e \<Rightarrow> (Inl (migration_error e), tx_db t)))"

text \<open>The line that the command prints.\<close>

definition printed_revision :: "string list \<Rightarrow> string" where
  "printed_revision revisions = (if revisions = [] then BASE_REVISION else last revisions)"

subsection \<open>What a migration guarantees from any database\<close>

lemmas step_simps = statement_def fail_def alter_logs_def sbind_simps

text \<open>Steps that leave the version table alone.\<close>

definition same_versions :: "schema transaction \<Rightarrow> schema transaction \<Rightarrow> bool" where
  "same_versions t u \<longleftrightarrow> sc_versions (tx_db u) = sc_versions (tx_db t)"

interpretation versions_frame: step_frame same_versions
  by unfold_locales (simp_all add: same_versions_def)

abbreviation keeps_versions :: "'a migration_step \<Rightarrow> bool" where
  "keeps_versions \<equiv> preserves same_versions"

lemmas keeps_versions_sbind = versions_frame.preserves_sbind
lemmas keeps_versions_return = versions_frame.preserves_return

lemma keeps_versionsD:
  "keeps_versions m \<Longrightarrow> m t = (r, u) \<Longrightarrow> sc_versions (tx_db u) = sc_versions (tx_db t)"
  using preservesD [of same_versions m t r u] by (simp add: same_versions_def)

lemma keeps_versions_statement:
  assumes "\<And>s a s'. f s = Inr (a, s') \<Longrightarrow> sc_versions s' = sc_versions s"
  shows "keeps_versions (statement f)"
  using assms by (auto simp: preserves_def same_versions_def statement_def split: sum.splits)

lemma keeps_versions_alter [intro]: "keeps_versions (alter_logs f)"
  unfolding alter_logs_def by (rule keeps_versions_statement) (auto simp: rbind_eq_Inr split: option.splits)

lemma keeps_versions_fail [intro]: "keeps_versions (fail e)"
  by (simp add: preserves_def same_versions_def fail_def)

lemma keeps_versions_for_each: "(\<And>x. keeps_versions (f x)) \<Longrightarrow> keeps_versions (for_each f xs)"
proof (induction xs)
  case Nil then show ?case by (auto simp: preserves_def same_versions_def)
next
  case (Cons x xs)
  have "for_each f (x # xs) = (\<lambda>t. sbind (f x t) (\<lambda>_. for_each f xs))" by (rule ext) simp
  with Cons show ?case by (auto intro: keeps_versions_sbind)
qed

lemma keeps_versions_queries [intro]: "keeps_versions has_logs_table" "keeps_versions get_log_columns"
  unfolding has_logs_table_def get_log_columns_def
  by (rule keeps_versions_statement; auto split: option.splits)+

lemma keeps_versions_upgrade_0001: "keeps_versions upgrade_0001"
  unfolding upgrade_0001_def [abs_def]
  by (rule keeps_versions_sbind; (rule keeps_versions_queries)?;
      intro preserves_if keeps_versions_fail keeps_versions_statement) auto

lemma keeps_versions_downgrade_0001: "keeps_versions downgrade_0001"
  unfolding downgrade_0001_def [abs_def]
  by (rule keeps_versions_sbind; (rule keeps_versions_queries)?;
      intro preserves_if keeps_versions_return keeps_versions_statement) auto

lemma keeps_versions_columns [intro]:
  "keeps_versions (add_column c)" "keeps_versions (drop_column c)" "keeps_versions (set_not_null c)"
  "keeps_versions update_logs"
  by (auto simp: add_column_def drop_column_def set_not_null_def update_logs_def)

lemma keeps_versions_upgrade_0002: "keeps_versions upgrade_0002"
  unfolding upgrade_0002_def [abs_def]
  by (rule keeps_versions_sbind; (rule keeps_versions_queries)?;
      intro preserves_if keeps_versions_fail keeps_versions_sbind keeps_versions_for_each keeps_versions_columns)

lemma keeps_versions_downgrade_0002: "keeps_versions downgrade_0002"
  unfolding downgrade_0002_def [abs_def]
  by (rule keeps_versions_sbind; (rule keeps_versions_queries)?;
      intro preserves_if keeps_versions_fail keeps_versions_for_each keeps_versions_columns)

lemma migrations_keep_versions:
  assumes "m \<in> set MIGRATIONS"
  shows "keeps_versions (mg_upgrade m)" "keeps_versions (mg_downgrade m)"
  using assms keeps_versions_upgrade_0001 keeps_versions_downgrade_0001
    keeps_versions_upgrade_0002 keeps_versions_downgrade_0002
  by (auto simp: MIGRATIONS_def)

lemma statement_Inr: "statement f t = (Inr a, u) \<Longrightarrow> f (tx_db t) = Inr (a, tx_db u)"
  by (auto simp: statement_def split: if_splits sum.splits)

lemma insert_revision_Inr:
  assumes "insert_revision r t = (Inr (), u)" "sc_versions (tx_db t) = Some v"
  shows "sc_versions (tx_db u) = Some (v @ [r]) \<and> r \<notin> set v"
  using statement_Inr [OF assms(1) [unfolded insert_revision_def]] assms(2)
  by (auto split: if_splits dest: arg_cong [where f = sc_versions])

lemma delete_revision_Inr:
  assumes "delete_revision r t = (Inr (), u)" "sc_versions (tx_db t) = Some v"
  shows "sc_versions (tx_db u) = Some (filter (\<lambda>x. x \<noteq> r) v)"
  using statement_Inr [OF assms(1) [unfolded delete_revision_def]] assms(2)
  by (auto dest: arg_cong [where f = sc_versions])

lemma apply_migrations_versions:
  assumes "for_each apply_migration ms t = (Inr (), u)" "set ms \<subseteq> set MIGRATIONS"
    and "sc_versions (tx_db t) = Some v"
  shows "sc_versions (tx_db u) = Some (v @ map mg_revision ms)"
  using assms
proof (induction ms arbitrary: t v)
  case (Cons m ms)
  obtain t1 t2 where s: "mg_upgrade m t = (Inr (), t1)" "insert_revision (mg_revision m) t1 = (Inr (), t2)"
    "for_each apply_migration ms t2 = (Inr (), u)"
    using Cons.prems(1) by (auto simp: apply_migration_def [of m] sbind_Inr)
  have "sc_versions (tx_db t1) = Some v"
    using keeps_versionsD [OF migrations_keep_versions(1) s(1)] Cons.prems by simp
  then have "sc_versions (tx_db t2) = Some (v @ [mg_revision m])"
    using insert_revision_Inr [OF s(2)] by simp
  from Cons.IH [OF s(3) _ this] Cons.prems(2) show ?case by simp
qed auto

lemma revert_migrations_versions:
  assumes "for_each revert_migration ms t = (Inr (), u)" "set ms \<subseteq> set MIGRATIONS"
    and "sc_versions (tx_db t) = Some v"
  shows "sc_versions (tx_db u) = Some (filter (\<lambda>r. r \<notin> set (map mg_revision ms)) v)"
  using assms
proof (induction ms arbitrary: t v)
  case (Cons m ms)
  obtain t1 t2 where s: "mg_downgrade m t = (Inr (), t1)" "delete_revision (mg_revision m) t1 = (Inr (), t2)"
    "for_each revert_migration ms t2 = (Inr (), u)"
    using Cons.prems(1) by (auto simp: revert_migration_def [of m] sbind_Inr)
  have "sc_versions (tx_db t1) = Some v"
    using keeps_versionsD [OF migrations_keep_versions(2) s(1)] Cons.prems by simp
  then have "sc_versions (tx_db t2) = Some (filter (\<lambda>x. x \<noteq> mg_revision m) v)"
    using delete_revision_Inr [OF s(2)] by simp
  from Cons.IH [OF s(3) _ this] Cons.prems(2) show ?case by (simp add: conj_commute)
qed auto

lemma applied_revisions_Inr:
  assumes "applied_revisions t = (Inr revisions, u)"
  shows "\<exists>v. sc_versions (tx_db u) = Some v \<and> sc_versions (tx_db t) = Some v \<and>
    set v = set revisions \<and> revisions = take (length revisions) known_revisions \<and> tx_db u = tx_db t"
proof -
  obtain v t1 where q: "select_revisions t = (Inr v, t1)" "set v \<subseteq> set known_revisions"
    "revisions = filter (\<lambda>r. r \<in> set v) known_revisions" "u = t1"
    "revisions = take (length revisions) known_revisions"
    using assms by (auto simp: applied_revisions_def sbind_Inr Let_def fail_def split: if_splits)
  have "sc_versions (tx_db t) = Some v \<and> tx_db t1 = tx_db t"
    using statement_Inr [OF q(1) [unfolded select_revisions_def]] by (auto split: option.splits)
  with q show ?thesis by auto
qed

lemma known_revisions_distinct: "distinct known_revisions" "length known_revisions = 2" "length MIGRATIONS = 2"
  by (simp_all add: known_revisions_def MIGRATIONS_def revision_0001_def revision_0002_def)

lemma revisions_of_migrations:
  "map mg_revision (drop k (take n MIGRATIONS)) = drop k (take n known_revisions)"
  by (simp add: known_revisions_def take_map drop_map)

lemma target_count_bound: "target_count target = Inr n \<Longrightarrow> n \<le> length known_revisions"
proof -
  have "index_of x xs = Some i \<Longrightarrow> i < length xs" for x :: string and xs i
    by (induction xs arbitrary: i) (auto split: if_splits)
  then show "target_count target = Inr n \<Longrightarrow> n \<le> length known_revisions"
    by (fastforce simp: target_count_def known_revisions_def split: if_splits option.splits)
qed

lemma change_revisions_versions:
  assumes "change_revisions k n t = (Inr (), u)" "sc_versions (tx_db t) = Some v"
    and "set v = set (take k known_revisions)" "k \<le> length known_revisions" "n \<le> length known_revisions"
  shows "\<exists>w. sc_versions (tx_db u) = Some w \<and> set w = set (take n known_revisions)"
proof -
  consider "k < n" | "n < k" | "k = n" by linarith
  then show ?thesis
  proof cases
    case 1
    then have run: "for_each apply_migration (drop k (take n MIGRATIONS)) t = (Inr (), u)"
      using assms(1) by (simp add: change_revisions_def)
    have "set (drop k (take n MIGRATIONS)) \<subseteq> set MIGRATIONS" by (meson in_set_dropD in_set_takeD subsetI)
    from apply_migrations_versions [OF run this assms(2)]
    have "sc_versions (tx_db u) = Some (v @ drop k (take n known_revisions))"
      by (simp add: revisions_of_migrations)
    moreover have "set (take k known_revisions) \<union> set (drop k (take n known_revisions)) = set (take n known_revisions)"
      using 1 by (metis append_take_drop_id min.strict_order_iff set_append take_take)
    ultimately show ?thesis using assms(3) by auto
  next
    case 2
    then have run: "for_each revert_migration (rev (drop n (take k MIGRATIONS))) t = (Inr (), u)"
      using assms(1) by (simp add: change_revisions_def)
    have "set (rev (drop n (take k MIGRATIONS))) \<subseteq> set MIGRATIONS"
      by (auto dest: in_set_dropD in_set_takeD)
    from revert_migrations_versions [OF run this assms(2)]
    have u: "sc_versions (tx_db u) = Some (filter (\<lambda>r. r \<notin> set (drop n (take k known_revisions))) v)"
      by (simp add: revisions_of_migrations rev_map [symmetric])
    have "set (take k known_revisions) = set (take n known_revisions) \<union> set (drop n (take k known_revisions))"
      using 2 by (metis append_take_drop_id min.strict_order_iff set_append take_take)
    moreover have "set (take n known_revisions) \<inter> set (drop n (take k known_revisions)) = {}"
      using known_revisions_distinct(1) 2
      by (metis append_take_drop_id distinct_append distinct_take min.strict_order_iff take_take)
    ultimately show ?thesis using u assms(3) by auto
  qed (use assms in \<open>auto simp: change_revisions_def\<close>)
qed

lemma migrate_body_Inr:
  assumes "migrate_body target t = (Inr revisions, u)"
  shows "\<exists>n v. target_count target = Inr n \<and> revisions = take n known_revisions \<and>
    sc_versions (tx_db u) = Some v \<and> set v = set revisions"
proof -
  obtain applied n t1 t2 t3 where s: "applied_revisions t1 = (Inr applied, t2)" "target_count target = Inr n"
    "change_revisions (length applied) n t2 = (Inr (), t3)" "applied_revisions t3 = (Inr revisions, u)"
    using assms by (auto simp: migrate_body_def sbind_Inr)
  obtain v where v: "sc_versions (tx_db t2) = Some v" "set v = set applied"
    "applied = take (length applied) known_revisions"
    using applied_revisions_Inr [OF s(1)] by auto
  have n: "n \<le> length known_revisions" using s(2) by (rule target_count_bound)
  have "length applied \<le> length known_revisions" using v(3) by (metis length_take min.cobounded1)
  from change_revisions_versions [OF s(3) v(1) _ this n] v
  obtain w where w: "sc_versions (tx_db t3) = Some w" "set w = set (take n known_revisions)" by auto
  obtain x where x: "sc_versions (tx_db u) = Some x" "sc_versions (tx_db t3) = Some x" "set x = set revisions"
    "revisions = take (length revisions) known_revisions"
    using applied_revisions_Inr [OF s(4)] by auto
  have "set (take (length revisions) known_revisions) = set (take n known_revisions)" using w x by simp
  then have "length (take (length revisions) known_revisions) = length (take n known_revisions)"
    using known_revisions_distinct(1) by (metis distinct_card distinct_take)
  then have "length revisions = n" using n x(4) by (metis length_take min.absorb2)
  then show ?thesis using s(2) x by auto
qed

text \<open>C23: A migration is all or nothing, from any database and whichever statement or commit fails. When it
  returns, exactly the revisions up to its target are recorded, and it returns them. When it raises, the
  error is a \<open>DatabaseMigrationError\<close> and the database is unchanged; only where the commit was carried out and
  its answer was lost, it is what the same migration gives without that loss.\<close>

theorem migration_is_all_or_nothing:
  "case migrate_database faults commit target db of
     (Inr revisions, db') \<Rightarrow>
       \<exists>n v. target_count target = Inr n \<and> revisions = take n known_revisions \<and>
         sc_versions db' = Some v \<and> set v = set revisions
   | (Inl e, db') \<Rightarrow>
       (\<exists>m. e = DatabaseMigrationError m) \<and>
       (db' = db \<or> (\<exists>x. commit = Commit_lost x) \<and>
          (\<exists>revisions. migrate_database faults Commit_done target db = (Inr revisions, db')))"
proof (cases "migrate_body target \<lparr>tx_db = db, tx_left = faults\<rparr>")
  case (Pair r t)
  have e: "\<exists>m. migration_error e = DatabaseMigrationError m" for e
    by (cases e) (auto simp: migration_error_def)
  show ?thesis
  proof (cases r)
    case (Inl e)
    then show ?thesis using Pair \<open>\<And>e. \<exists>m. migration_error e = DatabaseMigrationError m\<close>
      by (simp add: migrate_database_def)
  next
    case (Inr revisions)
    with migrate_body_Inr [of target "\<lparr>tx_db = db, tx_left = faults\<rparr>" revisions t] Pair
    show ?thesis using e by (auto simp: migrate_database_def split: commit_reply.splits)
  qed
qed

subsection \<open>Upgrading and downgrading keep the legacy data\<close>

text \<open>A legacy table: the required columns, none of the structured ones, cells only in its columns.\<close>

definition legacy_log_table :: "sql_table \<Rightarrow> bool" where
  "legacy_log_table tb \<longleftrightarrow> set legacy_columns \<subseteq> set (tb_columns tb) \<and>
     set (tb_columns tb) \<inter> set STRUCTURED_COLUMNS = {} \<and> set (tb_not_null tb) \<subseteq> set (tb_columns tb) \<and>
     (\<forall>r\<in>set (tb_rows tb). \<forall>c. c \<notin> set (tb_columns tb) \<longrightarrow> r c = Null)"

definition structured_table :: "sql_table \<Rightarrow> sql_table" where
  "structured_table tb = \<lparr>tb_columns = tb_columns tb @ STRUCTURED_COLUMNS,
     tb_not_null = tb_not_null tb @ required_structured_columns, tb_rows = map backfill (tb_rows tb)\<rparr>"

abbreviation faultless :: "'d \<Rightarrow> 'd transaction" where
  "faultless s \<equiv> \<lparr>tx_db = s, tx_left = None\<rparr>"

definition clear_cells :: "string set \<Rightarrow> row \<Rightarrow> row" where
  "clear_cells cs r = (\<lambda>c. if c \<in> cs then Null else r c)"

lemma clear_cells_insert: "clear_cells (insert c cs) r = clear_cells cs (r(c := Null))"
  by (auto simp: clear_cells_def fun_eq_iff)

lemma clear_cells_empty [simp]: "clear_cells {} r = r"
  by (simp add: clear_cells_def)

lemma alter_logs_ok:
  "sc_logs s = Some tb \<Longrightarrow> f tb = Inr tb' \<Longrightarrow>
   alter_logs f (faultless s) = (Inr (), faultless (s\<lparr>sc_logs := Some tb'\<rparr>))"
  by (simp add: alter_logs_def statement_def)

lemma add_columns_ok:
  "sc_logs s = Some tb \<Longrightarrow> distinct cs \<Longrightarrow> set cs \<inter> set (tb_columns tb) = {} \<Longrightarrow>
   for_each add_column cs (faultless s) = (Inr (), faultless (s\<lparr>sc_logs := Some (tb\<lparr>tb_columns := tb_columns tb @ cs,
     tb_rows := map (clear_cells (set cs)) (tb_rows tb)\<rparr>)\<rparr>))"
proof (induction cs arbitrary: s tb)
  case (Cons c cs)
  let ?tb = "tb\<lparr>tb_columns := tb_columns tb @ [c], tb_rows := map (\<lambda>r. r(c := Null)) (tb_rows tb)\<rparr>"
  have "add_column c (faultless s) = (Inr (), faultless (s\<lparr>sc_logs := Some ?tb\<rparr>))"
    unfolding add_column_def using Cons.prems by (intro alter_logs_ok) auto
  moreover have "for_each add_column cs (faultless (s\<lparr>sc_logs := Some ?tb\<rparr>)) = (Inr (), faultless (s\<lparr>sc_logs :=
      Some (?tb\<lparr>tb_columns := tb_columns ?tb @ cs, tb_rows := map (clear_cells (set cs)) (tb_rows ?tb)\<rparr>)\<rparr>))"
    using Cons.prems by (subst Cons.IH [of _ ?tb]) auto
  ultimately show ?case by (simp add: sbind_simps clear_cells_insert o_def)
qed (simp add: map_idI)

lemma set_not_null_ok:
  "sc_logs s = Some tb \<Longrightarrow> set cs \<subseteq> set (tb_columns tb) \<Longrightarrow> \<forall>r\<in>set (tb_rows tb). \<forall>c\<in>set cs. r c \<noteq> Null \<Longrightarrow>
   for_each set_not_null cs (faultless s) =
     (Inr (), faultless (s\<lparr>sc_logs := Some (tb\<lparr>tb_not_null := tb_not_null tb @ cs\<rparr>)\<rparr>))"
proof (induction cs arbitrary: s tb)
  case (Cons c cs)
  let ?tb = "tb\<lparr>tb_not_null := tb_not_null tb @ [c]\<rparr>"
  have "set_not_null c (faultless s) = (Inr (), faultless (s\<lparr>sc_logs := Some ?tb\<rparr>))"
    unfolding set_not_null_def using Cons.prems by (intro alter_logs_ok) auto
  moreover have "for_each set_not_null cs (faultless (s\<lparr>sc_logs := Some ?tb\<rparr>)) =
      (Inr (), faultless (s\<lparr>sc_logs := Some (?tb\<lparr>tb_not_null := tb_not_null ?tb @ cs\<rparr>)\<rparr>))"
    using Cons.prems by (subst Cons.IH [of _ ?tb]) auto
  ultimately show ?case by (simp add: sbind_simps)
qed simp

lemma drop_columns_ok:
  "sc_logs s = Some tb \<Longrightarrow> distinct cs \<Longrightarrow> set cs \<subseteq> set (tb_columns tb) \<Longrightarrow>
   for_each drop_column cs (faultless s) = (Inr (), faultless (s\<lparr>sc_logs := Some (
     tb\<lparr>tb_columns := filter (\<lambda>d. d \<notin> set cs) (tb_columns tb),
        tb_not_null := filter (\<lambda>d. d \<notin> set cs) (tb_not_null tb),
        tb_rows := map (clear_cells (set cs)) (tb_rows tb)\<rparr>)\<rparr>))"
proof (induction cs arbitrary: s tb)
  case (Cons c cs)
  let ?tb = "tb\<lparr>tb_columns := filter (\<lambda>d. d \<noteq> c) (tb_columns tb),
    tb_not_null := filter (\<lambda>d. d \<noteq> c) (tb_not_null tb), tb_rows := map (\<lambda>r. r(c := Null)) (tb_rows tb)\<rparr>"
  have "drop_column c (faultless s) = (Inr (), faultless (s\<lparr>sc_logs := Some ?tb\<rparr>))"
    unfolding drop_column_def using Cons.prems by (intro alter_logs_ok) auto
  moreover have "for_each drop_column cs (faultless (s\<lparr>sc_logs := Some ?tb\<rparr>)) = (Inr (), faultless (s\<lparr>sc_logs := Some (
     ?tb\<lparr>tb_columns := filter (\<lambda>d. d \<notin> set cs) (tb_columns ?tb),
        tb_not_null := filter (\<lambda>d. d \<notin> set cs) (tb_not_null ?tb),
        tb_rows := map (clear_cells (set cs)) (tb_rows ?tb)\<rparr>)\<rparr>))"
    using Cons.prems by (subst Cons.IH [of _ ?tb]) auto
  ultimately show ?case by (simp add: sbind_simps clear_cells_insert o_def conj_commute)
qed (simp add: map_idI)

lemma structured_columns_distinct: "distinct STRUCTURED_COLUMNS" "distinct (rev STRUCTURED_COLUMNS)"
  by (simp_all add: STRUCTURED_COLUMNS_def)

lemma required_structured_subset: "set required_structured_columns \<subseteq> set STRUCTURED_COLUMNS"
  by (simp add: required_structured_columns_def STRUCTURED_COLUMNS_def)

lemma backfill_not_null: "c \<in> set required_structured_columns \<Longrightarrow> backfill r c \<noteq> Null"
  by (auto simp: required_structured_columns_def backfill_def coalesce_def)

lemma backfill_keeps: "c \<notin> set STRUCTURED_COLUMNS \<Longrightarrow> backfill r c = r c"
  by (auto simp: STRUCTURED_COLUMNS_def backfill_def)

lemma legacy_rows_clear:
  "legacy_log_table tb \<Longrightarrow> map (clear_cells (set STRUCTURED_COLUMNS)) (tb_rows tb) = tb_rows tb"
  by (rule map_idI) (metis (no_types, lifting) clear_cells_def disjoint_iff ext legacy_log_table_def)

lemma upgrade_0002_ok:
  assumes "sc_logs s = Some tb" "legacy_log_table tb"
  shows "upgrade_0002 (faultless s) = (Inr (), faultless (s\<lparr>sc_logs := Some (structured_table tb)\<rparr>))"
proof -
  let ?t1 = "tb\<lparr>tb_columns := tb_columns tb @ STRUCTURED_COLUMNS\<rparr>"
  let ?t2 = "?t1\<lparr>tb_rows := map backfill (tb_rows tb)\<rparr>"
  have q: "get_log_columns (faultless s) = (Inr (tb_columns tb), faultless s)"
    using assms by (simp add: get_log_columns_def statement_def)
  have a: "for_each add_column STRUCTURED_COLUMNS (faultless s) = (Inr (), faultless (s\<lparr>sc_logs := Some ?t1\<rparr>))"
    using assms structured_columns_distinct(1) by (subst add_columns_ok [OF assms(1)])
      (auto simp: legacy_rows_clear legacy_log_table_def)
  have u: "update_logs (faultless (s\<lparr>sc_logs := Some ?t1\<rparr>)) = (Inr (), faultless (s\<lparr>sc_logs := Some ?t2\<rparr>))"
  proof -
    have "set ([''output'', ''judge''] @ required_structured_columns) \<subseteq> set (tb_columns ?t1)"
      using assms(2) required_structured_subset by (auto simp: legacy_log_table_def legacy_columns_def)
    then show ?thesis unfolding update_logs_def by (subst alter_logs_ok [of _ ?t1 _ ?t2]) auto
  qed
  have n: "for_each set_not_null required_structured_columns (faultless (s\<lparr>sc_logs := Some ?t2\<rparr>)) =
      (Inr (), faultless (s\<lparr>sc_logs := Some (structured_table tb)\<rparr>))"
    using required_structured_subset
    by (subst set_not_null_ok [of _ ?t2]) (auto simp: backfill_not_null structured_table_def)
  have "set (tb_columns tb) \<inter> set STRUCTURED_COLUMNS = {}" using assms(2) by (simp add: legacy_log_table_def)
  then show ?thesis by (simp add: upgrade_0002_def q a u n sbind_simps)
qed

lemma downgrade_0002_ok:
  assumes "sc_logs s = Some (structured_table tb)" "legacy_log_table tb"
  shows "downgrade_0002 (faultless s) = (Inr (), faultless (s\<lparr>sc_logs := Some tb\<rparr>))"
proof -
  have q: "get_log_columns (faultless s) = (Inr (tb_columns (structured_table tb)), faultless s)"
    using assms by (simp add: get_log_columns_def statement_def)
  have cols: "filter (\<lambda>d. d \<notin> set STRUCTURED_COLUMNS) (tb_columns (structured_table tb)) = tb_columns tb"
    "filter (\<lambda>d. d \<notin> set STRUCTURED_COLUMNS) (tb_not_null (structured_table tb)) = tb_not_null tb"
  proof -
    have "filter (\<lambda>d. d \<notin> set STRUCTURED_COLUMNS) xs = xs" if "set xs \<subseteq> set (tb_columns tb)" for xs
      using that assms(2) by (auto simp: legacy_log_table_def filter_id_conv)
    moreover have "filter (\<lambda>d. d \<notin> set STRUCTURED_COLUMNS) xs = []" if "set xs \<subseteq> set STRUCTURED_COLUMNS" for xs
      using that by (auto simp: filter_empty_conv)
    ultimately show "filter (\<lambda>d. d \<notin> set STRUCTURED_COLUMNS) (tb_columns (structured_table tb)) = tb_columns tb"
      "filter (\<lambda>d. d \<notin> set STRUCTURED_COLUMNS) (tb_not_null (structured_table tb)) = tb_not_null tb"
      using assms(2) required_structured_subset by (simp_all add: structured_table_def legacy_log_table_def)
  qed
  have rows: "map (clear_cells (set STRUCTURED_COLUMNS)) (tb_rows (structured_table tb)) = tb_rows tb"
  proof -
    have "clear_cells (set STRUCTURED_COLUMNS) (backfill r) = clear_cells (set STRUCTURED_COLUMNS) r" for r
      by (rule ext) (simp add: clear_cells_def backfill_keeps)
    then show ?thesis using legacy_rows_clear [OF assms(2)] by (simp add: structured_table_def o_def)
  qed
  have "for_each drop_column (rev STRUCTURED_COLUMNS) (faultless s) = (Inr (), faultless (s\<lparr>sc_logs := Some tb\<rparr>))"
    by (subst drop_columns_ok [OF assms(1)])
      (auto simp: structured_columns_distinct cols rows, simp_all add: structured_table_def)
  then show ?thesis by (simp add: downgrade_0002_def q sbind_simps) (auto simp: structured_table_def)
qed

lemma revisions_differ [simp]: "revision_0001 \<noteq> revision_0002" "revision_0002 \<noteq> revision_0001"
  by (simp_all add: revision_0001_def revision_0002_def)

lemma known_revisions_eq: "known_revisions = [revision_0001, revision_0002]"
  by (simp add: known_revisions_def MIGRATIONS_def)

lemma named_targets:
  "target_count HEAD_REVISION = Inr 2" "target_count revision_0001 = Inr 1" "target_count BASE_REVISION = Inr 0"
  by (simp_all add: target_count_def HEAD_REVISION_def BASE_REVISION_def MIGRATIONS_def revision_0001_def)

lemma faultless_versions:
  "sc_versions s = Some v \<Longrightarrow> create_version_table (faultless s) = (Inr (), faultless s)"
  "sc_versions s = None \<Longrightarrow> create_version_table (faultless s) = (Inr (), faultless (s\<lparr>sc_versions := Some []\<rparr>))"
  "sc_versions s = Some v \<Longrightarrow> select_revisions (faultless s) = (Inr v, faultless s)"
  "sc_versions s = Some v \<Longrightarrow> r \<notin> set v \<Longrightarrow>
   insert_revision r (faultless s) = (Inr (), faultless (s\<lparr>sc_versions := Some (v @ [r])\<rparr>))"
  "sc_versions s = Some v \<Longrightarrow>
   delete_revision r (faultless s) = (Inr (), faultless (s\<lparr>sc_versions := Some (filter (\<lambda>x. x \<noteq> r) v)\<rparr>))"
  "acquire_migration_lock (faultless s) = (Inr (), faultless s)"
  by (auto simp: create_version_table_def select_revisions_def insert_revision_def delete_revision_def
      acquire_migration_lock_def statement_def sbind_simps)

lemma faultless_applied_set:
  assumes "sc_versions s = Some v" "set v = set (take k known_revisions)"
  shows "applied_revisions (faultless s) = (Inr (take k known_revisions), faultless s)"
proof -
  consider "k = 0" | "k = 1" | "k \<ge> 2" by linarith
  then have "filter (\<lambda>r. r \<in> set v) known_revisions = take k known_revisions"
    using assms(2) by cases (auto simp: known_revisions_eq)
  moreover have "take (length (take k known_revisions)) known_revisions = take k known_revisions"
    by (cases "k \<le> length known_revisions") simp_all
  moreover have "set v \<subseteq> set known_revisions" using assms(2) by (auto dest: in_set_takeD)
  ultimately show ?thesis
    using assms(1) by (simp add: applied_revisions_def faultless_versions sbind_simps Let_def del: length_take)
qed

lemma faultless_applied:
  "sc_versions s = Some v \<Longrightarrow> v = take k known_revisions \<Longrightarrow> applied_revisions (faultless s) = (Inr v, faultless s)"
  using faultless_applied_set [of s v k] by simp

lemma faultless_stamp:
  "sc_versions s = Some (r # v) \<Longrightarrow> stamp_unversioned_legacy_database (faultless s) = (Inr (), faultless s)"
  "sc_versions s = Some [] \<Longrightarrow> sc_logs s = Some tb \<Longrightarrow> legacy_log_table tb \<Longrightarrow>
   stamp_unversioned_legacy_database (faultless s) = (Inr (), faultless (s\<lparr>sc_versions := Some [revision_0001]\<rparr>))"
  "sc_versions s = Some [] \<Longrightarrow> sc_logs s = None \<Longrightarrow>
   stamp_unversioned_legacy_database (faultless s) = (Inr (), faultless s)"
  by (auto simp: stamp_unversioned_legacy_database_def faultless_versions sbind_simps legacy_execution_log_columns_def
      has_logs_table_def get_log_columns_def statement_def legacy_log_table_def legacy_columns_def MIGRATIONS_def)

text \<open>The first three statements bring a legacy database to the revision \<open>0001\<close>, whether or not it is versioned.\<close>

definition legacy_database :: "schema \<Rightarrow> sql_table \<Rightarrow> bool" where
  "legacy_database db tb \<longleftrightarrow> sc_logs db = Some tb \<and> legacy_log_table tb \<and>
     (sc_versions db = None \<or> sc_versions db = Some [] \<or> sc_versions db = Some [revision_0001])"

lemma legacy_database_body:
  assumes "legacy_database db tb"
  shows "migrate_body target (faultless db) =
    sbind (target_count target, faultless \<lparr>sc_logs = Some tb, sc_versions = Some [revision_0001]\<rparr>)
      (\<lambda>n t. sbind (change_revisions 1 n t) (\<lambda>_. applied_revisions))"
proof -
  let ?s = "\<lparr>sc_logs = Some tb, sc_versions = Some [revision_0001]\<rparr>"
  have "applied_revisions (faultless ?s) = (Inr [revision_0001], faultless ?s)"
    by (rule faultless_applied [where k = 1]) (simp_all add: known_revisions_eq)
  moreover have "stamp_unversioned_legacy_database (faultless ?s) = (Inr (), faultless ?s)"
    by (rule faultless_stamp) simp
  moreover have "stamp_unversioned_legacy_database (faultless \<lparr>sc_logs = Some tb, sc_versions = Some []\<rparr>) =
      (Inr (), faultless ?s)"
    using assms by (subst faultless_stamp(2)) (auto simp: legacy_database_def)
  ultimately show ?thesis
    using assms by (cases db) (auto simp: legacy_database_def migrate_body_def faultless_versions sbind_simps)
qed

text \<open>C24: Upgrading loses nothing. A legacy database, versioned or not, is migrated to the head with every
  old row kept in its old columns and the nine new columns filled as documented, none of the six required
  ones with a null; migrating back gives exactly the legacy table again.\<close>

theorem legacy_data_survives_upgrade_and_downgrade:
  assumes "legacy_database db tb"
  shows "migrate_database None Commit_done HEAD_REVISION db =
      (Inr known_revisions, \<lparr>sc_logs = Some (structured_table tb), sc_versions = Some known_revisions\<rparr>) \<and>
    migrate_database None Commit_done revision_0001
        \<lparr>sc_logs = Some (structured_table tb), sc_versions = Some known_revisions\<rparr> =
      (Inr [revision_0001], \<lparr>sc_logs = Some tb, sc_versions = Some [revision_0001]\<rparr>) \<and>
    (\<forall>r\<in>set (tb_rows tb). \<forall>c\<in>set (tb_columns tb). backfill r c = r c) \<and>
    (\<forall>r\<in>set (tb_rows (structured_table tb)). \<forall>c\<in>set required_structured_columns. r c \<noteq> Null)"
proof (intro conjI)
  have tb: "legacy_log_table tb" using assms by (simp add: legacy_database_def)
  let ?l = "\<lparr>sc_logs = Some tb, sc_versions = Some [revision_0001]\<rparr>"
  let ?h = "\<lparr>sc_logs = Some (structured_table tb), sc_versions = Some known_revisions\<rparr>"
  have up: "change_revisions 1 2 (faultless ?l) = (Inr (), faultless ?h)"
    using upgrade_0002_ok [of ?l tb] tb
    by (simp add: change_revisions_def MIGRATIONS_def apply_migration_def faultless_versions sbind_simps known_revisions_eq)
  have down: "change_revisions 2 1 (faultless ?h) = (Inr (), faultless ?l)"
    using downgrade_0002_ok [of ?h tb] tb
    by (simp add: change_revisions_def MIGRATIONS_def revert_migration_def faultless_versions sbind_simps known_revisions_eq)
  have h: "applied_revisions (faultless ?h) = (Inr known_revisions, faultless ?h)"
    by (rule faultless_applied [where k = 2]) (simp_all add: known_revisions_eq)
  have l: "applied_revisions (faultless ?l) = (Inr [revision_0001], faultless ?l)"
    by (rule faultless_applied [where k = 1]) (simp_all add: known_revisions_eq)
  show "migrate_database None Commit_done HEAD_REVISION db = (Inr known_revisions, ?h)"
    by (simp add: migrate_database_def legacy_database_body [OF assms] named_targets sbind_simps up h
        del: One_nat_def)
  have "stamp_unversioned_legacy_database (faultless ?h) = (Inr (), faultless ?h)"
    by (rule faultless_stamp(1) [where v = "[revision_0002]"]) (simp add: known_revisions_eq)
  then show "migrate_database None Commit_done revision_0001 ?h = (Inr [revision_0001], ?l)"
    by (simp add: migrate_database_def migrate_body_def faultless_versions named_targets sbind_simps down h l
        known_revisions_distinct del: One_nat_def)
  show "\<forall>r\<in>set (tb_rows tb). \<forall>c\<in>set (tb_columns tb). backfill r c = r c"
    using tb backfill_keeps by (auto simp: legacy_log_table_def)
  show "\<forall>r\<in>set (tb_rows (structured_table tb)). \<forall>c\<in>set required_structured_columns. r c \<noteq> Null"
    by (auto simp: structured_table_def backfill_not_null)
qed

definition example_legacy_row :: row where
  "example_legacy_row = (\<lambda>_. Null)(''id'' := Int_cell 7, ''output'' := Text_cell ''hi'', ''judge'' := Text_cell ''1'')"

definition example_legacy_table :: sql_table where
  "example_legacy_table = legacy_table\<lparr>tb_rows := [example_legacy_row]\<rparr>"

lemma example_legacy_database: "legacy_database \<lparr>sc_logs = Some example_legacy_table, sc_versions = None\<rparr> example_legacy_table"
  by (auto simp: legacy_database_def legacy_log_table_def example_legacy_table_def legacy_table_def legacy_columns_def
      STRUCTURED_COLUMNS_def example_legacy_row_def)

lemma legacy_data_survives_upgrade_and_downgrade_witness:
  "migrate_database None Commit_done HEAD_REVISION \<lparr>sc_logs = Some example_legacy_table, sc_versions = None\<rparr> =
     (Inr known_revisions, \<lparr>sc_logs = Some (structured_table example_legacy_table), sc_versions = Some known_revisions\<rparr>) \<and>
   backfill example_legacy_row ''stdout'' = Text_cell ''hi'' \<and>
   backfill example_legacy_row ''verdict'' = Text_cell ''accepted'' \<and> backfill example_legacy_row ''id'' = Int_cell 7"
  using legacy_data_survives_upgrade_and_downgrade [OF example_legacy_database]
  by (simp add: backfill_def example_legacy_row_def coalesce_def verdict_of_judge_def)

text \<open>A new database: the baseline table is created and then extended; going back to the base drops it.\<close>

lemma fresh_database_round_trip:
  assumes "sc_logs db = None" "sc_versions db = None \<or> sc_versions db = Some []"
  shows "migrate_database None Commit_done HEAD_REVISION db =
      (Inr known_revisions, \<lparr>sc_logs = Some (structured_table legacy_table), sc_versions = Some known_revisions\<rparr>)"
    and "migrate_database None Commit_done BASE_REVISION
        \<lparr>sc_logs = Some (structured_table legacy_table), sc_versions = Some known_revisions\<rparr> =
      (Inr [], \<lparr>sc_logs = None, sc_versions = Some []\<rparr>)"
proof -
  have tb: "legacy_log_table legacy_table"
    by (auto simp: legacy_log_table_def legacy_table_def legacy_columns_def STRUCTURED_COLUMNS_def)
  let ?e = "\<lparr>sc_logs = None, sc_versions = Some []\<rparr>"
  let ?l = "\<lparr>sc_logs = Some legacy_table, sc_versions = Some [revision_0001]\<rparr>"
  let ?h = "\<lparr>sc_logs = Some (structured_table legacy_table), sc_versions = Some known_revisions\<rparr>"
  have c: "upgrade_0001 (faultless ?e) = (Inr (), faultless (?e\<lparr>sc_logs := Some legacy_table\<rparr>))"
    "downgrade_0001 (faultless ?l) = (Inr (), faultless (?l\<lparr>sc_logs := None\<rparr>))"
    by (simp_all add: upgrade_0001_def downgrade_0001_def has_logs_table_def statement_def sbind_simps)
  have up: "change_revisions 0 2 (faultless ?e) = (Inr (), faultless ?h)"
    using upgrade_0002_ok [of ?l legacy_table] tb c
    by (simp add: change_revisions_def MIGRATIONS_def apply_migration_def faultless_versions sbind_simps known_revisions_eq)
  have down: "change_revisions 2 0 (faultless ?h) = (Inr (), faultless ?e)"
    using downgrade_0002_ok [of ?h legacy_table] tb c
    by (simp add: change_revisions_def MIGRATIONS_def revert_migration_def faultless_versions sbind_simps known_revisions_eq)
  have a: "applied_revisions (faultless ?h) = (Inr known_revisions, faultless ?h)"
    "applied_revisions (faultless ?e) = (Inr [], faultless ?e)"
    by (rule faultless_applied [where k = 2] faultless_applied [where k = 0]; simp add: known_revisions_eq)+
  have s: "stamp_unversioned_legacy_database (faultless ?e) = (Inr (), faultless ?e)"
    "stamp_unversioned_legacy_database (faultless ?h) = (Inr (), faultless ?h)"
    by (rule faultless_stamp(3); simp)
      (rule faultless_stamp(1) [where v = "[revision_0002]"], simp add: known_revisions_eq)
  show "migrate_database None Commit_done HEAD_REVISION db = (Inr known_revisions, ?h)"
    using assms by (cases db) (auto simp: migrate_database_def migrate_body_def faultless_versions named_targets
        sbind_simps s a up)
  show "migrate_database None Commit_done BASE_REVISION ?h = (Inr [], ?e)"
    by (simp add: migrate_database_def migrate_body_def faultless_versions named_targets sbind_simps s a down
        known_revisions_distinct)
qed

end
