(* ===== verification/Database_Access.thy ===== *)
theory Database_Access
  imports Migrations Regex
begin

section \<open>The database role of the backend\<close>

text \<open>
  \<open>database_access.py\<close>, \<open>database_admin.py\<close> and \<open>database_url.py\<close>: the role that the backend runs with, the
  policy of its privileges, and the maintenance command that migrates the database and sets the role up.
  The catalog of PostgreSQL is modelled as its roles and its grants (an entry per privilege, with the
  grant option, for a role or for \<open>PUBLIC\<close>); \<open>REVOKE\<close> and \<open>GRANT\<close> act for the administrator who runs them, so
  a grant made by somebody else survives a \<open>REVOKE\<close>.
\<close>

subsection \<open>Roles and grants\<close>

record role_row =
  ro_superuser :: bool
  ro_createrole :: bool
  ro_createdb :: bool
  ro_replication :: bool
  ro_bypassrls :: bool
  ro_inherit :: bool
  ro_canlogin :: bool
  ro_member :: bool
  ro_owner :: bool
  ro_password :: "pystr option"

datatype privilege = P_CONNECT | P_CREATE | P_TEMP | P_USAGE | P_SELECT | P_INSERT | P_UPDATE | P_DELETE
  | P_TRUNCATE | P_REFERENCES | P_TRIGGER

datatype db_object = The_database | Schema_public | Table_public string | Log_id_sequence

datatype grantee = Public | Role pystr

record grant =
  gr_to :: grantee
  gr_object :: db_object
  gr_privilege :: privilege
  gr_option :: bool
  gr_column :: bool
  gr_by_admin :: bool

record catalog =
  cg_roles :: "pystr \<Rightarrow> role_row option"
  cg_grants :: "grant list"

text \<open>\<open>has_database_privilege\<close>, \<open>has_schema_privilege\<close>, \<open>has_sequence_privilege\<close> and \<open>has_table_privilege\<close> with a
  comma separated list ask for any of its privileges; a superuser has all of them.\<close>

definition holds :: "catalog \<Rightarrow> pystr \<Rightarrow> (grant \<Rightarrow> bool) \<Rightarrow> db_object \<Rightarrow> privilege \<Rightarrow> bool \<Rightarrow> bool" where
  "holds cat role P obj p opt =
     ((case cg_roles cat role of None \<Rightarrow> False | Some r \<Rightarrow> ro_superuser r) \<or>
      (\<exists>g\<in>set (cg_grants cat). P g \<and> (gr_to g = Public \<or> gr_to g = Role role) \<and> gr_object g = obj \<and>
         gr_privilege g = p \<and> (opt \<longrightarrow> gr_option g)))"

definition has_privilege :: "catalog \<Rightarrow> pystr \<Rightarrow> db_object \<Rightarrow> (privilege \<times> bool) list \<Rightarrow> bool" where
  "has_privilege cat role obj ps = list_ex (\<lambda>(p, opt). holds cat role (\<lambda>g. \<not> gr_column g) obj p opt) ps"

definition has_any_column_privilege :: "catalog \<Rightarrow> pystr \<Rightarrow> string \<Rightarrow> privilege \<Rightarrow> bool \<Rightarrow> bool" where
  "has_any_column_privilege cat role table p opt = holds cat role (\<lambda>_. True) (Table_public table) p opt"

subsection \<open>The checks\<close>

definition ROLE_NAME :: rexp where
  "ROLE_NAME = RSeq (RCls [(97, 122), (95, 95)]) (RUpTo 62 (RCls [(97, 122), (48, 57), (95, 95)]))"

definition unsafe_role :: "role_row \<Rightarrow> bool" where
  "unsafe_role r \<longleftrightarrow> ro_superuser r \<or> ro_createrole r \<or> ro_createdb r \<or> ro_replication r \<or> ro_bypassrls r \<or>
     ro_inherit r \<or> \<not> ro_canlogin r \<or> ro_member r \<or> ro_owner r"

definition check_role :: "pystr \<Rightarrow> (catalog, unit) db_step" where
  "check_role role t =
     sbind (statement (\<lambda>cat. Inr (map_option unsafe_role (cg_roles cat role), cat)) t) (\<lambda>unsafe t.
     if unsafe \<noteq> Some False
     then fail (Other_exception ''runtime database role must be an unprivileged non-owner'') t
     else (Inr (), t))"

datatype check = Ask db_object "(privilege \<times> bool) list" bool | Ask_column string privilege bool bool

fun check_expected :: "check \<Rightarrow> bool" where
  "check_expected (Ask _ _ e) = e"
| "check_expected (Ask_column _ _ _ e) = e"

fun check_value :: "catalog \<Rightarrow> pystr \<Rightarrow> check \<Rightarrow> bool" where
  "check_value cat role (Ask obj ps _) = has_privilege cat role obj ps"
| "check_value cat role (Ask_column table p opt _) = has_any_column_privilege cat role table p opt"

definition table_policy :: "(string \<times> privilege list) list" where
  "table_policy = [(''execution_logs'', [P_SELECT, P_INSERT, P_DELETE]), (''soj_schema_migrations'', [P_SELECT])]"

definition table_privileges :: "privilege list" where
  "table_privileges = [P_SELECT, P_INSERT, P_UPDATE, P_DELETE, P_TRUNCATE, P_REFERENCES, P_TRIGGER]"

definition column_privileges :: "privilege list" where
  "column_privileges = [P_SELECT, P_INSERT, P_UPDATE, P_REFERENCES]"

definition table_checks :: "string \<times> privilege list \<Rightarrow> check list" where
  "table_checks = (\<lambda>(table, allowed).
     concat (map (\<lambda>p. [Ask (Table_public table) [(p, False)] (p \<in> set allowed),
                       Ask (Table_public table) [(p, True)] False]) table_privileges) @
     concat (map (\<lambda>p. Ask_column table p True False #
                       (if p \<notin> set allowed then [Ask_column table p False False] else [])) column_privileges))"

definition privilege_checks :: "check list" where
  "privilege_checks =
     [Ask The_database [(P_CONNECT, False)] True,
      Ask The_database [(P_CREATE, False), (P_TEMP, False)] False,
      Ask Schema_public [(P_USAGE, False)] True,
      Ask Schema_public [(P_CREATE, False)] False,
      Ask Log_id_sequence [(P_USAGE, False)] True,
      Ask Log_id_sequence [(P_UPDATE, False), (P_USAGE, True), (P_SELECT, True)] False] @
     concat (map table_checks table_policy)"

definition run_check :: "pystr \<Rightarrow> check \<Rightarrow> (catalog, unit) db_step" where
  "run_check role c t =
     sbind (statement (\<lambda>cat. Inr (check_value cat role c, cat)) t) (\<lambda>value t.
     if value \<noteq> check_expected c
     then fail (Other_exception ''runtime database privileges do not match policy'') t
     else (Inr (), t))"

definition check_privileges :: "pystr \<Rightarrow> (catalog, unit) db_step" where
  "check_privileges role = for_each (run_check role) privilege_checks"

text \<open>The check at the backend's start, as the role that is connected; every exception becomes one
  \<open>RuntimeError\<close>, modelled as \<open>None\<close>.\<close>

definition validate_runtime_database :: "nat option \<Rightarrow> pystr \<Rightarrow> schema \<Rightarrow> catalog \<Rightarrow> unit option" where
  "validate_runtime_database faults current_user db cat =
     (case applied_revisions \<lparr>tx_db = db, tx_left = faults\<rparr> of
        (Inl _, _) \<Rightarrow> None
      | (Inr revisions, t) \<Rightarrow>
          if revisions \<noteq> map mg_revision MIGRATIONS then None
          else (case sbind (statement (\<lambda>cat. Inr (current_user, cat)) \<lparr>tx_db = cat, tx_left = tx_left t\<rparr>)
                  (\<lambda>role t. sbind (check_role role t) (\<lambda>_. check_privileges role)) of
                  (Inl _, _) \<Rightarrow> None
                | (Inr _, _) \<Rightarrow> Some ()))"

subsection \<open>Setting the role up\<close>

text \<open>The statements that change grants, for the administrator who runs them.\<close>

datatype access_statement = Revoke "grant \<Rightarrow> bool" | Grant db_object "privilege list"

definition new_grant :: "pystr \<Rightarrow> db_object \<Rightarrow> privilege \<Rightarrow> grant" where
  "new_grant role obj p = \<lparr>gr_to = Role role, gr_object = obj, gr_privilege = p, gr_option = False,
     gr_column = False, gr_by_admin = True\<rparr>"

fun apply_access :: "pystr \<Rightarrow> access_statement \<Rightarrow> catalog \<Rightarrow> catalog" where
  "apply_access role (Revoke P) cat = cat\<lparr>cg_grants := filter (\<lambda>g. \<not> (gr_by_admin g \<and> P g)) (cg_grants cat)\<rparr>"
| "apply_access role (Grant obj ps) cat = cat\<lparr>cg_grants := cg_grants cat @ map (new_grant role obj) ps\<rparr>"

definition run_access :: "pystr \<Rightarrow> access_statement \<Rightarrow> (catalog, unit) db_step" where
  "run_access role st = statement (\<lambda>cat. Inr ((), apply_access role st cat))"

definition to_role_or_public :: "pystr \<Rightarrow> grant \<Rightarrow> bool" where
  "to_role_or_public role g \<longleftrightarrow> gr_to g = Public \<or> gr_to g = Role role"

definition access_statements :: "pystr \<Rightarrow> access_statement list" where
  "access_statements role =
     [Revoke (\<lambda>g. gr_object g = The_database \<and> gr_to g = Public \<and> gr_privilege g \<in> {P_CREATE, P_TEMP}),
      Revoke (\<lambda>g. gr_object g = The_database \<and> gr_to g = Role role),
      Grant The_database [P_CONNECT],
      Revoke (\<lambda>g. gr_object g = Schema_public \<and> gr_to g = Public \<and> gr_privilege g = P_CREATE),
      Revoke (\<lambda>g. gr_object g = Schema_public \<and> gr_to g = Role role),
      Grant Schema_public [P_USAGE]] @
     concat (map (\<lambda>(table, privileges).
        [Revoke (\<lambda>g. gr_object g = Table_public table \<and> to_role_or_public role g),
         Grant (Table_public table) privileges]) table_policy) @
     [Revoke (\<lambda>g. gr_object g = Log_id_sequence \<and> to_role_or_public role g),
      Grant Log_id_sequence [P_USAGE]]"

definition new_role :: role_row where
  "new_role = \<lparr>ro_superuser = False, ro_createrole = False, ro_createdb = False, ro_replication = False,
     ro_bypassrls = False, ro_inherit = False, ro_canlogin = True, ro_member = False, ro_owner = False,
     ro_password = None\<rparr>"

definition with_role :: "pystr \<Rightarrow> catalog \<Rightarrow> catalog" where
  "with_role role cat =
     (if cg_roles cat role \<noteq> None then cat else cat\<lparr>cg_roles := (cg_roles cat)(role := Some new_role)\<rparr>)"

text \<open>Looking the role up and creating it when it is missing.\<close>

definition create_role :: "pystr \<Rightarrow> (catalog, unit) db_step" where
  "create_role role t =
     sbind (statement (\<lambda>cat. Inr (cg_roles cat role \<noteq> None, cat)) t) (\<lambda>present.
     if present then (\<lambda>t. (Inr (), t)) else statement (\<lambda>cat. Inr ((), with_role role cat)))"

definition with_password :: "pystr \<Rightarrow> pystr \<Rightarrow> catalog \<Rightarrow> catalog" where
  "with_password role password cat = cat\<lparr>cg_roles := (cg_roles cat)
     (role := map_option (\<lambda>r. r\<lparr>ro_password := Some password\<rparr>) (cg_roles cat role))\<rparr>"

text \<open>The lock, the role and its password, the name of the database, the grants and the final check.\<close>

definition provision_body :: "pystr \<Rightarrow> pystr \<Rightarrow> (catalog, unit) db_step" where
  "provision_body role password t =
     sbind (statement (\<lambda>cat. Inr ((), cat)) t) (\<lambda>_ t.
     sbind (create_role role t) (\<lambda>_ t.
     sbind (check_role role t) (\<lambda>_ t.
     sbind (statement (\<lambda>cat. Inr ((), with_password role password cat)) t) (\<lambda>_ t.
     sbind (statement (\<lambda>cat. Inr ((), cat)) t) (\<lambda>_ t.
     sbind (for_each (run_access role) (access_statements role) t) (\<lambda>_.
     check_privileges role))))))"

definition provision_runtime_role ::
  "nat option \<Rightarrow> migration_exn commit_reply \<Rightarrow> pystr \<Rightarrow> pystr \<Rightarrow> catalog \<Rightarrow> (migration_exn + unit) \<times> catalog" where
  "provision_runtime_role faults commit role password cat =
     (if \<not> fullmatch ROLE_NAME role \<or> startswith role (lit ''pg_'') \<or> password = [] \<or> 0 \<in> set password
      then (Inl (Other_exception ''invalid runtime role configuration''), cat)
      else case provision_body role password \<lparr>tx_db = cat, tx_left = faults\<rparr> of
             (Inl e, _) \<Rightarrow> (Inl e, cat)
           | (Inr _, t) \<Rightarrow>
               (case commit of
                  Commit_done \<Rightarrow> (Inr (), tx_db t)
                | Commit_failed e \<Rightarrow> (Inl e, cat)
                | Commit_lost e \<Rightarrow> (Inl e, tx_db t)))"

subsection \<open>What the checks accept\<close>

definition policy_holds :: "catalog \<Rightarrow> pystr \<Rightarrow> bool" where
  "policy_holds cat role \<longleftrightarrow> list_all (\<lambda>c. check_value cat role c = check_expected c) privilege_checks"

definition role_ok :: "catalog \<Rightarrow> pystr \<Rightarrow> bool" where
  "role_ok cat role \<longleftrightarrow> (\<exists>r. cg_roles cat role = Some r \<and> \<not> unsafe_role r)"

lemma run_checks_Inr:
  "for_each (run_check role) cs t = (Inr (), u) \<Longrightarrow>
   list_all (\<lambda>c. check_value (tx_db t) role c = check_expected c) cs \<and> tx_db u = tx_db t"
proof (induction cs arbitrary: t)
  case (Cons c cs)
  obtain t1 where s: "run_check role c t = (Inr (), t1)" "for_each (run_check role) cs t1 = (Inr (), u)"
    using Cons.prems by (auto simp: sbind_Inr)
  have "check_value (tx_db t) role c = check_expected c \<and> tx_db t1 = tx_db t"
    using s(1) by (auto simp: run_check_def sbind_Inr fail_def split: if_splits dest!: statement_Inr)
  with Cons.IH [OF s(2)] show ?case by simp
qed simp

lemma run_checks_ok:
  "list_all (\<lambda>c. check_value cat role c = check_expected c) cs \<Longrightarrow>
   for_each (run_check role) cs (faultless cat) = (Inr (), faultless cat)"
  by (induction cs) (simp_all add: run_check_def statement_def sbind_simps)

lemma check_privileges_Inr:
  "check_privileges role t = (Inr (), u) \<Longrightarrow> policy_holds (tx_db t) role \<and> tx_db u = tx_db t"
  unfolding check_privileges_def policy_holds_def by (rule run_checks_Inr)

lemma check_privileges_ok:
  "policy_holds cat role \<Longrightarrow> check_privileges role (faultless cat) = (Inr (), faultless cat)"
  unfolding check_privileges_def policy_holds_def by (rule run_checks_ok)

lemma check_role_Inr: "check_role role t = (Inr (), u) \<Longrightarrow> role_ok (tx_db t) role \<and> tx_db u = tx_db t"
  by (auto simp: check_role_def sbind_Inr fail_def role_ok_def split: if_splits dest!: statement_Inr)

lemma check_role_ok: "role_ok cat role \<Longrightarrow> check_role role (faultless cat) = (Inr (), faultless cat)"
  by (auto simp: check_role_def statement_def sbind_simps role_ok_def)

text \<open>The policy in words: exactly the listed privileges, no grant options and nothing on single columns.\<close>

definition least_privileged :: "catalog \<Rightarrow> pystr \<Rightarrow> bool" where
  "least_privileged cat role \<longleftrightarrow>
     has_privilege cat role The_database [(P_CONNECT, False)] \<and>
     \<not> has_privilege cat role The_database [(P_CREATE, False)] \<and>
     \<not> has_privilege cat role The_database [(P_TEMP, False)] \<and>
     has_privilege cat role Schema_public [(P_USAGE, False)] \<and>
     \<not> has_privilege cat role Schema_public [(P_CREATE, False)] \<and>
     has_privilege cat role Log_id_sequence [(P_USAGE, False)] \<and>
     \<not> has_privilege cat role Log_id_sequence [(P_UPDATE, False)] \<and>
     (\<forall>(table, allowed)\<in>set table_policy. \<forall>p\<in>set table_privileges.
        has_privilege cat role (Table_public table) [(p, False)] = (p \<in> set allowed) \<and>
        \<not> has_privilege cat role (Table_public table) [(p, True)]) \<and>
     (\<forall>(table, allowed)\<in>set table_policy. \<forall>p\<in>set column_privileges.
        \<not> has_any_column_privilege cat role table p True \<and>
        (p \<notin> set allowed \<longrightarrow> \<not> has_any_column_privilege cat role table p False))"

lemma policy_is_least_privilege: "policy_holds cat role \<Longrightarrow> least_privileged cat role"
  by (simp add: policy_holds_def privilege_checks_def table_checks_def table_policy_def table_privileges_def
      column_privileges_def least_privileged_def has_privilege_def)

lemma validate_Some:
  assumes "validate_runtime_database faults user db cat = Some ()"
  shows "role_ok cat user \<and> policy_holds cat user \<and>
    (\<exists>v. sc_versions db = Some v \<and> set v = set known_revisions)"
proof -
  obtain revisions t where a: "applied_revisions \<lparr>tx_db = db, tx_left = faults\<rparr> = (Inr revisions, t)"
    and k: "revisions = known_revisions"
    and run: "\<exists>u. sbind (statement (\<lambda>cat. Inr (user, cat)) \<lparr>tx_db = cat, tx_left = tx_left t\<rparr>)
      (\<lambda>role t. sbind (check_role role t) (\<lambda>_. check_privileges role)) = (Inr (), u)"
    using assms by (auto simp: validate_runtime_database_def known_revisions_def split: prod.splits sum.splits if_splits)
  from run obtain u1 u2 u3 where "statement (\<lambda>cat. Inr (user, cat)) \<lparr>tx_db = cat, tx_left = tx_left t\<rparr> = (Inr user, u1)"
    "check_role user u1 = (Inr (), u2)" "check_privileges user u2 = (Inr (), u3)"
    by (auto simp: sbind_Inr dest: statement_Inr)
  then have "role_ok cat user \<and> policy_holds cat user"
    by (auto dest!: statement_Inr check_role_Inr check_privileges_Inr)
  with applied_revisions_Inr [OF a] k show ?thesis by auto
qed

lemma validate_ok:
  assumes "role_ok cat user" "policy_holds cat user" "sc_versions db = Some v" "set v = set known_revisions"
  shows "validate_runtime_database None user db cat = Some ()"
proof -
  have "applied_revisions (faultless db) = (Inr known_revisions, faultless db)"
    using faultless_applied_set [OF assms(3), of 2] assms(4) by (simp add: known_revisions_eq)
  then show ?thesis using assms(1,2)
    by (simp add: validate_runtime_database_def known_revisions_def statement_def sbind_simps check_role_ok
        check_privileges_ok)
qed

text \<open>The backend starts only with least privilege. When the check at start succeeds, the schema is at
  the head and the connected role is an unprivileged login role that owns nothing and belongs to no other role,
  with exactly these privileges: connect, use of the schema and of the ID sequence, select, insert and
  delete on the log, select on the version table; no others on them, none grantable, none on single columns.\<close>

theorem backend_starts_only_with_least_privilege:
  assumes "validate_runtime_database faults user db cat = Some ()"
  shows "least_privileged cat user \<and>
    (\<exists>r. cg_roles cat user = Some r \<and> ro_canlogin r \<and> \<not> ro_superuser r \<and> \<not> ro_createrole r \<and>
       \<not> ro_createdb r \<and> \<not> ro_bypassrls r \<and> \<not> ro_owner r \<and> \<not> ro_member r) \<and>
    (\<exists>v. sc_versions db = Some v \<and> set v = set known_revisions)"
  using validate_Some [OF assms] policy_is_least_privilege by (auto simp: role_ok_def unsafe_role_def)

subsection \<open>What setting the role up does\<close>

definition provisioned :: "pystr \<Rightarrow> pystr \<Rightarrow> catalog \<Rightarrow> catalog" where
  "provisioned role password cat =
     fold (apply_access role) (access_statements role) (with_password role password (with_role role cat))"

lemma run_access_Inr:
  "for_each (run_access role) sts t = (Inr (), u) \<Longrightarrow> tx_db u = fold (apply_access role) sts (tx_db t)"
proof (induction sts arbitrary: t)
  case (Cons st sts)
  then obtain t1 where s: "run_access role st t = (Inr (), t1)" "for_each (run_access role) sts t1 = (Inr (), u)"
    by (auto simp: sbind_Inr)
  have "tx_db t1 = apply_access role st (tx_db t)"
    using s(1) by (auto simp: run_access_def dest: statement_Inr)
  with Cons.IH [OF s(2)] show ?case by simp
qed simp

lemma run_access_ok:
  "for_each (run_access role) sts (faultless cat) = (Inr (), faultless (fold (apply_access role) sts cat))"
  by (induction sts arbitrary: cat) (simp_all add: run_access_def statement_def sbind_simps)

lemma apply_access_roles [simp]: "cg_roles (fold (apply_access role) sts cat) = cg_roles cat"
proof (induction sts arbitrary: cat)
  case (Cons st sts) then show ?case by (cases st) simp_all
qed simp

lemma role_ok_provisioned: "role_ok (provisioned role password cat) role = role_ok (with_role role cat) role"
  by (auto simp: role_ok_def provisioned_def with_password_def unsafe_role_def)

lemma provision_body_Inr:
  assumes "provision_body role password t = (Inr (), u)"
  shows "tx_db u = provisioned role password (tx_db t) \<and> role_ok (with_role role (tx_db t)) role \<and>
    policy_holds (tx_db u) role"
proof -
  obtain t1 t2 t3 t4 t5 t6 where s: "statement (\<lambda>cat. Inr ((), cat)) t = (Inr (), t1)"
    "create_role role t1 = (Inr (), t2)" "check_role role t2 = (Inr (), t3)"
    "statement (\<lambda>cat. Inr ((), with_password role password cat)) t3 = (Inr (), t4)"
    "statement (\<lambda>cat. Inr ((), cat)) t4 = (Inr (), t5)"
    "for_each (run_access role) (access_statements role) t5 = (Inr (), t6)" "check_privileges role t6 = (Inr (), u)"
    using assms by (auto simp: provision_body_def sbind_Inr)
  have "tx_db t2 = with_role role (tx_db t)"
    using statement_Inr [OF s(1)] s(2)
    by (auto simp: create_role_def sbind_Inr with_role_def split: if_splits dest!: statement_Inr)
  moreover have "role_ok (tx_db t2) role" "tx_db t3 = tx_db t2"
    using check_role_Inr [OF s(3)] by auto
  moreover have "tx_db t5 = with_password role password (tx_db t3)"
    using statement_Inr [OF s(4)] statement_Inr [OF s(5)] by simp
  ultimately show ?thesis
    using check_privileges_Inr [OF s(7)] run_access_Inr [OF s(6)] by (simp add: provisioned_def)
qed

lemma provision_body_ok:
  assumes "role_ok (with_role role cat) role" "policy_holds (provisioned role password cat) role"
  shows "provision_body role password (faultless cat) = (Inr (), faultless (provisioned role password cat))"
proof -
  have "create_role role (faultless cat) = (Inr (), faultless (with_role role cat))"
    by (auto simp: create_role_def statement_def sbind_simps with_role_def)
  then show ?thesis using assms
    by (simp add: provision_body_def statement_def sbind_simps check_role_ok run_access_ok
        provisioned_def [symmetric] check_privileges_ok)
qed

subsection \<open>The grants left behind\<close>

definition revoked :: "pystr \<Rightarrow> grant \<Rightarrow> bool" where
  "revoked role g \<longleftrightarrow> gr_by_admin g \<and>
     (gr_object g = The_database \<and> (gr_to g = Role role \<or> gr_to g = Public \<and> gr_privilege g \<in> {P_CREATE, P_TEMP}) \<or>
      gr_object g = Schema_public \<and> (gr_to g = Role role \<or> gr_to g = Public \<and> gr_privilege g = P_CREATE) \<or>
      gr_object g \<in> {Table_public ''execution_logs'', Table_public ''soj_schema_migrations'', Log_id_sequence} \<and>
        to_role_or_public role g)"

definition granted :: "(db_object \<times> privilege) list" where
  "granted = [(The_database, P_CONNECT), (Schema_public, P_USAGE), (Table_public ''execution_logs'', P_SELECT),
     (Table_public ''execution_logs'', P_INSERT), (Table_public ''execution_logs'', P_DELETE),
     (Table_public ''soj_schema_migrations'', P_SELECT), (Log_id_sequence, P_USAGE)]"

lemma new_grant_simps [simp]:
  "gr_to (new_grant role obj p) = Role role" "gr_object (new_grant role obj p) = obj"
  "gr_privilege (new_grant role obj p) = p" "\<not> gr_option (new_grant role obj p)"
  "\<not> gr_column (new_grant role obj p)" "gr_by_admin (new_grant role obj p)"
  by (simp_all add: new_grant_def)

lemma access_fold:
  fixes T :: db_object and U :: db_object
  assumes "T \<noteq> The_database" "T \<noteq> Schema_public" "U \<noteq> The_database" "U \<noteq> Schema_public" "T \<noteq> U"
    "T \<noteq> Log_id_sequence" "U \<noteq> Log_id_sequence"
  shows "cg_grants (fold (apply_access role)
     [Revoke (\<lambda>g. gr_object g = The_database \<and> gr_to g = Public \<and> gr_privilege g \<in> {P_CREATE, P_TEMP}),
      Revoke (\<lambda>g. gr_object g = The_database \<and> gr_to g = Role role), Grant The_database as,
      Revoke (\<lambda>g. gr_object g = Schema_public \<and> gr_to g = Public \<and> gr_privilege g = P_CREATE),
      Revoke (\<lambda>g. gr_object g = Schema_public \<and> gr_to g = Role role), Grant Schema_public bs,
      Revoke (\<lambda>g. gr_object g = T \<and> to_role_or_public role g), Grant T cs,
      Revoke (\<lambda>g. gr_object g = U \<and> to_role_or_public role g), Grant U ds,
      Revoke (\<lambda>g. gr_object g = Log_id_sequence \<and> to_role_or_public role g), Grant Log_id_sequence es] cat) =
    filter (\<lambda>g. \<not> (gr_by_admin g \<and>
       (gr_object g = The_database \<and> (gr_to g = Role role \<or> gr_to g = Public \<and> gr_privilege g \<in> {P_CREATE, P_TEMP}) \<or>
        gr_object g = Schema_public \<and> (gr_to g = Role role \<or> gr_to g = Public \<and> gr_privilege g = P_CREATE) \<or>
        gr_object g \<in> {T, U, Log_id_sequence} \<and> to_role_or_public role g))) (cg_grants cat) @
      map (new_grant role The_database) as @ map (new_grant role Schema_public) bs @ map (new_grant role T) cs @
      map (new_grant role U) ds @ map (new_grant role Log_id_sequence) es"
proof -
  have keep: "filter (\<lambda>g. gr_by_admin g \<longrightarrow> gr_object g = other \<longrightarrow> P g) (map (new_grant role obj) ps) =
      map (new_grant role obj) ps" if "other \<noteq> obj" for P obj other ps
    using that by (fastforce simp: filter_id_conv)
  show ?thesis using assms
    by (simp add: keep del: filter_map) (rule filter_cong [OF refl], blast)
qed

lemma provisioned_grants:
  "cg_grants (provisioned role password cat) =
     filter (\<lambda>g. \<not> revoked role g) (cg_grants cat) @ map (\<lambda>(obj, p). new_grant role obj p) granted"
proof -
  have "cg_grants (with_password role password (with_role role cat)) = cg_grants cat"
    by (simp add: with_password_def with_role_def)
  then show ?thesis
    unfolding provisioned_def access_statements_def table_policy_def granted_def list.map concat.simps
      append.simps prod.case revoked_def
    by (intro trans [OF access_fold]) simp_all
qed

definition admin_grants :: "catalog \<Rightarrow> pystr \<Rightarrow> bool" where
  "admin_grants cat role \<longleftrightarrow> (\<forall>g\<in>set (cg_grants cat). to_role_or_public role g \<longrightarrow> gr_by_admin g)"

lemma holds_provisioned:
  assumes "role_ok (with_role role cat) role"
  shows "holds (provisioned role password cat) role P obj p opt \<longleftrightarrow>
    (\<exists>g\<in>set (cg_grants cat). P g \<and> \<not> revoked role g \<and> to_role_or_public role g \<and> gr_object g = obj \<and>
       gr_privilege g = p \<and> (opt \<longrightarrow> gr_option g)) \<or>
    (\<not> opt \<and> P (new_grant role obj p) \<and> (obj, p) \<in> set granted)"
proof -
  obtain r where "cg_roles (provisioned role password cat) role = Some r" "\<not> ro_superuser r"
    using assms role_ok_provisioned [of role password cat] by (auto simp: role_ok_def unsafe_role_def)
  then have "holds (provisioned role password cat) role P obj p opt \<longleftrightarrow>
    (\<exists>g\<in>set (cg_grants (provisioned role password cat)). P g \<and> to_role_or_public role g \<and> gr_object g = obj \<and>
       gr_privilege g = p \<and> (opt \<longrightarrow> gr_option g))"
    by (simp add: holds_def to_role_or_public_def)
  also have "\<dots> \<longleftrightarrow> (\<exists>g\<in>set (cg_grants cat). P g \<and> \<not> revoked role g \<and> to_role_or_public role g \<and>
       gr_object g = obj \<and> gr_privilege g = p \<and> (opt \<longrightarrow> gr_option g)) \<or>
    (\<exists>(o1, p1)\<in>set granted. P (new_grant role o1 p1) \<and> o1 = obj \<and> p1 = p \<and> \<not> opt)"
    unfolding provisioned_grants by (simp add: bex_Un case_prod_beta to_role_or_public_def) blast
  finally show ?thesis by auto
qed

lemma holds_provisioned_closed:
  assumes "role_ok (with_role role cat) role" "admin_grants cat role"
    and "obj \<in> {Table_public ''execution_logs'', Table_public ''soj_schema_migrations'', Log_id_sequence} \<or>
      obj = The_database \<and> p \<in> {P_CREATE, P_TEMP} \<or> obj = Schema_public \<and> p = P_CREATE"
  shows "holds (provisioned role password cat) role P obj p opt \<longleftrightarrow>
    \<not> opt \<and> P (new_grant role obj p) \<and> (obj, p) \<in> set granted"
proof -
  have "revoked role g" if "g \<in> set (cg_grants cat)" "to_role_or_public role g" "gr_object g = obj" "gr_privilege g = p" for g
    using that assms(2,3) by (auto simp: admin_grants_def revoked_def to_role_or_public_def)
  then show ?thesis unfolding holds_provisioned [OF assms(1)] by blast
qed

lemma policy_provisioned:
  assumes "role_ok (with_role role cat) role" "admin_grants cat role"
  shows "policy_holds (provisioned role password cat) role"
proof -
  have "holds (provisioned role password cat) role P The_database P_CONNECT False" if "P (new_grant role The_database P_CONNECT)" for P
    using that unfolding holds_provisioned [OF assms(1)] by (simp add: granted_def)
  moreover have "holds (provisioned role password cat) role P Schema_public P_USAGE False" if "P (new_grant role Schema_public P_USAGE)" for P
    using that unfolding holds_provisioned [OF assms(1)] by (simp add: granted_def)
  moreover note holds_provisioned_closed [OF assms]
  ultimately show ?thesis
    by (simp add: policy_holds_def privilege_checks_def table_checks_def table_policy_def table_privileges_def
        column_privileges_def has_privilege_def has_any_column_privilege_def granted_def)
qed

text \<open>C25: Setting the role up succeeds and fits the check at start. For a valid name and password, a role that is
  missing or unprivileged, and no grant to it or to \<open>PUBLIC\<close> that the administrator cannot revoke, it succeeds; the
  backend then starts on a migrated schema as this role, whose password is the given one; other roles and the grants
  to them are left as they were.\<close>

theorem provisioned_role_passes_start_check:
  assumes "fullmatch ROLE_NAME role" "\<not> startswith role (lit ''pg_'')" "password \<noteq> []" "0 \<notin> set password"
    and "\<forall>r. cg_roles cat role = Some r \<longrightarrow> \<not> unsafe_role r" "admin_grants cat role"
    and "sc_versions db = Some known_revisions"
  shows "\<exists>cat'. provision_runtime_role None Commit_done role password cat = (Inr (), cat') \<and>
    validate_runtime_database None role db cat' = Some () \<and>
    (\<exists>r. cg_roles cat' role = Some r \<and> ro_password r = Some password) \<and>
    (\<forall>other. other \<noteq> role \<longrightarrow> cg_roles cat' other = cg_roles cat other) \<and>
    filter (\<lambda>g. \<not> to_role_or_public role g) (cg_grants cat') = filter (\<lambda>g. \<not> to_role_or_public role g) (cg_grants cat)"
proof -
  let ?c = "provisioned role password cat"
  have ok: "role_ok (with_role role cat) role"
    using assms(5) by (auto simp: role_ok_def with_role_def new_role_def unsafe_role_def)
  have policy: "policy_holds ?c role" using policy_provisioned [OF ok assms(6)] .
  have "provision_runtime_role None Commit_done role password cat = (Inr (), ?c)"
    using assms(1-4) provision_body_ok [OF ok policy] by (simp add: provision_runtime_role_def)
  moreover have "validate_runtime_database None role db ?c = Some ()"
    by (rule validate_ok [OF _ policy assms(7) refl]) (simp add: role_ok_provisioned ok)
  moreover have "cg_roles ?c = cg_roles (with_password role password (with_role role cat))"
    by (simp add: provisioned_def)
  moreover have "filter (\<lambda>g. \<not> to_role_or_public role g) (filter (\<lambda>g. \<not> revoked role g) gs) =
      filter (\<lambda>g. \<not> to_role_or_public role g) gs" for gs
    unfolding filter_filter by (rule filter_cong [OF refl]) (auto simp: revoked_def to_role_or_public_def)
  ultimately show ?thesis
    by (auto simp: provisioned_grants with_password_def with_role_def to_role_or_public_def filter_empty_conv)
qed

lemma provision_keeps_or_passes:
  assumes "provision_runtime_role faults commit role password cat = (r, cat')"
    and "sc_versions db = Some v" "set v = set known_revisions"
  shows "(r = Inr () \<longrightarrow> validate_runtime_database None role db cat' = Some ()) \<and>
    (cat' = cat \<or> validate_runtime_database None role db cat' = Some ())"
proof -
  have pass: "validate_runtime_database None role db (tx_db t) = Some ()"
    if "provision_body role password \<lparr>tx_db = cat, tx_left = faults\<rparr> = (Inr (), t)" for t
    using provision_body_Inr [OF that] role_ok_provisioned [of role password cat]
    by (intro validate_ok [OF _ _ assms(2,3)]) auto
  show ?thesis
  proof (cases "provision_body role password \<lparr>tx_db = cat, tx_left = faults\<rparr>")
    case (Pair q t)
    then show ?thesis using assms(1) pass
      by (auto simp: provision_runtime_role_def split: if_splits sum.splits commit_reply.splits)
  qed
qed

subsection \<open>The maintenance command\<close>

text \<open>A parsed database URL; \<open>make_url\<close> of SQLAlchemy is a parameter.\<close>

record url =
  ur_drivername :: pystr
  ur_username :: "pystr option"
  ur_password :: "pystr option"
  ur_host :: "pystr option"
  ur_port :: "int option"
  ur_database :: "pystr option"
  ur_query :: bool

definition truthy :: "'a list option \<Rightarrow> bool" where
  "truthy x \<longleftrightarrow> x \<noteq> None \<and> x \<noteq> Some []"

definition explicit_postgresql :: "url \<Rightarrow> bool" where
  "explicit_postgresql u \<longleftrightarrow>
     (ur_drivername u = lit ''postgresql'' \<or> ur_drivername u = lit ''postgresql+psycopg2'') \<and>
     truthy (ur_username u) \<and> truthy (ur_password u) \<and> truthy (ur_host u) \<and> truthy (ur_database u) \<and> \<not> ur_query u"

text \<open>\<open>url.port or 5432\<close>: a port of zero counts as missing.\<close>

definition port_or_default :: "url \<Rightarrow> int" where
  "port_or_default u = (case ur_port u of None \<Rightarrow> 5432 | Some p \<Rightarrow> if p = 0 then 5432 else p)"

definition database_urls ::
  "(pystr \<Rightarrow> url option) \<Rightarrow> pystr option \<Rightarrow> pystr option \<Rightarrow> migration_exn + url \<times> url" where
  "database_urls make_url admin_env app_env =
     (case (Option.bind admin_env make_url, Option.bind app_env make_url) of
        (Some admin, Some app) \<Rightarrow>
          if \<not> explicit_postgresql admin \<or> \<not> explicit_postgresql app
          then Inl (Other_exception ''explicit PostgreSQL credentials are required'')
          else if (ur_host admin, port_or_default admin, ur_database admin) \<noteq> (ur_host app, port_or_default app, ur_database app)
               \<or> ur_username admin = ur_username app \<or> ur_password admin = ur_password app
          then Inl (Other_exception ''use distinct credentials for the same database'')
          else if \<not> fullmatch ROLE_NAME (the (ur_username app)) \<or> startswith (the (ur_username app)) (lit ''pg_'')
               \<or> 0 \<in> set (the (ur_password app))
          then Inl (Other_exception ''invalid runtime role configuration'')
          else Inr (admin, app)
      | _ \<Rightarrow> Inl (Other_exception ''missing or malformed URL''))"

definition database_driver_url :: "url \<Rightarrow> url" where
  "database_driver_url u =
     (if ur_drivername u = lit ''postgresql'' then u\<lparr>ur_drivername := lit ''postgresql+psycopg2''\<rparr> else u)"

text \<open>What the surroundings do: whether the engine can be created and disposed of, which statements and
  commits fail in the two transactions.\<close>

record maintenance_faults =
  mf_engine :: bool
  mf_dispose :: bool
  mf_migrate :: "nat option \<times> migration_exn commit_reply"
  mf_provision :: "nat option \<times> migration_exn commit_reply"

text \<open>The exit code, what is printed to the standard output and whether the fixed message goes to the
  standard error, with the database after the command.\<close>

record maintenance_result =
  mr_code :: int
  mr_printed :: "string list"
  mr_failed_message :: bool
  mr_schema :: schema
  mr_catalog :: catalog

definition maintenance_body ::
  "maintenance_faults \<Rightarrow> string \<Rightarrow> url \<Rightarrow> schema \<Rightarrow> catalog \<Rightarrow> (migration_exn + string) \<times> schema \<times> catalog" where
  "maintenance_body f target app db cat =
     (case migrate_database (fst (mf_migrate f)) (snd (mf_migrate f)) target db of
        (Inl e, db) \<Rightarrow> (Inl e, db, cat)
      | (Inr revisions, db) \<Rightarrow>
          (case (if target = HEAD_REVISION
                 then provision_runtime_role (fst (mf_provision f)) (snd (mf_provision f))
                        (the (ur_username app)) (the (ur_password app)) cat
                 else (Inr (), cat)) of
             (Inl e, cat) \<Rightarrow> (Inl e, db, cat)
           | (Inr _, cat) \<Rightarrow> (Inr (printed_revision revisions), db, cat)))"

definition maintenance_main ::
  "(pystr \<Rightarrow> url option) \<Rightarrow> pystr option \<Rightarrow> pystr option \<Rightarrow> maintenance_faults \<Rightarrow> string \<Rightarrow> schema \<Rightarrow> catalog \<Rightarrow>
   maintenance_result" where
  "maintenance_main make_url admin_env app_env f target db cat =
     (case database_urls make_url admin_env app_env of
        Inl _ \<Rightarrow> \<lparr>mr_code = 1, mr_printed = [], mr_failed_message = True, mr_schema = db, mr_catalog = cat\<rparr>
      | Inr (admin, app) \<Rightarrow>
          if mf_engine f
          then \<lparr>mr_code = 1, mr_printed = [], mr_failed_message = True, mr_schema = db, mr_catalog = cat\<rparr>
          else
            (case maintenance_body f target app db cat of
               (Inl _, db', cat') \<Rightarrow>
                 \<lparr>mr_code = 1, mr_printed = [], mr_failed_message = True, mr_schema = db', mr_catalog = cat'\<rparr>
             | (Inr revision, db', cat') \<Rightarrow>
                 if mf_dispose f
                 then \<lparr>mr_code = 1, mr_printed = [], mr_failed_message = True, mr_schema = db', mr_catalog = cat'\<rparr>
                 else \<lparr>mr_code = 0, mr_printed = [revision], mr_failed_message = False, mr_schema = db', mr_catalog = cat'\<rparr>))"

text \<open>The start check refuses a schema that is not at the head.\<close>

lemma early_schema_refused:
  assumes "sc_versions db = Some v" and "set v = set (take n known_revisions)" and "n < length known_revisions"
  shows "validate_runtime_database None user db cat = None"
proof -
  have "applied_revisions (faultless db) = (Inr (take n known_revisions), faultless db)"
    by (rule faultless_applied_set [OF assms(1,2)])
  moreover have "take n known_revisions \<noteq> known_revisions" using assms(3) by (metis length_take min.absorb4 less_irrefl)
  ultimately show ?thesis by (simp add: validate_runtime_database_def flip: known_revisions_def)
qed

lemma maintenance_body_Inr:
  assumes "maintenance_body f target app db cat = (Inr revision, db', cat')"
  shows "\<exists>n. target_count target = Inr n \<and> revision = printed_revision (take n known_revisions) \<and>
    (\<exists>v. sc_versions db' = Some v \<and> set v = set (take n known_revisions)) \<and>
    (target = HEAD_REVISION \<longrightarrow> validate_runtime_database None (the (ur_username app)) db' cat' = Some ())"
proof -
  obtain revisions where m: "migrate_database (fst (mf_migrate f)) (snd (mf_migrate f)) target db = (Inr revisions, db')"
    and p: "revision = printed_revision revisions"
      "target = HEAD_REVISION \<Longrightarrow> provision_runtime_role (fst (mf_provision f)) (snd (mf_provision f))
        (the (ur_username app)) (the (ur_password app)) cat = (Inr (), cat')"
    using assms by (auto simp: maintenance_body_def split: prod.splits sum.splits if_splits)
  obtain n v where n: "target_count target = Inr n" "revisions = take n known_revisions" "sc_versions db' = Some v"
    "set v = set revisions"
    using m migrate_body_Inr [of target "\<lparr>tx_db = db, tx_left = fst (mf_migrate f)\<rparr>"]
    by (auto simp: migrate_database_def split: prod.splits sum.splits commit_reply.splits)
  have "validate_runtime_database None (the (ur_username app)) db' cat' = Some ()" if "target = HEAD_REVISION"
  proof -
    have "set v = set known_revisions" using n that by (simp add: named_targets known_revisions_distinct)
    from provision_keeps_or_passes [OF p(2) [OF that] n(3) this] show ?thesis by simp
  qed
  with n p(1) show ?thesis by auto
qed

text \<open>C26: The maintenance command prepares the backend's start. For every target it either exits with 0, prints
  only the revision it was asked for and has brought the schema to it, or exits with 1, prints no revision and reports
  the one fixed message. When a run to the head exits with 0, the start check of the backend succeeds for the
  role of the configured URL; when a run to an earlier revision exits with 0, it has left the roles alone and the start
  check refuses the schema. A command refused for its configuration changes nothing.\<close>

theorem maintenance_prepares_the_backend:
  "let r = maintenance_main make_url admin_env app_env f target db cat in
    (mr_code r = 0 \<or> mr_code r = 1) \<and> mr_failed_message r = (mr_code r = 1) \<and>
    (if mr_code r = 0
     then \<exists>admin app n. database_urls make_url admin_env app_env = Inr (admin, app) \<and> target_count target = Inr n \<and>
            mr_printed r = [printed_revision (take n known_revisions)] \<and>
            (\<exists>v. sc_versions (mr_schema r) = Some v \<and> set v = set (take n known_revisions)) \<and>
            (if target = HEAD_REVISION
             then validate_runtime_database None (the (ur_username app)) (mr_schema r) (mr_catalog r) = Some ()
             else mr_catalog r = cat) \<and>
            (n < length known_revisions \<longrightarrow>
               (\<forall>user. validate_runtime_database None user (mr_schema r) (mr_catalog r) = None))
     else mr_printed r = [] \<and>
            (if is_ok (database_urls make_url admin_env app_env) then True else mr_schema r = db \<and> mr_catalog r = cat))"
proof -
  let ?r = "maintenance_main make_url admin_env app_env f target db cat"
  show ?thesis
proof (cases "database_urls make_url admin_env app_env")
  case (Inr q)
  obtain admin app where q: "q = (admin, app)" by (cases q)
  obtain b db' cat' where body: "maintenance_body f target app db cat = (b, db', cat')" by (metis prod_cases3)
  have "cat' = cat" if "target \<noteq> HEAD_REVISION"
    using body that by (auto simp: maintenance_body_def split: prod.splits sum.splits)
  moreover have "\<exists>n. target_count target = Inr n \<and> revision = printed_revision (take n known_revisions) \<and>
      (\<exists>v. sc_versions db' = Some v \<and> set v = set (take n known_revisions)) \<and>
      (target = HEAD_REVISION \<longrightarrow> validate_runtime_database None (the (ur_username app)) db' cat' = Some ()) \<and>
      (n < length known_revisions \<longrightarrow> (\<forall>user. validate_runtime_database None user db' cat' = None))"
    if rev: "b = Inr revision" for revision
  proof -
    obtain n v where n: "target_count target = Inr n \<and> revision = printed_revision (take n known_revisions)"
      "sc_versions db' = Some v" "set v = set (take n known_revisions)"
      "target = HEAD_REVISION \<longrightarrow> validate_runtime_database None (the (ur_username app)) db' cat' = Some ()"
      using maintenance_body_Inr [of f target app db cat revision db' cat'] body rev by auto
    then show ?thesis using early_schema_refused [OF n(2,3)] by blast
  qed
  moreover have "?r = (case b of
      Inl _ \<Rightarrow> if mf_engine f
        then \<lparr>mr_code = 1, mr_printed = [], mr_failed_message = True, mr_schema = db, mr_catalog = cat\<rparr>
        else \<lparr>mr_code = 1, mr_printed = [], mr_failed_message = True, mr_schema = db', mr_catalog = cat'\<rparr>
    | Inr revision \<Rightarrow> if mf_engine f
        then \<lparr>mr_code = 1, mr_printed = [], mr_failed_message = True, mr_schema = db, mr_catalog = cat\<rparr>
        else if mf_dispose f
        then \<lparr>mr_code = 1, mr_printed = [], mr_failed_message = True, mr_schema = db', mr_catalog = cat'\<rparr>
        else \<lparr>mr_code = 0, mr_printed = [revision], mr_failed_message = False, mr_schema = db', mr_catalog = cat'\<rparr>)"
    by (cases b) (simp_all add: maintenance_main_def Inr q body)
  ultimately show ?thesis by (cases b) (auto simp: Inr q Let_def)
qed (simp add: maintenance_main_def)
qed

subsection \<open>Settings of the engine\<close>

text \<open>Seconds for the pool and for connecting, milliseconds for a statement and for a lock; none for another
  database than PostgreSQL. The search path is fixed to \<open>public\<close>.\<close>

record engine_settings =
  es_pool_timeout :: int
  es_connect_timeout :: int
  es_statement_timeout :: int
  es_lock_timeout :: int
  es_search_path :: string

definition engine_options :: "pystr \<Rightarrow> int \<Rightarrow> engine_settings option" where
  "engine_options database_url timeout_seconds =
     (if \<not> startswith database_url (lit ''postgresql'') then None
      else let timeout_milliseconds = timeout_seconds * 1000 in
           Some \<lparr>es_pool_timeout = timeout_seconds, es_connect_timeout = timeout_seconds,
                 es_statement_timeout = timeout_milliseconds, es_lock_timeout = timeout_milliseconds,
                 es_search_path = ''public''\<rparr>)"

subsection \<open>An example\<close>

definition fresh_catalog :: catalog where
  "fresh_catalog = \<lparr>cg_roles = (\<lambda>_. None),
     cg_grants = [\<lparr>gr_to = Public, gr_object = The_database, gr_privilege = P_TEMP, gr_option = False,
                   gr_column = False, gr_by_admin = True\<rparr>]\<rparr>"

definition example_role :: pystr where "example_role = lit ''soj_app''"

definition migrated :: schema where
  "migrated = \<lparr>sc_logs = Some (structured_table legacy_table), sc_versions = Some known_revisions\<rparr>"

lemma example_role_ok:
  "fullmatch ROLE_NAME example_role" "\<not> startswith example_role (lit ''pg_'')"
  "admin_grants fresh_catalog example_role" "role_ok (with_role example_role fresh_catalog) example_role"
proof -
  show "fullmatch ROLE_NAME example_role" by code_simp
  show "\<not> startswith example_role (lit ''pg_'')" by (simp add: startswith_def example_role_def lit_def)
  show "admin_grants fresh_catalog example_role" by (simp add: admin_grants_def fresh_catalog_def)
  show "role_ok (with_role example_role fresh_catalog) example_role"
    by (simp add: role_ok_def with_role_def fresh_catalog_def new_role_def unsafe_role_def)
qed

lemma provisioned_role_passes_start_check_witness:
  "\<exists>cat'. provision_runtime_role None Commit_done example_role [120] fresh_catalog = (Inr (), cat') \<and>
     validate_runtime_database None example_role migrated cat' = Some ()"
  using provisioned_role_passes_start_check [OF example_role_ok(1,2), of "[120]" fresh_catalog migrated]
    example_role_ok(3) by (auto simp: migrated_def fresh_catalog_def)

lemma example_validate:
  "validate_runtime_database None example_role migrated (provisioned example_role [120] fresh_catalog) = Some ()"
  by (rule validate_ok [where v = known_revisions, OF _ policy_provisioned [OF example_role_ok(4,3)]])
    (simp_all add: role_ok_provisioned example_role_ok(4) migrated_def)

lemma backend_starts_only_with_least_privilege_witness:
  "least_privileged (provisioned example_role [120] fresh_catalog) example_role"
  using backend_starts_only_with_least_privilege [OF example_validate] by simp

definition example_url :: "string \<Rightarrow> string \<Rightarrow> url" where
  "example_url name password = \<lparr>ur_drivername = lit ''postgresql'', ur_username = Some (lit name), ur_password = Some (lit password),
     ur_host = Some (lit ''db''), ur_port = None, ur_database = Some (lit ''soj''), ur_query = False\<rparr>"

definition example_make_url :: "pystr \<Rightarrow> url option" where
  "example_make_url text = Some (if text = [] then example_url ''postgres'' ''a'' else example_url ''soj_app'' ''b'')"

lemma example_urls: "database_urls example_make_url (Some []) (Some [97]) = Inr (example_url ''postgres'' ''a'', example_url ''soj_app'' ''b'')"
proof -
  have "fullmatch ROLE_NAME (lit ''soj_app'')" using example_role_ok(1) by (simp add: example_role_def)
  moreover have "\<not> startswith (lit ''soj_app'') (lit ''pg_'')" using example_role_ok(2) by (simp add: example_role_def)
  ultimately show ?thesis
    by (simp add: database_urls_def example_make_url_def example_url_def explicit_postgresql_def truthy_def port_or_default_def lit_def)
qed
definition example_unversioned :: schema where
  "example_unversioned = \<lparr>sc_logs = None, sc_versions = Some []\<rparr>"

lemma example_migrate_base:
  "migrate_database None Commit_done BASE_REVISION example_unversioned = (Inr [], example_unversioned)"
  by (simp add: example_unversioned_def migrate_database_def migrate_body_def step_simps acquire_migration_lock_def create_version_table_def
      has_logs_table_def select_revisions_def stamp_unversioned_legacy_database_def legacy_execution_log_columns_def applied_revisions_def target_count_def
      change_revisions_def known_revisions_def Let_def)

definition example_maintenance :: maintenance_result where
  "example_maintenance = maintenance_main example_make_url (Some []) (Some [97])
     \<lparr>mf_engine = False, mf_dispose = False, mf_migrate = (None, Commit_done), mf_provision = (None, Commit_done)\<rparr>
     BASE_REVISION example_unversioned fresh_catalog"

lemma maintenance_prepares_the_backend_witness:
  "mr_code example_maintenance = 0 \<and> mr_printed example_maintenance = [''base''] \<and> mr_catalog example_maintenance = fresh_catalog
    \<and> validate_runtime_database None example_role (mr_schema example_maintenance) fresh_catalog = None"
proof -
  have base: "BASE_REVISION \<noteq> HEAD_REVISION" by (simp add: BASE_REVISION_def HEAD_REVISION_def)
  have "printed_revision [] = ''base''" by (simp add: printed_revision_def BASE_REVISION_def)
  then have run: "example_maintenance = \<lparr>mr_code = 0, mr_printed = [''base''], mr_failed_message = False,
      mr_schema = example_unversioned, mr_catalog = fresh_catalog\<rparr>"
    using base by (simp add: example_maintenance_def maintenance_main_def example_urls maintenance_body_def example_migrate_base)
  have n: "target_count BASE_REVISION = Inr 0" "0 < length known_revisions"
    by (simp_all add: target_count_def known_revisions_def MIGRATIONS_def)
  have "\<forall>user. validate_runtime_database None user (mr_schema example_maintenance) (mr_catalog example_maintenance) = None"
    using maintenance_prepares_the_backend [of example_make_url "Some []" "Some [97]"
        "\<lparr>mf_engine = False, mf_dispose = False, mf_migrate = (None, Commit_done), mf_provision = (None, Commit_done)\<rparr>"
        BASE_REVISION example_unversioned fresh_catalog, folded example_maintenance_def] n base
    by (simp add: Let_def run)
  then show ?thesis by (simp add: run)
qed

end
