(* ===== verification/Production.thy ===== *)
theory Production
  imports Prelude Regex
begin

section \<open>The update of the production host\<close>

text \<open>
  \<open>deploy/production.py\<close>: the checks of a transferred candidate, the switch of the services and the record of a
  failure. What Docker, git and the file system answer is the environment \<open>env\<close>; in addition any action can
  raise, because its command fails or times out or because a stop request arrives: \<open>h_left\<close> counts the
  actions that still succeed. JSON files appear decoded.
\<close>

text \<open>The exceptions that the code tells apart: its own, an \<open>OSError\<close>, and all others (among them the
  \<open>RuntimeError\<close> that the handler of a stop request raises).\<close>

datatype deploy_exn = DeploymentError string | Os_error string | Failure string

subsection \<open>The candidate and its images\<close>

definition SERVICES :: "string list" where
  "SERVICES = [''backend'', ''runner'', ''frontend'', ''db'', ''sandbox'']"

record build_record =
  br_source_commit :: pystr
  br_worktree_dirty :: bool
  br_product_version :: pystr
  br_image_ids :: "(string \<times> pystr) list"
  br_archive_digest :: pystr

definition COMMIT_PATTERN :: rexp where
  "COMMIT_PATTERN = RRep 40 (RCls [(48, 57), (97, 102)])"

definition IMAGE_ID_PATTERN :: rexp where
  "IMAGE_ID_PATTERN = RSeq (RLit (lit ''sha256:'')) (RRep 64 (RCls [(48, 57), (97, 102)]))"

definition image_of :: "build_record \<Rightarrow> string \<Rightarrow> pystr" where
  "image_of r name = the (map_of (br_image_ids r) name)"

definition valid_record :: "build_record \<Rightarrow> pystr \<Rightarrow> bool" where
  "valid_record r sha \<longleftrightarrow>
     fullmatch COMMIT_PATTERN sha \<and> br_source_commit r = sha \<and> \<not> br_worktree_dirty r \<and>
     set (map fst (br_image_ids r)) = set SERVICES \<and>
     list_all (\<lambda>(_, value). fullmatch IMAGE_ID_PATTERN value) (br_image_ids r)"

definition read_record :: "deploy_exn + build_record \<Rightarrow> deploy_exn + pystr \<Rightarrow> pystr \<Rightarrow> deploy_exn + build_record" where
  "read_record file digest sha =
     rbind file (\<lambda>r.
     if \<not> valid_record r sha then Inl (DeploymentError ''invalid candidate record or archive'')
     else rbind digest (\<lambda>d.
       if d \<noteq> br_archive_digest r then Inl (DeploymentError ''invalid candidate record or archive'') else Inr r))"

record path_info =
  pi_directory :: bool
  pi_symlink :: bool
  pi_owned :: bool
  pi_mode :: nat

text \<open>\<open>st_mode & 0o077\<close>: a permission for the group or for others.\<close>

definition private_directory :: "deploy_exn + path_info \<Rightarrow> deploy_exn + unit" where
  "private_directory info =
     rbind info (\<lambda>i.
     if \<not> pi_directory i \<or> pi_symlink i \<or> \<not> pi_owned i \<or> pi_mode i mod 64 \<noteq> 0
     then Inl (DeploymentError ''a private, owned directory is required'') else Inr ())"

record image_config =
  ic_id :: pystr
  ic_os :: string
  ic_architecture :: pystr
  ic_version :: "pystr option"
  ic_env :: "pystr list"

definition env_items :: "image_config \<Rightarrow> pystr \<Rightarrow> pystr list" where
  "env_items c key = filter (\<lambda>item. startswith item (key @ lit ''='')) (ic_env c)"

definition same_db_setting :: "image_config \<Rightarrow> image_config \<Rightarrow> pystr \<Rightarrow> bool" where
  "same_db_setting old new key \<longleftrightarrow> length (env_items old key) = 1 \<and> env_items old key = env_items new key"

definition check_image :: "build_record \<Rightarrow> image_config \<Rightarrow> string \<Rightarrow> pystr \<Rightarrow> image_config \<Rightarrow> deploy_exn + unit" where
  "check_image r old name img inspected =
     (if ic_id inspected \<noteq> img \<or> ic_os inspected \<noteq> ''linux'' \<or> ic_architecture inspected \<noteq> ic_architecture old \<or>
         ic_version inspected \<noteq> Some (br_product_version r)
      then Inl (DeploymentError ''unexpected image identity, architecture or version'')
      else if name = ''db'' \<and> \<not> (same_db_setting old inspected (lit ''PG_MAJOR'') \<and> same_db_setting old inspected (lit ''PGDATA''))
      then Inl (DeploymentError ''DB major or data directory changes require manual migration'')
      else Inr ())"

primrec check_each :: "build_record \<Rightarrow> image_config \<Rightarrow> (pystr \<Rightarrow> deploy_exn + image_config) \<Rightarrow>
    (string \<times> pystr) list \<Rightarrow> deploy_exn + unit" where
  "check_each r old inspect [] = Inr ()"
| "check_each r old inspect (x # xs) =
     rbind (inspect (snd x)) (\<lambda>c. rbind (check_image r old (fst x) (snd x) c) (\<lambda>_. check_each r old inspect xs))"

definition check_images :: "build_record \<Rightarrow> (pystr \<Rightarrow> deploy_exn + image_config) \<Rightarrow> pystr \<Rightarrow> deploy_exn + unit" where
  "check_images r inspect old_db = rbind (inspect old_db) (\<lambda>old. check_each r old inspect (br_image_ids r))"

text \<open>The override: the commit, the image of each service (all with \<open>pull_policy: never\<close>) and the sandbox image
  of the runner.\<close>

record override =
  ov_commit :: pystr
  ov_images :: "(string \<times> pystr) list"
  ov_sandbox :: pystr

definition override_for :: "build_record \<Rightarrow> override" where
  "override_for r = \<lparr>ov_commit = br_source_commit r,
     ov_images = map (\<lambda>name. (name, image_of r name)) (filter (\<lambda>name. name \<noteq> ''sandbox'') SERVICES) @
       [(''migrate'', image_of r ''backend'')],
     ov_sandbox = image_of r ''sandbox''\<rparr>"

subsection \<open>Checks of the answers\<close>

record smoke_body =
  sm_api_version :: int
  sm_status :: string
  sm_exit_code :: "int option"
  sm_stdout :: pystr
  sm_persistence :: string
  sm_submission_id :: "int option"

definition smoke_ok :: "smoke_body \<Rightarrow> bool" where
  "smoke_ok b \<longleftrightarrow> sm_api_version b = 3 \<and> sm_status b = ''completed'' \<and> sm_exit_code b = Some 0 \<and>
     sm_stdout b = lit ''smoke-ok'' \<and> sm_persistence b = ''saved'' \<and>
     (case sm_submission_id b of None \<Rightarrow> False | Some i \<Rightarrow> i > 0)"

text \<open>One request over the public path: an exception of the request or of the answer's shape, or the check.\<close>

definition smoke :: "deploy_exn + smoke_body \<Rightarrow> deploy_exn + unit" where
  "smoke reply = rbind reply (\<lambda>b. if smoke_ok b then Inr ()
     else Inl (Failure ''sandbox or persistence smoke test failed''))"

record split_url =
  su_scheme :: string
  su_hostname :: "pystr option"
  su_username :: "pystr option"
  su_password :: "pystr option"
  su_path :: pystr
  su_query :: pystr
  su_fragment :: pystr

definition absent :: "'a list option \<Rightarrow> bool" where
  "absent x \<longleftrightarrow> x = None \<or> x = Some []"

definition public_origin :: "split_url \<Rightarrow> bool" where
  "public_origin u \<longleftrightarrow> su_scheme u = ''https'' \<and> \<not> absent (su_hostname u) \<and> absent (su_username u) \<and>
     absent (su_password u) \<and> su_path u = [] \<and> su_query u = [] \<and> su_fragment u = []"

definition unix_prefix :: pystr where "unix_prefix = lit ''unix://''"

definition valid_docker_host :: "pystr \<Rightarrow> bool" where
  "valid_docker_host d \<longleftrightarrow> startswith d (lit ''unix:///'') \<and>
     strip [47] (if startswith d unix_prefix then drop 7 d else d) \<noteq> []"

subsection \<open>The host\<close>

datatype override_file = No_override | Managed override | Unmanaged

text \<open>The commands that change services, in the order in which they are issued.\<close>

datatype service_call = Stop_services | Up_db | Db_ready | Run_migrate | Up_all

text \<open>The file \<open>FAILED\<close>: a commit and a phase, or what a write that did not finish has left. A write succeeds,
  or raises after having truncated the file or not.\<close>

datatype failure_record = Failure_record pystr string | Torn_record

datatype write_reply = Write_done | Write_error deploy_exn bool

record host =
  h_failed :: "failure_record option"
  h_override :: override_file
  h_candidate :: "override option"
  h_current :: "build_record option"
  h_head :: pystr
  h_archive :: bool
  h_basis :: bool
  h_calls :: "service_call list"
  h_journal :: "string list"
  h_phase :: string
  h_stopped :: bool
  h_left :: "nat option"

text \<open>What the compose configuration says of the database volume and the public address.\<close>

record compose_config =
  cc_volume :: pystr
  cc_data_mounts :: "(pystr \<times> pystr \<times> pystr) list"
  cc_server_url :: pystr

record environment =
  e_root :: bool
  e_docker_host :: "pystr option"
  e_docker_info :: "deploy_exn + bool \<times> pystr"
  e_git_status :: "deploy_exn + pystr"
  e_override_read :: "deploy_exn + unit"
  e_record :: "deploy_exn + build_record"
  e_digest :: "deploy_exn + pystr"
  e_main_before :: "deploy_exn + pystr"
  e_ancestor :: "deploy_exn + unit"
  e_old_volume :: "deploy_exn + pystr"
  e_db_running :: "deploy_exn + bool"
  e_db_mounts :: "pystr list"
  e_db_image :: pystr
  e_load :: "deploy_exn + unit"
  e_inspect :: "pystr \<Rightarrow> deploy_exn + image_config"
  e_main_after :: "deploy_exn + pystr"
  e_merge :: "deploy_exn + unit"
  e_config :: "deploy_exn + compose_config"
  e_split_url :: "pystr \<Rightarrow> deploy_exn + split_url"
  e_mark :: write_reply
  e_call :: "service_call \<Rightarrow> deploy_exn + unit"
  e_ready :: "nat \<Rightarrow> deploy_exn + unit"
  e_ready_retry :: "nat \<Rightarrow> bool"
  e_running :: "string \<Rightarrow> deploy_exn + pystr"
  e_smoke :: "nat \<Rightarrow> deploy_exn + smoke_body"
  e_unmark :: "deploy_exn + unit"
  e_mark_failure :: write_reply
  e_basis_mkdir :: "deploy_exn + unit"
  e_basis_directory :: "deploy_exn + path_info"
  e_basis_rename :: "deploy_exn + unit"
  e_unlink :: "deploy_exn + unit"

type_synonym 'a deploy_step = "host \<Rightarrow> (deploy_exn + 'a) \<times> host"

text \<open>An action asks its surroundings and changes the host only when the answer is good.\<close>

definition ask :: "deploy_exn + 'a \<Rightarrow> 'a deploy_step" where
  "ask reply h =
     (if h_left h = Some 0 then (Inl (Failure ''interrupted or failed''), h)
      else (reply, h\<lparr>h_left := map_option (\<lambda>n. n - 1) (h_left h)\<rparr>))"

definition act :: "deploy_exn + 'a \<Rightarrow> (host \<Rightarrow> host) \<Rightarrow> unit deploy_step" where
  "act reply f h = sbind (ask reply h) (\<lambda>_ h. (Inr (), f h))"

definition write_failure :: "write_reply \<Rightarrow> pystr \<Rightarrow> string \<Rightarrow> unit deploy_step" where
  "write_failure reply sha phase h =
     (case reply of
        Write_done \<Rightarrow> (Inr (), h\<lparr>h_failed := Some (Failure_record sha phase)\<rparr>)
      | Write_error e torn \<Rightarrow> (Inl e, if torn then h\<lparr>h_failed := Some Torn_record\<rparr> else h))"

definition refuse_if :: "bool \<Rightarrow> deploy_exn \<Rightarrow> unit deploy_step" where
  "refuse_if b e h = (if b then Inl e else Inr (), h)"

definition stage :: "string \<Rightarrow> host \<Rightarrow> host" where
  "stage name h = h\<lparr>h_phase := name, h_journal := h_journal h @ [name]\<rparr>"

text \<open>A compose command: it counts as issued even when it fails.\<close>

definition compose :: "environment \<Rightarrow> service_call \<Rightarrow> unit deploy_step" where
  "compose env c h = ask (e_call env c) (h\<lparr>h_calls := h_calls h @ [c]\<rparr>)"

subsection \<open>Before the switch\<close>

definition check_host :: "environment \<Rightarrow> unit deploy_step" where
  "check_host env h =
     sbind (refuse_if (h_failed h \<noteq> None) (Failure ''previous deployment needs manual recovery'') h) (\<lambda>_ h.
     sbind (refuse_if (e_root env) (DeploymentError ''run as the rootless Docker owner'') h) (\<lambda>_ h.
     sbind (refuse_if (case e_docker_host env of None \<Rightarrow> False | Some d \<Rightarrow> \<not> valid_docker_host d)
              (DeploymentError ''DOCKER_HOST must be a local Unix socket'') h) (\<lambda>_ h.
     sbind (ask (e_docker_info env) h) (\<lambda>(rootless, cgroup) h.
     sbind (refuse_if (\<not> rootless \<or> cgroup \<noteq> lit ''2'')
              (DeploymentError ''rootless Docker with cgroup v2 is required'') h) (\<lambda>_ h.
     sbind (ask (e_git_status env) h) (\<lambda>status h.
     sbind (refuse_if (status \<noteq> []) (DeploymentError ''production checkout must be clean'') h) (\<lambda>_ h.
     if h_override h = No_override then (Inr (), h)
     else sbind (ask (e_override_read env) h) (\<lambda>_.
          refuse_if (h_override h = Unmanaged) (DeploymentError ''an unmanaged Compose override exists'')))))))))"

text \<open>The data volume of the running database.\<close>

definition running_database :: "environment \<Rightarrow> pystr deploy_step" where
  "running_database env h =
     sbind (ask (e_old_volume env) h) (\<lambda>volume h.
     sbind (ask (e_db_running env) h) (\<lambda>running h.
     sbind (refuse_if (\<not> running) (DeploymentError ''existing production DB must be running'') h) (\<lambda>_ h.
     sbind (refuse_if (e_db_mounts env \<noteq> [volume]) (DeploymentError ''existing DB volume does not match Compose'') h) (\<lambda>_ h.
     (Inr volume, h)))))"

definition check_candidate :: "environment \<Rightarrow> pystr \<Rightarrow> pystr deploy_step" where
  "check_candidate env volume h =
     sbind (ask (e_config env) h) (\<lambda>config h.
     sbind (refuse_if (cc_volume config \<noteq> volume \<or> cc_data_mounts config \<noteq>
              [(lit ''volume'', lit ''db_data'', lit ''/var/lib/postgresql/data'')])
              (DeploymentError ''candidate must preserve the existing DB volume'') h) (\<lambda>_ h.
     let origin = rstrip [47] (cc_server_url config) in
     sbind (ask (e_split_url env origin) h) (\<lambda>parsed h.
     sbind (refuse_if (\<not> public_origin parsed) (DeploymentError ''SERVER_URL must be a public HTTPS origin'') h) (\<lambda>_ h.
     (Inr origin, h)))))"

text \<open>Everything before the services are stopped: \<open>None\<close> when a newer commit has superseded this one.\<close>

definition preflight :: "environment \<Rightarrow> pystr \<Rightarrow> build_record option deploy_step" where
  "preflight env sha h =
     sbind (check_host env h) (\<lambda>_ h.
     sbind (ask (read_record (e_record env) (e_digest env) sha) h) (\<lambda>r h.
     sbind (ask (e_main_before env) h) (\<lambda>main h.
     if main \<noteq> sha then (Inr None, stage ''superseded; no production changes'' h)
     else
     sbind (ask (e_ancestor env) h) (\<lambda>_ h.
     sbind (running_database env h) (\<lambda>volume h.
     sbind (ask (e_load env) h) (\<lambda>_ h.
     sbind (ask (check_images r (e_inspect env) (e_db_image env)) h) (\<lambda>_ h.
     sbind (ask (e_main_after env) h) (\<lambda>main h.
     if main \<noteq> sha then (Inr None, stage ''superseded after image transfer; no service changes'' h)
     else
     sbind (act (e_merge env) (\<lambda>h. h\<lparr>h_head := sha\<rparr>) h) (\<lambda>_ h.
     sbind (act (Inr ()) (\<lambda>h. h\<lparr>h_candidate := Some (override_for r)\<rparr>) h) (\<lambda>_ h.
     sbind (check_candidate env volume h) (\<lambda>_ h.
     (Inr (Some r), h))))))))))))"

subsection \<open>The switch\<close>

text \<open>At most 30 attempts; only a failing or slow command is tried again.\<close>

fun wait_database :: "environment \<Rightarrow> nat \<Rightarrow> nat \<Rightarrow> unit deploy_step" where
  "wait_database env i 0 h = (Inl (Failure ''database did not become ready''), h)"
| "wait_database env i (Suc n) h =
     (case ask (e_ready env i) (h\<lparr>h_calls := h_calls h @ [Db_ready]\<rparr>) of
        (Inr _, h) \<Rightarrow> (Inr (), h)
      | (Inl e, h) \<Rightarrow> if e_ready_retry env i then wait_database env (i + 1) n h else (Inl e, h))"

text \<open>At most five attempts; every \<open>Exception\<close> is tried again.\<close>

fun wait_smoke :: "environment \<Rightarrow> nat \<Rightarrow> nat \<Rightarrow> unit deploy_step" where
  "wait_smoke env i 0 h = (Inl (Failure ''public smoke test failed''), h)"
| "wait_smoke env i (Suc n) h =
     (case ask (smoke (e_smoke env i)) h of
        (Inr _, h) \<Rightarrow> (Inr (), h)
      | (Inl _, h) \<Rightarrow> wait_smoke env (i + 1) n h)"

primrec check_running :: "environment \<Rightarrow> build_record \<Rightarrow> string list \<Rightarrow> unit deploy_step" where
  "check_running env r [] h = (Inr (), h)"
| "check_running env r (name # names) h =
     sbind (ask (e_running env name) h) (\<lambda>actual h.
     sbind (refuse_if (actual \<noteq> image_of r name)
              (DeploymentError ''running image differs from reviewed image'') h) (\<lambda>_.
     check_running env r names))"

definition stop_and_migrate :: "environment \<Rightarrow> pystr \<Rightarrow> build_record \<Rightarrow> unit deploy_step" where
  "stop_and_migrate env sha r h =
     sbind (ask (Inr ()) h) (\<lambda>_ h.
     sbind (write_failure (e_mark env) sha ''in progress'' h) (\<lambda>_ h.
     sbind (compose env Stop_services h) (\<lambda>_ h.
     sbind (act (Inr ()) (\<lambda>h. h\<lparr>h_override := Managed (override_for r), h_candidate := None\<rparr>) h) (\<lambda>_ h.
     sbind (compose env Up_db (stage ''database migration'' h)) (\<lambda>_ h.
     sbind (wait_database env 0 30 h) (\<lambda>_ h.
     compose env Run_migrate h))))))"

definition start_and_verify :: "environment \<Rightarrow> build_record \<Rightarrow> unit deploy_step" where
  "start_and_verify env r h =
     sbind (compose env Up_all (stage ''start services'' h)) (\<lambda>_ h.
     sbind (check_running env r [''db'', ''runner'', ''backend'', ''frontend''] h) (\<lambda>_ h.
     wait_smoke env 0 5 (stage ''public smoke test'' h)))"

definition record_success :: "environment \<Rightarrow> build_record \<Rightarrow> unit deploy_step" where
  "record_success env r h =
     sbind (act (Inr ()) (\<lambda>h. h\<lparr>h_current := Some r\<rparr>) h) (\<lambda>_ h.
     sbind (act (e_unmark env) (\<lambda>h. h\<lparr>h_failed := None\<rparr>) h) (\<lambda>_ h.
     (Inr (), stage ''success'' (h\<lparr>h_stopped := False\<rparr>))))"

definition switch_services :: "environment \<Rightarrow> pystr \<Rightarrow> build_record \<Rightarrow> unit deploy_step" where
  "switch_services env sha r h =
     sbind (stop_and_migrate env sha r ((stage ''stop services'' h)\<lparr>h_stopped := True\<rparr>)) (\<lambda>_ h.
     sbind (start_and_verify env r h) (\<lambda>_.
     record_success env r))"

text \<open>The archive of a successful update becomes the base of the next transfer; when that fails with an
  \<open>OSError\<close> or a \<open>DeploymentError\<close> it is deleted, any other exception (a stop request) escapes.\<close>

definition keep_transfer_basis :: "environment \<Rightarrow> unit deploy_step" where
  "keep_transfer_basis env h =
     (case sbind (ask (e_basis_mkdir env) h) (\<lambda>_ h.
           sbind (ask (private_directory (e_basis_directory env)) h) (\<lambda>_ h.
           act (e_basis_rename env) (\<lambda>h. h\<lparr>h_archive := False, h_basis := True\<rparr>) h)) of
        (Inr _, h) \<Rightarrow> (Inr (), h)
      | (Inl (Failure m), h) \<Rightarrow> (Inl (Failure m), h)
      | (Inl _, h) \<Rightarrow> act (e_unlink env) (\<lambda>h. h\<lparr>h_archive := False\<rparr>) h)"

definition update :: "environment \<Rightarrow> pystr \<Rightarrow> unit deploy_step" where
  "update env sha h =
     sbind (preflight env sha h) (\<lambda>candidate.
     case candidate of
       None \<Rightarrow> (\<lambda>h. (Inr (), h))
     | Some r \<Rightarrow> (\<lambda>h. sbind (switch_services env sha r h) (\<lambda>_. keep_transfer_basis env)))"

text \<open>\<open>Deployment.execute\<close>: after the stop, a failure is written down and the stop is asked for again, whatever
  becomes of the stop. An \<open>OSError\<close> of the write is passed over, any other exception of it (a stop request that
  arrives meanwhile) escapes before the stop.\<close>

definition execute :: "environment \<Rightarrow> pystr \<Rightarrow> unit deploy_step" where
  "execute env sha h =
     (case update env sha (stage ''preflight'' h) of
        (Inr _, h) \<Rightarrow> (Inr (), h)
      | (Inl e, h) \<Rightarrow>
          if h_stopped h
          then (case write_failure (e_mark_failure env) sha (h_phase h) h of
                  (Inr _, h) \<Rightarrow> (Inl e, snd (compose env Stop_services h))
                | (Inl (Os_error _), h) \<Rightarrow> (Inl e, snd (compose env Stop_services h))
                | (Inl e', h) \<Rightarrow> (Inl e', h))
          else (Inl e, h))"

subsection \<open>The command\<close>

text \<open>\<open>main\<close>: the two directories, the paths and the lock, then the update; the exit code and what is printed.\<close>

record invocation =
  in_state_directory :: "deploy_exn + path_info"
  in_incoming_directory :: "deploy_exn + path_info"
  in_paths_expected :: bool
  in_lock :: "deploy_exn + unit"

definition production_main :: "invocation \<Rightarrow> environment \<Rightarrow> pystr \<Rightarrow> host \<Rightarrow> (string option) \<times> host" where
  "production_main call env sha h =
     (case sbind (private_directory (in_state_directory call), h) (\<lambda>_ h.
           sbind (private_directory (in_incoming_directory call), h) (\<lambda>_ h.
           sbind (refuse_if (\<not> in_paths_expected call) (DeploymentError ''unexpected deployment paths'') h) (\<lambda>_ h.
           sbind (in_lock call, h) (\<lambda>_.
           execute env sha)))) of
        (Inr _, h) \<Rightarrow> (None, h)
      | (Inl (DeploymentError m), h) \<Rightarrow> (Some (''Production deployment refused: '' @ m), h)
      | (Inl _, h) \<Rightarrow>
          (Some ''Production deployment failed; inspect phase and failure record on the host.'', h))"

subsection \<open>Frames\<close>

text \<open>What the checks leave alone: the services, the failure record, the installed override and the record of the
  last success.\<close>

definition quiet :: "host \<Rightarrow> host \<Rightarrow> bool" where
  "quiet h h' \<longleftrightarrow> h_calls h' = h_calls h \<and> h_failed h' = h_failed h \<and> h_override h' = h_override h \<and>
     h_current h' = h_current h \<and> h_stopped h' = h_stopped h \<and> h_archive h' = h_archive h \<and> h_basis h' = h_basis h"

interpretation quiet_frame: step_frame quiet
  by unfold_locales (simp_all add: quiet_def)

abbreviation quiet_step :: "'a deploy_step \<Rightarrow> bool" where
  "quiet_step \<equiv> preserves quiet"

lemmas quiet_sbind = quiet_frame.preserves_sbind
lemmas quiet_stepD = preservesD [where R = quiet]

lemma quiet_basic [intro]:
  "quiet_step (ask reply)" "quiet_step (refuse_if b e)" "quiet_step (\<lambda>h. (r, h))" "quiet_step (\<lambda>h. (r, stage s h))"
  "quiet_step (act q (\<lambda>h. h\<lparr>h_head := c\<rparr>))" "quiet_step (act q (\<lambda>h. h\<lparr>h_candidate := d\<rparr>))"
  by (auto simp: preserves_def quiet_def ask_def refuse_if_def stage_def act_def sbind_def split: sum.splits)

lemma quiet_running_database: "quiet_step (running_database env)"
  unfolding running_database_def [abs_def] by (intro quiet_sbind quiet_basic)

lemma quiet_check_candidate: "quiet_step (check_candidate env volume)"
  unfolding check_candidate_def [abs_def] Let_def by (intro quiet_sbind quiet_basic)

lemma quiet_check_host: "quiet_step (check_host env)"
proof -
  have state: "quiet_step (\<lambda>h. refuse_if (c h) e (h :: host))" for c e
    by (auto simp: preserves_def quiet_def refuse_if_def)
  have tail: "quiet_step (\<lambda>h. if h_override h = No_override then (Inr (), h)
     else sbind (ask (e_override_read env) h) (\<lambda>_.
          refuse_if (h_override h = Unmanaged) (DeploymentError ''an unmanaged Compose override exists'')))"
    by (auto simp: preserves_def quiet_def refuse_if_def ask_def sbind_def split: sum.splits)
  show ?thesis unfolding check_host_def [abs_def] case_prod_beta
    by (rule quiet_sbind, rule state, rule quiet_sbind, rule state, rule quiet_sbind, rule state,
        rule quiet_sbind, rule quiet_basic, rule quiet_sbind, rule state, rule quiet_sbind, rule quiet_basic,
        rule quiet_sbind, rule state, rule tail)
qed

lemma quiet_preflight: "quiet_step (preflight env sha)"
proof -
  have choose: "quiet_step (\<lambda>h. if b then (r, stage s h) else m h)" if "quiet_step m" for b r s and m :: "'a deploy_step"
    using that by (intro preserves_if_state quiet_basic)
  show ?thesis unfolding preflight_def [abs_def]
    by (intro quiet_sbind quiet_check_host quiet_running_database quiet_check_candidate choose quiet_basic)
qed

subsection \<open>The record of a failure\<close>











definition after_mark :: "environment \<Rightarrow> build_record \<Rightarrow> unit deploy_step" where
  "after_mark env r h =
     sbind (compose env Stop_services h) (\<lambda>_ h.
     sbind (act (Inr ()) (\<lambda>h. h\<lparr>h_override := Managed (override_for r), h_candidate := None\<rparr>) h) (\<lambda>_ h.
     sbind (compose env Up_db (stage ''database migration'' h)) (\<lambda>_ h.
     sbind (wait_database env 0 30 h) (\<lambda>_ h.
     compose env Run_migrate h))))"

definition mark :: "environment \<Rightarrow> pystr \<Rightarrow> unit deploy_step" where
  "mark env sha h = sbind (ask (Inr ()) h) (\<lambda>_. write_failure (e_mark env) sha ''in progress'')"

lemma stop_and_migrate_eq: "stop_and_migrate env sha r h = sbind (mark env sha h) (\<lambda>_. after_mark env r)"
proof -
  have "after_mark env r = (\<lambda>h. after_mark env r h)" by simp
  then show ?thesis
    by (simp add: stop_and_migrate_def after_mark_def [abs_def] mark_def sbind_def split: sum.splits prod.splits)
qed





lemma preflight_quiet: "preflight env sha (stage s h) = (x, h') \<Longrightarrow> quiet h h'"
  using quiet_stepD [OF quiet_preflight, of env sha "stage s h" x h'] by (simp add: quiet_def stage_def)


lemma successful_switch_marks:
  assumes "switch_services env sha r h = (Inr u, h')"
  shows "h_failed h' = None \<and> \<not> h_stopped h' \<and> h_current h' = Some r \<and> h_phase h' = ''success''"
  using assms by (auto simp: switch_services_def record_success_def sbind_Inr act_def ask_def stage_def split: if_splits)

text \<open>Tidying up the archive changes nothing else, and nothing at all when it raises.\<close>

definition only_archive :: "host \<Rightarrow> host \<Rightarrow> bool" where
  "only_archive h h' \<longleftrightarrow> h_failed h' = h_failed h \<and> h_stopped h' = h_stopped h \<and> h_current h' = h_current h \<and>
    h_calls h' = h_calls h \<and> h_override h' = h_override h \<and> h_head h' = h_head h \<and> h_phase h' = h_phase h"

definition same_archives :: "host \<Rightarrow> host \<Rightarrow> bool" where
  "same_archives h h' \<longleftrightarrow> h_archive h' = h_archive h \<and> h_basis h' = h_basis h"

lemma ask_archives: "ask reply h = (r, h') \<Longrightarrow> only_archive h h' \<and> same_archives h h'"
  by (auto simp: ask_def only_archive_def same_archives_def split: if_splits)

lemma only_archive_trans: "only_archive h k \<Longrightarrow> only_archive k l \<Longrightarrow> only_archive h l"
  "same_archives h k \<Longrightarrow> same_archives k l \<Longrightarrow> same_archives h l"
  by (simp_all add: only_archive_def same_archives_def)

lemma act_archives:
  assumes "act q f h = (r, h')" and f: "\<And>m. only_archive m (f m)"
  shows "only_archive h h' \<and> (is_ok r \<or> same_archives h h')"
proof -
  obtain r0 k where a: "ask q h = (r0, k)" by fastforce
  note k = ask_archives [OF a]
  show ?thesis
  proof (cases r0)
    case (Inl e)
    then show ?thesis using assms(1) a k by (simp add: act_def sbind_simps)
  next
    case (Inr v)
    then have "h' = f k" "r = Inr ()" using assms(1) a by (simp_all add: act_def sbind_simps)
    then show ?thesis using k f [of k] only_archive_trans(1) by (auto simp: is_ok_def)
  qed
qed

lemma basis_frame:
  assumes "keep_transfer_basis env h = (x, h')"
  shows "only_archive h h' \<and> (is_ok x \<or> same_archives h h')"
proof -
  have oa: "only_archive m (m\<lparr>h_archive := p, h_basis := q\<rparr>)" "only_archive m (m\<lparr>h_archive := p\<rparr>)" for m p q
    by (simp_all add: only_archive_def)
  let ?t = "sbind (ask (e_basis_mkdir env) h) (\<lambda>_ h.
           sbind (ask (private_directory (e_basis_directory env)) h) (\<lambda>_ h.
           act (e_basis_rename env) (\<lambda>h. h\<lparr>h_archive := False, h_basis := True\<rparr>) h))"
  obtain r k where t: "?t = (r, k)" by fastforce
  obtain r1 h1 where a1: "ask (e_basis_mkdir env) h = (r1, h1)" by fastforce
  obtain r2 h2 where a2: "ask (private_directory (e_basis_directory env)) h1 = (r2, h2)" by fastforce
  obtain r3 h3 where a3: "act (e_basis_rename env) (\<lambda>h. h\<lparr>h_archive := False, h_basis := True\<rparr>) h2 = (r3, h3)" by fastforce
  note k1 = ask_archives [OF a1] and k2 = ask_archives [OF a2] and k3 = act_archives [OF a3 oa(1)]
  have k12: "only_archive h h2" "same_archives h h2" using k1 k2 only_archive_trans by blast+
  have k13: "only_archive h h3" "is_ok r3 \<or> same_archives h h3" using k12 k3 only_archive_trans by blast+
  have "only_archive h k \<and> (is_ok r \<or> same_archives h k)"
  proof (cases r1)
    case (Inl e)
    then have "k = h1" using t unfolding a1 by (simp add: sbind_simps)
    then show ?thesis using k1 by simp
  next
    case (Inr u)
    note r1 = this
    show ?thesis
    proof (cases r2)
      case (Inl e)
      then have "k = h2" using t unfolding a1 r1 by (simp add: sbind_simps a2)
      then show ?thesis using k12 by simp
    next
      case (Inr v)
      then have "k = h3 \<and> r = r3" using t unfolding a1 r1 by (simp add: sbind_simps a2 a3)
      then show ?thesis using k13 by simp
    qed
  qed
  moreover have "is_ok r \<or> (\<exists>m. r = Inl (Failure m)) \<Longrightarrow> h' = k \<and> (is_ok x = is_ok r)"
    using assms unfolding keep_transfer_basis_def t by (cases r) (auto simp: is_ok_def)
  moreover have "\<not> is_ok r \<Longrightarrow> \<nexists>m. r = Inl (Failure m) \<Longrightarrow> act (e_unlink env) (\<lambda>h. h\<lparr>h_archive := False\<rparr>) k = (x, h')"
    using assms unfolding keep_transfer_basis_def t by (cases r) (auto simp: is_ok_def split: deploy_exn.splits)
  ultimately show ?thesis
  proof (cases "is_ok r \<or> (\<exists>m. r = Inl (Failure m))")
    case False
    then have "act (e_unlink env) (\<lambda>h. h\<lparr>h_archive := False\<rparr>) k = (x, h')" "same_archives h k" "only_archive h k"
      using \<open>only_archive h k \<and> (is_ok r \<or> same_archives h k)\<close>
        \<open>\<not> is_ok r \<Longrightarrow> \<nexists>m. r = Inl (Failure m) \<Longrightarrow> act (e_unlink env) (\<lambda>h. h\<lparr>h_archive := False\<rparr>) k = (x, h')\<close> by blast+
    note u = this
    have "only_archive k h' \<and> (is_ok x \<or> same_archives k h')" by (rule act_archives [OF u(1) oa(2)])
    then show ?thesis using u(2,3) only_archive_trans by blast
  qed simp
qed


subsection \<open>What a successful update has done\<close>

text \<open>What actions never touch.\<close>

definition same_files :: "host \<Rightarrow> host \<Rightarrow> bool" where
  "same_files h h' \<longleftrightarrow> h_override h' = h_override h \<and> h_head h' = h_head h"

lemma same_files_trans: "same_files h1 h2 \<Longrightarrow> same_files h2 h3 \<Longrightarrow> same_files h1 h3"
  by (simp add: same_files_def)

lemma ask_Inr: "ask q h = (Inr a, h') \<Longrightarrow> q = Inr a \<and> same_files h h' \<and> h_calls h' = h_calls h"
  by (auto simp: ask_def same_files_def split: if_splits)

lemma refuse_Inr: "refuse_if b e h = (Inr u, h') \<Longrightarrow> \<not> b \<and> h' = h"
  by (auto simp: refuse_if_def split: if_splits)

lemma act_Inr: "act q f h = (Inr u, h') \<Longrightarrow> \<exists>a k. q = Inr a \<and> same_files h k \<and> h_calls k = h_calls h \<and> h' = f k"
  by (auto simp: act_def sbind_Inr dest: ask_Inr)

lemma compose_Inr: "compose env c h = (Inr u, h') \<Longrightarrow> same_files h h' \<and> h_calls h' = h_calls h @ [c]"
  by (auto simp: compose_def same_files_def dest!: ask_Inr)

lemma stage_files [simp]: "same_files (stage s h) h' = same_files h h'" "h_calls (stage s h) = h_calls h"
  "h_override (stage s h) = h_override h" "h_head (stage s h) = h_head h"
  by (simp_all add: same_files_def stage_def)

lemma wait_database_Inr:
  assumes "wait_database env i n h = (Inr u, h')"
  shows "\<exists>k. 1 \<le> k \<and> k \<le> n \<and> h_calls h' = h_calls h @ replicate k Db_ready \<and> same_files h h'"
  using assms
proof (induction n arbitrary: i h)
  case (Suc n)
  let ?h = "h\<lparr>h_calls := h_calls h @ [Db_ready]\<rparr>"
  obtain r k where a: "ask (e_ready env i) ?h = (r, k)" by fastforce
  have k: "same_files h k" "h_calls k = h_calls h @ [Db_ready]"
    using a by (auto simp: ask_def same_files_def split: if_splits)
  show ?case
  proof (cases r)
    case (Inr v)
    then have "h' = k" using Suc.prems a by simp
    then show ?thesis using k by (intro exI [of _ 1]) simp
  next
    case (Inl e)
    then have "wait_database env (i + 1) n k = (Inr u, h')" using Suc.prems a by (simp split: if_splits)
    from Suc.IH [OF this] k show ?thesis
      by (metis (no_types, lifting) append.assoc append_Cons append_Nil le_SucI not_less_eq_eq replicate_Suc same_files_trans)
  qed
qed simp

lemma wait_smoke_Inr:
  assumes "wait_smoke env i n h = (Inr u, h')"
  shows "(\<exists>j b. i \<le> j \<and> j < i + n \<and> e_smoke env j = Inr b \<and> smoke_ok b) \<and> h_calls h' = h_calls h \<and> same_files h h'"
  using assms
proof (induction n arbitrary: i h)
  case (Suc n)
  obtain r k where a: "ask (smoke (e_smoke env i)) h = (r, k)" by fastforce
  have k: "same_files h k" "h_calls k = h_calls h" using a by (auto simp: ask_def same_files_def split: if_splits)
  show ?case
  proof (cases r)
    case (Inr v)
    then have "h' = k" "smoke (e_smoke env i) = Inr v" using Suc.prems a ask_Inr [of _ h v k] by auto
    then have "\<exists>b. e_smoke env i = Inr b \<and> smoke_ok b" by (auto simp: smoke_def rbind_eq_Inr split: if_splits)
    then show ?thesis using k \<open>h' = k\<close> by force
  next
    case (Inl e)
    then have "wait_smoke env (i + 1) n k = (Inr u, h')" using Suc.prems a by simp
    from Suc.IH [OF this] obtain j b where "i + 1 \<le> j" "j < i + 1 + n" "e_smoke env j = Inr b" "smoke_ok b"
      "h_calls h' = h_calls k" "same_files k h'" by auto
    then show ?thesis using k same_files_trans [of h k h'] by (intro conjI exI [of _ j] exI [of _ b]) auto
  qed
qed simp

lemma check_running_Inr:
  assumes "check_running env r names h = (Inr u, h')"
  shows "(\<forall>name\<in>set names. e_running env name = Inr (image_of r name)) \<and> h_calls h' = h_calls h \<and> same_files h h'"
  using assms
proof (induction names arbitrary: h)
  case (Cons name names)
  then obtain actual k where s: "ask (e_running env name) h = (Inr actual, k)" "actual = image_of r name"
    "check_running env r names k = (Inr u, h')"
    by (auto simp: sbind_Inr dest: refuse_Inr)
  from Cons.IH [OF s(3)] ask_Inr [OF s(1)] s(2) show ?case by (auto intro: same_files_trans)
qed (simp add: same_files_def)

lemma stop_and_migrate_Inr:
  assumes "stop_and_migrate env sha r h = (Inr u, h')"
  shows "\<exists>k. 1 \<le> k \<and> k \<le> 30 \<and> h_override h' = Managed (override_for r) \<and> h_head h' = h_head h \<and>
    h_calls h' = h_calls h @ [Stop_services, Up_db] @ replicate k Db_ready @ [Run_migrate]"
proof -
  obtain h1 h2 h3 h4 h5 where s: "mark env sha h = (Inr (), h1)"
    "compose env Stop_services h1 = (Inr (), h2)"
    "act (Inr ()) (\<lambda>h. h\<lparr>h_override := Managed (override_for r), h_candidate := None\<rparr>) h2 = (Inr (), h3)"
    "compose env Up_db (stage ''database migration'' h3) = (Inr (), h4)"
    "wait_database env 0 30 h4 = (Inr (), h5)" "compose env Run_migrate h5 = (Inr u, h')"
    using assms by (auto simp: stop_and_migrate_eq after_mark_def sbind_Inr)
  have a: "h_head h1 = h_head h" "h_calls h1 = h_calls h"
    using s(1) by (auto simp: mark_def write_failure_def ask_def sbind_Inr split: if_splits write_reply.splits)
  have b: "h_override h3 = Managed (override_for r)" "h_head h3 = h_head h2" "h_calls h3 = h_calls h2"
    using act_Inr [OF s(3)] by (auto simp: same_files_def)
  from wait_database_Inr [OF s(5)] obtain k where "1 \<le> k" "k \<le> 30"
    "h_calls h5 = h_calls h4 @ replicate k Db_ready" "same_files h4 h5" by auto
  then show ?thesis using a b compose_Inr [OF s(2)] compose_Inr [OF s(4)] compose_Inr [OF s(6)]
    by (intro exI [of _ k]) (simp add: same_files_def)
qed

lemma start_and_verify_Inr:
  assumes "start_and_verify env r h = (Inr u, h')"
  shows "h_calls h' = h_calls h @ [Up_all] \<and> same_files h h' \<and>
    (\<forall>name\<in>{''db'', ''runner'', ''backend'', ''frontend''}. e_running env name = Inr (image_of r name)) \<and>
    (\<exists>j b. j < 5 \<and> e_smoke env j = Inr b \<and> smoke_ok b)"
proof -
  obtain h1 h2 where s: "compose env Up_all (stage ''start services'' h) = (Inr (), h1)"
    "check_running env r [''db'', ''runner'', ''backend'', ''frontend''] h1 = (Inr (), h2)"
    "wait_smoke env 0 5 (stage ''public smoke test'' h2) = (Inr u, h')"
    using assms by (simp add: start_and_verify_def sbind_Inr del: check_running.simps) blast
  show ?thesis
    using compose_Inr [OF s(1)] check_running_Inr [OF s(2)] wait_smoke_Inr [OF s(3)]
    by (auto intro: same_files_trans)
qed

lemma preflight_Inr:
  assumes "preflight env sha h = (Inr (Some r), h')"
  shows "read_record (e_record env) (e_digest env) sha = Inr r \<and>
    check_images r (e_inspect env) (e_db_image env) = Inr () \<and>
    e_main_before env = Inr sha \<and> e_main_after env = Inr sha \<and> h_head h' = sha \<and>
    (\<exists>config parsed. e_config env = Inr config \<and> e_db_mounts env = [cc_volume config] \<and>
       e_split_url env (rstrip [47] (cc_server_url config)) = Inr parsed \<and> public_origin parsed)"
proof -
  obtain h1 h2 h3 h4 h5 h6 h7 h8 h9 h10 volume origin where s:
    "check_host env h = (Inr (), h1)" "ask (read_record (e_record env) (e_digest env) sha) h1 = (Inr r, h2)"
    "ask (e_main_before env) h2 = (Inr sha, h3)" "ask (e_ancestor env) h3 = (Inr (), h4)"
    "running_database env h4 = (Inr volume, h5)" "ask (e_load env) h5 = (Inr (), h6)"
    "ask (check_images r (e_inspect env) (e_db_image env)) h6 = (Inr (), h7)"
    "ask (e_main_after env) h7 = (Inr sha, h8)" "act (e_merge env) (\<lambda>h. h\<lparr>h_head := sha\<rparr>) h8 = (Inr (), h9)"
    "act (Inr ()) (\<lambda>h. h\<lparr>h_candidate := Some (override_for r)\<rparr>) h9 = (Inr (), h10)"
    "check_candidate env volume h10 = (Inr origin, h')"
    using assms by (auto simp: preflight_def sbind_Inr split: if_splits)
  have head: "h_head h10 = sha" using act_Inr [OF s(9)] act_Inr [OF s(10)] by (auto simp: same_files_def)
  have volume: "e_db_mounts env = [volume]"
    using s(5) by (auto simp: running_database_def sbind_Inr dest!: refuse_Inr)
  obtain config parsed h11 h12 where c: "ask (e_config env) h10 = (Inr config, h11)" "cc_volume config = volume"
    "ask (e_split_url env (rstrip [47] (cc_server_url config))) h11 = (Inr parsed, h12)" "public_origin parsed" "h' = h12"
    using s(11) by (auto simp: check_candidate_def sbind_Inr Let_def dest!: refuse_Inr)
  have "h_head h' = sha" using ask_Inr [OF c(1)] ask_Inr [OF c(3)] head c(5) by (simp add: same_files_def)
  then show ?thesis
    using ask_Inr [OF s(2)] ask_Inr [OF s(3)] ask_Inr [OF s(7)] ask_Inr [OF s(8)] ask_Inr [OF c(1)] ask_Inr [OF c(3)]
      c volume by auto
qed




text \<open>A successful update is complete. When an update ends normally, either a newer commit has superseded
  the candidate and services and records are untouched; or the candidate was valid with the scanned archive and
  compatible images on the unchanged database volume, the services were stopped, the database migrated and the
  services started in that order, every running image is the reviewed one, a public smoke test passed, and the checkout,
  the installed configuration and the success record are those of the candidate, with no failure record left.\<close>

theorem successful_update_is_complete:
  assumes "execute env sha h = (Inr (), h')" "\<not> h_stopped h"
  shows "(quiet h h' \<and> (e_main_before env \<noteq> Inr sha \<or> e_main_after env \<noteq> Inr sha)) \<or>
    (\<exists>r k. read_record (e_record env) (e_digest env) sha = Inr r \<and>
       check_images r (e_inspect env) (e_db_image env) = Inr () \<and>
       h_current h' = Some r \<and> h_override h' = Managed (override_for r) \<and> h_head h' = sha \<and>
       h_failed h' = None \<and> \<not> h_stopped h' \<and> 1 \<le> k \<and> k \<le> 30 \<and>
       h_calls h' = h_calls h @ [Stop_services, Up_db] @ replicate k Db_ready @ [Run_migrate, Up_all] \<and>
       (\<forall>name\<in>{''db'', ''runner'', ''backend'', ''frontend''}. e_running env name = Inr (image_of r name)) \<and>
       (\<exists>j b. j < 5 \<and> e_smoke env j = Inr b \<and> smoke_ok b))"
proof -
  have u: "update env sha (stage ''preflight'' h) = (Inr (), h')"
    using assms(1) by (auto simp: execute_def split: prod.splits sum.splits if_splits deploy_exn.splits)
  then obtain x h1 where p: "preflight env sha (stage ''preflight'' h) = (Inr x, h1)"
    by (auto simp: update_def sbind_Inr)
  have q: "quiet h h1" using preflight_quiet [OF p] .
  show ?thesis
  proof (cases x)
    case None
    have "e_main_before env \<noteq> Inr sha \<or> e_main_after env \<noteq> Inr sha"
      using p None by (auto simp: preflight_def sbind_Inr ask_def split: if_splits)
    moreover have "h' = h1" using u p None by (simp add: update_def sbind_simps)
    ultimately show ?thesis using q by simp
  next
    case (Some r)
    then obtain h2 where s: "switch_services env sha r h1 = (Inr (), h2)" "keep_transfer_basis env h2 = (Inr (), h')"
      using u p by (auto simp: update_def sbind_simps sbind_Inr)
    let ?h1 = "(stage ''stop services'' h1)\<lparr>h_stopped := True\<rparr>"
    obtain h3 h4 where t: "stop_and_migrate env sha r ?h1 = (Inr (), h3)" "start_and_verify env r h3 = (Inr (), h4)"
      "record_success env r h4 = (Inr (), h2)"
      using s(1) by (auto simp: switch_services_def sbind_Inr)
    from stop_and_migrate_Inr [OF t(1)] obtain k where k: "1 \<le> k" "k \<le> 30"
      "h_override h3 = Managed (override_for r)" "h_head h3 = h_head h1"
      "h_calls h3 = h_calls h1 @ [Stop_services, Up_db] @ replicate k Db_ready @ [Run_migrate]"
      by (auto simp: stage_def)
    have r: "h_calls h2 = h_calls h4" "same_files h4 h2"
      using t(3) by (auto simp: record_success_def sbind_Inr act_def ask_def same_files_def stage_def split: if_splits)
    have "h_head h1 = sha" "read_record (e_record env) (e_digest env) sha = Inr r"
      "check_images r (e_inspect env) (e_db_image env) = Inr ()"
      using preflight_Inr p Some by auto
    then show ?thesis
      using k r q start_and_verify_Inr [OF t(2)] successful_switch_marks [OF s(1)] basis_frame [OF s(2)]
      by (intro disjI2 exI [of _ r] exI [of _ k]) (simp add: same_files_def quiet_def only_archive_def)
  qed
qed

subsection \<open>An example\<close>

definition example_sha :: pystr where "example_sha = replicate 40 97"
definition example_image :: pystr where "example_image = lit ''sha256:'' @ replicate 64 98"

definition example_record :: build_record where
  "example_record = \<lparr>br_source_commit = example_sha, br_worktree_dirty = False, br_product_version = [49],
     br_image_ids = map (\<lambda>s. (s, example_image)) SERVICES, br_archive_digest = [100]\<rparr>"

definition example_environment :: environment where
  "example_environment =
     \<lparr>e_root = False, e_docker_host = None, e_docker_info = Inr (True, lit ''2''), e_git_status = Inr [],
      e_override_read = Inr (), e_record = Inr example_record, e_digest = Inr [100],
      e_main_before = Inr example_sha, e_ancestor = Inr (), e_old_volume = Inr [118], e_db_running = Inr True,
      e_db_mounts = [[118]], e_db_image = example_image, e_load = Inr (),
      e_inspect = (\<lambda>i. Inr \<lparr>ic_id = i, ic_os = ''linux'', ic_architecture = [97], ic_version = Some [49],
        ic_env = [lit ''PG_MAJOR=17'', lit ''PGDATA=/d'']\<rparr>),
      e_main_after = Inr example_sha, e_merge = Inr (),
      e_config = Inr \<lparr>cc_volume = [118],
        cc_data_mounts = [(lit ''volume'', lit ''db_data'', lit ''/var/lib/postgresql/data'')],
        cc_server_url = lit ''https://x/''\<rparr>,
      e_split_url = (\<lambda>_. Inr \<lparr>su_scheme = ''https'', su_hostname = Some [120], su_username = None,
        su_password = None, su_path = [], su_query = [], su_fragment = []\<rparr>),
      e_mark = Write_done, e_call = (\<lambda>_. Inr ()), e_ready = (\<lambda>i. if i = 0 then Inl (Failure ''starting'') else Inr ()),
      e_ready_retry = (\<lambda>_. True), e_running = (\<lambda>_. Inr example_image),
      e_smoke = (\<lambda>_. Inr \<lparr>sm_api_version = 3, sm_status = ''completed'', sm_exit_code = Some 0,
        sm_stdout = lit ''smoke-ok'', sm_persistence = ''saved'', sm_submission_id = Some 7\<rparr>),
      e_unmark = Inr (), e_mark_failure = Write_done, e_basis_mkdir = Inr (),
      e_basis_directory = Inr \<lparr>pi_directory = True, pi_symlink = False, pi_owned = True, pi_mode = 448\<rparr>,
      e_basis_rename = Inr (), e_unlink = Inr ()\<rparr>"

definition example_host :: host where
  "example_host = \<lparr>h_failed = None, h_override = No_override, h_candidate = None, h_current = None, h_head = [],
     h_archive = True, h_basis = False, h_calls = [], h_journal = [], h_phase = [], h_stopped = False, h_left = None\<rparr>"

lemma example_read: "read_record (e_record example_environment) (e_digest example_environment) example_sha = Inr example_record"
proof -
  have "fullmatch COMMIT_PATTERN example_sha" "fullmatch IMAGE_ID_PATTERN example_image" by code_simp+
  then show ?thesis
    by (simp add: read_record_def example_environment_def valid_record_def example_record_def SERVICES_def)
qed

lemma example_images: "check_images example_record (e_inspect example_environment) (e_db_image example_environment) = Inr ()"
proof -
  have "same_db_setting c c key" if "length (env_items c key) = 1" for c key
    using that by (simp add: same_db_setting_def)
  then show ?thesis
    by (simp add: check_images_def example_environment_def example_record_def SERVICES_def check_image_def
        env_items_def startswith_def lit_def same_db_setting_def)
qed

lemma example_preflight:
  "\<exists>h. preflight example_environment example_sha (stage s example_host) = (Inr (Some example_record), h) \<and>
     h_calls h = [] \<and> h_left h = None \<and> h_failed h = None"
proof -
  let ?h = "stage s example_host"
  have a: "ask q h = (q, h)" if "h_left h = None" for q :: "deploy_exn + 'a" and h :: host
    using that by (simp add: ask_def)
  have host: "check_host example_environment ?h = (Inr (), ?h)"
    by (simp add: check_host_def refuse_if_def sbind_simps a example_environment_def stage_def example_host_def)
  have db: "running_database example_environment ?h = (Inr [118], ?h)"
    by (simp add: running_database_def refuse_if_def sbind_simps a example_environment_def stage_def example_host_def)
  let ?k = "?h\<lparr>h_head := example_sha, h_candidate := Some (override_for example_record)\<rparr>"
  have cand: "\<exists>origin. check_candidate example_environment [118] ?k = (Inr origin, ?k)"
    by (simp add: check_candidate_def refuse_if_def sbind_simps a example_environment_def stage_def example_host_def
        public_origin_def absent_def)
  have env: "e_main_before example_environment = Inr example_sha" "e_main_after example_environment = Inr example_sha"
    "e_ancestor example_environment = Inr ()" "e_load example_environment = Inr ()" "e_merge example_environment = Inr ()"
    by (simp_all add: example_environment_def)
  have left: "h_left ?h = None" by (simp add: stage_def example_host_def)
  have "preflight example_environment example_sha ?h = (Inr (Some example_record), ?k)"
    using cand by (auto simp: preflight_def host db sbind_simps a left example_read example_images env act_def)
  then show ?thesis by (simp add: stage_def example_host_def)
qed

lemma ask_unlimited: "h_left h = None \<Longrightarrow> ask q h = (q, h)"
  by (simp add: ask_def)

lemma example_switch:
  assumes "h_left h = None"
  shows "\<exists>h'. switch_services example_environment sha example_record h = (Inr (), h') \<and> h_left h' = None"
proof -
  have img: "image_of example_record ''db'' = example_image" "image_of example_record ''runner'' = example_image"
    "image_of example_record ''backend'' = example_image" "image_of example_record ''frontend'' = example_image"
    by (simp_all add: image_of_def example_record_def SERVICES_def)
  have smoke: "smoke (e_smoke example_environment 0) = Inr ()"
    by (simp add: smoke_def example_environment_def smoke_ok_def)
  have wait: "\<exists>k. wait_database example_environment 0 30 h = (Inr (), k) \<and> h_left k = None" if "h_left h = None" for h
    using that by (simp add: numeral_eq_Suc ask_unlimited example_environment_def)
  have stop: "\<exists>k. stop_and_migrate example_environment sha example_record h = (Inr (), k) \<and> h_left k = None"
    if left: "h_left h = None" for h
  proof -
    let ?h = "stage ''database migration'' (h\<lparr>h_failed := Some (Failure_record sha ''in progress''), h_calls := h_calls h @ [Stop_services],
      h_override := Managed (override_for example_record), h_candidate := None\<rparr>)"
    obtain k where "wait_database example_environment 0 30 (?h\<lparr>h_calls := h_calls ?h @ [Up_db]\<rparr>) = (Inr (), k)" "h_left k = None"
      using wait [of "?h\<lparr>h_calls := h_calls ?h @ [Up_db]\<rparr>"] left by (auto simp: stage_def)
    moreover have "e_call example_environment c = Inr ()" "e_mark example_environment = Write_done" for c
      by (simp_all add: example_environment_def)
    ultimately show ?thesis using left
      by (simp add: stop_and_migrate_def write_failure_def act_def compose_def ask_unlimited sbind_simps stage_def)
  qed
  have start: "\<exists>k. start_and_verify example_environment example_record h = (Inr (), k) \<and> h_left k = None"
    if "h_left h = None" for h
  proof -
    have "e_call example_environment c = Inr ()" "e_running example_environment name = Inr example_image" for c name
      by (simp_all add: example_environment_def)
    then show ?thesis using that smoke
      by (simp add: start_and_verify_def compose_def ask_unlimited sbind_simps stage_def refuse_if_def img numeral_eq_Suc)
  qed
  obtain k1 where 1: "stop_and_migrate example_environment sha example_record ((stage ''stop services'' h)\<lparr>h_stopped := True\<rparr>) = (Inr (), k1)"
    "h_left k1 = None" using stop [of "(stage ''stop services'' h)\<lparr>h_stopped := True\<rparr>"] assms by (auto simp: stage_def)
  obtain k2 where 2: "start_and_verify example_environment example_record k1 = (Inr (), k2)" "h_left k2 = None"
    using start 1 by blast
  have "e_unmark example_environment = Inr ()" by (simp add: example_environment_def)
  moreover have "switch_services example_environment sha example_record h = record_success example_environment example_record k2"
    by (simp only: switch_services_def 1(1) 2(1) sbind_simps)
  ultimately show ?thesis using 2(2)
    by (simp add: sbind_simps record_success_def act_def ask_unlimited stage_def)
qed

lemma example_execute: "\<exists>h'. execute example_environment example_sha example_host = (Inr (), h')"
proof -
  obtain h1 where p: "preflight example_environment example_sha (stage ''preflight'' example_host) = (Inr (Some example_record), h1)"
    "h_left h1 = None" using example_preflight by blast
  obtain h2 where s: "switch_services example_environment example_sha example_record h1 = (Inr (), h2)" "h_left h2 = None"
    using example_switch [OF p(2)] by blast
  have "private_directory (e_basis_directory example_environment) = Inr ()" "e_basis_rename example_environment = Inr ()"
    "e_basis_mkdir example_environment = Inr ()"
    by (simp_all add: example_environment_def private_directory_def)
  then show ?thesis
    by (simp add: execute_def update_def p s sbind_simps keep_transfer_basis_def ask_unlimited act_def)
qed

lemma successful_update_is_complete_witness:
  "\<exists>h'. execute example_environment example_sha example_host = (Inr (), h') \<and>
     h_current h' = Some example_record \<and> h_failed h' = None \<and> h_head h' = example_sha"
proof -
  obtain h' where e: "execute example_environment example_sha example_host = (Inr (), h')" using example_execute by blast
  have "\<not> h_stopped example_host" by (simp add: example_host_def)
  from successful_update_is_complete [OF e this] e show ?thesis
    using example_read by (auto simp: example_environment_def)
qed





end
