(* ===== verification/Deploy_Gate.thy ===== *)
theory Deploy_Gate
  imports Prelude Regex
begin

section \<open>The gate in front of a deployment\<close>

text \<open>
  \<open>ci/deploy.py\<close>: which commits need their images checked, when a commit of the main branch may be deployed,
  and the transfer to the production host. The answers of GitHub, git and the remote commands are arguments;
  JSON appears decoded, a malformed or incomplete document being a \<open>Data_error\<close>. The quoting of the remote
  commands and the options of ssh are in the theory \<open>Remote_Commands\<close>.
\<close>

text \<open>\<open>Data_error\<close>: \<open>KeyError\<close>, \<open>TypeError\<close> or \<open>ValueError\<close>; \<open>Process_error\<close>: \<open>OSError\<close> or \<open>SubprocessError\<close>.\<close>

datatype gate_exn = Data_error | Process_error | Runtime_error string | Timeout_error

subsection \<open>Runs of the workflows\<close>

record workflow_run =
  wr_id :: int
  wr_attempt :: int
  wr_head_sha :: pystr
  wr_branch :: pystr
  wr_event :: pystr
  wr_path :: pystr
  wr_repo :: pystr
  wr_status :: pystr
  wr_conclusion :: "pystr option"

definition WORKFLOWS :: "string list" where
  "WORKFLOWS = [''fastapi_ci.yaml'', ''react_ci.yaml'', ''supply_chain.yaml'']"

definition workflow_path :: "string \<Rightarrow> pystr" where
  "workflow_path workflow = lit (''.github/workflows/'' @ workflow)"

definition is_candidate :: "pystr \<Rightarrow> pystr \<Rightarrow> string \<Rightarrow> workflow_run \<Rightarrow> bool" where
  "is_candidate repo sha workflow r \<longleftrightarrow> wr_head_sha r = sha \<and> wr_branch r = lit ''main'' \<and> wr_event r = lit ''push'' \<and>
     wr_path r = workflow_path workflow \<and> wr_repo r = repo"

definition run_key_less :: "workflow_run \<Rightarrow> workflow_run \<Rightarrow> bool" where
  "run_key_less a b \<longleftrightarrow> wr_id a < wr_id b \<or> wr_id a = wr_id b \<and> wr_attempt a < wr_attempt b"

text \<open>\<open>max(candidates, key=...)\<close>: the first of the largest.\<close>

definition latest_run :: "workflow_run \<Rightarrow> workflow_run list \<Rightarrow> workflow_run" where
  "latest_run r rs = fold (\<lambda>x best. if run_key_less best x then x else best) rs r"

definition successful_run :: "workflow_run list \<Rightarrow> pystr \<Rightarrow> pystr \<Rightarrow> string \<Rightarrow> gate_exn + int option" where
  "successful_run runs repo sha workflow =
     (case filter (is_candidate repo sha workflow) runs of
        [] \<Rightarrow> Inr None
      | r # rs \<Rightarrow>
          let latest = latest_run r rs in
          if wr_status latest \<noteq> lit ''completed'' then Inr None
          else if wr_conclusion latest \<noteq> Some (lit ''success'') then Inl (Runtime_error ''did not succeed'')
          else Inr (Some (wr_id latest)))"

subsection \<open>Differences that need no image\<close>

definition IMAGE_INPUT_PREFIXES :: "string list" where
  "IMAGE_INPUT_PREFIXES = [''problems/'', ''frontend/src/'', ''frontend/public/'', ''backend/soj_backend/'',
     ''backend/soj_runner/'', ''backend/soj_shared/'', ''deploy/'']"

definition documentation_path :: "pystr \<Rightarrow> bool" where
  "documentation_path path \<longleftrightarrow>
     endswith path (lit ''.md'') \<and> \<not> list_ex (\<lambda>p. startswith path (lit p)) IMAGE_INPUT_PREFIXES"

definition documentation_only :: "pystr list \<Rightarrow> bool" where
  "documentation_only paths \<longleftrightarrow> paths \<noteq> [] \<and> list_all documentation_path paths"

definition SHA_PATTERN :: rexp where
  "SHA_PATTERN = RRep 40 (RCls [(48, 57), (97, 102)])"

text \<open>\<open>git diff\<close> answers with the names separated by NUL; only an \<open>OSError\<close> or a \<open>SubprocessError\<close> is caught.\<close>

definition changed_paths :: "(pystr \<Rightarrow> pystr \<Rightarrow> gate_exn + pystr) \<Rightarrow> pystr \<Rightarrow> pystr \<Rightarrow> gate_exn + pystr list option" where
  "changed_paths git_diff base head =
     (if \<not> fullmatch SHA_PATTERN base \<or> \<not> fullmatch SHA_PATTERN head then Inr None
      else case git_diff base head of
             Inl Process_error \<Rightarrow> Inr None
           | Inl e \<Rightarrow> Inl e
           | Inr out \<Rightarrow> Inr (Some (filter (\<lambda>path. path \<noteq> []) (split_on 0 out))))"

record job =
  jb_name :: string
  jb_conclusion :: "string option"
  jb_steps :: "(string \<times> string option) list"

definition DEPLOY_RECORD_STEP :: string where "DEPLOY_RECORD_STEP = ''Record completed production update''"
definition RUNTIME_JOB :: string where "RUNTIME_JOB = ''Rootless runtime build and image scan''"

definition confirms_update :: "job \<Rightarrow> bool" where
  "confirms_update j \<longleftrightarrow> jb_name j = ''deploy'' \<and>
     list_ex (\<lambda>(name, conclusion). name = DEPLOY_RECORD_STEP \<and> conclusion = Some ''success'') (jb_steps j)"

definition deploy_run :: "pystr \<Rightarrow> workflow_run \<Rightarrow> bool" where
  "deploy_run repo r \<longleftrightarrow> wr_path r = workflow_path ''deploy.yaml'' \<and> wr_branch r = lit ''main'' \<and>
     wr_event r = lit ''push'' \<and> wr_repo r = repo \<and> fullmatch SHA_PATTERN (wr_head_sha r)"

primrec first_confirmed :: "pystr \<Rightarrow> (int \<Rightarrow> gate_exn + job list) \<Rightarrow> workflow_run list \<Rightarrow> gate_exn + pystr option" where
  "first_confirmed repo jobs [] = Inr None"
| "first_confirmed repo jobs (r # rs) =
     (if \<not> deploy_run repo r then first_confirmed repo jobs rs
      else rbind (jobs (wr_id r)) (\<lambda>js.
        if list_ex confirms_update js then Inr (Some (wr_head_sha r)) else first_confirmed repo jobs rs))"

definition deployed_commit ::
  "(gate_exn + workflow_run list) \<Rightarrow> (int \<Rightarrow> gate_exn + job list) \<Rightarrow> pystr \<Rightarrow> gate_exn + pystr option" where
  "deployed_commit deploy_runs jobs repo =
     rbind deploy_runs (\<lambda>runs. first_confirmed repo jobs (sort_key (\<lambda>r. - wr_id r) runs))"

definition deployment_unchanged ::
  "(gate_exn + workflow_run list) \<Rightarrow> (int \<Rightarrow> gate_exn + job list) \<Rightarrow> (pystr \<Rightarrow> pystr \<Rightarrow> gate_exn + pystr) \<Rightarrow>
   pystr \<Rightarrow> pystr \<Rightarrow> gate_exn + bool" where
  "deployment_unchanged deploy_runs jobs git_diff repo sha =
     (case deployed_commit deploy_runs jobs repo of
        Inl (Runtime_error m) \<Rightarrow> Inl (Runtime_error m)
      | Inl Timeout_error \<Rightarrow> Inl Timeout_error
      | Inl _ \<Rightarrow> Inr False
      | Inr None \<Rightarrow> Inr False
      | Inr (Some base) \<Rightarrow>
          rbind (changed_paths git_diff base sha) (\<lambda>paths.
            Inr (case paths of None \<Rightarrow> False | Some ps \<Rightarrow> documentation_only ps)))"

definition runtime_job_succeeded :: "(int \<Rightarrow> gate_exn + job list) \<Rightarrow> int \<Rightarrow> gate_exn + bool" where
  "runtime_job_succeeded run_jobs run_id =
     rbind (run_jobs run_id) (\<lambda>js.
       Inr (list_ex (\<lambda>j. jb_name j = RUNTIME_JOB \<and> jb_conclusion j = Some ''success'') js))"

subsection \<open>Which checks a change needs\<close>

datatype event = Pull_request "gate_exn + pystr" | Push_main | Other_event

text \<open>The value written as \<open>runtime\<close>: \<open>KeyError\<close>, \<open>TypeError\<close>, \<open>ValueError\<close> and \<open>OSError\<close> count as needed; a failing
  command in the search for the deployed commit is caught there.\<close>

definition scope ::
  "event \<Rightarrow> (gate_exn + workflow_run list) \<Rightarrow> (int \<Rightarrow> gate_exn + job list) \<Rightarrow> (pystr \<Rightarrow> pystr \<Rightarrow> gate_exn + pystr) \<Rightarrow>
   pystr \<Rightarrow> pystr \<Rightarrow> gate_exn + bool" where
  "scope event deploy_runs jobs git_diff repo sha =
     (let unchanged =
        (case event of
           Pull_request base \<Rightarrow>
             rbind base (\<lambda>b. rbind (changed_paths git_diff b sha) (\<lambda>paths.
               Inr (case paths of None \<Rightarrow> False | Some ps \<Rightarrow> documentation_only ps)))
         | Push_main \<Rightarrow> deployment_unchanged deploy_runs jobs git_diff repo sha
         | Other_event \<Rightarrow> Inr False) in
      case unchanged of
        Inl Data_error \<Rightarrow> Inr True
      | Inl Process_error \<Rightarrow> Inr True
      | Inl e \<Rightarrow> Inl e
      | Inr u \<Rightarrow> Inr (\<not> u))"

subsection \<open>Waiting for the checks\<close>

text \<open>What one round sees.\<close>

record round =
  rd_clock :: int
  rd_main :: "gate_exn + pystr"
  rd_runs :: "string \<Rightarrow> gate_exn + workflow_run list"
  rd_deploy_runs :: "gate_exn + workflow_run list"
  rd_deploy_jobs :: "int \<Rightarrow> gate_exn + job list"
  rd_diff :: "pystr \<Rightarrow> pystr \<Rightarrow> gate_exn + pystr"
  rd_run_jobs :: "int \<Rightarrow> gate_exn + job list"

datatype decision = Superseded | Documentation_only | Deploy int

primrec results_of :: "round \<Rightarrow> pystr \<Rightarrow> pystr \<Rightarrow> string list \<Rightarrow> gate_exn + int option list" where
  "results_of rd repo sha [] = Inr []"
| "results_of rd repo sha (w # ws) =
     rbind (rd_runs rd w) (\<lambda>runs. rbind (successful_run runs repo sha w) (\<lambda>r.
     rbind (results_of rd repo sha ws) (\<lambda>rs. Inr (r # rs))))"

definition truthy_id :: "int option \<Rightarrow> bool" where
  "truthy_id r \<longleftrightarrow> r \<noteq> None \<and> r \<noteq> Some 0"

text \<open>One round: \<open>Inr None\<close> means to wait and look again.\<close>

definition look :: "round \<Rightarrow> pystr \<Rightarrow> pystr \<Rightarrow> gate_exn + decision option" where
  "look rd repo sha =
     rbind (rd_main rd) (\<lambda>main.
     if main \<noteq> sha then Inr (Some Superseded)
     else rbind (results_of rd repo sha WORKFLOWS) (\<lambda>results.
     if \<not> list_all truthy_id results then Inr None
     else rbind (deployment_unchanged (rd_deploy_runs rd) (rd_deploy_jobs rd) (rd_diff rd) repo sha) (\<lambda>unchanged.
     if unchanged then Inr (Some Documentation_only)
     else let run_id = the (last results) in
          rbind (runtime_job_succeeded (rd_run_jobs rd) run_id) (\<lambda>ok.
          if ok then Inr (Some (Deploy run_id))
          else Inl (Runtime_error ''deployment requires runtime images'')))))"

text \<open>The loop with fuel; \<open>rounds i\<close> is what round \<open>i\<close> sees, its clock being read at the head of the loop.\<close>

fun wait_loop :: "nat \<Rightarrow> (nat \<Rightarrow> round) \<Rightarrow> int \<Rightarrow> pystr \<Rightarrow> pystr \<Rightarrow> nat \<Rightarrow> (gate_exn + decision) option" where
  "wait_loop 0 rounds deadline repo sha i = None"
| "wait_loop (Suc n) rounds deadline repo sha i =
     (if \<not> rd_clock (rounds i) < deadline then Some (Inl Timeout_error)
      else case look (rounds i) repo sha of
             Inl e \<Rightarrow> Some (Inl e)
           | Inr (Some d) \<Rightarrow> Some (Inr d)
           | Inr None \<Rightarrow> wait_loop n rounds deadline repo sha (i + 1))"

definition WAIT_SECONDS :: int where "WAIT_SECONDS = 55 * 60"

definition wait_for_ci :: "(nat \<Rightarrow> round) \<Rightarrow> int \<Rightarrow> pystr \<Rightarrow> pystr \<Rightarrow> (gate_exn + decision) option" where
  "wait_for_ci rounds start repo sha = wait_loop 166 rounds (start + WAIT_SECONDS) repo sha 0"

subsection \<open>Context, signatures and transfer\<close>

text \<open>\<open>\w\<close> is a letter, digit or underscore of Unicode and is a parameter.\<close>

definition valid_repo :: "(nat \<Rightarrow> bool) \<Rightarrow> pystr \<Rightarrow> bool" where
  "valid_repo word repo \<longleftrightarrow>
     (case split_on 47 repo of
        [owner, name] \<Rightarrow> owner \<noteq> [] \<and> name \<noteq> [] \<and> list_all (\<lambda>c. word c \<or> c = 46 \<or> c = 45) (owner @ name)
      | _ \<Rightarrow> False)"

definition environ :: "(string \<Rightarrow> pystr option) \<Rightarrow> string \<Rightarrow> gate_exn + pystr" where
  "environ env name = (case env name of None \<Rightarrow> Inl Data_error | Some v \<Rightarrow> Inr v)"

definition gate_context :: "(nat \<Rightarrow> bool) \<Rightarrow> (string \<Rightarrow> pystr option) \<Rightarrow> gate_exn + pystr \<times> pystr" where
  "gate_context word env =
     rbind (environ env ''GITHUB_REPOSITORY'') (\<lambda>repo.
     rbind (environ env ''GITHUB_SHA'') (\<lambda>sha.
     rbind (environ env ''GITHUB_EVENT_NAME'') (\<lambda>event.
     if event \<noteq> lit ''push'' then Inl Data_error
     else rbind (environ env ''GITHUB_REF'') (\<lambda>ref.
     if ref \<noteq> lit ''refs/heads/main'' \<or> \<not> valid_repo word repo \<or> \<not> fullmatch SHA_PATTERN sha
     then Inl Data_error else Inr (repo, sha)))))"

text \<open>What the attestation of a file must say.\<close>

record attestation =
  at_repo :: pystr
  at_signer :: pystr
  at_source :: pystr
  at_ref :: pystr
  at_self_hosted :: bool

definition required_attestation :: "pystr \<Rightarrow> pystr \<Rightarrow> attestation" where
  "required_attestation repo sha = \<lparr>at_repo = repo, at_signer = repo @ lit ''/.github/workflows/supply_chain.yaml'',
     at_source = sha, at_ref = lit ''refs/heads/main'', at_self_hosted = False\<rparr>"

definition verify :: "(string \<Rightarrow> attestation \<Rightarrow> gate_exn + unit) \<Rightarrow> pystr \<Rightarrow> pystr \<Rightarrow> gate_exn + unit" where
  "verify check repo sha =
     rbind (check ''runtime.tar'' (required_attestation repo sha)) (\<lambda>_.
     check ''build-record.json'' (required_attestation repo sha))"

definition az :: cclass where "az = [(97, 122)]"
definition dec :: cclass where "dec = [(48, 57)]"

definition INSTANCE_PATTERN :: rexp where
  "INSTANCE_PATTERN = RSeq (RLit (lit ''i-'')) (RAlt (RRep 8 (RCls (dec @ [(97, 102)]))) (RRep 17 (RCls (dec @ [(97, 102)]))))"

definition REGION_PATTERN :: rexp where
  "REGION_PATTERN = RSeq (RRep 2 (RCls az)) (RSeq (RPlus (RSeq (RChr 45) (RPlus (RCls az))))
     (RSeq (RChr 45) (RPlus (RCls dec))))"

definition USER_PATTERN :: rexp where
  "USER_PATTERN = RSeq (RCls (az @ [(95, 95)])) (RStar (RCls (az @ dec @ [(95, 95), (45, 45)])))"

definition REPOSITORY_CLASS :: cclass where
  "REPOSITORY_CLASS = [(65, 90), (97, 122), (48, 57), (95, 95), (46, 46), (47, 47), (45, 45)]"

definition REPOSITORY_PATTERN :: rexp where
  "REPOSITORY_PATTERN = RSeq (RChr 47) (RPlus (RCls REPOSITORY_CLASS))"

definition RUN_PATTERN :: rexp where
  "RUN_PATTERN = RSeq (RPlus (RCls dec)) (RSeq (RChr 45) (RPlus (RCls dec)))"

text \<open>The checked target: the paths of the repository and of the incoming directory on the host.
  \<open>decimal_value\<close> is \<open>int\<close> for a text of decimal digits, as \<open>isdecimal\<close> understands them.\<close>

definition transfer_target ::
  "(pystr \<Rightarrow> int option) \<Rightarrow> (string \<Rightarrow> pystr option) \<Rightarrow> gate_exn + pystr \<times> pystr" where
  "transfer_target decimal_value env =
     rbind (environ env ''DEPLOY_INSTANCE_ID'') (\<lambda>host.
     rbind (environ env ''DEPLOY_USER'') (\<lambda>user.
     rbind (environ env ''DEPLOY_AWS_REGION'') (\<lambda>region.
     rbind (environ env ''DEPLOY_PORT'') (\<lambda>port.
     rbind (environ env ''DEPLOY_REPOSITORY'') (\<lambda>repository.
     if \<not> fullmatch INSTANCE_PATTERN host then Inl Data_error
     else if \<not> fullmatch REGION_PATTERN region then Inl Data_error
     else if \<not> fullmatch USER_PATTERN user \<or>
             (case decimal_value port of None \<Rightarrow> True | Some p \<Rightarrow> \<not> (1 \<le> p \<and> p \<le> 65535)) then Inl Data_error
     else if \<not> fullmatch REPOSITORY_PATTERN repository \<or> lit ''..'' \<in> set (split_on 47 repository) then Inl Data_error
     else rbind (environ env ''GITHUB_RUN_ID'') (\<lambda>run_id.
     rbind (environ env ''GITHUB_RUN_ATTEMPT'') (\<lambda>attempt.
     let run = run_id @ 45 # attempt in
     if \<not> fullmatch RUN_PATTERN run then Inl Data_error
     else Inr (repository, repository @ lit ''/.soj-deploy/incoming-'' @ run))))))))"

definition secret_file :: "(pystr \<Rightarrow> pystr) \<Rightarrow> (string \<Rightarrow> pystr option) \<Rightarrow> string \<Rightarrow> gate_exn + unit" where
  "secret_file python_strip env name =
     rbind (environ env name) (\<lambda>v. if python_strip v = [] then Inl Data_error else Inr ())"

datatype remote = Make_directory pystr | Copy_files pystr pystr | Run_update pystr pystr pystr | Read_current pystr

datatype transfer_outcome = Not_latest | Deployed | Kept_other_commit

text \<open>The remote commands in their order; reading the success record back yields the commit it names, if any.\<close>

definition transfer_commands ::
  "(remote \<Rightarrow> gate_exn + unit) \<Rightarrow> (gate_exn + pystr option) \<Rightarrow> pystr \<times> pystr \<Rightarrow> pystr \<Rightarrow> gate_exn + transfer_outcome" where
  "transfer_commands remote current target sha =
     (let (repository, incoming) = target in
     rbind (remote (Make_directory incoming)) (\<lambda>_.
     rbind (remote (Copy_files (repository @ lit ''/.soj-deploy/basis'') incoming)) (\<lambda>_.
     rbind (remote (Run_update repository incoming sha)) (\<lambda>_.
     rbind (remote (Read_current (repository @ lit ''/.soj-deploy/current.json''))) (\<lambda>_.
     rbind current (\<lambda>c. Inr (if c = Some sha then Deployed else Kept_other_commit)))))))"

definition transfer ::
  "(pystr \<Rightarrow> int option) \<Rightarrow> (pystr \<Rightarrow> pystr) \<Rightarrow> (string \<Rightarrow> pystr option) \<Rightarrow> (gate_exn + pystr) \<Rightarrow>
   (remote \<Rightarrow> gate_exn + unit) \<Rightarrow> (gate_exn + pystr option) \<Rightarrow> pystr \<Rightarrow> gate_exn + transfer_outcome" where
  "transfer decimal_value python_strip env main remote current sha =
     rbind main (\<lambda>m.
     if m \<noteq> sha then Inr Not_latest
     else rbind (transfer_target decimal_value env) (\<lambda>target.
     rbind (secret_file python_strip env ''DEPLOY_SSH_KEY'') (\<lambda>_.
     rbind (secret_file python_strip env ''DEPLOY_KNOWN_HOSTS'') (\<lambda>_.
     transfer_commands remote current target sha))))"

subsection \<open>The latest run decides\<close>

lemma latest_run_in: "latest_run r rs \<in> set (r # rs)"
  unfolding latest_run_def
proof (induction rs arbitrary: r)
  case (Cons x rs)
  from Cons [of x] Cons [of r] show ?case by auto
qed simp

lemma run_key_less_trans: "run_key_less a b \<Longrightarrow> run_key_less b c \<Longrightarrow> run_key_less a c"
  by (auto simp: run_key_less_def)

lemma run_key_less_not: "\<not> run_key_less a b \<Longrightarrow> run_key_less a c \<Longrightarrow> run_key_less b c"
  by (auto simp: run_key_less_def)

lemma run_key_less_asym: "run_key_less a b \<Longrightarrow> \<not> run_key_less b a"
  by (auto simp: run_key_less_def)

lemma run_key_less_step: "\<not> run_key_less m b \<Longrightarrow> x = b \<or> \<not> run_key_less b x \<Longrightarrow> \<not> run_key_less m x"
  by (auto simp: run_key_less_def)

lemma latest_run_max: "x \<in> set (r # rs) \<Longrightarrow> \<not> run_key_less (latest_run r rs) x"
  unfolding latest_run_def
proof (induction rs arbitrary: r x)
  case Nil then show ?case by (simp add: run_key_less_def)
next
  case (Cons y rs)
  let ?b = "if run_key_less r y then y else r"
  have b: "\<not> run_key_less (fold (\<lambda>x best. if run_key_less best x then x else best) rs ?b) ?b"
    by (rule Cons.IH) simp
  show ?case
  proof (cases "x \<in> set rs")
    case True then show ?thesis using Cons.IH [of x ?b] by simp
  next
    case False
    then have "x = r \<or> x = y" using Cons.prems by auto
    then have "x = ?b \<or> \<not> run_key_less ?b x" by (metis run_key_less_asym)
    from run_key_less_step [OF b this] show ?thesis by simp
  qed
qed

definition passed :: "workflow_run list \<Rightarrow> pystr \<Rightarrow> pystr \<Rightarrow> string \<Rightarrow> int \<Rightarrow> bool" where
  "passed runs repo sha workflow i \<longleftrightarrow>
     (\<exists>r\<in>set runs. wr_id r = i \<and> is_candidate repo sha workflow r \<and> wr_status r = lit ''completed'' \<and>
        wr_conclusion r = Some (lit ''success'') \<and>
        (\<forall>other\<in>set runs. is_candidate repo sha workflow other \<longrightarrow>
           wr_id other < wr_id r \<or> wr_id other = wr_id r \<and> wr_attempt other \<le> wr_attempt r))"

lemma successful_run_passed:
  assumes "successful_run runs repo sha workflow = Inr (Some i)"
  shows "passed runs repo sha workflow i"
proof (cases "filter (is_candidate repo sha workflow) runs")
  case (Cons r rs)
  let ?l = "latest_run r rs"
  have "?l \<in> set (filter (is_candidate repo sha workflow) runs)"
    unfolding Cons by (rule latest_run_in)
  then have "?l \<in> set runs" "is_candidate repo sha workflow ?l" by simp_all
  moreover have "wr_id x < wr_id ?l \<or> wr_id x = wr_id ?l \<and> wr_attempt x \<le> wr_attempt ?l"
    if "x \<in> set runs" "is_candidate repo sha workflow x" for x
  proof -
    have "x \<in> set (filter (is_candidate repo sha workflow) runs)" using that by simp
    then have "\<not> run_key_less ?l x" unfolding Cons by (rule latest_run_max)
    then show ?thesis by (auto simp: run_key_less_def not_less)
  qed
  ultimately show ?thesis
    using assms Cons unfolding passed_def
    by (intro bexI [of _ ?l]) (auto simp: successful_run_def Let_def split: if_splits)
qed (use assms in \<open>simp add: successful_run_def\<close>)

lemma results_of_Inr:
  "results_of rd repo sha ws = Inr rs \<Longrightarrow>
   length rs = length ws \<and>
   (\<forall>k < length ws. \<exists>runs. rd_runs rd (ws ! k) = Inr runs \<and> successful_run runs repo sha (ws ! k) = Inr (rs ! k))"
proof (induction ws arbitrary: rs)
  case (Cons w ws)
  then obtain runs r rs' where s: "rd_runs rd w = Inr runs" "successful_run runs repo sha w = Inr r"
    "results_of rd repo sha ws = Inr rs'" "rs = r # rs'"
    by (auto simp: rbind_eq_Inr)
  show ?case
  proof (intro conjI allI impI)
    show "length rs = length (w # ws)" using Cons.IH [OF s(3)] s(4) by simp
    fix k assume "k < length (w # ws)"
    then show "\<exists>runs. rd_runs rd ((w # ws) ! k) = Inr runs \<and>
        successful_run runs repo sha ((w # ws) ! k) = Inr (rs ! k)"
      using Cons.IH [OF s(3)] s by (cases k) auto
  qed
qed simp

subsection \<open>The deployed commit\<close>

text \<open>A commit whose deployment run has recorded a completed update of production.\<close>

definition confirmed_deployed :: "workflow_run list \<Rightarrow> (int \<Rightarrow> gate_exn + job list) \<Rightarrow> pystr \<Rightarrow> pystr \<Rightarrow> bool" where
  "confirmed_deployed runs jobs repo base \<longleftrightarrow>
     (\<exists>r\<in>set runs. deploy_run repo r \<and> wr_head_sha r = base \<and>
        (\<exists>js. jobs (wr_id r) = Inr js \<and> list_ex confirms_update js))"

lemma first_confirmed_Some:
  "first_confirmed repo jobs rs = Inr (Some base) \<Longrightarrow> confirmed_deployed rs jobs repo base"
  by (induction rs) (auto simp: rbind_eq_Inr confirmed_deployed_def split: if_splits)

text \<open>Only documentation differs from a commit that is known to be deployed.\<close>

definition only_documentation_since ::
  "(gate_exn + workflow_run list) \<Rightarrow> (int \<Rightarrow> gate_exn + job list) \<Rightarrow> (pystr \<Rightarrow> pystr \<Rightarrow> gate_exn + pystr) \<Rightarrow>
   pystr \<Rightarrow> pystr \<Rightarrow> bool" where
  "only_documentation_since deploy_runs jobs git_diff repo sha \<longleftrightarrow>
     (\<exists>runs base out. deploy_runs = Inr runs \<and> confirmed_deployed runs jobs repo base \<and> git_diff base sha = Inr out \<and>
        documentation_only (filter (\<lambda>path. path \<noteq> []) (split_on 0 out)))"

lemma changed_paths_documentation:
  assumes "changed_paths git_diff base sha = Inr (Some ps)" "documentation_only ps"
  shows "\<exists>out. git_diff base sha = Inr out \<and> documentation_only (filter (\<lambda>path. path \<noteq> []) (split_on 0 out))"
  using assms by (auto simp: changed_paths_def split: if_splits sum.splits gate_exn.splits)

lemma deployment_unchanged_True:
  assumes "deployment_unchanged deploy_runs jobs git_diff repo sha = Inr True"
  shows "only_documentation_since deploy_runs jobs git_diff repo sha"
proof -
  obtain base ps where b: "deployed_commit deploy_runs jobs repo = Inr (Some base)"
    "changed_paths git_diff base sha = Inr (Some ps)" "documentation_only ps"
    using assms by (auto simp: deployment_unchanged_def rbind_eq_Inr split: sum.splits option.splits gate_exn.splits)
  from b(1) obtain runs where r: "deploy_runs = Inr runs"
    "first_confirmed repo jobs (sort_key (\<lambda>r. - wr_id r) runs) = Inr (Some base)"
    by (auto simp: deployed_commit_def rbind_eq_Inr)
  from first_confirmed_Some [OF r(2)] changed_paths_documentation [OF b(2,3)] r(1)
  show ?thesis by (auto simp: only_documentation_since_def confirmed_deployed_def)
qed

subsection \<open>What the gate lets through\<close>

lemma wait_loop_found:
  "wait_loop n rounds deadline repo sha i = Some (Inr d) \<Longrightarrow>
   \<exists>k. rd_clock (rounds k) < deadline \<and> look (rounds k) repo sha = Inr (Some d)"
  by (induction n arbitrary: i) (auto split: if_splits sum.splits option.splits)

text \<open>C28: Only a checked commit is deployed. The gate names a run for deployment only in a round before the
  deadline in which the commit is still the head of main, the latest run of each of the three workflows for this very
  commit succeeded, and the job that built the images succeeded in the named run; it calls the change pure
  documentation only when every changed path since a commit known to be deployed is a Markdown file that no image
  contains.\<close>

theorem gate_decides_on_evidence:
  assumes "wait_for_ci rounds start repo sha = Some (Inr d)"
  shows "\<exists>k. rd_clock (rounds k) < start + WAIT_SECONDS \<and>
    (case d of
       Superseded \<Rightarrow> \<exists>main. rd_main (rounds k) = Inr main \<and> main \<noteq> sha
     | Documentation_only \<Rightarrow> rd_main (rounds k) = Inr sha \<and>
         only_documentation_since (rd_deploy_runs (rounds k)) (rd_deploy_jobs (rounds k)) (rd_diff (rounds k)) repo sha
     | Deploy run_id \<Rightarrow> rd_main (rounds k) = Inr sha \<and>
         (\<forall>w\<in>set WORKFLOWS. \<exists>runs i. rd_runs (rounds k) w = Inr runs \<and> passed runs repo sha w i \<and>
            (w = ''supply_chain.yaml'' \<longrightarrow> i = run_id)) \<and>
         (\<exists>js. rd_run_jobs (rounds k) run_id = Inr js \<and>
            list_ex (\<lambda>j. jb_name j = RUNTIME_JOB \<and> jb_conclusion j = Some ''success'') js))"
proof -
  obtain k where k: "rd_clock (rounds k) < start + WAIT_SECONDS" "look (rounds k) repo sha = Inr (Some d)"
    using wait_loop_found assms unfolding wait_for_ci_def by blast
  let ?rd = "rounds k"
  obtain main where m: "rd_main ?rd = Inr main" using k(2) by (auto simp: look_def rbind_eq_Inr)
  show ?thesis
  proof (cases "main = sha")
    case False
    then have "d = Superseded" using k(2) m by (simp add: look_def)
    then show ?thesis using k m False by auto
  next
    case True
    obtain results unchanged where r: "results_of ?rd repo sha WORKFLOWS = Inr results" "list_all truthy_id results"
      "deployment_unchanged (rd_deploy_runs ?rd) (rd_deploy_jobs ?rd) (rd_diff ?rd) repo sha = Inr unchanged"
      using k(2) m True by (auto simp: look_def rbind_eq_Inr split: if_splits)
    show ?thesis
    proof (cases unchanged)
      case True2: True
      then have "d = Documentation_only" using k(2) m True r by (simp add: look_def)
      then show ?thesis using k m True True2 deployment_unchanged_True r(3) by auto
    next
      case False
      let ?id = "the (last results)"
      have ok: "runtime_job_succeeded (rd_run_jobs ?rd) ?id = Inr True" "d = Deploy ?id"
        using k(2) m True r False by (auto simp: look_def rbind_eq_Inr Let_def split: if_splits)
      have len: "length results = 3" using results_of_Inr [OF r(1)] by (simp add: WORKFLOWS_def)
      have w: "\<exists>runs i. rd_runs ?rd (WORKFLOWS ! n) = Inr runs \<and> passed runs repo sha (WORKFLOWS ! n) i \<and> results ! n = Some i"
        if n: "n < 3" for n
      proof -
        obtain runs where runs: "rd_runs ?rd (WORKFLOWS ! n) = Inr runs"
          "successful_run runs repo sha (WORKFLOWS ! n) = Inr (results ! n)"
          using results_of_Inr [OF r(1)] n len by auto
        have "results ! n \<noteq> None" using r(2) n len by (auto simp: list_all_length truthy_id_def)
        then obtain i where "results ! n = Some i" by auto
        with runs successful_run_passed show ?thesis by auto
      qed
      have last: "last results = results ! 2" using len by (cases results) (auto simp: last_conv_nth)
      have ws: "WORKFLOWS ! 0 = ''fastapi_ci.yaml''" "WORKFLOWS ! 1 = ''react_ci.yaml''" "WORKFLOWS ! 2 = ''supply_chain.yaml''"
        by (simp_all add: WORKFLOWS_def)
      have all: "\<forall>w\<in>set WORKFLOWS. \<exists>runs i. rd_runs ?rd w = Inr runs \<and> passed runs repo sha w i \<and>
            (w = ''supply_chain.yaml'' \<longrightarrow> i = ?id)"
        using w [of 0] w [of 1] w [of 2] unfolding ws last by (auto simp: WORKFLOWS_def)
      have "\<exists>js. rd_run_jobs ?rd ?id = Inr js \<and>
            list_ex (\<lambda>j. jb_name j = RUNTIME_JOB \<and> jb_conclusion j = Some ''success'') js"
        using ok(1) by (auto simp: runtime_job_succeeded_def rbind_eq_Inr)
      with all ok(2) k(1) m True show ?thesis by (intro exI [of _ k]) simp
    qed
  qed
qed

subsection \<open>The wait ends\<close>

lemma wait_loop_None:
  "wait_loop n rounds deadline repo sha i = None \<Longrightarrow> j < n \<Longrightarrow> rd_clock (rounds (i + j)) < deadline"
proof (induction n arbitrary: i j)
  case (Suc n)
  have head: "rd_clock (rounds i) < deadline" using Suc.prems(1) by (auto split: if_splits)
  have next_round: "wait_loop n rounds deadline repo sha (i + 1) = None"
    using Suc.prems(1) by (auto split: if_splits sum.splits option.splits)
  show ?case
  proof (cases j)
    case (Suc m)
    then show ?thesis using Suc.IH [OF next_round, of m] Suc.prems(2) by simp
  qed (use head in simp)
qed simp

text \<open>The wait ends. When every round of the loop takes at least the twenty seconds it sleeps, the gate comes to a
  decision or an error within 166 rounds; it never waits for ever, whatever GitHub answers.\<close>

theorem gate_wait_ends:
  assumes "start \<le> rd_clock (rounds 0)" "\<forall>i. rd_clock (rounds i) + 20 \<le> rd_clock (rounds (i + 1))"
  shows "\<exists>answer. wait_for_ci rounds start repo sha = Some answer"
proof (rule ccontr)
  assume "\<not> ?thesis"
  then have "wait_loop 166 rounds (start + WAIT_SECONDS) repo sha 0 = None" by (simp add: wait_for_ci_def)
  from wait_loop_None [OF this, of 165] have late: "rd_clock (rounds 165) < start + WAIT_SECONDS" by simp
  have "start + 20 * int k \<le> rd_clock (rounds k)" for k
  proof (induction k)
    case (Suc k)
    then show ?case using assms(2) [rule_format, of k] by simp
  qed (use assms(1) in simp)
  from this [of 165] late show False by (simp add: WAIT_SECONDS_def)
qed

subsection \<open>When the image checks are left out\<close>

text \<open>A change is checked without images only when it consists of documentation, seen from the base of the pull
  request or from a commit known to be deployed.\<close>

lemma scope_skips_only_documentation:
  assumes "scope event deploy_runs jobs git_diff repo sha = Inr False"
  shows "case event of
     Pull_request base \<Rightarrow> \<exists>b out. base = Inr b \<and> git_diff b sha = Inr out \<and>
       documentation_only (filter (\<lambda>path. path \<noteq> []) (split_on 0 out))
   | Push_main \<Rightarrow> only_documentation_since deploy_runs jobs git_diff repo sha
   | Other_event \<Rightarrow> False"
proof (cases event)
  case (Pull_request base)
  have "rbind base (\<lambda>b. rbind (changed_paths git_diff b sha) (\<lambda>paths.
               Inr (case paths of None \<Rightarrow> False | Some ps \<Rightarrow> documentation_only ps))) = Inr True"
    using assms Pull_request unfolding scope_def Let_def event.case by (auto split: sum.splits gate_exn.splits)
  then obtain b ps where b: "base = Inr b" "changed_paths git_diff b sha = Inr (Some ps)" "documentation_only ps"
    by (auto simp: rbind_eq_Inr split: option.splits)
  from changed_paths_documentation [OF b(2,3)] b(1) Pull_request show ?thesis by auto
next
  case Push_main
  have "deployment_unchanged deploy_runs jobs git_diff repo sha = Inr True"
    using assms Push_main unfolding scope_def Let_def event.case by (auto split: sum.splits gate_exn.splits)
  from deployment_unchanged_True [OF this] Push_main show ?thesis by simp
qed (use assms in \<open>simp add: scope_def\<close>)

text \<open>The path on the host consists of safe characters and leaves the repository nowhere.\<close>

lemma transfer_confirms_deployment:
  assumes "transfer decimal_value python_strip env main remote current sha = Inr Deployed"
  shows "main = Inr sha \<and> current = Inr (Some sha) \<and>
    (\<exists>repository incoming. transfer_target decimal_value env = Inr (repository, incoming) \<and>
       list_all (in_cls REPOSITORY_CLASS) repository \<and> lit ''..'' \<notin> set (split_on 47 repository) \<and>
       startswith incoming (repository @ lit ''/.soj-deploy/incoming-'') \<and>
       remote (Make_directory incoming) = Inr () \<and> remote (Run_update repository incoming sha) = Inr ())"
proof -
  obtain repository incoming where t: "main = Inr sha" "transfer_target decimal_value env = Inr (repository, incoming)"
    "transfer_commands remote current (repository, incoming) sha = Inr Deployed"
    using assms by (auto simp: transfer_def rbind_eq_Inr split: if_splits)
  have pattern: "fullmatch REPOSITORY_PATTERN repository" "lit ''..'' \<notin> set (split_on 47 repository)"
    "\<exists>run. incoming = repository @ lit ''/.soj-deploy/incoming-'' @ run"
    using t(2) by (auto simp: transfer_target_def rbind_eq_Inr Let_def split: if_splits)
  have "list_all (in_cls REPOSITORY_CLASS) repository"
    using pattern(1) unfolding REPOSITORY_PATTERN_def RChr_def fullmatch_Seq_Cls fullmatch_Plus_Cls
    by (auto simp: in_cls_def REPOSITORY_CLASS_def simp del: fullmatch.simps)
  with t pattern show ?thesis
    by (auto simp: transfer_commands_def rbind_eq_Inr startswith_def split: if_splits)
qed

subsection \<open>An example\<close>

definition example_run :: "string \<Rightarrow> workflow_run" where
  "example_run w = \<lparr>wr_id = 5, wr_attempt = 1, wr_head_sha = [97], wr_branch = lit ''main'', wr_event = lit ''push'',
     wr_path = workflow_path w, wr_repo = [114], wr_status = lit ''completed'', wr_conclusion = Some (lit ''success'')\<rparr>"

definition example_round :: "nat \<Rightarrow> round" where
  "example_round i = \<lparr>rd_clock = 20 * int i, rd_main = Inr [97], rd_runs = (\<lambda>w. Inr [example_run w]),
     rd_deploy_runs = Inr [], rd_deploy_jobs = (\<lambda>_. Inr []), rd_diff = (\<lambda>_ _. Inr []),
     rd_run_jobs = (\<lambda>_. Inr [\<lparr>jb_name = RUNTIME_JOB, jb_conclusion = Some ''success'', jb_steps = []\<rparr>])\<rparr>"

lemma example_wait: "wait_for_ci example_round 0 [114] [97] = Some (Inr (Deploy 5))"
proof -
  have "successful_run [example_run w] [114] [97] w = Inr (Some 5)" for w
    by (simp add: successful_run_def is_candidate_def example_run_def latest_run_def)
  then have "look (example_round 0) [114] [97] = Inr (Some (Deploy 5))"
    by (simp add: look_def example_round_def WORKFLOWS_def truthy_id_def deployment_unchanged_def deployed_commit_def
        runtime_job_succeeded_def)
  moreover have "rd_clock (example_round 0) < WAIT_SECONDS" by (simp add: example_round_def WAIT_SECONDS_def)
  ultimately have "wait_loop (Suc 165) example_round WAIT_SECONDS [114] [97] 0 = Some (Inr (Deploy 5))"
    by (simp only: wait_loop.simps) simp
  then show ?thesis by (simp add: wait_for_ci_def del: wait_loop.simps)
qed

lemma gate_decides_on_evidence_witness:
  "\<exists>k. rd_main (example_round k) = Inr [97] \<and> passed [example_run ''supply_chain.yaml''] [114] [97] ''supply_chain.yaml'' 5"
  using gate_decides_on_evidence [OF example_wait] by (auto simp: WORKFLOWS_def example_round_def)

lemma gate_wait_ends_witness: "\<exists>answer. wait_for_ci example_round 0 [114] [98] = Some answer"
  by (rule gate_wait_ends) (simp_all add: example_round_def)

end
