(* ===== verification/Problem_Schema.thy ===== *)
theory Problem_Schema
  imports Repository Runner_Protocol Complex_Main
begin

section \<open>Problem files\<close>

text \<open>
  \<open>soj_shared/problem_schema.py\<close> and \<open>soj_tools/problem_manifest.py\<close>: how the text of a definition file
  becomes a validated definition, and back. PyYAML is a parameter: \<open>compose\<close> gives the node tree of a text, with
  merge keys already flattened and \<open>YBroken\<close> for a node without a constructor (an unknown tag or a recursive
  alias) and \<open>YRaises\<close> for a scalar whose constructor raises another exception (a date that does not exist), and \<open>emit\<close> gives the text of plain data. The construction of mappings, which the source replaces, is
  modelled with the equality of Python's dictionary keys. Pydantic's lax conversions of values that do not have
  the declared type are a parameter too; a value of the declared type is taken as it is.
\<close>

subsection \<open>Nodes and data\<close>

text \<open>The scalars a safe loader constructs; \<open>ScOther\<close> stands for bytes and dates.\<close>

datatype scalar =
    ScNone
  | ScBool bool
  | ScInt int
  | ScFloat rat
  | ScStr pystr
  | ScOther nat

datatype ynode =
    YScalar scalar
  | YSeq "ynode list"
  | YMap "(ynode \<times> ynode) list"
  | YBroken
  | YRaises

datatype ydata =
    DScalar scalar
  | DList "ydata list"
  | DDict "(scalar \<times> ydata) list"

abbreviation DStr :: "pystr \<Rightarrow> ydata" where "DStr s \<equiv> DScalar (ScStr s)"
abbreviation DInt :: "int \<Rightarrow> ydata" where "DInt i \<equiv> DScalar (ScInt i)"

text \<open>Python compares numbers of different types by value, so that \<open>1\<close>, \<open>1.0\<close> and \<open>True\<close> are one key.\<close>

fun numeric :: "scalar \<Rightarrow> rat option" where
  "numeric (ScBool b) = Some (if b then 1 else 0)"
| "numeric (ScInt i) = Some (of_int i)"
| "numeric (ScFloat r) = Some r"
| "numeric _ = None"

definition key_eq :: "scalar \<Rightarrow> scalar \<Rightarrow> bool" where
  "key_eq a b = (case (numeric a, numeric b) of
     (Some x, Some y) \<Rightarrow> x = y | (None, None) \<Rightarrow> a = b | _ \<Rightarrow> False)"

definition dict_lookup :: "(scalar \<times> ydata) list \<Rightarrow> scalar \<Rightarrow> ydata option" where
  "dict_lookup kvs k = map_option snd (List.find (\<lambda>(k', _). key_eq k' k) kvs)"

datatype yaml_error = UnhashableKey | DuplicateKey | UnconstructableNode | ConstructorRaised

fun as_key :: "ydata \<Rightarrow> yaml_error + scalar" where
  "as_key (DScalar s) = Inr s"
| "as_key _ = Inl UnhashableKey"

text \<open>
  \<open>construct_pairs\<close> is the loop of \<open>_construct_unique_mapping\<close>, over the mapping built so far. The loader fills
  lists in later, when \<open>deep\<close> is not set; their final value is the same.
\<close>

function construct :: "ynode \<Rightarrow> yaml_error + ydata"
  and construct_list :: "ynode list \<Rightarrow> yaml_error + ydata list"
  and construct_pairs :: "(scalar \<times> ydata) list \<Rightarrow> (ynode \<times> ynode) list \<Rightarrow> yaml_error + (scalar \<times> ydata) list" where
  "construct (YScalar s) = Inr (DScalar s)"
| "construct (YSeq ns) = rbind (construct_list ns) (\<lambda>ds. Inr (DList ds))"
| "construct (YMap ps) = rbind (construct_pairs [] ps) (\<lambda>kvs. Inr (DDict kvs))"
| "construct YBroken = Inl UnconstructableNode"
| "construct YRaises = Inl ConstructorRaised"
| "construct_list [] = Inr []"
| "construct_list (n # ns) = rbind (construct n) (\<lambda>d. rbind (construct_list ns) (\<lambda>ds. Inr (d # ds)))"
| "construct_pairs mapping [] = Inr mapping"
| "construct_pairs mapping ((key_node, value_node) # ps) =
     rbind (construct key_node) (\<lambda>k.
     rbind (as_key k) (\<lambda>key.
     if dict_lookup mapping key \<noteq> None then Inl DuplicateKey
     else rbind (construct value_node) (\<lambda>v. construct_pairs (mapping @ [(key, v)]) ps)))"
  by pat_completeness auto
termination
  by (relation "measure (case_sum size (case_sum (size_list size) (\<lambda>p. size_list (size_prod size size) (snd p))))") auto

subsection \<open>Parsing\<close>

definition MAX_PROBLEM_SCHEMA_FILE_BYTES :: nat where "MAX_PROBLEM_SCHEMA_FILE_BYTES = 2000000"

datatype schema_error = ProblemSchemaError string | TextEncodingError | ConstructorException

definition load_yaml_mapping ::
  "(pystr \<Rightarrow> ynode option) \<Rightarrow> pystr \<Rightarrow> schema_error + (scalar \<times> ydata) list" where
  "load_yaml_mapping compose text =
     (case compose text of
        None \<Rightarrow> Inl (ProblemSchemaError ''failed to parse'')
      | Some n \<Rightarrow> (case construct n of
          Inl ConstructorRaised \<Rightarrow> Inl ConstructorException
        | Inl _ \<Rightarrow> Inl (ProblemSchemaError ''failed to parse'')
        | Inr (DDict kvs) \<Rightarrow> Inr kvs
        | Inr _ \<Rightarrow> Inl (ProblemSchemaError ''must contain a YAML mapping'')))"

record lax =
  lax_str :: "ydata \<Rightarrow> pystr option"
  lax_int :: "ydata \<Rightarrow> int option"
  lax_items :: "ydata \<Rightarrow> ydata list option"
  lax_three :: "ydata \<Rightarrow> bool"

definition converted :: "'a option \<Rightarrow> value_error + 'a" where
  "converted x = (case x of None \<Rightarrow> Inl (ValueError ''wrong type'') | Some a \<Rightarrow> Inr a)"

definition model_fields :: "string list \<Rightarrow> ydata \<Rightarrow> value_error + ydata list" where
  "model_fields names v =
     (case v of
        DDict kvs \<Rightarrow>
          (if list_all (\<lambda>(k, _). k \<in> set (map (\<lambda>n. ScStr (lit n)) names)) kvs
              \<and> list_all (\<lambda>n. dict_lookup kvs (ScStr (lit n)) \<noteq> None) names
           then Inr (map (\<lambda>n. the (dict_lookup kvs (ScStr (lit n)))) names)
           else Inl (ValueError ''missing or extra field''))
      | _ \<Rightarrow> Inl (ValueError ''not a mapping''))"

definition literal :: "('a \<Rightarrow> pystr) \<Rightarrow> 'a list \<Rightarrow> ydata \<Rightarrow> value_error + 'a" where
  "literal text_of members v = (case v of
     DScalar (ScStr s) \<Rightarrow> parse_member text_of members (PStr s)
   | _ \<Rightarrow> Inl (ValueError ''not a member of the enumeration''))"

definition exit_code_text :: "ExitCodePolicy \<Rightarrow> pystr" where
  "exit_code_text p = lit (case p of Exit_ignore \<Rightarrow> ''ignore'' | Exit_zero \<Rightarrow> ''zero'')"

definition stderr_text :: "StderrPolicy \<Rightarrow> pystr" where
  "stderr_text p = lit (case p of Stderr_merge \<Rightarrow> ''merge'' | Stderr_ignore \<Rightarrow> ''ignore''
     | Stderr_must_be_empty \<Rightarrow> ''must_be_empty'')"

definition str_field :: "lax \<Rightarrow> ydata \<Rightarrow> value_error + pystr" where
  "str_field L v = converted (lax_str L v)"

fun each_item :: "('a \<Rightarrow> 'e + 'b) \<Rightarrow> 'a list \<Rightarrow> 'e + 'b list" where
  "each_item f [] = Inr []"
| "each_item f (x # xs) = rbind (f x) (\<lambda>y. rbind (each_item f xs) (\<lambda>ys. Inr (y # ys)))"

definition validate_LocalizedText :: "lax \<Rightarrow> ydata \<Rightarrow> value_error + LocalizedText" where
  "validate_LocalizedText L v =
     rbind (model_fields [''ja'', ''en''] v) (\<lambda>fs.
     rbind (str_field L (fs ! 0)) (\<lambda>ja.
     rbind (str_field L (fs ! 1)) (\<lambda>en. new_LocalizedText ja en)))"

definition validate_FixtureDefinition :: "lax \<Rightarrow> ydata \<Rightarrow> value_error + FixtureDefinition" where
  "validate_FixtureDefinition L v =
     rbind (model_fields [''path'', ''content''] v) (\<lambda>fs.
     rbind (str_field L (fs ! 0)) (\<lambda>path.
     rbind (str_field L (fs ! 1)) (\<lambda>content. new_FixtureDefinition path content)))"

definition validate_ExecutionSpecification :: "lax \<Rightarrow> ydata \<Rightarrow> value_error + ExecutionSpecification" where
  "validate_ExecutionSpecification L v =
     rbind (model_fields [''stdin'', ''fixtures'', ''exit_code'', ''stderr''] v) (\<lambda>fs.
     rbind (str_field L (fs ! 0)) (\<lambda>stdin.
     rbind (converted (lax_items L (fs ! 1))) (\<lambda>items.
     rbind (each_item (validate_FixtureDefinition L) items) (\<lambda>fixtures.
     rbind (literal exit_code_text [Exit_ignore, Exit_zero] (fs ! 2)) (\<lambda>exit_code.
     rbind (literal stderr_text [Stderr_merge, Stderr_ignore, Stderr_must_be_empty] (fs ! 3)) (\<lambda>stderr.
     new_ExecutionSpecification stdin fixtures exit_code stderr))))))"

definition validate_ImageArtifactSpecification :: "lax \<Rightarrow> ydata \<Rightarrow> value_error + ImageArtifactSpecification" where
  "validate_ImageArtifactSpecification L v =
     rbind (model_fields [''path'', ''media_type'', ''max_bytes''] v) (\<lambda>fs.
     rbind (str_field L (fs ! 0)) (\<lambda>path.
     rbind (literal media_text [Image_jpeg, Image_gif] (fs ! 1)) (\<lambda>media_type.
     rbind (converted (lax_int L (fs ! 2))) (\<lambda>max_bytes.
     new_ImageArtifactSpecification path media_type max_bytes))))"

text \<open>The union is discriminated by its field \<open>type\<close>.\<close>

definition validate_JudgeSpecification :: "lax \<Rightarrow> ydata \<Rightarrow> value_error + JudgeSpecification" where
  "validate_JudgeSpecification L v =
     (case v of
        DDict kvs \<Rightarrow>
          if dict_lookup kvs (ScStr (lit ''type'')) = Some (DStr (lit ''text'')) then
            rbind (model_fields [''type'', ''expected_output''] v) (\<lambda>fs.
            rbind (str_field L (fs ! 1)) (\<lambda>expected. new_TextJudge expected))
          else if dict_lookup kvs (ScStr (lit ''type'')) = Some (DStr (lit ''image'')) then
            rbind (model_fields [''type'', ''comparison'', ''artifact''] v) (\<lambda>fs.
            rbind (require (fs ! 1 = DStr (lit ''exact_pixels'')) ''comparison'') (\<lambda>_.
            rbind (validate_ImageArtifactSpecification L (fs ! 2)) (\<lambda>a. Inr (ImageJudge a))))
          else Inl (ValueError ''type'')
      | _ \<Rightarrow> Inl (ValueError ''type''))"

definition all_categories :: "ProblemCategory list" where
  "all_categories = [Cat_STANDARD, Cat_PRACTICE, Cat_IMAGE, Cat_REGEX]"

definition problem_names :: "string list" where
  "problem_names = [''schema_version'', ''id'', ''category'', ''title'', ''statement'', ''reference_solution'',
     ''execution'', ''judge'']"

definition model_validate :: "lax \<Rightarrow> ydata \<Rightarrow> value_error + ProblemDefinitionV3" where
  "model_validate L v =
     rbind (model_fields problem_names v) (\<lambda>fs.
     rbind (require (lax_three L (fs ! 0)) ''schema_version'') (\<lambda>_.
     rbind (str_field L (fs ! 1)) (\<lambda>pid.
     rbind (literal category_text all_categories (fs ! 2)) (\<lambda>category.
     rbind (validate_LocalizedText L (fs ! 3)) (\<lambda>title.
     rbind (validate_LocalizedText L (fs ! 4)) (\<lambda>statement.
     rbind (str_field L (fs ! 5)) (\<lambda>solution.
     rbind (validate_ExecutionSpecification L (fs ! 6)) (\<lambda>execution.
     rbind (validate_JudgeSpecification L (fs ! 7)) (\<lambda>judge.
     new_ProblemDefinitionV3 (PStr pid) category title statement solution execution judge)))))))))"

definition parse_problem_definition ::
  "lax \<Rightarrow> (pystr \<Rightarrow> ynode option) \<Rightarrow> pystr \<Rightarrow> schema_error + ProblemDefinitionV3" where
  "parse_problem_definition L compose text =
     (case utf8_encode text of
        None \<Rightarrow> Inl TextEncodingError
      | Some bs \<Rightarrow>
          if length bs > MAX_PROBLEM_SCHEMA_FILE_BYTES then Inl (ProblemSchemaError ''exceeds the file limit'')
          else rbind (load_yaml_mapping compose text) (\<lambda>data.
            case model_validate L (DDict data) of
              Inl _ \<Rightarrow> Inl (ProblemSchemaError ''invalid problem definition'')
            | Inr d \<Rightarrow> Inr d))"

text \<open>Reading a file: \<open>None\<close> when it cannot be read or is not UTF-8.\<close>

definition load_problem_file ::
  "lax \<Rightarrow> (pystr \<Rightarrow> ynode option) \<Rightarrow> pystr \<Rightarrow> pystr option \<Rightarrow> schema_error + ProblemDefinitionV3" where
  "load_problem_file L compose stem content =
     (case content of
        None \<Rightarrow> Inl (ProblemSchemaError ''failed to read'')
      | Some text \<Rightarrow> rbind (parse_problem_definition L compose text) (\<lambda>d.
          if pd_id d \<noteq> stem then Inl (ProblemSchemaError ''problem ID must match the filename stem'')
          else Inr d))"

subsection \<open>Dumping\<close>

definition dump_LocalizedText :: "LocalizedText \<Rightarrow> ydata" where
  "dump_LocalizedText t = DDict [(ScStr (lit ''ja''), DStr (lt_ja t)), (ScStr (lit ''en''), DStr (lt_en t))]"

definition dump_FixtureDefinition :: "FixtureDefinition \<Rightarrow> ydata" where
  "dump_FixtureDefinition f =
     DDict [(ScStr (lit ''path''), DStr (fx_path f)), (ScStr (lit ''content''), DStr (fx_content f))]"

definition dump_ExecutionSpecification :: "ExecutionSpecification \<Rightarrow> ydata" where
  "dump_ExecutionSpecification e = DDict
     [(ScStr (lit ''stdin''), DStr (es_stdin e)),
      (ScStr (lit ''fixtures''), DList (map dump_FixtureDefinition (es_fixtures e))),
      (ScStr (lit ''exit_code''), DStr (exit_code_text (es_exit_code e))),
      (ScStr (lit ''stderr''), DStr (stderr_text (es_stderr e)))]"

definition dump_ImageArtifactSpecification :: "ImageArtifactSpecification \<Rightarrow> ydata" where
  "dump_ImageArtifactSpecification a = DDict
     [(ScStr (lit ''path''), DStr (ia_path a)), (ScStr (lit ''media_type''), DStr (media_text (ia_media_type a))),
      (ScStr (lit ''max_bytes''), DInt (ia_max_bytes a))]"

definition dump_JudgeSpecification :: "JudgeSpecification \<Rightarrow> ydata" where
  "dump_JudgeSpecification j = (case j of
     TextJudge e \<Rightarrow> DDict [(ScStr (lit ''type''), DStr (lit ''text'')), (ScStr (lit ''expected_output''), DStr e)]
   | ImageJudge a \<Rightarrow> DDict [(ScStr (lit ''type''), DStr (lit ''image'')),
       (ScStr (lit ''comparison''), DStr (lit ''exact_pixels'')),
       (ScStr (lit ''artifact''), dump_ImageArtifactSpecification a)])"

definition model_dump :: "ProblemDefinitionV3 \<Rightarrow> ydata" where
  "model_dump d = DDict
     [(ScStr (lit ''schema_version''), DInt 3), (ScStr (lit ''id''), DStr (pd_id d)),
      (ScStr (lit ''category''), DStr (category_text (pd_category d))),
      (ScStr (lit ''title''), dump_LocalizedText (pd_title d)),
      (ScStr (lit ''statement''), dump_LocalizedText (pd_statement d)),
      (ScStr (lit ''reference_solution''), DStr (pd_reference_solution d)),
      (ScStr (lit ''execution''), dump_ExecutionSpecification (pd_execution d)),
      (ScStr (lit ''judge''), dump_JudgeSpecification (pd_judge d))]"

text \<open>Texts of several lines are written in the literal style; the emitter is told which.\<close>

definition represent_problem_string :: "pystr \<Rightarrow> bool" where
  "represent_problem_string s = (10 \<in> set s)"

definition dump_problem_definition ::
  "((pystr \<Rightarrow> bool) \<Rightarrow> ydata \<Rightarrow> pystr) \<Rightarrow> ProblemDefinitionV3 \<Rightarrow> pystr" where
  "dump_problem_definition emit d = emit represent_problem_string (model_dump d)"

text \<open>The node tree of plain data.\<close>

fun node_of :: "ydata \<Rightarrow> ynode" where
  "node_of (DScalar s) = YScalar s"
| "node_of (DList ds) = YSeq (map node_of ds)"
| "node_of (DDict kvs) = YMap (map (\<lambda>(k, v). (YScalar k, node_of v)) kvs)"

subsection \<open>Duplicate keys\<close>

text \<open>A document without duplicate keys: at every mapping the keys are scalars that differ as keys.\<close>

fun distinct_keys :: "scalar list \<Rightarrow> bool" where
  "distinct_keys [] = True"
| "distinct_keys (k # ks) = (list_all (\<lambda>k'. \<not> key_eq k k') ks \<and> distinct_keys ks)"

fun well_keyed :: "ydata \<Rightarrow> bool" where
  "well_keyed (DScalar s) = True"
| "well_keyed (DList ds) = list_all well_keyed ds"
| "well_keyed (DDict kvs) = (distinct_keys (map fst kvs) \<and> list_all (\<lambda>(k, v). well_keyed v) kvs)"

lemma key_eq_sym: "key_eq a b = key_eq b a"
  by (auto simp: key_eq_def split: option.splits)

lemma key_eq_refl [simp]: "key_eq a a"
  by (auto simp: key_eq_def split: option.splits)

lemma key_eq_str [simp]:
  "key_eq (ScStr a) b \<longleftrightarrow> b = ScStr a" "key_eq b (ScStr a) \<longleftrightarrow> b = ScStr a"
  by (cases b; auto simp: key_eq_def)+

lemma dict_lookup_simps [simp]:
  "dict_lookup [] k = None"
  "dict_lookup ((k', v) # kvs) k = (if key_eq k' k then Some v else dict_lookup kvs k)"
  by (auto simp: dict_lookup_def)

lemma dict_lookup_None: "dict_lookup kvs k = None \<longleftrightarrow> list_all (\<lambda>k'. \<not> key_eq k' k) (map fst kvs)"
  by (induction kvs) (auto split: if_splits)

lemma distinct_keys_snoc:
  "distinct_keys (ks @ [k]) \<longleftrightarrow> distinct_keys ks \<and> list_all (\<lambda>k'. \<not> key_eq k' k) ks"
  by (induction ks) auto

lemma construct_well_keyed:
  "construct n = Inr d \<Longrightarrow> well_keyed d"
  "construct_list ns = Inr ds \<Longrightarrow> list_all well_keyed ds"
  "construct_pairs m ps = Inr kvs \<Longrightarrow> well_keyed (DDict m) \<Longrightarrow> well_keyed (DDict kvs)"
proof (induction n and ns and m ps arbitrary: d and ds and kvs rule: construct_construct_list_construct_pairs.induct)
  case (9 m kn vn ps)
  from "9.prems"(1) obtain k key v where *: "construct kn = Inr k" "as_key k = Inr key" "dict_lookup m key = None"
    "construct vn = Inr v" "construct_pairs (m @ [(key, v)]) ps = Inr kvs"
    by (auto simp: rbind_eq_Inr split: if_splits)
  have "well_keyed v" using *(3,4) "9.IH"(2) [of key v] by simp
  moreover have "list_all (\<lambda>k'. \<not> key_eq k' key) (map fst m)" using *(3) by (simp only: dict_lookup_None)
  ultimately have "well_keyed (DDict (m @ [(key, v)]))"
    using "9.prems"(2) by (simp add: distinct_keys_snoc)
  with "9.IH"(3) [of key v kvs] *(3,5) show ?case by simp
qed (auto simp: rbind_eq_Inr)

text \<open>The other direction: data without duplicates is constructed from its node tree unchanged.\<close>

lemma construct_pairs_node_of:
  assumes "\<And>k v. (k, v) \<in> set kvs \<Longrightarrow> construct (node_of v) = Inr v"
    and "distinct_keys (map fst (m @ kvs))"
  shows "construct_pairs m (map (\<lambda>(k, v). (YScalar k, node_of v)) kvs) = Inr (m @ kvs)"
  using assms
proof (induction kvs arbitrary: m)
  case (Cons p kvs)
  obtain k v where p: "p = (k, v)" by (cases p)
  have "dict_lookup m k = None"
    using Cons.prems(2) p by (induction m) auto
  moreover have "construct_pairs (m @ [(k, v)]) (map (\<lambda>(k, v). (YScalar k, node_of v)) kvs) = Inr ((m @ [(k, v)]) @ kvs)"
    by (rule Cons.IH) (use Cons.prems p in auto)
  ultimately show ?case using Cons.prems(1) [of k v] p by simp
qed simp

lemma construct_list_node_of:
  "(\<And>d. d \<in> set ds \<Longrightarrow> construct (node_of d) = Inr d) \<Longrightarrow> construct_list (map node_of ds) = Inr ds"
  by (induction ds) auto

lemma construct_node_of: "well_keyed d \<Longrightarrow> construct (node_of d) = Inr d"
proof (induction d)
  case (DList ds)
  then show ?case by (simp add: construct_list_node_of list_all_iff)
next
  case (DDict kvs)
  have "construct (node_of v) = Inr v" if "(k, v) \<in> set kvs" for k v
    using DDict.IH [OF that, of v] DDict.prems that by (auto simp: list_all_iff)
  then show ?case using construct_pairs_node_of [of kvs "[]"] DDict.prems by simp
qed simp

subsection \<open>Valid definitions\<close>

definition ok_text :: "nat \<Rightarrow> pystr \<Rightarrow> bool" where
  "ok_text m s \<longleftrightarrow> 0 \<notin> set s \<and> (\<exists>bs. utf8_encode s = Some bs \<and> length bs \<le> m)"

definition ok_path :: "pystr \<Rightarrow> bool" where
  "ok_path s \<longleftrightarrow> is_relative_path s \<and> ok_text 255 s"

definition valid_text_pair :: "LocalizedText \<Rightarrow> bool" where
  "valid_text_pair t \<longleftrightarrow> lt_ja t \<noteq> [] \<and> lt_en t \<noteq> [] \<and> ok_text 256000 (lt_ja t) \<and> ok_text 256000 (lt_en t)"

definition valid_fixture :: "FixtureDefinition \<Rightarrow> bool" where
  "valid_fixture f \<longleftrightarrow> ok_path (fx_path f) \<and> fx_path f \<noteq> lit ''z.bash'' \<and> fx_content f \<noteq> []
     \<and> ok_text 1000000 (fx_content f)"

definition valid_execution :: "ExecutionSpecification \<Rightarrow> bool" where
  "valid_execution e \<longleftrightarrow> ok_text 1000000 (es_stdin e) \<and> list_all valid_fixture (es_fixtures e) \<and> ok_execution e"

definition valid_image :: "ImageArtifactSpecification \<Rightarrow> bool" where
  "valid_image a \<longleftrightarrow> ok_path (ia_path a) \<and> 0 < ia_max_bytes a \<and> ia_max_bytes a \<le> 750000
     \<and> endswith (ia_path a) (media_suffix (ia_media_type a))"

definition valid_judge :: "JudgeSpecification \<Rightarrow> bool" where
  "valid_judge j = (case j of TextJudge e \<Rightarrow> ok_text 256000 e | ImageJudge a \<Rightarrow> valid_image a)"

definition valid_definition :: "ProblemDefinitionV3 \<Rightarrow> bool" where
  "valid_definition d \<longleftrightarrow> ok_problem d \<and> valid_text_pair (pd_title d) \<and> valid_text_pair (pd_statement d)
     \<and> ok_text 64000 (pd_reference_solution d) \<and> valid_execution (pd_execution d) \<and> valid_judge (pd_judge d)"

lemma validate_text_ok: "validate_text_bytes m s = Inr t \<longleftrightarrow> t = s \<and> ok_text m s"
  by (auto simp: validate_text_bytes_iff ok_text_def)

lemma validate_path_ok: "validate_relative_path s = Inr t \<longleftrightarrow> t = s \<and> ok_path s"
  by (auto simp: validate_relative_path_iff ok_path_def ok_text_def)

lemma validate_localized_ok: "validate_localized_text s = Inr t \<longleftrightarrow> t = s \<and> s \<noteq> [] \<and> ok_text 256000 s"
  by (auto simp: validate_localized_text_def validate_text_ok MAX_PROBLEM_TEXT_BYTES_def)

lemma new_LocalizedText_iff:
  "new_LocalizedText ja en = Inr t \<longleftrightarrow> t = \<lparr>lt_ja = ja, lt_en = en\<rparr> \<and> valid_text_pair t"
  by (auto simp: new_LocalizedText_def rbind_eq_Inr validate_localized_ok valid_text_pair_def)

lemma new_FixtureDefinition_iff:
  "new_FixtureDefinition p c = Inr f \<longleftrightarrow> f = \<lparr>fx_path = p, fx_content = c\<rparr> \<and> valid_fixture f"
  by (auto simp: new_FixtureDefinition_def validate_fixture_path_def validate_fixture_content_def rbind_eq_Inr
      validate_path_ok validate_text_ok MAX_FIXTURE_BYTES_def valid_fixture_def)

lemma new_ExecutionSpecification_iff:
  "new_ExecutionSpecification i fs x e = Inr s \<longleftrightarrow>
     s = \<lparr>es_stdin = i, es_fixtures = fs, es_exit_code = x, es_stderr = e\<rparr> \<and> ok_text 1000000 i \<and> ok_execution s"
  by (auto simp: new_ExecutionSpecification_def rbind_eq_Inr validate_text_ok MAX_STDIN_BYTES_def MAX_FIXTURES_def
      validate_fixtures_iff ok_execution_def)

lemma new_ImageArtifactSpecification_iff:
  "new_ImageArtifactSpecification p m n = Inr a \<longleftrightarrow>
     a = \<lparr>ia_path = p, ia_media_type = m, ia_max_bytes = n\<rparr> \<and> valid_image a"
  by (auto simp: new_ImageArtifactSpecification_def rbind_eq_Inr validate_path_ok MAX_ARTIFACT_BYTES_def
      validate_media_type_matches_path_def valid_image_def)

lemma new_TextJudge_iff: "new_TextJudge e = Inr j \<longleftrightarrow> j = TextJudge e \<and> valid_judge j"
  by (auto simp: new_TextJudge_def rbind_eq_Inr validate_text_ok MAX_PROBLEM_TEXT_BYTES_def valid_judge_def)

lemma new_ProblemDefinitionV3_iff:
  "new_ProblemDefinitionV3 (PStr i) c t s r e j = Inr d \<longleftrightarrow>
     d = \<lparr>pd_id = i, pd_category = c, pd_title = t, pd_statement = s, pd_reference_solution = r,
          pd_execution = e, pd_judge = j\<rparr> \<and> ok_problem d \<and> ok_text 64000 r"
  by (auto simp: new_ProblemDefinitionV3_def rbind_eq_Inr ProblemId_iff validate_text_ok
      validate_category_matches_id_iff MAX_REFERENCE_SOLUTION_BYTES_def ok_problem_def)

lemmas new_model_iffs = new_LocalizedText_iff new_FixtureDefinition_iff new_ExecutionSpecification_iff
  new_ImageArtifactSpecification_iff new_TextJudge_iff new_ProblemDefinitionV3_iff

subsection \<open>What a parsed file satisfies\<close>

lemma each_item_all: "each_item f xs = Inr ys \<Longrightarrow> (\<And>x y. f x = Inr y \<Longrightarrow> P y) \<Longrightarrow> list_all P ys"
  by (induction xs arbitrary: ys) (auto simp: rbind_eq_Inr)

lemma each_item_map: "(\<And>y. y \<in> set ys \<Longrightarrow> f (g y) = Inr y) \<Longrightarrow> each_item f (map g ys) = Inr ys"
  by (induction ys) auto

lemma validate_LocalizedText_valid: "validate_LocalizedText L v = Inr t \<Longrightarrow> valid_text_pair t"
  unfolding validate_LocalizedText_def rbind_eq_Inr new_LocalizedText_iff by blast

lemma validate_FixtureDefinition_valid: "validate_FixtureDefinition L v = Inr f \<Longrightarrow> valid_fixture f"
  unfolding validate_FixtureDefinition_def rbind_eq_Inr new_FixtureDefinition_iff by blast

lemma validate_ExecutionSpecification_valid:
  assumes "validate_ExecutionSpecification L v = Inr e"
  shows "valid_execution e"
proof -
  from assms obtain i items fs x s where
    "each_item (validate_FixtureDefinition L) items = Inr fs" and "new_ExecutionSpecification i fs x s = Inr e"
    unfolding validate_ExecutionSpecification_def rbind_eq_Inr by blast
  then show ?thesis
    by (auto simp: valid_execution_def new_ExecutionSpecification_iff
        dest: each_item_all [where P = valid_fixture] intro: validate_FixtureDefinition_valid)
qed

lemma validate_ImageArtifact_valid: "validate_ImageArtifactSpecification L v = Inr a \<Longrightarrow> valid_image a"
  unfolding validate_ImageArtifactSpecification_def rbind_eq_Inr new_ImageArtifactSpecification_iff by blast

lemma validate_JudgeSpecification_valid: "validate_JudgeSpecification L v = Inr j \<Longrightarrow> valid_judge j"
  by (auto simp: validate_JudgeSpecification_def rbind_eq_Inr new_TextJudge_iff valid_judge_def
      split: ydata.splits if_splits dest: validate_ImageArtifact_valid)

lemma model_validate_valid:
  assumes "model_validate L v = Inr d"
  shows "valid_definition d"
proof -
  from assms obtain i c t1 t s1 s r e1 e j1 j where
    "validate_LocalizedText L t1 = Inr t" "validate_LocalizedText L s1 = Inr s"
    "validate_ExecutionSpecification L e1 = Inr e" "validate_JudgeSpecification L j1 = Inr j"
    "new_ProblemDefinitionV3 (PStr i) c t s r e j = Inr d"
    unfolding model_validate_def rbind_eq_Inr by metis
  then show ?thesis
    by (auto simp: valid_definition_def new_ProblemDefinitionV3_iff dest: validate_LocalizedText_valid
        validate_ExecutionSpecification_valid validate_JudgeSpecification_valid)
qed

subsection \<open>Reading back what was dumped\<close>

definition exact :: "lax \<Rightarrow> bool" where
  "exact L \<longleftrightarrow> (\<forall>s. lax_str L (DStr s) = Some s) \<and> (\<forall>i. lax_int L (DInt i) = Some i)
     \<and> (\<forall>ds. lax_items L (DList ds) = Some ds) \<and> lax_three L (DInt 3)"

lemma exactD [simp]:
  assumes "exact L"
  shows "str_field L (DStr s) = Inr s" "converted (lax_int L (DInt i)) = Inr i"
    "converted (lax_items L (DList ds)) = Inr ds" "lax_three L (DInt 3)"
  using assms by (simp_all add: exact_def str_field_def converted_def)

lemma literal_exit_code [simp]:
  "literal exit_code_text [Exit_ignore, Exit_zero] (DStr (exit_code_text x)) = Inr x"
  by (cases x) (simp_all add: literal_def parse_member_def exit_code_text_def)

lemma literal_stderr [simp]:
  "literal stderr_text [Stderr_merge, Stderr_ignore, Stderr_must_be_empty] (DStr (stderr_text e)) = Inr e"
  by (cases e) (simp_all add: literal_def parse_member_def stderr_text_def)

lemma literal_media [simp]: "literal media_text [Image_jpeg, Image_gif] (DStr (media_text m)) = Inr m"
  by (cases m) (simp_all add: literal_def parse_member_def)

lemma literal_category [simp]: "literal category_text all_categories (DStr (category_text c)) = Inr c"
  by (cases c) (simp_all add: literal_def parse_member_def all_categories_def)

lemma LocalizedText_round_trip:
  "exact L \<Longrightarrow> valid_text_pair t \<Longrightarrow> validate_LocalizedText L (dump_LocalizedText t) = Inr t"
  by (simp add: validate_LocalizedText_def dump_LocalizedText_def model_fields_def new_LocalizedText_iff)

lemma FixtureDefinition_round_trip:
  "exact L \<Longrightarrow> valid_fixture f \<Longrightarrow> validate_FixtureDefinition L (dump_FixtureDefinition f) = Inr f"
  by (simp add: validate_FixtureDefinition_def dump_FixtureDefinition_def model_fields_def new_FixtureDefinition_iff)

lemma ExecutionSpecification_round_trip:
  assumes "exact L" "valid_execution e"
  shows "validate_ExecutionSpecification L (dump_ExecutionSpecification e) = Inr e"
proof -
  have "each_item (validate_FixtureDefinition L) (map dump_FixtureDefinition (es_fixtures e)) = Inr (es_fixtures e)"
    using assms by (auto simp: valid_execution_def list_all_iff intro: each_item_map FixtureDefinition_round_trip)
  then show ?thesis
    using assms by (simp add: validate_ExecutionSpecification_def dump_ExecutionSpecification_def model_fields_def
        new_ExecutionSpecification_iff valid_execution_def)
qed

lemma ImageArtifact_round_trip:
  "exact L \<Longrightarrow> valid_image a \<Longrightarrow>
     validate_ImageArtifactSpecification L (dump_ImageArtifactSpecification a) = Inr a"
  by (simp add: validate_ImageArtifactSpecification_def dump_ImageArtifactSpecification_def model_fields_def
      new_ImageArtifactSpecification_iff)

lemma JudgeSpecification_round_trip:
  "exact L \<Longrightarrow> valid_judge j \<Longrightarrow> validate_JudgeSpecification L (dump_JudgeSpecification j) = Inr j"
  by (cases j) (simp_all add: validate_JudgeSpecification_def dump_JudgeSpecification_def model_fields_def
      new_TextJudge_iff valid_judge_def ImageArtifact_round_trip)

lemma fields_model_dump:
  "model_fields problem_names (model_dump d) = Inr
     [DInt 3, DStr (pd_id d), DStr (category_text (pd_category d)), dump_LocalizedText (pd_title d),
      dump_LocalizedText (pd_statement d), DStr (pd_reference_solution d),
      dump_ExecutionSpecification (pd_execution d), dump_JudgeSpecification (pd_judge d)]"
  by (simp add: model_fields_def model_dump_def problem_names_def)

lemma model_dump_round_trip:
  assumes "exact L" "valid_definition d"
  shows "model_validate L (model_dump d) = Inr d"
  using assms
  by (simp add: model_validate_def fields_model_dump LocalizedText_round_trip ExecutionSpecification_round_trip
      JudgeSpecification_round_trip new_ProblemDefinitionV3_iff valid_definition_def)

lemma model_dump_well_keyed: "well_keyed (model_dump d)"
  by (auto simp: model_dump_def dump_LocalizedText_def dump_ExecutionSpecification_def dump_FixtureDefinition_def
      dump_JudgeSpecification_def dump_ImageArtifactSpecification_def list_all_iff split: JudgeSpecification.splits)

lemma parse_problem_definition_sound:
  assumes "parse_problem_definition L compose text = Inr d"
  shows "valid_definition d \<and> (\<exists>bs. utf8_encode text = Some bs \<and> length bs \<le> 2000000)
    \<and> (\<exists>n data. compose text = Some n \<and> construct n = Inr data \<and> well_keyed data \<and> model_validate L data = Inr d)"
  using assms
  by (auto simp: parse_problem_definition_def load_yaml_mapping_def MAX_PROBLEM_SCHEMA_FILE_BYTES_def
      split: option.splits if_splits sum.splits ydata.splits yaml_error.splits dest: model_validate_valid construct_well_keyed(1))

lemma parse_problem_definition_dump:
  assumes "exact L" "valid_definition d" "compose text = Some (node_of (model_dump d))"
    and "utf8_encode text = Some bs" "length bs \<le> 2000000"
  shows "parse_problem_definition L compose text = Inr d"
proof -
  obtain kvs where kvs: "model_dump d = DDict kvs" by (simp add: model_dump_def)
  have "load_yaml_mapping compose text = Inr kvs"
    using construct_node_of [OF model_dump_well_keyed, of d] by (simp add: load_yaml_mapping_def assms(3) kvs)
  then show ?thesis
    using model_dump_round_trip [OF assms(1,2)] assms(4,5)
    by (simp add: parse_problem_definition_def MAX_PROBLEM_SCHEMA_FILE_BYTES_def kvs)
qed

subsection \<open>The manifest command\<close>

definition dump_ProblemManifest :: "ProblemManifestV1 \<Rightarrow> (pystr \<times> pyval) list" where
  "dump_ProblemManifest m =
     [(lit ''manifest_version'', PInt 1), (lit ''problem_schema_version'', PInt 3),
      (lit ''problem_count'', PInt (pm_problem_count m)), (lit ''revision'', PStr (pm_revision m))]"

definition render_problem_manifest :: "(pyval \<Rightarrow> pystr) \<Rightarrow> ProblemManifestV1 \<Rightarrow> pystr" where
  "render_problem_manifest dumps_indented m = dumps_indented (PDict (dump_ProblemManifest m)) @ [10]"

text \<open>
  The files a command writes. A failed write may leave any text behind; a file that could not be opened is as it
  was. For the exclusive mode, the file must not exist.
\<close>

type_synonym text_files = "pystr \<Rightarrow> pystr option"

datatype write_reply = Write_done | Open_failed | Write_failed pystr

datatype manifest_exn = ManifestData repository_error | ManifestInvalid | ManifestWrite

definition manifest_main ::
  "(ProblemDefinitionV3 \<Rightarrow> pyval) \<Rightarrow> (pyval \<Rightarrow> bytes) \<Rightarrow> (bytes \<Rightarrow> pystr) \<Rightarrow> (pyval \<Rightarrow> pystr) \<Rightarrow> problem_files \<Rightarrow>
     pystr option \<Rightarrow> write_reply \<Rightarrow> text_files \<Rightarrow> (manifest_exn + int) \<times> pystr \<times> text_files" where
  "manifest_main dump_json json_dumps sha256 dumps_indented files output reply fs =
     (case collect_problem_records files of
        Inl e \<Rightarrow> (Inl (ManifestData e), [], fs)
      | Inr records \<Rightarrow> (case build_problem_manifest dump_json json_dumps sha256 records of
          Inl _ \<Rightarrow> (Inl ManifestInvalid, [], fs)
        | Inr manifest \<Rightarrow>
            let rendered = render_problem_manifest dumps_indented manifest in
            (case output of
               None \<Rightarrow> (Inr 0, rendered, fs)
             | Some path \<Rightarrow> (case reply of
                 Write_done \<Rightarrow> (Inr 0, [], fs(path \<mapsto> rendered))
               | Open_failed \<Rightarrow> (Inl ManifestWrite, [], fs)
               | Write_failed t \<Rightarrow> (Inl ManifestWrite, [], fs(path \<mapsto> t))))))"

lemma collect_record_manifest: "collect_record (files\<lparr>pf_manifest := m\<rparr>) f = collect_record files f"
  by (simp add: collect_record_def cong: if_cong split: sum.splits)

lemma collect_all_manifest: "collect_all (files\<lparr>pf_manifest := m\<rparr>) fs = collect_all files fs"
  by (induction fs) (simp_all add: collect_record_manifest)

lemma collect_problem_records_manifest:
  "collect_problem_records (files\<lparr>pf_manifest := m\<rparr>) = collect_problem_records files"
  by (simp add: collect_problem_records_def collect_all_manifest Let_def cong: if_cong)

lemma fullmatch_revision: "is_revision r \<Longrightarrow> fullmatch PROBLEM_REVISION_PATTERN r"
  using ProblemRevision_iff [of "PStr r" r] by (simp add: ProblemRevision_def split: if_splits)

lemma parse_manifest_dump:
  assumes "0 < pm_problem_count m" "is_revision (pm_revision m)" and "\<And>n. to_int (PInt n) = Some n"
  shows "rbind (reject_duplicate_json_keys (dump_ProblemManifest m)) (parse_manifest to_int) = Inr m"
proof -
  have "fullmatch PROBLEM_REVISION_PATTERN (pm_revision m)" using assms(2) by (rule fullmatch_revision)
  then show ?thesis
    using assms(1,3)
    by (cases m) (simp add: reject_duplicate_json_keys_def dump_ProblemManifest_def parse_manifest_def object_fields_def
        new_ProblemManifestV1_def)
qed

lemma build_problem_manifest_revision:
  assumes "records \<noteq> []" "\<And>bs. is_revision (sha256 bs)"
  shows "build_problem_manifest md jd sha256 records = Inr \<lparr>pm_problem_count = int (length records),
    pm_revision = calculate_problem_revision md jd sha256 records\<rparr>"
proof -
  have "is_revision (calculate_problem_revision md jd sha256 records)"
    by (simp add: calculate_problem_revision_def assms(2))
  then have "fullmatch PROBLEM_REVISION_PATTERN (calculate_problem_revision md jd sha256 records)"
    by (simp add: fullmatch_revision)
  then show ?thesis using assms(1) by (simp add: build_problem_manifest_def new_ProblemManifestV1_def)
qed

subsection \<open>Properties\<close>

text \<open>C30: A definition file that parses is at most two million bytes, has no duplicate key at any depth, not
  even keys that differ only in their numeric type, and gives a definition that satisfies every limit of the
  schema. Conversely the file written for a valid definition is loaded back as the same definition, given that the
  YAML library reads the emitted text as the data it was given and the text is within the limit.\<close>

theorem problem_file_round_trip:
  assumes "exact L"
  shows "(\<forall>d. parse_problem_definition L compose text = Inr d \<longrightarrow> valid_definition d
      \<and> (\<exists>bs. utf8_encode text = Some bs \<and> length bs \<le> 2000000)
      \<and> (\<exists>n data. compose text = Some n \<and> construct n = Inr data \<and> well_keyed data))
    \<and> (\<forall>d bs. valid_definition d \<and> text = dump_problem_definition emit d
        \<and> compose text = Some (node_of (model_dump d)) \<and> utf8_encode text = Some bs \<and> length bs \<le> 2000000
      \<longrightarrow> load_problem_file L compose (pd_id d) (Some text) = Inr d)"
  using parse_problem_definition_sound parse_problem_definition_dump [OF assms]
  by (auto simp: load_problem_file_def) blast+

definition plain_lax :: lax where
  "plain_lax = \<lparr>lax_str = (\<lambda>v. case v of DScalar (ScStr s) \<Rightarrow> Some s | _ \<Rightarrow> None),
     lax_int = (\<lambda>v. case v of DScalar (ScInt i) \<Rightarrow> Some i | _ \<Rightarrow> None),
     lax_items = (\<lambda>v. case v of DList ds \<Rightarrow> Some ds | _ \<Rightarrow> None), lax_three = (\<lambda>v. v = DInt 3)\<rparr>"

lemma exact_plain_lax: "exact plain_lax"
  by (simp add: exact_def plain_lax_def)

lemma sample_definition_valid: "valid_definition (sample_definition ''STANDARD-1'')"
proof -
  have "is_problem_id (lit ''STANDARD-1'')" "id_prefix (lit ''STANDARD-1'') = category_text Cat_STANDARD"
    by (simp_all add: is_problem_id_def lit_def in_cls_def alnum_def list_all_iff id_prefix_def category_text_def)
  moreover have "ok_text m []" "m \<ge> 1 \<Longrightarrow> ok_text m [97]" for m
    by (simp_all add: ok_text_def utf8_encode_def utf8_char_def)
  ultimately show ?thesis
    by (simp add: valid_definition_def sample_definition_def ok_problem_def is_image_judge_def valid_text_pair_def
        valid_execution_def ok_execution_def valid_judge_def)
qed

theorem problem_file_round_trip_witness:
  "load_problem_file plain_lax (\<lambda>_. Some (node_of (model_dump (sample_definition ''STANDARD-1''))))
     (lit ''STANDARD-1'') (Some []) = Inr (sample_definition ''STANDARD-1'')"
proof -
  let ?d = "sample_definition ''STANDARD-1''"
  have "valid_definition ?d \<and> [] = dump_problem_definition (\<lambda>_ _. []) ?d
      \<and> Some (node_of (model_dump ?d)) = Some (node_of (model_dump ?d))
      \<and> utf8_encode [] = Some [] \<and> length ([] :: bytes) \<le> 2000000"
    by (simp add: sample_definition_valid dump_problem_definition_def)
  moreover have "pd_id ?d = lit ''STANDARD-1''" by (simp add: sample_definition_def)
  ultimately show ?thesis
    using conjunct2 [OF problem_file_round_trip [OF exact_plain_lax, of "\<lambda>_. Some (node_of (model_dump ?d))" "[]"
        "\<lambda>_ _. []"], rule_format, of ?d "[]"] by simp
qed

text \<open>The manifest that the command writes for problem data that passes the checks makes exactly this data
  load: the backend builds its repository from it, with the revision the command wrote. This is about the data and
  not the writer: JSON must be read as it was written, an integer is the integer it is, digests have 64 hexadecimal digits, and the file is at most
  16,384 bytes.\<close>

theorem generated_manifest_loads:
  assumes "collect_problem_records files = Inr records"
    and "\<And>bs. is_revision (sha256 bs)"
    and "manifest_main md jd sha256 dumps files (Some path) Write_done fs = (r, out, fs')"
    and "fs' path = Some rendered" "utf8_encode rendered = Some payload" "length payload \<le> 16384"
    and "\<And>m. rendered = dumps (PDict (dump_ProblemManifest m)) @ [10] \<Longrightarrow> jr_object json payload = Some (dump_ProblemManifest m)"
    and "\<And>n. jr_int json (PInt n) = Some n"
  shows "r = Inr 0 \<and> (\<exists>repo. build_problem_repository md jd sha256 json (files\<lparr>pf_manifest := Some payload\<rparr>) = Inr repo
    \<and> rp_revision repo = calculate_problem_revision md jd sha256 records
    \<and> rp_records repo = record_mapping records)"
proof -
  let ?rev = "calculate_problem_revision md jd sha256 records"
  let ?m = "\<lparr>pm_problem_count = int (length records), pm_revision = ?rev\<rparr>"
  have ne: "records \<noteq> []" by (rule collect_problem_records_ok(3) [OF assms(1)])
  have m: "build_problem_manifest md jd sha256 records = Inr ?m"
    by (rule build_problem_manifest_revision [OF ne assms(2)])
  have r: "r = Inr 0" "rendered = dumps (PDict (dump_ProblemManifest ?m)) @ [10]"
    using assms(3,4) by (auto simp: manifest_main_def assms(1) m Let_def render_problem_manifest_def)
  have rev: "is_revision ?rev" by (simp add: calculate_problem_revision_def assms(2))
  have "load_manifest json (files\<lparr>pf_manifest := Some payload\<rparr>) = Inr ?m"
    using parse_manifest_dump [of ?m "jr_int json"] assms(6,8) assms(7) [OF r(2)] ne rev
    by (simp add: load_manifest_def MAX_PROBLEM_MANIFEST_BYTES_def)
  moreover have "sort_key pd_id (map pr_definition records) \<noteq> []"
    using ne by (metis length_0_conv length_map length_sort)
  ultimately show ?thesis
    using r(1) by (auto simp: build_problem_repository_def collect_problem_records_manifest assms(1) m
        build_problem_catalog_def Let_def)
qed

definition sample_dumps :: "pyval \<Rightarrow> pystr" where
  "sample_dumps v =
     (if v = PDict (dump_ProblemManifest \<lparr>pm_problem_count = 1, pm_revision = replicate 64 48\<rparr>) then [125] else [])"

theorem generated_manifest_loads_witness:
  "\<exists>repo. build_problem_repository (\<lambda>_. PNone) (\<lambda>_. []) (\<lambda>_. replicate 64 48)
      (plain_reader (dump_ProblemManifest \<lparr>pm_problem_count = 1, pm_revision = replicate 64 48\<rparr>))
      (sample_files\<lparr>pf_manifest := Some [125, 10]\<rparr>) = Inr repo \<and> rp_revision repo = replicate 64 48"
proof -
  let ?m = "\<lparr>pm_problem_count = 1, pm_revision = replicate 64 48\<rparr>"
  let ?rs = "[\<lparr>pr_definition = sample_definition ''STANDARD-1'', pr_answer_image = [0xff, 0xd8, 0xff, 0xd9],
    pr_answer_image_base64 = b64encode [0xff, 0xd8, 0xff, 0xd9]\<rparr>]"
  have c: "collect_problem_records sample_files = Inr ?rs"
    by (simp add: collect_problem_records_def sample_files_def collect_record_def load_problem_definition_def
        sample_definition_def validate_image_def read_image_def image_signature_ok_def startswith_def
        endswith_def MAX_ARTIFACT_BYTES_def uses_gif_def)
  have rev: "is_revision (replicate 64 48)"
    by (simp add: is_revision_def list_all_iff in_cls_def hex_lower_def)
  have b: "build_problem_manifest (\<lambda>_. PNone) (\<lambda>_. []) (\<lambda>_. replicate 64 48) ?rs = Inr ?m"
    by (simp add: build_problem_manifest_def calculate_problem_revision_def sample_revision_ok)
  have run: "manifest_main (\<lambda>_. PNone) (\<lambda>_. []) (\<lambda>_. replicate 64 48) sample_dumps sample_files (Some [109]) Write_done
      (\<lambda>_. None) = (Inr 0, [], [[109] \<mapsto> [125, 10]])"
    by (simp add: manifest_main_def c b render_problem_manifest_def sample_dumps_def del: replicate.simps)
  have e: "utf8_encode [125, 10] = Some [125, 10]" by (simp add: utf8_encode_def utf8_char_def)
  have j: "jr_object (plain_reader (dump_ProblemManifest ?m)) [125, 10] = Some (dump_ProblemManifest m)"
    if "[125, 10] = sample_dumps (PDict (dump_ProblemManifest m)) @ [10]" for m
    using that by (simp add: plain_reader_def sample_dumps_def split: if_splits)
  have i: "jr_int (plain_reader (dump_ProblemManifest ?m)) (PInt n) = Some n" for n by (simp add: plain_reader_def)
  have f: "([[109] \<mapsto> [125, 10]]) [109] = Some [125, 10 :: nat]" by simp
  have l: "length [125, 10 :: byte] \<le> 16384" by simp
  from generated_manifest_loads [OF c rev run f e l, of "plain_reader (dump_ProblemManifest ?m)", OF j i] show ?thesis
    by (auto simp: calculate_problem_revision_def simp del: replicate.simps)
qed

end
