(* ===== verification/Problem_Migration.thy ===== *)
theory Problem_Migration
  imports Problem_Schema
begin

section \<open>Migration of legacy problem files\<close>

text \<open>
  \<open>soj_tools/problem_migration.py\<close>: a legacy mapping of eight texts becomes a definition of the current schema and
  is written under its identifier. The property is that nothing is lost: the details the API shows for the
  migrated problem are the texts of the legacy file, and no existing file is replaced without \<open>--force\<close>.
\<close>

subsection \<open>The conversion\<close>

definition LEGACY_FIELDS :: "string list" where
  "LEGACY_FIELDS = [''id'', ''title_ja'', ''title_en'', ''statement_ja'', ''statement_en'', ''input'',
     ''expected_output'', ''answer'']"

datatype legacy_error = ProblemMigrationError string | SourceEncodingError | SourceException

fun is_str_key :: "scalar \<Rightarrow> bool" where
  "is_str_key (ScStr _) = True"
| "is_str_key _ = False"

fun is_str_value :: "ydata \<Rightarrow> bool" where
  "is_str_value (DScalar (ScStr _)) = True"
| "is_str_value _ = False"

definition legacy_value :: "(scalar \<times> ydata) list \<Rightarrow> string \<Rightarrow> ydata option" where
  "legacy_value data name = dict_lookup data (ScStr (lit name))"

definition legacy_text :: "(scalar \<times> ydata) list \<Rightarrow> string \<Rightarrow> pystr" where
  "legacy_text data name = (case legacy_value data name of Some (DScalar (ScStr s)) \<Rightarrow> s | _ \<Rightarrow> [])"

definition check_legacy_fields :: "(scalar \<times> ydata) list \<Rightarrow> legacy_error + unit" where
  "check_legacy_fields data =
     (if \<not> list_all (\<lambda>(k, _). is_str_key k) data
      then Inl (ProblemMigrationError ''all legacy problem field names must be strings'')
      else if \<not> list_all (\<lambda>n. legacy_value data n \<noteq> None) LEGACY_FIELDS
      then Inl (ProblemMigrationError ''missing legacy fields'')
      else if \<not> list_all (\<lambda>(k, _). k \<in> set (map (\<lambda>n. ScStr (lit n)) LEGACY_FIELDS)) data
      then Inl (ProblemMigrationError ''unexpected legacy fields'')
      else if \<not> list_all (\<lambda>n. is_str_value (the (legacy_value data n))) LEGACY_FIELDS
      then Inl (ProblemMigrationError ''all legacy problem fields must be strings'')
      else Inr ())"

definition migrated_fixtures :: "(scalar \<times> ydata) list \<Rightarrow> ydata list" where
  "migrated_fixtures data =
     (if legacy_text data ''input'' \<noteq> []
      then [DDict [(ScStr (lit ''path''), DStr (lit ''input.txt'')),
                   (ScStr (lit ''content''), DStr (legacy_text data ''input''))]]
      else [])"

definition migrated_judge :: "(scalar \<times> ydata) list \<Rightarrow> legacy_error + ydata" where
  "migrated_judge data =
     (if id_prefix (legacy_text data ''id'') = lit ''IMAGE'' then
        (if legacy_text data ''expected_output'' \<noteq> []
         then Inl (ProblemMigrationError ''IMAGE problems with expected text output require an explicit migration'')
         else Inr (DDict [(ScStr (lit ''type''), DStr (lit ''image'')),
           (ScStr (lit ''comparison''), DStr (lit ''exact_pixels'')),
           (ScStr (lit ''artifact''), DDict
              [(ScStr (lit ''path''), DStr (lit ''media/output.jpg'')),
               (ScStr (lit ''media_type''), DStr (lit ''image/jpeg'')),
               (ScStr (lit ''max_bytes''), DInt (int MAX_ARTIFACT_BYTES))])]))
      else Inr (DDict [(ScStr (lit ''type''), DStr (lit ''text'')),
        (ScStr (lit ''expected_output''), DStr (legacy_text data ''expected_output''))]))"

definition migrated_mapping :: "(scalar \<times> ydata) list \<Rightarrow> ydata \<Rightarrow> ydata" where
  "migrated_mapping data judge = DDict
     [(ScStr (lit ''schema_version''), DInt 3),
      (ScStr (lit ''id''), DStr (legacy_text data ''id'')),
      (ScStr (lit ''category''), DStr (id_prefix (legacy_text data ''id''))),
      (ScStr (lit ''title''), DDict [(ScStr (lit ''ja''), DStr (legacy_text data ''title_ja'')),
         (ScStr (lit ''en''), DStr (legacy_text data ''title_en''))]),
      (ScStr (lit ''statement''), DDict [(ScStr (lit ''ja''), DStr (legacy_text data ''statement_ja'')),
         (ScStr (lit ''en''), DStr (legacy_text data ''statement_en''))]),
      (ScStr (lit ''reference_solution''), DStr (legacy_text data ''answer'')),
      (ScStr (lit ''execution''), DDict [(ScStr (lit ''stdin''), DStr []),
         (ScStr (lit ''fixtures''), DList (migrated_fixtures data)),
         (ScStr (lit ''exit_code''), DStr (lit ''ignore'')), (ScStr (lit ''stderr''), DStr (lit ''merge''))]),
      (ScStr (lit ''judge''), judge)]"

definition migrate_legacy_mapping ::
  "lax \<Rightarrow> (scalar \<times> ydata) list \<Rightarrow> pystr option \<Rightarrow> legacy_error + ProblemDefinitionV3" where
  "migrate_legacy_mapping L data source_id =
     rbind (check_legacy_fields data) (\<lambda>_.
     if source_id \<noteq> None \<and> legacy_text data ''id'' \<noteq> the source_id
     then Inl (ProblemMigrationError ''legacy problem ID must match the filename stem'')
     else rbind (migrated_judge data) (\<lambda>judge.
       case model_validate L (migrated_mapping data judge) of
         Inl _ \<Rightarrow> Inl (ProblemMigrationError ''legacy problem is not valid v3 data'')
       | Inr d \<Rightarrow> Inr d))"

subsection \<open>Files\<close>

text \<open>The name, the suffix and the stem of a path, as \<open>pathlib\<close> splits them.\<close>

definition path_name :: "pystr \<Rightarrow> pystr" where
  "path_name path = (let ps = posix_parts path in if ps = [] then [] else last ps)"

definition suffix_length :: "pystr \<Rightarrow> nat" where
  "suffix_length name = (let n = length (takeWhile (\<lambda>c. c \<noteq> 46) (rev name)) in
     if 0 < n \<and> n + 1 < length name then n + 1 else 0)"

definition path_suffix :: "pystr \<Rightarrow> pystr" where
  "path_suffix path = (let name = path_name path in drop (length name - suffix_length name) name)"

definition path_stem :: "pystr \<Rightarrow> pystr" where
  "path_stem path = (let name = path_name path in take (length name - suffix_length name) name)"

definition migrate_legacy_file ::
  "lax \<Rightarrow> (pystr \<Rightarrow> ynode option) \<Rightarrow> text_files \<Rightarrow> pystr \<Rightarrow> legacy_error + ProblemDefinitionV3" where
  "migrate_legacy_file L compose fs path =
     (case fs path of
        None \<Rightarrow> Inl (ProblemMigrationError ''failed to read'')
      | Some text \<Rightarrow> (case utf8_encode text of
          None \<Rightarrow> Inl SourceEncodingError
        | Some bs \<Rightarrow>
            if length bs > MAX_PROBLEM_SCHEMA_FILE_BYTES
            then Inl (ProblemMigrationError ''exceeds the file limit'')
            else (case load_yaml_mapping compose text of
              Inl (ProblemSchemaError _) \<Rightarrow> Inl (ProblemMigrationError ''schema error'')
            | Inl _ \<Rightarrow> Inl SourceException
            | Inr data \<Rightarrow> migrate_legacy_mapping L data (Some (path_stem path)))))"

definition write_migrated_problem ::
  "((pystr \<Rightarrow> bool) \<Rightarrow> ydata \<Rightarrow> pystr) \<Rightarrow> ProblemDefinitionV3 \<Rightarrow> pystr \<Rightarrow> bool \<Rightarrow> write_reply \<Rightarrow> text_files \<Rightarrow>
     (legacy_error + unit) \<times> text_files" where
  "write_migrated_problem emit d destination overwrite reply fs =
     (if path_suffix destination \<noteq> lit ''.yaml'' \<or> path_stem destination \<noteq> pd_id d
      then (Inl (ProblemMigrationError ''destination must be a .yaml file named with the problem ID''), fs)
      else if \<not> overwrite \<and> fs destination \<noteq> None
      then (Inl (ProblemMigrationError ''destination already exists''), fs)
      else (case reply of
        Write_done \<Rightarrow> (Inr (), fs(destination \<mapsto> dump_problem_definition emit d))
      | Open_failed \<Rightarrow> (Inl (ProblemMigrationError ''failed to write''), fs)
      | Write_failed t \<Rightarrow> (Inl (ProblemMigrationError ''failed to write''), fs(destination \<mapsto> t))))"

text \<open>The exit code: argparse ends the process with 2, an exception nobody handles with 1.\<close>

definition migration_exit :: "legacy_error \<Rightarrow> int" where
  "migration_exit e = (case e of ProblemMigrationError _ \<Rightarrow> 2 | _ \<Rightarrow> 1)"

definition migration_main ::
  "lax \<Rightarrow> (pystr \<Rightarrow> ynode option) \<Rightarrow> ((pystr \<Rightarrow> bool) \<Rightarrow> ydata \<Rightarrow> pystr) \<Rightarrow> pystr \<Rightarrow> pystr \<Rightarrow> bool \<Rightarrow> write_reply \<Rightarrow>
     text_files \<Rightarrow> int \<times> text_files" where
  "migration_main L compose emit source destination force reply fs =
     (case migrate_legacy_file L compose fs source of
        Inl e \<Rightarrow> (migration_exit e, fs)
      | Inr d \<Rightarrow> (case write_migrated_problem emit d destination force reply fs of
          (Inl e, fs') \<Rightarrow> (migration_exit e, fs')
        | (Inr _, fs') \<Rightarrow> (0, fs')))"

subsection \<open>What the conversion keeps\<close>

lemma validate_text_pair_dict:
  "exact L \<Longrightarrow> validate_LocalizedText L (DDict [(ScStr (lit ''ja''), DStr a), (ScStr (lit ''en''), DStr b)]) = Inr t
    \<Longrightarrow> t = \<lparr>lt_ja = a, lt_en = b\<rparr>"
  by (simp add: validate_LocalizedText_def model_fields_def new_LocalizedText_iff)

lemma validate_migrated_fixtures:
  "exact L \<Longrightarrow> each_item (validate_FixtureDefinition L) (migrated_fixtures data) = Inr fs \<Longrightarrow>
     fs = (if legacy_text data ''input'' \<noteq> []
           then [\<lparr>fx_path = lit ''input.txt'', fx_content = legacy_text data ''input''\<rparr>] else [])"
  by (auto simp: migrated_fixtures_def validate_FixtureDefinition_def model_fields_def new_FixtureDefinition_iff
      rbind_eq_Inr split: if_splits)

lemma validate_migrated_execution:
  assumes "exact L" and "validate_ExecutionSpecification L (DDict [(ScStr (lit ''stdin''), DStr []),
      (ScStr (lit ''fixtures''), DList (migrated_fixtures data)),
      (ScStr (lit ''exit_code''), DStr (lit ''ignore'')), (ScStr (lit ''stderr''), DStr (lit ''merge''))]) = Inr e"
  shows "e = \<lparr>es_stdin = [], es_fixtures = (if legacy_text data ''input'' \<noteq> []
      then [\<lparr>fx_path = lit ''input.txt'', fx_content = legacy_text data ''input''\<rparr>] else []),
    es_exit_code = Exit_ignore, es_stderr = Stderr_merge\<rparr>"
proof -
  have "lit ''ignore'' = exit_code_text Exit_ignore" "lit ''merge'' = stderr_text Stderr_merge"
    by (simp_all add: exit_code_text_def stderr_text_def)
  with assms show ?thesis
    by (auto simp: validate_ExecutionSpecification_def model_fields_def rbind_eq_Inr new_ExecutionSpecification_iff
        dest: validate_migrated_fixtures)
qed

lemma validate_migrated_judge:
  assumes "exact L" "migrated_judge data = Inr v" "validate_JudgeSpecification L v = Inr j"
  shows "(case j of TextJudge e \<Rightarrow> e | ImageJudge _ \<Rightarrow> []) = legacy_text data ''expected_output''"
  using assms
  by (auto simp: migrated_judge_def validate_JudgeSpecification_def model_fields_def rbind_eq_Inr new_TextJudge_iff
      split: if_splits)

text \<open>The API's details of a migrated problem are the legacy texts.\<close>

definition legacy_details :: "(scalar \<times> ydata) list \<Rightarrow> (pystr \<times> pystr) list" where
  "legacy_details data =
     map (\<lambda>n. (lit n, legacy_text data n))
       [''title_ja'', ''title_en'', ''statement_ja'', ''statement_en'', ''input'', ''expected_output'', ''answer'']"

lemma input_text_migrated:
  "input_text \<lparr>pr_definition = d, pr_answer_image = i, pr_answer_image_base64 = b\<rparr> = s"
  if "es_fixtures (pd_execution d) = (if s \<noteq> [] then [\<lparr>fx_path = lit ''input.txt'', fx_content = s\<rparr>] else [])"
  using that by (auto simp: input_text_def record_fixtures_def)

lemma migrate_legacy_mapping_keeps:
  assumes "exact L" and "migrate_legacy_mapping L data source_id = Inr d"
  shows "pd_id d = legacy_text data ''id''" and "source_id = None \<or> source_id = Some (pd_id d)"
    and "valid_definition d"
    and "api_detail \<lparr>pr_definition = d, pr_answer_image = i, pr_answer_image_base64 = b\<rparr>
      = legacy_details data @ [(lit ''image'', lit ''/image/'' @ pd_id d @ lit ''.jpg'')]"
    and "es_exit_code (pd_execution d) = Exit_ignore" and "es_stderr (pd_execution d) = Stderr_merge"
proof -
  obtain v where v: "migrated_judge data = Inr v" and m: "model_validate L (migrated_mapping data v) = Inr d"
    and src: "source_id = None \<or> source_id = Some (legacy_text data ''id'')"
  proof -
    from assms(2) obtain v where "migrated_judge data = Inr v" "source_id = None \<or> legacy_text data ''id'' = the source_id"
      "(case model_validate L (migrated_mapping data v) of
          Inl _ \<Rightarrow> Inl (ProblemMigrationError ''legacy problem is not valid v3 data'') | Inr d \<Rightarrow> Inr d) = Inr d"
      by (auto simp: migrate_legacy_mapping_def rbind_eq_Inr split: if_splits)
    then show thesis using that [of v] by (cases source_id) (auto split: sum.splits)
  qed
  have fields: "model_fields problem_names (migrated_mapping data v) = Inr
     [DInt 3, DStr (legacy_text data ''id''), DStr (id_prefix (legacy_text data ''id'')),
      DDict [(ScStr (lit ''ja''), DStr (legacy_text data ''title_ja'')), (ScStr (lit ''en''), DStr (legacy_text data ''title_en''))],
      DDict [(ScStr (lit ''ja''), DStr (legacy_text data ''statement_ja'')), (ScStr (lit ''en''), DStr (legacy_text data ''statement_en''))],
      DStr (legacy_text data ''answer''),
      DDict [(ScStr (lit ''stdin''), DStr []), (ScStr (lit ''fixtures''), DList (migrated_fixtures data)),
         (ScStr (lit ''exit_code''), DStr (lit ''ignore'')), (ScStr (lit ''stderr''), DStr (lit ''merge''))], v]"
    by (simp add: model_fields_def migrated_mapping_def problem_names_def)
  from m obtain c t s e j where parts:
    "validate_LocalizedText L (DDict [(ScStr (lit ''ja''), DStr (legacy_text data ''title_ja'')),
       (ScStr (lit ''en''), DStr (legacy_text data ''title_en''))]) = Inr t"
    "validate_LocalizedText L (DDict [(ScStr (lit ''ja''), DStr (legacy_text data ''statement_ja'')),
       (ScStr (lit ''en''), DStr (legacy_text data ''statement_en''))]) = Inr s"
    "validate_ExecutionSpecification L (DDict [(ScStr (lit ''stdin''), DStr []),
       (ScStr (lit ''fixtures''), DList (migrated_fixtures data)),
       (ScStr (lit ''exit_code''), DStr (lit ''ignore'')), (ScStr (lit ''stderr''), DStr (lit ''merge''))]) = Inr e"
    "validate_JudgeSpecification L v = Inr j"
    "d = \<lparr>pd_id = legacy_text data ''id'', pd_category = c, pd_title = t, pd_statement = s,
       pd_reference_solution = legacy_text data ''answer'', pd_execution = e, pd_judge = j\<rparr>"
    by (auto simp: model_validate_def fields rbind_eq_Inr assms(1) new_ProblemDefinitionV3_iff)
  note tp = validate_text_pair_dict [OF assms(1) parts(1)] validate_text_pair_dict [OF assms(1) parts(2)]
  note ex = validate_migrated_execution [OF assms(1) parts(3)]
  show "pd_id d = legacy_text data ''id''" "source_id = None \<or> source_id = Some (pd_id d)"
    "es_exit_code (pd_execution d) = Exit_ignore" "es_stderr (pd_execution d) = Stderr_merge"
    using src by (auto simp: parts(5) ex)
  show "valid_definition d" by (rule model_validate_valid [OF m])
  have "input_text \<lparr>pr_definition = d, pr_answer_image = i, pr_answer_image_base64 = b\<rparr> = legacy_text data ''input''"
    by (rule input_text_migrated) (simp add: parts(5) ex)
  then show "api_detail \<lparr>pr_definition = d, pr_answer_image = i, pr_answer_image_base64 = b\<rparr>
      = legacy_details data @ [(lit ''image'', lit ''/image/'' @ pd_id d @ lit ''.jpg'')]"
    using validate_migrated_judge [OF assms(1) v parts(4)]
    by (simp add: api_detail_def Let_def legacy_details_def parts(5) tp record_expected_output_def)
qed

lemma write_migrated_problem_cases:
  assumes "write_migrated_problem emit d dest force reply fs = (r, fs')"
  shows "(r = Inr () \<longrightarrow> fs' = fs(dest \<mapsto> dump_problem_definition emit d) \<and> path_stem dest = pd_id d
      \<and> path_suffix dest = lit ''.yaml'')
    \<and> (\<forall>p. p \<noteq> dest \<longrightarrow> fs' p = fs p) \<and> (\<not> force \<and> fs dest \<noteq> None \<longrightarrow> fs' = fs \<and> r \<noteq> Inr ())"
  using assms by (auto simp: write_migrated_problem_def split: if_splits write_reply.splits)

subsection \<open>Properties\<close>

text \<open>C31: A legacy problem that is migrated keeps its meaning: the new definition is valid, has the legacy
  identifier, which is the one of the file, and the details that the API shows for it are exactly the legacy texts,
  an empty input included; exit codes and error output stay ignored and merged as before.\<close>

theorem migration_preserves_meaning:
  assumes "exact L" and "migrate_legacy_mapping L data source_id = Inr d"
  shows "valid_definition d \<and> pd_id d = legacy_text data ''id'' \<and> (source_id = None \<or> source_id = Some (pd_id d))
    \<and> (\<forall>i b. api_detail \<lparr>pr_definition = d, pr_answer_image = i, pr_answer_image_base64 = b\<rparr>
        = legacy_details data @ [(lit ''image'', lit ''/image/'' @ pd_id d @ lit ''.jpg'')])
    \<and> es_exit_code (pd_execution d) = Exit_ignore \<and> es_stderr (pd_execution d) = Stderr_merge"
  using migrate_legacy_mapping_keeps [OF assms] by simp

text \<open>The migration command replaces no existing file without \<open>--force\<close> and touches no file but its
  destination. When it exits with 0, the destination is named after the problem and holds a file that loads as the
  definition migrated from the source, given that the YAML library reads the written text as the data it was given
  and that the text is within the file limit.\<close>

theorem migration_command_is_safe:
  assumes "exact L" and "migration_main L compose emit source dest force reply fs = (code, fs')"
  shows "(\<forall>p. p \<noteq> dest \<longrightarrow> fs' p = fs p) \<and> (\<not> force \<and> fs dest \<noteq> None \<longrightarrow> fs' = fs \<and> code \<noteq> 0)
    \<and> (code = 0 \<longrightarrow> (\<exists>d. migrate_legacy_file L compose fs source = Inr d
        \<and> fs' dest = Some (dump_problem_definition emit d)
        \<and> (\<forall>bs. compose (dump_problem_definition emit d) = Some (node_of (model_dump d))
              \<and> utf8_encode (dump_problem_definition emit d) = Some bs \<and> length bs \<le> 2000000
            \<longrightarrow> load_problem_file L compose (path_stem dest) (fs' dest) = Inr d)))"
proof (cases "migrate_legacy_file L compose fs source")
  case (Inl e)
  then show ?thesis using assms(2) by (cases e) (auto simp: migration_main_def migration_exit_def)
next
  case (Inr d)
  obtain r fs1 where w: "write_migrated_problem emit d dest force reply fs = (r, fs1)"
    by (cases "write_migrated_problem emit d dest force reply fs")
  have fs1: "fs1 = fs'" and code: "code = 0 \<longleftrightarrow> r = Inr ()"
    using assms(2) by (auto simp: migration_main_def Inr w migration_exit_def
        split: sum.splits legacy_error.splits)
  have valid: "valid_definition d"
    using Inr migrate_legacy_mapping_keeps(3) [OF assms(1)]
    by (auto simp: migrate_legacy_file_def split: option.splits if_splits sum.splits schema_error.splits)
  have "load_problem_file L compose (pd_id d) (Some (dump_problem_definition emit d)) = Inr d"
    if "compose (dump_problem_definition emit d) = Some (node_of (model_dump d))"
      "utf8_encode (dump_problem_definition emit d) = Some bs" "length bs \<le> 2000000" for bs
    using parse_problem_definition_dump [of L d compose "dump_problem_definition emit d" bs,
        OF assms(1) valid that] by (simp add: load_problem_file_def)
  then show ?thesis
    using write_migrated_problem_cases [OF w] Inr code by (auto simp: fs1)
qed

subsection \<open>Witnesses\<close>

definition sample_legacy :: "(scalar \<times> ydata) list" where
  "sample_legacy = [(ScStr (lit ''id''), DStr (lit ''STANDARD-1'')), (ScStr (lit ''title_ja''), DStr [97]),
     (ScStr (lit ''title_en''), DStr [97]), (ScStr (lit ''statement_ja''), DStr [97]),
     (ScStr (lit ''statement_en''), DStr [97]), (ScStr (lit ''input''), DStr []),
     (ScStr (lit ''expected_output''), DStr []), (ScStr (lit ''answer''), DStr [])]"

lemma sample_legacy_migrates:
  "migrate_legacy_mapping plain_lax sample_legacy (Some (lit ''STANDARD-1'')) = Inr (sample_definition ''STANDARD-1'')"
proof -
  have texts: "legacy_text sample_legacy ''id'' = lit ''STANDARD-1''" "legacy_text sample_legacy ''title_ja'' = [97]"
    "legacy_text sample_legacy ''title_en'' = [97]" "legacy_text sample_legacy ''statement_ja'' = [97]"
    "legacy_text sample_legacy ''statement_en'' = [97]" "legacy_text sample_legacy ''input'' = []"
    "legacy_text sample_legacy ''expected_output'' = []" "legacy_text sample_legacy ''answer'' = []"
    by (simp_all add: legacy_text_def legacy_value_def sample_legacy_def)
  have checked: "check_legacy_fields sample_legacy = Inr ()"
    by (simp add: check_legacy_fields_def LEGACY_FIELDS_def legacy_value_def sample_legacy_def)
  have prefix: "id_prefix (lit ''STANDARD-1'') = lit ''STANDARD''" by (simp add: id_prefix_def lit_def)
  let ?judge = "DDict [(ScStr (lit ''type''), DStr (lit ''text'')), (ScStr (lit ''expected_output''), DStr [])]"
  have judge: "migrated_judge sample_legacy = Inr ?judge"
    by (simp add: migrated_judge_def texts prefix)
  have same: "migrated_mapping sample_legacy ?judge = model_dump (sample_definition ''STANDARD-1'')"
    by (simp add: migrated_mapping_def texts prefix migrated_fixtures_def model_dump_def sample_definition_def
        dump_LocalizedText_def dump_ExecutionSpecification_def dump_JudgeSpecification_def category_text_def
        exit_code_text_def stderr_text_def)
  have "model_validate plain_lax (model_dump (sample_definition ''STANDARD-1'')) = Inr (sample_definition ''STANDARD-1'')"
    by (rule model_dump_round_trip [OF exact_plain_lax sample_definition_valid])
  then show ?thesis by (simp add: migrate_legacy_mapping_def checked judge same texts)
qed

theorem migration_preserves_meaning_witness:
  "pd_id (sample_definition ''STANDARD-1'') = legacy_text sample_legacy ''id''"
  using migration_preserves_meaning [OF exact_plain_lax sample_legacy_migrates] by simp

definition sample_compose :: "pystr \<Rightarrow> ynode option" where
  "sample_compose text = (if text = [111] then Some (node_of (DDict sample_legacy))
     else Some (node_of (model_dump (sample_definition ''STANDARD-1''))))"

definition old_path :: pystr where "old_path = lit ''STANDARD-1.yml''"
definition new_path :: pystr where "new_path = lit ''STANDARD-1.yaml''"

theorem migration_command_is_safe_witness:
  "\<exists>fs'. migration_main plain_lax sample_compose (\<lambda>_ _. []) old_path new_path False Write_done [old_path \<mapsto> [111]] = (0, fs')
    \<and> load_problem_file plain_lax sample_compose (path_stem new_path) (fs' new_path) = Inr (sample_definition ''STANDARD-1'')"
proof -
  let ?d = "sample_definition ''STANDARD-1''"
  have stems: "path_stem old_path = lit ''STANDARD-1''" "path_stem new_path = lit ''STANDARD-1''"
    "path_suffix new_path = lit ''.yaml''" "old_path \<noteq> new_path"
    by (simp_all add: path_stem_def path_suffix_def path_name_def posix_parts_def posix_root_def startswith_def
        suffix_length_def lit_def old_path_def new_path_def)
  have "well_keyed (DDict sample_legacy)" by (simp add: sample_legacy_def)
  then have "load_yaml_mapping sample_compose [111] = Inr sample_legacy"
    using construct_node_of [of "DDict sample_legacy"] by (simp add: load_yaml_mapping_def sample_compose_def)
  then have read: "migrate_legacy_file plain_lax sample_compose [old_path \<mapsto> [111]] old_path = Inr ?d"
    by (simp add: migrate_legacy_file_def utf8_encode_def utf8_char_def MAX_PROBLEM_SCHEMA_FILE_BYTES_def stems
        sample_legacy_migrates)
  have id: "pd_id ?d = lit ''STANDARD-1''" by (simp add: sample_definition_def)
  have run: "migration_main plain_lax sample_compose (\<lambda>_ _. []) old_path new_path False Write_done [old_path \<mapsto> [111]]
      = (0, [old_path \<mapsto> [111], new_path \<mapsto> []])"
    using stems by (simp add: migration_main_def read write_migrated_problem_def id dump_problem_definition_def)
  have c: "sample_compose [] = Some (node_of (model_dump ?d))" by (simp add: sample_compose_def)
  from migration_command_is_safe [OF exact_plain_lax run] read c show ?thesis
    by (auto simp: run dump_problem_definition_def)
qed

end
