(* ===== verification/Problem_Review.thy ===== *)
theory Problem_Review
  imports Repository
begin

section \<open>Choice of the problems that the browser check opens\<close>

text \<open>
  \<open>soj_tools/problem_review.py\<close>: which problems the browser check of a change opens, and how a full review is
  split over jobs. The property is that no changed problem goes unreviewed: whatever cannot be classified leads
  to the full review, and the jobs of the full review open every problem exactly once. JSON, \<open>git diff\<close> and the
  directory listing are arguments.
\<close>

definition REPRESENTATIVES :: "pystr list" where
  "REPRESENTATIVES = [lit ''PRACTICE-base64-01'', lit ''STANDARD-00000068'']"

definition FULL_REVIEW_SHARDS :: nat where "FULL_REVIEW_SHARDS = 3"

definition FRONTEND_ASSET_DIRS :: "string list" where
  "FRONTEND_ASSET_DIRS = [''frontend/src/'', ''frontend/public/'']"

subsection \<open>Selections and shards\<close>

fun as_texts :: "pyval \<Rightarrow> pystr list option" where
  "as_texts (PList vs) =
     (if list_all (\<lambda>v. case v of PStr _ \<Rightarrow> True | _ \<Rightarrow> False) vs
      then Some (map (\<lambda>v. case v of PStr s \<Rightarrow> s | _ \<Rightarrow> []) vs) else None)"
| "as_texts _ = None"

definition select_problem_ids ::
  "(pystr \<Rightarrow> pyval option) \<Rightarrow> pystr list \<Rightarrow> pystr \<Rightarrow> value_error + pystr list" where
  "select_problem_ids loads available selection =
     (if selection = lit ''all'' then Inr (sort available)
      else (case loads selection of
        None \<Rightarrow> Inl (ValueError ''JSONDecodeError'')
      | Some v \<Rightarrow> (case as_texts v of
          None \<Rightarrow> Inl (ValueError ''problem selection must be an array of IDs'')
        | Some requested \<Rightarrow>
            if \<not> distinct requested \<or> \<not> set requested \<subseteq> set available
            then Inl (ValueError ''unknown or duplicate problem ID'')
            else if \<not> set REPRESENTATIVES \<subseteq> set available
            then Inl (ValueError ''representative problems are missing'')
            else Inr (sorted_list_of_set (set requested \<union> set REPRESENTATIVES)))))"

text \<open>The two numbers of \<open>k/n\<close>; the second has no leading zero.\<close>

definition digit :: "nat \<Rightarrow> bool" where "digit c \<longleftrightarrow> 48 \<le> c \<and> c \<le> 57"

definition number_of :: "pystr \<Rightarrow> nat" where
  "number_of s = foldl (\<lambda>n c. 10 * n + (c - 48)) 0 s"

definition parse_shard :: "pystr \<Rightarrow> (nat \<times> nat) option" where
  "parse_shard s =
     (case split_on 47 s of
        [k, n] \<Rightarrow>
          if k \<noteq> [] \<and> list_all digit k \<and> n \<noteq> [] \<and> list_all digit n \<and> hd n \<noteq> 48
          then Some (number_of k, number_of n) else None
      | _ \<Rightarrow> None)"

text \<open>The slice \<open>xs[k::n]\<close> of a positive step.\<close>

definition every :: "nat \<Rightarrow> nat \<Rightarrow> 'a list \<Rightarrow> 'a list" where
  "every k n xs = map (\<lambda>i. xs ! i) (filter (\<lambda>i. k \<le> i \<and> (i - k) mod n = 0) [0..<length xs])"

definition shard_ids :: "pystr list \<Rightarrow> pystr \<Rightarrow> value_error + pystr list" where
  "shard_ids ids shard =
     (case parse_shard shard of
        None \<Rightarrow> Inl (ValueError ''browser shard must be k/n with 0 <= k < n'')
      | Some (k, n) \<Rightarrow>
          if k \<ge> n then Inl (ValueError ''browser shard must be k/n with 0 <= k < n'')
          else Inr (every k n (sort ids)))"

definition is_regex_problem :: "pystr \<Rightarrow> bool" where
  "is_regex_problem pid = startswith pid (lit ''REGEX-'')"

definition browser_plan ::
  "(pystr \<Rightarrow> pyval option) \<Rightarrow> pystr list \<Rightarrow> pystr \<Rightarrow> pystr \<Rightarrow> value_error + pystr list \<times> pystr list" where
  "browser_plan loads available selection shard =
     (let regex = sort (filter is_regex_problem available) in
      rbind (select_problem_ids loads available selection) (\<lambda>selected.
      if selection = lit ''all'' then
        rbind (shard_ids regex shard) (\<lambda>r.
        rbind (shard_ids (filter (\<lambda>pid. \<not> is_regex_problem pid) selected) shard) (\<lambda>d. Inr (r, d)))
      else if shard \<noteq> lit ''0/1'' then Inl (ValueError ''only the full review is split into shards'')
      else Inr (take 1 regex, selected)))"

fun decimal :: "nat \<Rightarrow> pystr" where
  "decimal n = (if n < 10 then [48 + n] else decimal (n div 10) @ [48 + n mod 10])"

definition shards_for :: "pystr \<Rightarrow> pystr list" where
  "shards_for selection =
     (let count = if selection = lit ''all'' then FULL_REVIEW_SHARDS else 1 in
      map (\<lambda>index. decimal index @ [47] @ decimal count) [0..<count])"

subsection \<open>Classification of the changed paths\<close>

definition id_tail :: cclass where "id_tail = [(65, 90), (97, 122), (48, 57), (45, 45)]"
definition upper :: cclass where "upper = [(65, 90)]"
definition test_chars :: cclass where "test_chars = [(97, 122), (48, 57), (95, 95)]"

definition problem_id_shape :: "pystr \<Rightarrow> bool" where
  "problem_id_shape s =
     fullmatch (RSeq (RPlus (RCls upper)) (RSeq (RChr 45) (RPlus (RCls id_tail)))) s"

definition between :: "string \<Rightarrow> string \<Rightarrow> pystr \<Rightarrow> pystr option" where
  "between before after s =
     (if length before + length after \<le> length s \<and> startswith s (lit before) \<and> endswith s (lit after)
      then Some (take (length s - length before - length after) (drop (length before) s)) else None)"

text \<open>The group of \<open>PROBLEM_FILE\<close>: neither alternative of a prefix or a suffix overlaps with another.\<close>

definition problem_file :: "pystr \<Rightarrow> pystr option" where
  "problem_file path =
     List.find problem_id_shape (List.map_filter (\<lambda>(a, b). between a b path)
       [(''problems/v3/'', ''.yaml''), (''problems/v3/'', ''.jpg''),
        (''problems/image/'', ''.yaml''), (''problems/image/'', ''.jpg'')])"

definition problem_test :: "pystr \<Rightarrow> bool" where
  "problem_test path =
     list_ex (\<lambda>(a, b). case between a b path of None \<Rightarrow> False | Some s \<Rightarrow> fullmatch (RPlus (RCls test_chars)) s)
       [(''backend/tests/test_'', ''_problem.py''), (''backend/tests/integration/test_'', ''_solutions.py'')]"

definition screen_neutral :: "pystr \<Rightarrow> bool" where
  "screen_neutral path \<longleftrightarrow>
     path \<in> set (map lit [''problems/v3/manifest.json'', ''problems/README.md'', ''UPDATE_HISTORY.md''])
     \<or> endswith path (lit ''.md'') \<and> \<not> list_ex (\<lambda>p. startswith path (lit p)) FRONTEND_ASSET_DIRS
     \<or> problem_test path"

text \<open>The loop over the paths: \<open>None\<close> when it returns \<open>"all"\<close>.\<close>

fun changed_ids :: "pystr list \<Rightarrow> pystr list \<Rightarrow> pystr set \<Rightarrow> pystr set option" where
  "changed_ids available [] changed = Some changed"
| "changed_ids available (path # paths) changed =
     (case problem_file path of
        Some pid \<Rightarrow> if pid \<notin> set available then None else changed_ids available paths (insert pid changed)
      | None \<Rightarrow> if screen_neutral path then changed_ids available paths changed else None)"

definition selection_for_paths :: "(pyval \<Rightarrow> pystr) \<Rightarrow> pystr list \<Rightarrow> pystr list \<Rightarrow> pystr" where
  "selection_for_paths dumps paths available =
     (case changed_ids available paths {} of
        None \<Rightarrow> lit ''all''
      | Some changed \<Rightarrow> if paths \<noteq> [] then dumps (PList (map PStr (sorted_list_of_set changed))) else lit ''all'')"

subsection \<open>The event\<close>

text \<open>
  What the job sees: its environment, the parsed event file (\<open>None\<close> when it cannot be read or parsed), the output
  of \<open>git diff\<close> for two commits and the listing of the definitions (\<open>None\<close> when they fail).
\<close>

record review_env =
  re_event_name :: "pystr option"
  re_event :: "pyval option"
  re_sha :: "pystr option"
  re_diff :: "pystr \<Rightarrow> pystr \<Rightarrow> pystr option"
  re_stems :: "pystr list option"

definition item :: "string \<Rightarrow> pyval option \<Rightarrow> pyval option" where
  "item key v = (case v of Some (PDict kvs) \<Rightarrow> map_of kvs (lit key) | _ \<Rightarrow> None)"

definition commit_sha :: "pyval \<Rightarrow> pystr option" where
  "commit_sha v = (case v of
     PStr s \<Rightarrow> if fullmatch (RRep 40 (RCls [(48, 57), (97, 102)])) s \<and> s \<noteq> replicate 40 48 then Some s else None
   | _ \<Rightarrow> None)"

definition event_base :: "review_env \<Rightarrow> pyval option" where
  "event_base env =
     (if re_event_name env = Some (lit ''push'') then item ''before'' (re_event env)
      else item ''sha'' (item ''base'' (item ''pull_request'' (re_event env))))"

definition changed_in_event :: "review_env \<Rightarrow> pystr list option" where
  "changed_in_event env =
     (if re_event_name env \<noteq> Some (lit ''push'') \<and> re_event_name env \<noteq> Some (lit ''pull_request'') then None
      else (case (event_base env, re_sha env) of
        (Some b, Some h) \<Rightarrow> (case (commit_sha b, commit_sha (PStr h)) of
          (Some base, Some head) \<Rightarrow> map_option (\<lambda>out. filter (\<lambda>p. p \<noteq> []) (split_on 0 out)) (re_diff env base head)
        | _ \<Rightarrow> None)
      | _ \<Rightarrow> None))"

definition github_selection :: "(pyval \<Rightarrow> pystr) \<Rightarrow> review_env \<Rightarrow> pystr" where
  "github_selection dumps env =
     (case (changed_in_event env, re_stems env) of
        (Some paths, Some available) \<Rightarrow> selection_for_paths dumps paths available
      | _ \<Rightarrow> lit ''all'')"

definition review_output :: "(pyval \<Rightarrow> pystr) \<Rightarrow> review_env \<Rightarrow> pystr" where
  "review_output dumps env =
     (let selection = github_selection dumps env in
      lit ''browser_selection='' @ selection @ [10] @ lit ''browser_shards=''
        @ dumps (PList (map PStr (shards_for selection))) @ [10])"

subsection \<open>Shards partition a list\<close>

lemma stride_index:
  assumes "k < (n :: nat)"
  shows "(k \<le> i \<and> (i - k) mod n = 0) \<longleftrightarrow> i mod n = k"
proof
  assume r: "k \<le> i \<and> (i - k) mod n = 0"
  then have "i mod n = (k + (i - k)) mod n" by simp
  also have "\<dots> = (k mod n + (i - k) mod n) mod n" by (simp add: mod_add_eq)
  finally show "i mod n = k" using r assms by simp
next
  assume r: "i mod n = k"
  then have "i - k = n * (i div n)" by (metis minus_mod_eq_mult_div)
  then show "k \<le> i \<and> (i - k) mod n = 0" using r mod_less_eq_dividend [of i n] by simp
qed

lemma residue_classes:
  assumes "0 < (n :: nat)"
  shows "mset (concat (map (\<lambda>k. filter (\<lambda>i. i mod n = k) is) [0..<n])) = mset is"
proof (induction "is")
  case Nil
  then show ?case by (induction n) auto
next
  case (Cons i "is")
  have "mset (concat (map (\<lambda>k. filter (\<lambda>i. i mod n = k) (i # is)) ks)) =
      (if i mod n \<in> set ks then {#i#} else {#}) + mset (concat (map (\<lambda>k. filter (\<lambda>i. i mod n = k) is) ks))"
    if "distinct ks" for ks
    using that by (induction ks) auto
  from this [of "[0..<n]"] show ?case using assms Cons.IH by simp
qed

lemma shards_partition:
  assumes "0 < n"
  shows "mset (concat (map (\<lambda>k. every k n xs) [0..<n])) = mset xs"
proof -
  have e: "map (\<lambda>k. every k n xs) [0..<n] = map (\<lambda>k. map (\<lambda>i. xs ! i) (filter (\<lambda>i. i mod n = k) [0..<length xs])) [0..<n]"
    by (auto simp: every_def stride_index)
  have "concat (map (\<lambda>k. every k n xs) [0..<n]) =
      map (\<lambda>i. xs ! i) (concat (map (\<lambda>k. filter (\<lambda>i. i mod n = k) [0..<length xs]) [0..<n]))"
    unfolding e by (simp add: map_concat comp_def)
  then have "mset (concat (map (\<lambda>k. every k n xs) [0..<n])) = mset (map (\<lambda>i. xs ! i) [0..<length xs])"
    using residue_classes [OF assms, of "[0..<length xs]"] by simp
  then show ?thesis by (simp add: map_nth)
qed

text \<open>What the jobs of a selection open together; a job whose plan fails opens nothing and fails.\<close>

definition planned :: "(pystr \<Rightarrow> pyval option) \<Rightarrow> pystr list \<Rightarrow> pystr \<Rightarrow> pystr \<Rightarrow> pystr list" where
  "planned loads available selection shard =
     (case browser_plan loads available selection shard of Inl _ \<Rightarrow> [] | Inr (r, d) \<Rightarrow> r @ d)"

definition reviewed :: "(pystr \<Rightarrow> pyval option) \<Rightarrow> pystr list \<Rightarrow> pystr \<Rightarrow> pystr list" where
  "reviewed loads available selection =
     concat (map (planned loads available selection) (shards_for selection))"

lemma shards_for_all: "shards_for (lit ''all'') = [lit ''0/3'', lit ''1/3'', lit ''2/3'']"
  by (simp add: shards_for_def FULL_REVIEW_SHARDS_def upt_rec lit_def)

lemma shards_for_some: "selection \<noteq> lit ''all'' \<Longrightarrow> shards_for selection = [lit ''0/1'']"
  by (simp add: shards_for_def lit_def)

lemma parse_shards:
  "parse_shard (lit ''0/3'') = Some (0, 3)" "parse_shard (lit ''1/3'') = Some (1, 3)"
  "parse_shard (lit ''2/3'') = Some (2, 3)"
  by (simp_all add: parse_shard_def lit_def digit_def number_of_def)

lemma plan_all:
  assumes "parse_shard s = Some (k, 3)" "k < 3"
  shows "browser_plan loads available (lit ''all'') s = Inr
    (every k 3 (sort (filter is_regex_problem available)),
     every k 3 (filter (\<lambda>pid. \<not> is_regex_problem pid) (sort available)))"
proof -
  have "sort (filter P (sort xs)) = filter P (sort xs)" for P and xs :: "pystr list"
    by (rule sort_key_id_if_sorted) (simp add: sorted_wrt_filter)
  moreover have "sort (sort xs) = sort xs" for xs :: "pystr list"
    by (rule sort_key_id_if_sorted) simp
  ultimately show ?thesis using assms
    by (simp add: browser_plan_def select_problem_ids_def shard_ids_def Let_def)
qed

lemma full_review_mset: "mset (reviewed loads available (lit ''all'')) = mset available"
proof -
  let ?r = "sort (filter is_regex_problem available)"
  let ?d = "filter (\<lambda>pid. \<not> is_regex_problem pid) (sort available)"
  have p: "planned loads available (lit ''all'') s = every k 3 ?r @ every k 3 ?d"
    if "parse_shard s = Some (k, 3)" "k < 3" for s k
    using plan_all [OF that] by (simp add: planned_def)
  have three: "[0..<3] = [0, 1, 2 :: nat]" by (simp add: upt_rec)
  have "mset (reviewed loads available (lit ''all'')) =
      mset (concat (map (\<lambda>k. every k 3 ?r) [0..<3])) + mset (concat (map (\<lambda>k. every k 3 ?d) [0..<3]))"
    unfolding reviewed_def shards_for_all three
    by (simp add: p [OF parse_shards(1)] p [OF parse_shards(2)] p [OF parse_shards(3)])
  also have "\<dots> = mset available" by (simp add: shards_partition)
  finally show ?thesis .
qed

subsection \<open>Selections from paths\<close>

lemma changed_ids_Some:
  assumes "changed_ids available paths seen = Some changed"
  shows "seen \<subseteq> changed \<and> (\<forall>path \<in> set paths. (\<exists>pid \<in> set available. problem_file path = Some pid \<and> pid \<in> changed)
      \<or> problem_file path = None \<and> screen_neutral path) \<and> changed \<subseteq> seen \<union> set available"
  using assms
proof (induction paths arbitrary: seen)
  case (Cons path paths)
  show ?case
  proof (cases "problem_file path")
    case None
    then show ?thesis using Cons.prems Cons.IH [of seen] by (auto split: if_splits)
  next
    case (Some pid)
    then have "pid \<in> set available" "changed_ids available paths (insert pid seen) = Some changed"
      using Cons.prems by (auto split: if_splits)
    then show ?thesis using Cons.IH [of "insert pid seen"] Some by auto
  qed
qed simp

lemma changed_ids_finite: "changed_ids available paths seen = Some changed \<Longrightarrow> finite seen \<Longrightarrow> finite changed"
  using changed_ids_Some [of available paths seen changed]
  by (auto intro: finite_subset [of changed "seen \<union> set available"])

lemma as_texts_map: "as_texts (PList (map PStr ss)) = Some ss"
  by (simp add: list.pred_map comp_def list_all_iff)

lemma review_of_selection:
  assumes "loads sel = Some (PList (map PStr requested))" "sel \<noteq> lit ''all''" "distinct requested"
    and "set requested \<subseteq> set available" "set REPRESENTATIVES \<subseteq> set available"
  shows "set requested \<union> set REPRESENTATIVES \<subseteq> set (reviewed loads available sel)"
  using assms
  by (auto simp: reviewed_def shards_for_some planned_def browser_plan_def select_problem_ids_def as_texts_map Let_def
      simp del: as_texts.simps)

text \<open>JSON arrays of texts are read as they were written, and none of them is the word \<open>all\<close>.\<close>

definition json_law :: "(pyval \<Rightarrow> pystr) \<Rightarrow> (pystr \<Rightarrow> pyval option) \<Rightarrow> bool" where
  "json_law dumps loads \<longleftrightarrow>
     (\<forall>ss. loads (dumps (PList (map PStr ss))) = Some (PList (map PStr ss)) \<and> dumps (PList (map PStr ss)) \<noteq> lit ''all'')"

text \<open>What a set of changed paths asks to be opened: \<open>None\<close> stands for everything.\<close>

definition asked_for :: "pystr list \<Rightarrow> pystr list \<Rightarrow> pystr set option" where
  "asked_for available paths =
     (if paths = [] \<or> (\<exists>path \<in> set paths. (case problem_file path of
          Some pid \<Rightarrow> pid \<notin> set available | None \<Rightarrow> \<not> screen_neutral path))
      then None else Some {pid. \<exists>path \<in> set paths. problem_file path = Some pid})"

lemma selection_for_paths_asks:
  assumes "json_law dumps loads" "set REPRESENTATIVES \<subseteq> set available"
  shows "(case asked_for available paths of None \<Rightarrow> set available | Some ids \<Rightarrow> ids)
    \<subseteq> set (reviewed loads available (selection_for_paths dumps paths available))"
proof (cases "selection_for_paths dumps paths available = lit ''all''")
  case True
  have "set (reviewed loads available (lit ''all'')) = set available"
    using arg_cong [OF full_review_mset, of set_mset] by simp
  then show ?thesis unfolding True by (auto simp: asked_for_def split: option.splits if_splits)
next
  case False
  then obtain changed where c: "changed_ids available paths {} = Some changed" and ne: "paths \<noteq> []"
    and sel: "selection_for_paths dumps paths available = dumps (PList (map PStr (sorted_list_of_set changed)))"
    by (auto simp: selection_for_paths_def split: option.splits if_splits)
  note ch = changed_ids_Some [OF c] changed_ids_finite [OF c]
  have r: "changed \<subseteq> set (reviewed loads available (selection_for_paths dumps paths available))"
    using review_of_selection [of loads "selection_for_paths dumps paths available" "sorted_list_of_set changed" available]
      assms False ch by (auto simp: sel json_law_def)
  have "asked_for available paths = Some {pid. \<exists>path \<in> set paths. problem_file path = Some pid}"
    using ch(1) ne by (fastforce simp: asked_for_def split: option.splits)
  then show ?thesis using ch(1) r by fastforce
qed

subsection \<open>Properties\<close>

text \<open>The three jobs of the full review open every problem exactly once.\<close>

theorem full_review_opens_each_problem_once:
  "mset (reviewed loads available (lit ''all'')) = mset available
    \<and> (\<forall>shard \<in> set (shards_for (lit ''all'')). is_ok (browser_plan loads available (lit ''all'') shard))"
  using full_review_mset plan_all [OF parse_shards(1)] plan_all [OF parse_shards(2)] plan_all [OF parse_shards(3)]
  by (simp add: shards_for_all)

text \<open>C29: No change goes unreviewed. When the event, the diff or the listing cannot be obtained, or the diff is
  empty, names a problem that no longer exists or any path that can affect a screen, every problem is opened;
  otherwise every changed problem and the representatives are. JSON must be read as it was written.\<close>

theorem no_change_goes_unreviewed:
  assumes "json_law dumps loads" and "set REPRESENTATIVES \<subseteq> set available"
    and "re_stems env = Some available \<or> re_stems env = None"
  shows "(case (changed_in_event env, re_stems env) of
      (Some paths, Some _) \<Rightarrow> (case asked_for available paths of None \<Rightarrow> set available | Some ids \<Rightarrow> ids)
    | _ \<Rightarrow> set available) \<union> set REPRESENTATIVES
    \<subseteq> set (reviewed loads available (github_selection dumps env))"
proof -
  have all: "set (reviewed loads available (lit ''all'')) = set available"
    using arg_cong [OF full_review_mset, of set_mset] by simp
  have reps: "set REPRESENTATIVES \<subseteq> set (reviewed loads available (selection_for_paths dumps paths available))" for paths
  proof (cases "selection_for_paths dumps paths available = lit ''all''")
    case True
    then show ?thesis using all assms(2) by simp
  next
    case False
    then obtain changed where c: "changed_ids available paths {} = Some changed"
      and sel: "selection_for_paths dumps paths available = dumps (PList (map PStr (sorted_list_of_set changed)))"
      by (auto simp: selection_for_paths_def split: option.splits if_splits)
    then show ?thesis
      using review_of_selection [of loads "selection_for_paths dumps paths available" "sorted_list_of_set changed" available]
        assms False changed_ids_Some [OF c] changed_ids_finite [OF c] by (auto simp: json_law_def)
  qed
  show ?thesis
  proof (cases "\<exists>paths. changed_in_event env = Some paths \<and> re_stems env = Some available")
    case True
    then obtain paths where "changed_in_event env = Some paths" "re_stems env = Some available" by blast
    then show ?thesis
      using selection_for_paths_asks [OF assms(1,2), of paths] reps [of paths] by (simp add: github_selection_def)
  next
    case False
    then have "github_selection dumps env = lit ''all''"
      using assms(3) by (auto simp: github_selection_def split: option.splits)
    then show ?thesis using all assms(2,3) False by (auto split: option.splits)
  qed
qed

subsection \<open>Witness\<close>

text \<open>A codec for arrays of texts: each text after its length.\<close>

definition frame :: "pyval \<Rightarrow> pystr" where
  "frame v = 91 # (case as_texts v of None \<Rightarrow> [] | Some ss \<Rightarrow> concat (map (\<lambda>s. length s # s) ss))"

function unframe :: "pystr \<Rightarrow> pystr list" where
  "unframe [] = []"
| "unframe (n # s) = take n s # unframe (drop n s)"
  by pat_completeness auto
termination by (relation "measure length") auto

definition unframed :: "pystr \<Rightarrow> pyval option" where
  "unframed s = (case s of [] \<Rightarrow> None | _ # t \<Rightarrow> Some (PList (map PStr (unframe t))))"

lemma unframe_frame: "unframe (concat (map (\<lambda>s. length s # s) ss)) = ss"
  by (induction ss) auto

lemma frame_law: "json_law frame unframed"
  by (simp add: json_law_def frame_def unframed_def as_texts_map unframe_frame lit_def del: as_texts.simps)

definition sample_stems :: "pystr list" where
  "sample_stems = [lit ''IMAGE-1'', lit ''PRACTICE-base64-01'', lit ''REGEX-1'', lit ''STANDARD-00000068'']"

definition sample_review :: review_env where
  "sample_review = \<lparr>re_event_name = Some (lit ''push''),
     re_event = Some (PDict [(lit ''before'', PStr (replicate 40 97))]), re_sha = Some (replicate 40 98),
     re_diff = (\<lambda>_ _. Some (lit ''problems/v3/IMAGE-1.yaml'')), re_stems = Some sample_stems\<rparr>"

lemma sample_problem_file: "problem_file (lit ''problems/v3/IMAGE-1.yaml'') = Some (lit ''IMAGE-1'')"
proof -
  have "problem_id_shape (lit ''IMAGE-1'')"
    by (simp add: problem_id_shape_def lit_def upper_def id_tail_def in_cls_def RPlus_def RChr_def)
  then show ?thesis by (simp add: problem_file_def between_def startswith_def endswith_def map_filter_def lit_def)
qed

theorem no_change_goes_unreviewed_witness:
  "lit ''IMAGE-1'' \<in> set (reviewed unframed sample_stems (github_selection frame sample_review))"
proof -
  have sha: "commit_sha (PStr (replicate 40 c)) = Some (replicate 40 c)" if "c = 97 \<or> c = 98" for c
    using that by (auto simp: commit_sha_def fullmatch_Rep_Cls in_cls_def list_all_iff)
  have "changed_in_event sample_review = Some [lit ''problems/v3/IMAGE-1.yaml'']"
    using sha [of 97] sha [of 98]
    by (simp add: changed_in_event_def sample_review_def event_base_def item_def lit_def)
  moreover have "asked_for sample_stems [lit ''problems/v3/IMAGE-1.yaml''] = Some {lit ''IMAGE-1''}"
    by (auto simp: asked_for_def sample_problem_file sample_stems_def)
  moreover have "set REPRESENTATIVES \<subseteq> set sample_stems" "re_stems sample_review = Some sample_stems"
    by (simp_all add: REPRESENTATIVES_def sample_stems_def sample_review_def)
  ultimately show ?thesis
    using no_change_goes_unreviewed [OF frame_law, of sample_stems sample_review] by simp
qed

end
