(* ===== verification/Json_Access.thy ===== *)
theory Json_Access
  imports Validation
begin

section \<open>Documents of external tools\<close>

text \<open>
  How the maintenance commands read a JSON document they did not write: access to items, truth and equality of
  values, and checks over lists. A value is \<open>Rejected\<close> by the code, a document is \<open>Malformed\<close> (a missing key or a
  wrong type), or a tool failed.
\<close>

datatype scan_exn = Rejected string | Malformed | Tool_error

subsection \<open>JSON access\<close>

definition get_item :: "pyval \<Rightarrow> string \<Rightarrow> scan_exn + pyval" where
  "get_item v key = (case v of
     PDict kvs \<Rightarrow> (case map_of kvs (lit key) of None \<Rightarrow> Inl Malformed | Some w \<Rightarrow> Inr w)
   | _ \<Rightarrow> Inl Malformed)"

definition get_or :: "pyval \<Rightarrow> pystr \<Rightarrow> pyval \<Rightarrow> scan_exn + pyval" where
  "get_or v key absent = (case v of
     PDict kvs \<Rightarrow> Inr (case map_of kvs key of None \<Rightarrow> absent | Some w \<Rightarrow> w)
   | _ \<Rightarrow> Inl Malformed)"

definition texts :: "string list \<Rightarrow> pyval list" where
  "texts ss = map (\<lambda>s. PStr (lit s)) ss"

fun truthy :: "pyval \<Rightarrow> bool" where
  "truthy PNone = False"
| "truthy (PBool b) = b"
| "truthy (PInt i) = (i \<noteq> 0)"
| "truthy (PStr s) = (s \<noteq> [])"
| "truthy (PList vs) = (vs \<noteq> [])"
| "truthy (PDict kvs) = (kvs \<noteq> [])"

fun hashable :: "pyval \<Rightarrow> bool" where
  "hashable (PList _) = False"
| "hashable (PDict _) = False"
| "hashable _ = True"

text \<open>Equality of values: a Boolean is a number, and a mapping is compared without its order.\<close>

function (sequential) py_eq :: "pyval \<Rightarrow> pyval \<Rightarrow> bool"
  and list_eq :: "pyval list \<Rightarrow> pyval list \<Rightarrow> bool"
  and items_eq :: "(pystr \<times> pyval) list \<Rightarrow> (pystr \<times> pyval) list \<Rightarrow> bool" where
  "py_eq PNone PNone = True"
| "py_eq (PBool b) (PBool c) = (b = c)"
| "py_eq (PBool b) (PInt i) = (i = (if b then 1 else 0))"
| "py_eq (PInt i) (PBool b) = (i = (if b then 1 else 0))"
| "py_eq (PInt i) (PInt j) = (i = j)"
| "py_eq (PStr s) (PStr t) = (s = t)"
| "py_eq (PList vs) (PList ws) = list_eq vs ws"
| "py_eq (PDict a) (PDict b) = (length a = length b \<and> items_eq a b)"
| "py_eq _ _ = False"
| "list_eq [] [] = True"
| "list_eq (v # vs) (w # ws) = (py_eq v w \<and> list_eq vs ws)"
| "list_eq _ _ = False"
| "items_eq [] b = True"
| "items_eq ((k, v) # a) b = ((case map_of b k of None \<Rightarrow> False | Some w \<Rightarrow> py_eq v w) \<and> items_eq a b)"
  by pat_completeness auto
termination
  by (relation "measure (case_sum (\<lambda>p. size (fst p))
        (case_sum (\<lambda>p. size_list size (fst p)) (\<lambda>p. size_list (size_prod (\<lambda>_. 0) size) (fst p))))") auto

fun check_all :: "('a \<Rightarrow> 'e + unit) \<Rightarrow> 'a list \<Rightarrow> 'e + unit" where
  "check_all f [] = Inr ()"
| "check_all f (x # xs) = rbind (f x) (\<lambda>_. check_all f xs)"

fun keep_if :: "('a \<Rightarrow> 'e + bool) \<Rightarrow> 'a list \<Rightarrow> 'e + 'a list" where
  "keep_if f [] = Inr []"
| "keep_if f (x # xs) = rbind (f x) (\<lambda>b. rbind (keep_if f xs) (\<lambda>ys. Inr (if b then x # ys else ys)))"

fun each :: "('a \<Rightarrow> 'e + 'b) \<Rightarrow> 'a list \<Rightarrow> 'e + 'b list" where
  "each f [] = Inr []"
| "each f (x # xs) = rbind (f x) (\<lambda>y. rbind (each f xs) (\<lambda>ys. Inr (y # ys)))"

definition demand :: "bool \<Rightarrow> string \<Rightarrow> scan_exn + unit" where
  "demand b msg = (if b then Inr () else Inl (Rejected msg))"

definition as_items :: "pyval \<Rightarrow> scan_exn + (pystr \<times> pyval) list" where
  "as_items v = (case v of PDict kvs \<Rightarrow> Inr kvs | _ \<Rightarrow> Inl Malformed)"

definition as_list :: "pyval \<Rightarrow> scan_exn + pyval list" where
  "as_list v = (case v of PList vs \<Rightarrow> Inr vs | _ \<Rightarrow> Inl Malformed)"

definition as_text :: "pyval \<Rightarrow> scan_exn + pystr" where
  "as_text v = (case v of PStr s \<Rightarrow> Inr s | _ \<Rightarrow> Inl Malformed)"

lemma check_all_Inr: "check_all f xs = Inr u \<longleftrightarrow> (\<forall>x \<in> set xs. f x = Inr ())"
  by (induction xs) (auto simp: rbind_eq_Inr)

lemma each_Inr: "each f xs = Inr ys \<longleftrightarrow> list_all2 (\<lambda>x y. f x = Inr y) xs ys"
  by (induction xs arbitrary: ys) (auto simp: rbind_eq_Inr list_all2_Cons1)

lemma each_Inr_in: "each f xs = Inr ys \<Longrightarrow> x \<in> set xs \<Longrightarrow> \<exists>y \<in> set ys. f x = Inr y"
  by (induction xs arbitrary: ys) (auto simp: rbind_eq_Inr)

end
