(* ===== verification/Supply_Policy.thy ===== *)
theory Supply_Policy
  imports Json_Access
begin

section \<open>Policies of the supply-chain check\<close>

text \<open>
  The first half of \<open>ci/supply_chain.py\<close>: which findings of the scanner block a release, the reviewed exceptions
  and the accepted risk for the Python runtime, and the probe of the scanned image that must confirm the runtime
  they were reviewed for. Documents are JSON values; parsing, dates, digests and the answers of Docker are
  arguments. Every exception fails the check, so that they are kept apart only roughly.
\<close>

subsection \<open>Blocking findings\<close>

definition blocking :: "pyval \<Rightarrow> scan_exn + bool" where
  "blocking match =
     rbind (get_item match ''vulnerability'') (\<lambda>vulnerability.
     rbind (get_item vulnerability ''severity'') (\<lambda>severity.
     rbind (if hashable severity
            then demand (severity \<in> set (texts [''Unknown'', ''Negligible'', ''Low'', ''Medium'', ''High'', ''Critical'']))
              ''unknown Grype severity'' else Inl Malformed) (\<lambda>_.
     rbind (get_item vulnerability ''fix'') (\<lambda>fix.
     rbind (get_item fix ''state'') (\<lambda>state.
     rbind (get_or fix (lit ''versions'') PNone) (\<lambda>versions.
     if state = PStr [] \<and> \<not> truthy versions then Inr False
     else rbind (if hashable state
                 then demand (state \<in> set (texts [''fixed'', ''not-fixed'', ''unknown'', ''wont-fix'']))
                   ''unknown Grype fix state'' else Inl Malformed) (\<lambda>_.
       Inr (severity \<in> set (texts [''High'', ''Critical'']) \<and> state = PStr (lit ''fixed'')))))))))"

definition blocking_findings :: "pyval \<Rightarrow> scan_exn + pyval list" where
  "blocking_findings report =
     rbind (get_or report (lit ''matches'') PNone) (\<lambda>matches.
     rbind (get_or report (lit ''descriptor'') PNone) (\<lambda>descriptor.
     case (matches, descriptor) of
       (PList ms, PDict _) \<Rightarrow> keep_if blocking ms
     | _ \<Rightarrow> Inl (Rejected ''invalid Grype report'')))"

subsection \<open>Policies\<close>

definition PYTHON_RUNTIME_FILES :: "string list" where
  "PYTHON_RUNTIME_FILES = [''/usr/local/bin/python3.12'', ''/usr/local/lib/libpython3.12.so.1.0'',
     ''/usr/local/lib/python3.12/http/cookies.py'',
     ''/usr/local/lib/python3.12/lib-dynload/pyexpat.cpython-312-x86_64-linux-gnu.so'',
     ''/usr/local/lib/python3.12/lib-dynload/_elementtree.cpython-312-x86_64-linux-gnu.so'']"

definition PYTHON_RISK_FILES :: "string list" where
  "PYTHON_RISK_FILES = PYTHON_RUNTIME_FILES @ [''/usr/local/lib/python3.12/tarfile.py'']"

text \<open>
  What the libraries decide: \<open>date.fromisoformat\<close> as the number of a day, the decimal digits of \<open>\d\<close> and the
  characters that \<open>str.strip\<close> removes.
\<close>

record policy_libs =
  pl_day :: "pystr \<Rightarrow> int option"
  pl_digit :: "nat \<Rightarrow> bool"
  pl_space :: "nat \<Rightarrow> bool"

definition day :: "policy_libs \<Rightarrow> pyval \<Rightarrow> scan_exn + int" where
  "day L v = rbind (as_text v) (\<lambda>s. case pl_day L s of None \<Rightarrow> Inl (Rejected ''date'') | Some d \<Rightarrow> Inr d)"

text \<open>What a loaded policy says, as far as it is used; \<open>po_document\<close> is the whole of it.\<close>

record policy =
  po_document :: pyval
  po_reviewed :: int
  po_expires :: int
  po_artifact :: "(pystr \<times> pyval) list"
  po_runtime :: pyval
  po_ids :: "pystr list"

definition sha256_hex :: "pystr \<Rightarrow> bool" where
  "sha256_hex s = fullmatch (RRep 64 (RCls [(48, 57), (97, 102)])) s"

definition version_part :: "pyval \<Rightarrow> bool" where
  "version_part v = (case v of PInt i \<Rightarrow> 0 \<le> i | _ \<Rightarrow> False)"

definition same_names :: "string list \<Rightarrow> (pystr \<times> 'a) list \<Rightarrow> bool" where
  "same_names names kvs \<longleftrightarrow> set (map fst kvs) = set (map lit names)"

definition check_artifact :: "pyval \<Rightarrow> scan_exn + (pystr \<times> pyval) list" where
  "check_artifact v =
     rbind (as_items v) (\<lambda>kvs.
     rbind (demand (same_names [''name'', ''version'', ''type'', ''purl''] kvs
        \<and> list_all (\<lambda>(_, w). case w of PStr s \<Rightarrow> s \<noteq> [] | _ \<Rightarrow> False) kvs) ''invalid Python exception artifact'') (\<lambda>_.
     Inr kvs))"

definition check_version :: "pyval \<Rightarrow> bool" where
  "check_version v = (case v of PList parts \<Rightarrow> length parts = 3 \<and> list_all version_part parts | _ \<Rightarrow> False)"

definition check_runtime :: "string list \<Rightarrow> pyval \<Rightarrow> scan_exn + unit" where
  "check_runtime files v =
     rbind (as_items v) (\<lambda>kvs.
     rbind (demand (same_names [''python'', ''expat'', ''files''] kvs) ''invalid Python exception runtime'') (\<lambda>_.
     rbind (get_item v ''python'') (\<lambda>python.
     rbind (get_item v ''expat'') (\<lambda>expat.
     rbind (demand (check_version python \<and> check_version expat) ''invalid Python exception runtime'') (\<lambda>_.
     rbind (get_item v ''files'') (\<lambda>fs.
     rbind (as_items fs) (\<lambda>digests.
     demand (same_names files digests
       \<and> list_all (\<lambda>(_, d). case d of PStr s \<Rightarrow> sha256_hex s | _ \<Rightarrow> False) digests)
       ''invalid Python exception file hashes'')))))))"

definition cve_id :: "policy_libs \<Rightarrow> pystr \<Rightarrow> bool" where
  "cve_id L s = (case split_on 45 s of
     [p, y, n] \<Rightarrow> p = lit ''CVE'' \<and> length y = 4 \<and> list_all (pl_digit L) y \<and> 4 \<le> length n \<and> list_all (pl_digit L) n
   | _ \<Rightarrow> False)"

text \<open>The entries of the evidence; iterating over a mapping gives its keys.\<close>

definition evidence_urls :: "pyval \<Rightarrow> scan_exn + pystr list" where
  "evidence_urls v = (case v of
     PList vs \<Rightarrow> each as_text vs
   | PDict kvs \<Rightarrow> Inr (map fst kvs)
   | PStr s \<Rightarrow> Inr (map (\<lambda>c. [c]) s)
   | _ \<Rightarrow> Inl Malformed)"

definition check_vulnerability :: "policy_libs \<Rightarrow> pyval \<Rightarrow> scan_exn + pystr" where
  "check_vulnerability L entry =
     rbind (get_item entry ''id'') (\<lambda>v. rbind (as_text v) (\<lambda>name.
     rbind (demand (cve_id L name) ''advisory evidence'') (\<lambda>_.
     rbind (get_item entry ''reason'') (\<lambda>reason.
     rbind (demand (truthy reason) ''advisory evidence'') (\<lambda>_.
     rbind (get_item entry ''evidence'') (\<lambda>evidence.
     rbind (demand (truthy evidence) ''advisory evidence'') (\<lambda>_.
     rbind (evidence_urls evidence) (\<lambda>urls.
     rbind (demand (list_all (\<lambda>u. startswith u (lit ''https://'')) urls) ''advisory evidence'') (\<lambda>_.
     Inr name)))))))))"

definition load_python_exception_policy :: "policy_libs \<Rightarrow> string list \<Rightarrow> pyval \<Rightarrow> scan_exn + policy" where
  "load_python_exception_policy L files doc =
     rbind (get_item doc ''schema_version'') (\<lambda>version.
     rbind (demand (py_eq version (PInt 1)) ''unknown Python exception policy schema'') (\<lambda>_.
     rbind (rbind (get_item doc ''expires_on'') (day L)) (\<lambda>expires.
     rbind (rbind (get_item doc ''reviewed_on'') (day L)) (\<lambda>reviewed.
     rbind (demand (0 < expires - reviewed \<and> expires - reviewed \<le> 31) ''review period'') (\<lambda>_.
     rbind (rbind (get_item doc ''artifact'') check_artifact) (\<lambda>artifact.
     rbind (get_item doc ''id'') (\<lambda>name.
     rbind (demand (truthy name) ''invalid Python exception identity'') (\<lambda>_.
     rbind (get_item doc ''namespace'') (\<lambda>namespace.
     rbind (demand (namespace = PStr (lit ''nvd:cpe'')) ''invalid Python exception identity'') (\<lambda>_.
     rbind (get_item doc ''runtime'') (\<lambda>runtime.
     rbind (check_runtime files runtime) (\<lambda>_.
     rbind (rbind (get_item doc ''vulnerabilities'') as_list) (\<lambda>entries.
     rbind (each (check_vulnerability L) entries) (\<lambda>ids.
     rbind (demand (entries \<noteq> [] \<and> distinct ids) ''empty or duplicate vulnerabilities'') (\<lambda>_.
     Inr \<lparr>po_document = doc, po_reviewed = reviewed, po_expires = expires, po_artifact = artifact,
       po_runtime = runtime, po_ids = ids\<rparr>)))))))))))))))"

definition blank :: "policy_libs \<Rightarrow> pystr \<Rightarrow> bool" where
  "blank L s = list_all (pl_space L) s"

definition load_python_risk_policy :: "policy_libs \<Rightarrow> pyval \<Rightarrow> scan_exn + policy" where
  "load_python_risk_policy L doc =
     rbind (load_python_exception_policy L PYTHON_RISK_FILES doc) (\<lambda>p.
     rbind (get_or doc (lit ''kind'') PNone) (\<lambda>kind.
     rbind (get_or doc (lit ''targets'') PNone) (\<lambda>targets.
     rbind (each (\<lambda>key. get_or doc (lit key) PNone) [''accepted_by'', ''exposure'', ''remediation'', ''revoke_when'']) (\<lambda>reasons.
     rbind (demand (kind = PStr (lit ''risk-acceptance'') \<and> targets = PList (texts [''backend'', ''runner''])
        \<and> po_ids p = [lit ''CVE-2026-82049'']
        \<and> list_all (\<lambda>v. case v of PStr s \<Rightarrow> \<not> blank L s | _ \<Rightarrow> False) reasons
        \<and> po_expires p - po_reviewed p \<le> 14) ''invalid temporary Python risk acceptance'') (\<lambda>_.
     Inr p)))))"

subsection \<open>Candidates\<close>

definition path_of :: "pyval \<Rightarrow> scan_exn + pyval" where
  "path_of location = rbind (get_item location ''path'') (\<lambda>p. if hashable p then Inr p else Inl Malformed)"

text \<open>The conditions of the list comprehension, with the short-circuit of \<open>and\<close>.\<close>

definition and_then :: "'e + bool \<Rightarrow> (unit \<Rightarrow> 'e + bool) \<Rightarrow> 'e + bool" where
  "and_then a b = rbind a (\<lambda>x. if x then b () else Inr False)"

fun all_of :: "('a \<Rightarrow> 'e + bool) \<Rightarrow> 'a list \<Rightarrow> 'e + bool" where
  "all_of f [] = Inr True"
| "all_of f (x # xs) = and_then (f x) (\<lambda>_. all_of f xs)"

definition candidate :: "policy \<Rightarrow> pyval \<Rightarrow> scan_exn + bool" where
  "candidate p match =
     rbind (get_item match ''vulnerability'') (\<lambda>vulnerability.
     and_then (rbind (get_or vulnerability (lit ''id'') PNone) (\<lambda>name.
       if hashable name then Inr (name \<in> set (map PStr (po_ids p))) else Inl Malformed)) (\<lambda>_.
     and_then (rbind (get_or vulnerability (lit ''namespace'') PNone) (\<lambda>n. Inr (n = PStr (lit ''nvd:cpe'')))) (\<lambda>_.
     rbind (get_or match (lit ''artifact'') (PDict [])) (\<lambda>artifact.
     and_then (all_of (\<lambda>(key, value). rbind (get_or artifact key PNone) (\<lambda>w. Inr (py_eq w value))) (po_artifact p)) (\<lambda>_.
     rbind (get_or artifact (lit ''locations'') (PList [])) (\<lambda>locations.
     rbind (as_list locations) (\<lambda>ls.
     rbind (each path_of ls) (\<lambda>paths.
     Inr (set paths = set (texts (take 2 PYTHON_RUNTIME_FILES)))))))))))"

end
