(* ===== verification/Supply_Chain.thy ===== *)
theory Supply_Chain
  imports Supply_Policy "HOL-Library.AList" "HOL-Library.Multiset"
begin

section \<open>The supply-chain check\<close>

text \<open>
  The second half of \<open>ci/supply_chain.py\<close>: a scan with its exceptions, the scan of the five production images, the
  build record and the candidate that later jobs load. The state is the directory of reports, the containers that
  probes have left and the tags that were set. The tools, Docker, git, JSON and SHA-256 are the environment; a
  tool writes the files it was told to write and nothing else.
\<close>

subsection \<open>State, environment and tools\<close>

record scan_state =
  sc_files :: "(pystr \<times> bytes) list"
  sc_containers :: nat
  sc_tags :: "(pystr \<times> pystr) list"

datatype tool_cmd =
    Syft pystr pystr
  | Grype pystr
  | Docker_save "pystr list"
  | Docker_load
  | Docker_tag pystr pystr
  | Gitleaks_fixture
  | Grype_fixture
  | Grype_broken

text \<open>How a tool ends (\<open>None\<close> when it cannot be started or takes too long) and what it has written.\<close>

record tool_reply =
  tr_code :: "int option"
  tr_out :: "bytes list"

record probe =
  pb_info :: "scan_exn + bool"
  pb_create :: "scan_exn + unit"
  pb_start :: "scan_exn + unit"
  pb_wait :: "scan_exn + int"
  pb_logs :: "scan_exn + pyval"
  pb_remove :: "scan_exn + unit"

record scan_env =
  se_libs :: policy_libs
  se_today :: int
  se_today_text :: pystr
  se_docker_host :: "pystr option"
  se_probe :: "pystr \<Rightarrow> string list \<Rightarrow> probe"
  se_exception_policy :: "scan_exn + pyval"
  se_risk_policy :: "scan_exn + pyval"
  se_tool :: "tool_cmd \<Rightarrow> tool_reply"
  se_loads :: "bytes \<Rightarrow> pyval option"
  se_dumps :: "pyval \<Rightarrow> bytes"
  se_write :: "pystr \<Rightarrow> bool"
  se_image_id :: "pystr \<Rightarrow> scan_exn + pystr"
  se_rootless :: "scan_exn + bool"
  se_sha256 :: "bytes \<Rightarrow> pystr"
  se_commit :: "scan_exn + pystr"
  se_dirty :: "scan_exn + bool"
  se_version :: pystr
  se_inputs :: "scan_exn + bytes \<times> bytes \<times> bytes"
  se_locks :: "scan_exn + pystr"

definition report_name :: "pystr \<Rightarrow> string \<Rightarrow> pystr" where
  "report_name target ending = target @ lit ending"

definition outputs :: "tool_cmd \<Rightarrow> pystr list" where
  "outputs cmd = (case cmd of
     Syft _ name \<Rightarrow> [report_name name ''.syft.json'', report_name name ''.cdx.json'']
   | Grype name \<Rightarrow> [report_name name ''.grype.json'']
   | Docker_save _ \<Rightarrow> [lit ''runtime.tar'']
   | Grype_fixture \<Rightarrow> [lit ''fixture.grype.json'']
   | _ \<Rightarrow> [])"

definition put_file :: "pystr \<Rightarrow> bytes \<Rightarrow> scan_state \<Rightarrow> scan_state" where
  "put_file name content s = s\<lparr>sc_files := AList.update name content (sc_files s)\<rparr>"

definition get_file :: "scan_state \<Rightarrow> pystr \<Rightarrow> bytes option" where
  "get_file s name = map_of (sc_files s) name"

definition tool_effect :: "tool_cmd \<Rightarrow> tool_reply \<Rightarrow> scan_state \<Rightarrow> scan_state" where
  "tool_effect cmd r s =
     (let s1 = fold (\<lambda>(n, c). put_file n c) (zip (outputs cmd) (tr_out r)) s in
      case cmd of Docker_tag i t \<Rightarrow> if tr_code r = Some 0 then s1\<lparr>sc_tags := sc_tags s1 @ [(t, i)]\<rparr> else s1 | _ \<Rightarrow> s1)"

definition run :: "scan_env \<Rightarrow> tool_cmd \<Rightarrow> int list \<Rightarrow> scan_state \<Rightarrow> (scan_exn + int) \<times> scan_state" where
  "run env cmd expected s =
     (let r = se_tool env cmd; s1 = tool_effect cmd r s in
      case tr_code r of
        None \<Rightarrow> (Inl Tool_error, s1)
      | Some c \<Rightarrow> if c \<in> set expected then (Inr c, s1) else (Inl (Rejected ''tool failed''), s1))"

definition write_file :: "scan_env \<Rightarrow> pystr \<Rightarrow> bytes \<Rightarrow> scan_state \<Rightarrow> (scan_exn + unit) \<times> scan_state" where
  "write_file env name content s =
     (if se_write env name then (Inr (), put_file name content s) else (Inl Tool_error, s))"

definition read_json :: "scan_env \<Rightarrow> pystr \<Rightarrow> scan_state \<Rightarrow> scan_exn + pyval" where
  "read_json env name s =
     (case get_file s name of
        None \<Rightarrow> Inl Tool_error
      | Some b \<Rightarrow> (case se_loads env b of None \<Rightarrow> Inl (Rejected ''JSONDecodeError'') | Some v \<Rightarrow> Inr v))"

text \<open>A step that only looks.\<close>

definition look_up :: "'e + 'a \<Rightarrow> 's \<Rightarrow> ('e + 'a) \<times> 's" where
  "look_up r s = (r, s)"

subsection \<open>The probe of the runtime\<close>

definition image_id :: "pystr \<Rightarrow> bool" where
  "image_id s \<longleftrightarrow> startswith s (lit ''sha256:'') \<and> sha256_hex (drop 7 s)"

definition image_source :: "pystr \<Rightarrow> bool" where
  "image_source s \<longleftrightarrow> startswith s (lit ''docker:'') \<and> image_id (drop 7 s)"

definition unix_docker_host :: "scan_env \<Rightarrow> bool" where
  "unix_docker_host env = (case se_docker_host env of None \<Rightarrow> False | Some h \<Rightarrow> startswith h (lit ''unix://''))"

text \<open>The part between the creation of the container and its removal.\<close>

definition probe_body :: "probe \<Rightarrow> scan_exn + pyval" where
  "probe_body p =
     rbind (pb_start p) (\<lambda>_.
     rbind (pb_wait p) (\<lambda>code.
     rbind (demand (code = 0) ''Python runtime inspection failed'') (\<lambda>_.
     rbind (pb_logs p) (\<lambda>v. case v of PDict _ \<Rightarrow> Inr v | _ \<Rightarrow> Inl (Rejected ''invalid inspection result'')))))"

definition inspect_python_runtime ::
  "scan_env \<Rightarrow> pystr \<Rightarrow> string list \<Rightarrow> scan_state \<Rightarrow> (scan_exn + pyval) \<times> scan_state" where
  "inspect_python_runtime env iid files s =
     (if \<not> image_id iid then (Inl (Rejected ''Python inspection requires an immutable image ID''), s)
      else if \<not> unix_docker_host env then (Inl (Rejected ''set DOCKER_HOST''), s)
      else (let p = se_probe env iid files in
        case rbind (pb_info p) (\<lambda>rootless. rbind (demand rootless ''rootful Docker'') (\<lambda>_. pb_create p)) of
          Inl e \<Rightarrow> (Inl e, s)
        | Inr _ \<Rightarrow> (case pb_remove p of
            Inl e \<Rightarrow> (Inl e, s\<lparr>sc_containers := sc_containers s + 1\<rparr>)
          | Inr _ \<Rightarrow> (probe_body p, s))))"

subsection \<open>Exceptions and accepted risks\<close>

definition load_policy :: "scan_env \<Rightarrow> bool \<Rightarrow> scan_exn + policy" where
  "load_policy env risk =
     (if risk then rbind (se_risk_policy env) (load_python_risk_policy (se_libs env))
      else rbind (se_exception_policy env) (load_python_exception_policy (se_libs env) PYTHON_RUNTIME_FILES))"

definition active :: "scan_env \<Rightarrow> policy \<Rightarrow> bool" where
  "active env p \<longleftrightarrow> po_reviewed p \<le> se_today env \<and> se_today env < po_expires p"

definition policy_record :: "scan_env \<Rightarrow> bool \<Rightarrow> policy \<Rightarrow> pystr \<Rightarrow> string \<Rightarrow> pyval list \<Rightarrow> (pystr \<times> pyval) list \<Rightarrow> pyval" where
  "policy_record env risk p source status applied runtime = PDict
     ([(lit ''kind'', PStr (lit (if risk then ''risk-acceptance'' else ''verified-fix''))),
       (lit ''policy'', po_document p), (lit ''evaluated_on'', PStr (se_today_text env)),
       (lit ''source'', PStr source), (lit ''status'', PStr (lit status)), (lit ''applied'', PList applied)] @ runtime)"

definition policy_files :: "bool \<Rightarrow> string list" where
  "policy_files risk = (if risk then PYTHON_RISK_FILES else PYTHON_RUNTIME_FILES)"

definition policy_path :: "bool \<Rightarrow> pystr \<Rightarrow> pystr" where
  "policy_path risk target =
     report_name target (if risk then ''.python-risk-acceptance.json'' else ''.python-exceptions.json'')"

definition evaluate_python_policy ::
  "scan_env \<Rightarrow> bool \<Rightarrow> pyval list \<Rightarrow> pystr \<Rightarrow> pystr \<Rightarrow> scan_state \<Rightarrow> (scan_exn + pyval list) \<times> scan_state" where
  "evaluate_python_policy env risk blocked source target s =
     (if target \<noteq> lit ''backend'' \<and> target \<noteq> lit ''runner'' then (Inr [], s)
      else if \<not> image_source source
      then (Inl (Rejected ''Python exceptions require the scanned immutable image ID''), s)
      else sbind (look_up (load_policy env risk) s) (\<lambda>p s.
        sbind (look_up (keep_if (candidate p) blocked) s) (\<lambda>candidates s.
        let use = active env p \<and> candidates \<noteq> [];
            status = if \<not> active env p then ''inactive'' else if candidates \<noteq> [] then ''unverified'' else ''not-applicable'';
            write = (\<lambda>status applied runtime.
              write_file env (policy_path risk target) (se_dumps env (policy_record env risk p source status applied runtime)))
        in sbind (write status [] [] s) (\<lambda>_ s.
          if \<not> use then (Inr [], s)
          else sbind (inspect_python_runtime env (drop 7 source) (policy_files risk) s) (\<lambda>runtime s.
            let exempted = if py_eq runtime (po_runtime p) then candidates else [];
                status = if py_eq runtime (po_runtime p) then ''applied'' else ''runtime-mismatch''
            in sbind (write status exempted [(lit ''runtime'', runtime)] s) (\<lambda>_ s. (Inr exempted, s)))))))"

subsection \<open>A scan\<close>

definition listed_in :: "pyval list \<Rightarrow> pyval \<Rightarrow> bool" where
  "listed_in vs v = list_ex (\<lambda>w. w = v \<or> py_eq w v) vs"

definition inventory_names :: "pyval list \<Rightarrow> scan_exn + pyval list" where
  "inventory_names packages =
     each (\<lambda>p. rbind (get_item p ''name'') (\<lambda>n. if hashable n then Inr n else Inl Malformed)) packages"

definition check_inventory :: "pystr \<Rightarrow> pyval \<Rightarrow> scan_exn + pyval list" where
  "check_inventory name inventory =
     rbind (get_or inventory (lit ''artifacts'') PNone) (\<lambda>artifacts.
     rbind (demand (truthy artifacts) ''package inventory is empty'') (\<lambda>_.
     rbind (as_list artifacts) (\<lambda>packages.
     rbind (if name = lit ''dependencies''
            then rbind (inventory_names packages) (\<lambda>names.
              demand (set (texts [''fastapi'', ''react'']) \<subseteq> set names) ''both lock inventories are required'')
            else Inr ()) (\<lambda>_. Inr packages))))"

definition summary :: "pystr \<Rightarrow> pyval list \<Rightarrow> pyval list \<Rightarrow> pyval list \<Rightarrow> pyval list \<Rightarrow> pyval list \<Rightarrow> pyval" where
  "summary name packages findings blocked exempted accepted = PDict
     [(lit ''target'', PStr name), (lit ''packages'', PInt (int (length packages))),
      (lit ''findings'', PInt (int (length findings))),
      (lit ''blocking_before_exceptions'', PInt (int (length blocked))),
      (lit ''exceptions'', PInt (int (length exempted))), (lit ''risk_acceptances'', PInt (int (length accepted))),
      (lit ''blocking'', PInt (int (length blocked) - int (length exempted) - int (length accepted)))]"

definition judge_findings ::
  "scan_env \<Rightarrow> pyval list \<Rightarrow> pystr \<Rightarrow> pystr \<Rightarrow> scan_state \<Rightarrow> (scan_exn + pyval list \<times> pyval list) \<times> scan_state" where
  "judge_findings env blocked source name s =
     sbind (evaluate_python_policy env False blocked source name s) (\<lambda>exempted s.
     sbind (evaluate_python_policy env True (filter (\<lambda>m. \<not> listed_in exempted m) blocked) source name s) (\<lambda>accepted s.
     (Inr (exempted, accepted), s)))"

definition scan :: "scan_env \<Rightarrow> pystr \<Rightarrow> pystr \<Rightarrow> scan_state \<Rightarrow> (scan_exn + bool) \<times> scan_state" where
  "scan env source name s =
     sbind (run env (Syft source name) [0] s) (\<lambda>_ s.
     sbind (look_up (rbind (read_json env (report_name name ''.syft.json'') s) (check_inventory name)) s) (\<lambda>packages s.
     sbind (run env (Grype name) [0] s) (\<lambda>_ s.
     sbind (look_up (read_json env (report_name name ''.grype.json'') s) s) (\<lambda>report s.
     sbind (look_up (blocking_findings report) s) (\<lambda>blocked s.
     sbind (judge_findings env blocked source name s) (\<lambda>(exempted, accepted) s.
     sbind (look_up (rbind (get_item report ''matches'') as_list) s) (\<lambda>findings s.
     sbind (write_file env (report_name name ''.summary.json'')
        (se_dumps env (summary name packages findings blocked exempted accepted)) s) (\<lambda>_ s.
     (Inr (length blocked = length exempted + length accepted), s)))))))))"

subsection \<open>Images, the record and the candidate\<close>

definition PRODUCTS :: "string list" where
  "PRODUCTS = [''backend'', ''runner'', ''frontend'', ''db'', ''sandbox'']"

definition rootless :: "scan_env \<Rightarrow> scan_exn + unit" where
  "rootless env =
     rbind (demand (unix_docker_host env) ''set DOCKER_HOST'') (\<lambda>_.
     rbind (se_rootless env) (\<lambda>b. demand b ''rootful Docker is not allowed''))"

text \<open>The mapping with sorted keys, as \<open>json.dumps\<close> writes it with \<open>sort_keys\<close>.\<close>

fun sorted_items :: "pyval \<Rightarrow> pyval" where
  "sorted_items (PList vs) = PList (map sorted_items vs)"
| "sorted_items (PDict kvs) = PDict (sort_key fst (map (\<lambda>(k, v). (k, sorted_items v)) kvs))"
| "sorted_items v = v"

definition text_items :: "(pystr \<times> pystr) list \<Rightarrow> pyval" where
  "text_items kvs = PDict (map (\<lambda>(k, v). (k, PStr v)) kvs)"

definition digests :: "scan_env \<Rightarrow> scan_state \<Rightarrow> (pystr \<times> pystr) list" where
  "digests env s = map (\<lambda>(n, c). (n, se_sha256 env c))
     (filter (\<lambda>(n, _). n \<noteq> lit ''build-record.json'') (sort_key fst (sc_files s)))"

definition build_record ::
  "scan_env \<Rightarrow> pystr \<Rightarrow> bool \<Rightarrow> (pystr \<times> pystr) list \<Rightarrow> bytes \<times> bytes \<times> bytes \<Rightarrow> (pystr \<times> pystr) list \<Rightarrow> pyval" where
  "build_record env commit dirty image_ids inputs files = PDict
     [(lit ''product_version'', PStr (se_version env)), (lit ''source_commit'', PStr commit),
      (lit ''worktree_dirty'', PBool dirty), (lit ''image_ids'', text_items image_ids),
      (lit ''external_image_references'', PDict []),
      (lit ''tool_manifest_sha256'', PStr (se_sha256 env (fst inputs))),
      (lit ''python_exception_policy_sha256'', PStr (se_sha256 env (fst (snd inputs)))),
      (lit ''python_risk_acceptance_policy_sha256'', PStr (se_sha256 env (snd (snd inputs)))),
      (lit ''files'', text_items files)]"

definition write_record :: "scan_env \<Rightarrow> (pystr \<times> pystr) list \<Rightarrow> scan_state \<Rightarrow> (scan_exn + unit) \<times> scan_state" where
  "write_record env image_ids s =
     sbind (look_up (se_commit env) s) (\<lambda>commit s.
     sbind (look_up (se_dirty env) s) (\<lambda>dirty s.
     let files = digests env s in
     sbind (look_up (se_inputs env) s) (\<lambda>inputs s.
     write_file env (lit ''build-record.json'')
       (se_dumps env (sorted_items (build_record env commit dirty image_ids inputs files))) s)))"

text \<open>Every image is scanned, also after one that has findings.\<close>

fun scan_products ::
  "scan_env \<Rightarrow> (pystr \<times> pystr) list \<Rightarrow> (pystr \<times> pystr) list \<Rightarrow> bool \<Rightarrow> scan_state \<Rightarrow>
     (scan_exn + (pystr \<times> pystr) list \<times> bool) \<times> scan_state" where
  "scan_products env [] ids ok s = (Inr (ids, ok), s)"
| "scan_products env ((name, reference) # products) ids ok s =
     sbind (look_up (se_image_id env reference) s) (\<lambda>iid s.
     sbind (scan env (lit ''docker:'' @ iid) name s) (\<lambda>passed s.
     scan_products env products (ids @ [(name, iid)]) (passed \<and> ok) s))"

definition runtime_scan ::
  "scan_env \<Rightarrow> (pystr \<times> pystr) list \<Rightarrow> scan_state \<Rightarrow> (scan_exn + bool) \<times> scan_state" where
  "runtime_scan env products s =
     (if \<not> same_names PRODUCTS products then (Inl (Rejected ''all five production images must be scanned''), s)
      else sbind (look_up (rootless env) s) (\<lambda>_ s.
        sbind (scan_products env products [] True s) (\<lambda>(ids, ok) s.
        sbind (run env (Docker_save (map snd ids)) [0] s) (\<lambda>_ s.
        sbind (write_record env ids s) (\<lambda>_ s. (Inr ok, s))))))"

fun confirm_loaded :: "scan_env \<Rightarrow> (pystr \<times> pystr) list \<Rightarrow> scan_exn + unit" where
  "confirm_loaded env [] = Inr ()"
| "confirm_loaded env ((name, iid) # ids) =
     rbind (se_image_id env iid) (\<lambda>loaded.
     rbind (demand (loaded = iid) ''image differs from the scanned image'') (\<lambda>_. confirm_loaded env ids))"

fun tag_all :: "scan_env \<Rightarrow> (pystr \<times> pystr) list \<Rightarrow> scan_state \<Rightarrow> (scan_exn + unit) \<times> scan_state" where
  "tag_all env [] s = (Inr (), s)"
| "tag_all env ((name, iid) # ids) s =
     sbind (run env (Docker_tag iid (lit ''soj-'' @ name @ lit '':ci'')) [0] s) (\<lambda>_ s. tag_all env ids s)"

definition recorded_ids :: "pyval \<Rightarrow> scan_exn + (pystr \<times> pystr) list" where
  "recorded_ids v =
     rbind (as_items v) (\<lambda>kvs.
     rbind (demand (same_names PRODUCTS kvs) ''build record must name all five immutable image IDs'') (\<lambda>_.
     rbind (demand (list_all (\<lambda>(_, w). case w of PStr s \<Rightarrow> image_id s | _ \<Rightarrow> False) kvs)
       ''build record must name all five immutable image IDs'') (\<lambda>_.
     each (\<lambda>(k, w). rbind (as_text w) (\<lambda>s. Inr (k, s))) kvs)))"

definition checked_candidate :: "scan_env \<Rightarrow> scan_state \<Rightarrow> scan_exn + (pystr \<times> pystr) list" where
  "checked_candidate env s =
     rbind (rootless env) (\<lambda>_.
     rbind (read_json env (lit ''build-record.json'') s) (\<lambda>record.
     rbind (case get_file s (lit ''runtime.tar'') of None \<Rightarrow> Inl Tool_error | Some c \<Rightarrow> Inr c) (\<lambda>content.
     rbind (rbind (get_item record ''files'') (\<lambda>fs. get_item fs ''runtime.tar'')) (\<lambda>digest.
     rbind (demand (PStr (se_sha256 env content) = digest) ''runtime archive does not match its build record'') (\<lambda>_.
     rbind (get_item record ''image_ids'') recorded_ids)))))"

definition load_candidate :: "scan_env \<Rightarrow> scan_state \<Rightarrow> (scan_exn + (pystr \<times> pystr) list) \<times> scan_state" where
  "load_candidate env s =
     sbind (look_up (checked_candidate env s) s) (\<lambda>ids s.
     sbind (run env Docker_load [0] s) (\<lambda>_ s.
     sbind (look_up (confirm_loaded env ids) s) (\<lambda>_ s.
     sbind (tag_all env ids s) (\<lambda>_ s. (Inr ids, s)))))"

subsection \<open>The command\<close>

text \<open>\<open>se_locks\<close> answers with the directory that the lock files were copied to.\<close>

definition source_scan :: "scan_env \<Rightarrow> scan_state \<Rightarrow> (scan_exn + bool) \<times> scan_state" where
  "source_scan env s =
     sbind (look_up (se_locks env) s) (\<lambda>target s. scan env (lit ''dir:'' @ target) (lit ''dependencies'') s)"

definition scanner_fixtures :: "scan_env \<Rightarrow> scan_state \<Rightarrow> (scan_exn + unit) \<times> scan_state" where
  "scanner_fixtures env s =
     sbind (run env Gitleaks_fixture [1] s) (\<lambda>_ s.
     sbind (run env Grype_fixture [2] s) (\<lambda>_ s.
     sbind (run env Grype_broken [1] s) (\<lambda>_ s. (Inr (), s))))"

datatype scan_mode = Source_mode | Runtime_mode | Fixtures_mode

definition exit_of :: "(scan_exn + bool) \<times> scan_state \<Rightarrow> int \<times> scan_state" where
  "exit_of r = (case r of (Inl _, s) \<Rightarrow> (1, s) | (Inr ok, s) \<Rightarrow> (if ok then 0 else 2, s))"

definition supply_main :: "scan_env \<Rightarrow> scan_mode \<Rightarrow> bool \<Rightarrow> (string \<Rightarrow> pystr) \<Rightarrow> scan_state \<Rightarrow> int \<times> scan_state" where
  "supply_main env mode reports_exist reference s =
     (if reports_exist then (1, s)
      else case mode of
        Fixtures_mode \<Rightarrow> exit_of (sbind (scanner_fixtures env s) (\<lambda>_ s. (Inr True, s)))
      | Source_mode \<Rightarrow> exit_of (sbind (source_scan env s) (\<lambda>ok s. sbind (write_record env [] s) (\<lambda>_ s. (Inr ok, s))))
      | Runtime_mode \<Rightarrow> exit_of (runtime_scan env (map (\<lambda>n. (lit n, reference n)) PRODUCTS) s))"

subsection \<open>What a passed scan means\<close>

lemma rbind_InrD: "rbind r f = Inr b \<Longrightarrow> \<exists>a. r = Inr a \<and> f a = Inr b"
  by (simp add: rbind_eq_Inr)

lemma look_up_Inr [simp]: "look_up r s = (Inr a, t) \<longleftrightarrow> r = Inr a \<and> t = s"
  by (auto simp: look_up_def)

lemma keep_if_Inr: "keep_if f xs = Inr ys \<Longrightarrow> ys = filter (\<lambda>x. f x = Inr True) xs \<and> list_all (\<lambda>x. is_ok (f x)) xs"
  by (induction xs arbitrary: ys) (auto simp: rbind_eq_Inr)

text \<open>Why a finding may be ignored: a policy that is active today covers it, and the probe of the scanned image
  found the runtime that the policy was reviewed for.\<close>

definition excused :: "scan_env \<Rightarrow> bool \<Rightarrow> pystr \<Rightarrow> pyval \<Rightarrow> bool" where
  "excused env risk source m \<longleftrightarrow> (\<exists>p runtime s t. load_policy env risk = Inr p \<and> active env p
     \<and> candidate p m = Inr True \<and> image_source source
     \<and> inspect_python_runtime env (drop 7 source) (policy_files risk) s = (Inr runtime, t)
     \<and> py_eq runtime (po_runtime p))"

lemma evaluate_python_policy_Inr:
  assumes "evaluate_python_policy env risk blocked source target s = (Inr es, t)"
  shows "(\<exists>P. es = filter P blocked) \<and> (es = [] \<or> target = lit ''backend'' \<or> target = lit ''runner'')
    \<and> (\<forall>m \<in> set es. excused env risk source m)"
proof (cases "es = []")
  case False
  with assms obtain p c s1 s2 runtime where *: "target = lit ''backend'' \<or> target = lit ''runner''" "image_source source"
    "load_policy env risk = Inr p" "keep_if (candidate p) blocked = Inr c" "active env p"
    "inspect_python_runtime env (drop 7 source) (policy_files risk) s1 = (Inr runtime, s2)"
    "py_eq runtime (po_runtime p)" "es = c"
    by (auto simp: evaluate_python_policy_def sbind_Inr Let_def split: if_splits)
  note k = keep_if_Inr [OF *(4)]
  have "excused env risk source m" if "m \<in> set es" for m
    using that * k unfolding excused_def by auto
  moreover have "es = filter (\<lambda>x. candidate p x = Inr True) blocked" using k *(8) by simp
  ultimately show ?thesis using *(1) by blast
next
  case True
  have "es = filter (\<lambda>_. False) blocked" by (simp add: True)
  then have "\<exists>P. es = filter P blocked" by (rule exI [of "\<lambda>P. es = filter P blocked"])
  then show ?thesis by (simp add: True)
qed

lemma filter_length_mono: "(\<And>x. A x \<Longrightarrow> B x) \<Longrightarrow> length (filter A xs) \<le> length (filter B xs)"
  by (induction xs) auto

lemma filter_length_eq:
  assumes "\<And>x. A x \<Longrightarrow> B x" "length (filter A xs) = length (filter B xs)" "x \<in> set xs" "B x"
  shows "A x"
  using assms(2-4)
proof (induction xs)
  case (Cons y ys)
  have "length (filter A ys) \<le> length (filter B ys)" by (rule filter_length_mono) (rule assms(1))
  then show ?case using Cons assms(1) [of y] by (auto split: if_splits)
qed simp

lemma all_findings_excused:
  assumes "es = filter P blocked" "as = filter Q (filter (\<lambda>m. \<not> listed_in es m) blocked)"
    and "length blocked = length es + length as" "m \<in> set blocked"
  shows "m \<in> set es \<or> m \<in> set as"
proof (rule ccontr)
  assume out: "\<not> ?thesis"
  have self: "x \<in> set es \<Longrightarrow> listed_in es x" for x by (auto simp: listed_in_def list_ex_iff)
  have as: "as = filter (\<lambda>x. Q x \<and> \<not> listed_in es x) blocked" by (simp add: assms(2) conj_commute)
  have "length es \<le> length (filter (\<lambda>x. x \<in> set es) blocked)"
    unfolding assms(1) by (rule order_trans [OF filter_length_mono [of P "\<lambda>x. x \<in> set (filter P blocked) \<or> P x"]])
      (auto intro: eq_refl arg_cong [where f = length] filter_cong)
  moreover have "length (filter (\<lambda>x. x \<in> set es) blocked) + length (filter (\<lambda>x. x \<notin> set es) blocked) = length blocked"
    by (rule sum_length_filter_compl)
  moreover have "length as \<le> length (filter (\<lambda>x. x \<notin> set es) blocked)"
    unfolding as by (rule filter_length_mono) (use self in blast)
  ultimately have eq: "length as = length (filter (\<lambda>x. x \<notin> set es) blocked)" using assms(3) by linarith
  have "Q m \<and> \<not> listed_in es m"
    by (rule filter_length_eq [of "\<lambda>x. Q x \<and> \<not> listed_in es x" "\<lambda>x. x \<notin> set es" blocked])
      (use self out eq assms(4) in \<open>auto simp: as\<close>)
  then show False using out assms(4) by (auto simp: as)
qed

text \<open>What \<open>True\<close> means: every blocking finding of the report that was just written is excused.\<close>

definition reviewed_findings :: "scan_env \<Rightarrow> pystr \<Rightarrow> pystr \<Rightarrow> pyval list \<Rightarrow> bool" where
  "reviewed_findings env source name blocked \<longleftrightarrow>
     (\<forall>m \<in> set blocked. (name = lit ''backend'' \<or> name = lit ''runner'')
        \<and> (excused env False source m \<or> excused env True source m))"

definition passed_scan :: "scan_env \<Rightarrow> pystr \<Rightarrow> pystr \<Rightarrow> bool" where
  "passed_scan env source name \<longleftrightarrow> (\<exists>s packages report blocked.
     rbind (read_json env (report_name name ''.syft.json'') s) (check_inventory name) = Inr packages \<and> packages \<noteq> []
     \<and> tr_code (se_tool env (Grype name)) = Some 0
     \<and> read_json env (report_name name ''.grype.json'') (tool_effect (Grype name) (se_tool env (Grype name)) s) = Inr report
     \<and> blocking_findings report = Inr blocked \<and> reviewed_findings env source name blocked)"

lemma check_inventory_nonempty: "check_inventory name v = Inr packages \<Longrightarrow> packages \<noteq> []"
  by (auto simp: check_inventory_def rbind_eq_Inr demand_def as_list_def split: if_splits pyval.splits)

lemma judge_findings_reviewed:
  assumes "judge_findings env blocked source name s = (Inr (es, as), t)"
    and "length blocked = length es + length as"
  shows "reviewed_findings env source name blocked"
proof -
  obtain s1 where e: "evaluate_python_policy env False blocked source name s = (Inr es, s1)"
    and a: "evaluate_python_policy env True (filter (\<lambda>m. \<not> listed_in es m) blocked) source name s1 = (Inr as, t)"
    using assms(1) by (auto simp: judge_findings_def sbind_Inr)
  note E = evaluate_python_policy_Inr [OF e] and A = evaluate_python_policy_Inr [OF a]
  obtain P where P: "es = filter P blocked" using E by blast
  obtain Q where Q: "as = filter Q (filter (\<lambda>m. \<not> listed_in es m) blocked)" using A by blast
  show ?thesis
    unfolding reviewed_findings_def
  proof
    fix m assume "m \<in> set blocked"
    from all_findings_excused [OF P Q assms(2) this] show "(name = lit ''backend'' \<or> name = lit ''runner'')
        \<and> (excused env False source m \<or> excused env True source m)"
    proof
      assume m: "m \<in> set es"
      then have "es \<noteq> []" by auto
      with E m show ?thesis by blast
    next
      assume m: "m \<in> set as"
      then have "as \<noteq> []" by auto
      with A m show ?thesis by blast
    qed
  qed
qed

lemma run_zero: "run env cmd [0] s = (Inr c, t) \<Longrightarrow>
    tr_code (se_tool env cmd) = Some 0 \<and> t = tool_effect cmd (se_tool env cmd) s"
  by (auto simp: run_def Let_def split: option.splits if_splits)

lemma scan_passed:
  assumes "scan env source name s = (Inr True, t)"
  shows "passed_scan env source name"
proof -
  obtain c1 s1 packages c2 s2 report blocked es as s3 where *:
    "run env (Syft source name) [0] s = (Inr c1, s1)"
    "rbind (read_json env (report_name name ''.syft.json'') s1) (check_inventory name) = Inr packages"
    "run env (Grype name) [0] s1 = (Inr c2, s2)"
    "read_json env (report_name name ''.grype.json'') s2 = Inr report"
    "blocking_findings report = Inr blocked"
    "judge_findings env blocked source name s2 = (Inr (es, as), s3)"
    "length blocked = length es + length as"
    using assms by (auto simp: scan_def sbind_Inr)
  have "packages \<noteq> []" using *(2) check_inventory_nonempty by (auto simp: rbind_eq_Inr)
  then show ?thesis
    unfolding passed_scan_def
    using * run_zero [OF *(3)] judge_findings_reviewed [OF *(6,7)] by blast
qed

subsection \<open>The images of a release\<close>

lemma scan_products_passed:
  assumes "scan_products env products ids ok s = (Inr (ids', ok'), t)"
  shows "\<exists>new. ids' = ids @ new \<and> map fst new = map fst products
    \<and> list_all2 (\<lambda>(n, r) (n', i). se_image_id env r = Inr i) products new
    \<and> (ok' \<longrightarrow> ok \<and> (\<forall>(n, i) \<in> set new. passed_scan env (lit ''docker:'' @ i) n))"
  using assms
proof (induction env products ids ok s rule: scan_products.induct)
  case (2 env name reference products ids ok s)
  obtain iid passed s1 where i: "se_image_id env reference = Inr iid"
    and p: "scan env (lit ''docker:'' @ iid) name s = (Inr passed, s1)"
    and r: "scan_products env products (ids @ [(name, iid)]) (passed \<and> ok) s1 = (Inr (ids', ok'), t)"
    using "2.prems" by (auto simp: sbind_Inr)
  have q: "passed \<Longrightarrow> passed_scan env (lit ''docker:'' @ iid) name" using p scan_passed by simp
  obtain new where n: "ids' = (ids @ [(name, iid)]) @ new" "map fst new = map fst products"
    "list_all2 (\<lambda>(n, r) (n', i). se_image_id env r = Inr i) products new"
    "ok' \<longrightarrow> (passed \<and> ok) \<and> (\<forall>(n, i) \<in> set new. passed_scan env (lit ''docker:'' @ i) n)"
    using "2.IH" [OF r] by blast
  show ?case by (rule exI [of _ "(name, iid) # new"]) (use n i q in auto)
qed auto

subsection \<open>What every step keeps\<close>

text \<open>File names stay distinct, and a probe whose container can be removed leaves no container.\<close>

definition kept :: "scan_env \<Rightarrow> scan_state \<Rightarrow> scan_state \<Rightarrow> bool" where
  "kept env s t \<longleftrightarrow> (distinct (map fst (sc_files s)) \<longrightarrow> distinct (map fst (sc_files t)))
     \<and> ((\<forall>i files. pb_remove (se_probe env i files) = Inr ()) \<longrightarrow> sc_containers t = sc_containers s)"

interpretation kept_frame: step_frame "kept env" for env
  by unfold_locales (simp_all add: kept_def)

lemma kept_put_file: "kept env s (put_file n c s)"
  by (simp add: kept_def put_file_def distinct_update)

lemma kept_put_files: "kept env s (fold (\<lambda>(n, c). put_file n c) ncs s)"
proof (induction ncs arbitrary: s)
  case (Cons nc ncs)
  obtain n c where nc: "nc = (n, c)" by (cases nc)
  show ?case using kept_frame.frame_trans [OF kept_put_file Cons.IH] by (simp add: nc)
qed (simp add: kept_frame.frame_refl)

lemma kept_tool_effect: "kept env s (tool_effect cmd r s)"
  using kept_put_files [of env s "zip (outputs cmd) (tr_out r)"]
  by (auto simp: tool_effect_def Let_def kept_def split: tool_cmd.splits)

lemma kept_basic:
  "preserves (kept env) (run env cmd expected)" "preserves (kept env) (write_file env n c)"
  "preserves (kept env) (\<lambda>s. look_up (f s) s)" "preserves (kept env) (\<lambda>s. (r, s))"
  "preserves (kept env) (inspect_python_runtime env i files)"
  using kept_tool_effect [of env] kept_put_file [of env] kept_frame.frame_refl [of env]
  by (auto simp: preserves_def run_def Let_def write_file_def look_up_def split: option.splits)
    (auto simp: inspect_python_runtime_def Let_def kept_def split: sum.splits)

lemmas kept_sbind = kept_frame.preserves_sbind

lemma kept_evaluate: "preserves (kept env) (evaluate_python_policy env risk blocked source target)"
  unfolding evaluate_python_policy_def Let_def
  by (intro preserves_if_state kept_sbind kept_basic)

lemma kept_judge: "preserves (kept env) (judge_findings env blocked source name)"
  unfolding judge_findings_def by (intro kept_sbind kept_evaluate kept_basic)

lemma kept_scan: "preserves (kept env) (scan env source name)"
  unfolding scan_def
  by (intro kept_sbind kept_basic kept_judge) (auto intro!: kept_sbind kept_basic split: prod.split)

lemma kept_scan_products: "preserves (kept env) (scan_products env products ids ok)"
proof (induction products arbitrary: ids ok)
  case (Cons p products)
  obtain n r where p: "p = (n, r)" by (cases p)
  show ?case unfolding p scan_products.simps by (intro kept_sbind kept_basic kept_scan Cons.IH)
qed (simp add: preserves_def kept_frame.frame_refl)

subsection \<open>The record of a build\<close>

lemma distinct_map_sort_key: "distinct (map fst (sort_key fst xs)) = distinct (map fst (xs :: ('a :: linorder \<times> 'b) list))"
proof -
  have "mset (map fst (sort_key fst xs)) = mset (map fst xs)" by simp
  then show ?thesis by (rule mset_eq_imp_distinct_iff)
qed

lemma insort_map_text:
  "insort_key fst (k, PStr v) (map (\<lambda>(k, v). (k, PStr v)) kvs) = map (\<lambda>(k, v). (k, PStr v)) (insort_key fst (k, v) kvs)"
  by (induction kvs) auto

lemma map_of_sort_key_fst:
  "distinct (map fst xs) \<Longrightarrow> map_of (sort_key fst xs) = map_of (xs :: ('a :: linorder \<times> 'b) list)"
  by (subst map_of_inject_set) (auto simp: distinct_map_sort_key)

lemma sorted_items_text_items: "sorted_items (text_items kvs) = text_items (sort_key fst kvs)"
proof -
  have "map (\<lambda>(k, v). (k, sorted_items v)) (map (\<lambda>(k, v). (k, PStr v)) kvs) = map (\<lambda>(k, v). (k, PStr v)) kvs"
    by auto
  moreover have "sort_key fst (map (\<lambda>(k, v). (k, PStr v)) kvs) = map (\<lambda>(k, v). (k, PStr v)) (sort_key fst kvs)"
    by (induction kvs) (auto simp: insort_map_text)
  ultimately show ?thesis by (simp add: text_items_def del: map_map)
qed

lemma get_item_sorted_record:
  fixes env commit dirty ids inputs files
  defines "r \<equiv> sorted_items (build_record env commit dirty ids inputs files)"
  shows "get_item r ''image_ids'' = Inr (text_items (sort_key fst ids))"
    and "get_item r ''files'' = Inr (text_items (sort_key fst files))"
proof -
  let ?kvs = "[(lit ''product_version'', PStr (se_version env)), (lit ''source_commit'', PStr commit),
      (lit ''worktree_dirty'', PBool dirty), (lit ''image_ids'', text_items (sort_key fst ids)),
      (lit ''external_image_references'', PDict []),
      (lit ''tool_manifest_sha256'', PStr (se_sha256 env (fst inputs))),
      (lit ''python_exception_policy_sha256'', PStr (se_sha256 env (fst (snd inputs)))),
      (lit ''python_risk_acceptance_policy_sha256'', PStr (se_sha256 env (snd (snd inputs)))),
      (lit ''files'', text_items (sort_key fst files))]"
  have "r = PDict (sort_key fst ?kvs)"
    by (simp add: r_def build_record_def sorted_items_text_items)
  moreover have "map_of (sort_key fst ?kvs) = map_of ?kvs" by (rule map_of_sort_key_fst) simp
  ultimately show "get_item r ''image_ids'' = Inr (text_items (sort_key fst ids))"
    "get_item r ''files'' = Inr (text_items (sort_key fst files))"
    by (simp_all add: get_item_def)
qed

lemma recorded_ids_text_items:
  assumes "recorded_ids (text_items ids) = Inr ids'"
  shows "ids' = ids \<and> same_names PRODUCTS ids \<and> list_all (\<lambda>(_, i). image_id i) ids"
proof -
  have e: "each (\<lambda>(k, w). rbind (as_text w) (\<lambda>s. Inr (k, s))) (map (\<lambda>(k, v). (k, PStr v)) ids) = Inr ids"
    by (induction ids) (auto simp: as_text_def)
  have m: "map fst (map (\<lambda>(k, v). (k, PStr v)) ids) = map fst ids" by auto
  show ?thesis
    using assms e by (auto simp: recorded_ids_def text_items_def as_items_def rbind_eq_Inr demand_def same_names_def
        list_all_iff image_image split_beta split: if_splits)
qed

definition candidate_tags :: "(pystr \<times> pystr) list \<Rightarrow> (pystr \<times> pystr) list" where
  "candidate_tags ids = map (\<lambda>(n, i). (lit ''soj-'' @ n @ lit '':ci'', i)) ids"

lemma put_files_tags: "sc_tags (fold (\<lambda>(n, c). put_file n c) ncs s) = sc_tags s"
  by (induction ncs arbitrary: s) (auto simp: put_file_def)

lemma tool_effect_tags:
  "sc_tags (tool_effect cmd r s) = sc_tags s @
     (case cmd of Docker_tag i t \<Rightarrow> if tr_code r = Some 0 then [(t, i)] else [] | _ \<Rightarrow> [])"
  by (auto simp: tool_effect_def Let_def put_files_tags split: tool_cmd.splits)

lemma tag_all_tags:
  assumes "tag_all env ids s = (r, t)"
  shows "\<exists>k. sc_tags t = sc_tags s @ take k (candidate_tags ids) \<and> (r = Inr () \<longrightarrow> take k (candidate_tags ids) = candidate_tags ids)"
  using assms
proof (induction env ids s rule: tag_all.induct)
  case (2 env name iid ids s)
  let ?cmd = "Docker_tag iid (lit ''soj-'' @ name @ lit '':ci'')"
  show ?case
  proof (cases "tr_code (se_tool env ?cmd) = Some 0")
    case True
    then have run: "run env ?cmd [0] s = (Inr 0, tool_effect ?cmd (se_tool env ?cmd) s)" by (simp add: run_def)
    then obtain k where k: "sc_tags t = sc_tags (tool_effect ?cmd (se_tool env ?cmd) s) @ take k (candidate_tags ids)"
      "r = Inr () \<longrightarrow> take k (candidate_tags ids) = candidate_tags ids"
      using "2.IH" [of "tool_effect ?cmd (se_tool env ?cmd) s"] "2.prems" by (auto simp: sbind_simps)
    show ?thesis
      by (rule exI [of _ "Suc k"]) (use k True in \<open>auto simp: tool_effect_tags candidate_tags_def\<close>)
  next
    case False
    then have "run env ?cmd [0] s = (Inl Tool_error, tool_effect ?cmd (se_tool env ?cmd) s)
        \<or> run env ?cmd [0] s = (Inl (Rejected ''tool failed''), tool_effect ?cmd (se_tool env ?cmd) s)"
      by (auto simp: run_def Let_def split: option.splits)
    then have "t = tool_effect ?cmd (se_tool env ?cmd) s" "r \<noteq> Inr ()"
      using "2.prems" by (auto simp: sbind_simps)
    then show ?thesis using False by (auto simp: tool_effect_tags intro!: exI [of _ 0])
  qed
qed (auto simp: candidate_tags_def)

lemma run_not_tag: "(\<And>i t. cmd \<noteq> Docker_tag i t) \<Longrightarrow> run env cmd expected s = (r, t) \<Longrightarrow> sc_tags t = sc_tags s"
  by (cases cmd) (auto simp: run_def Let_def tool_effect_tags split: option.splits if_splits)

text \<open>The three outcomes of loading a candidate.\<close>

lemma load_candidate_cases:
  assumes "load_candidate env s = (r, t)"
  shows "sc_tags t = sc_tags s \<and> \<not> is_ok r
    \<or> (\<exists>ids k. checked_candidate env s = Inr ids \<and> confirm_loaded env ids = Inr ()
        \<and> sc_tags t = sc_tags s @ take k (candidate_tags ids)
        \<and> (is_ok r \<longrightarrow> r = Inr ids \<and> take k (candidate_tags ids) = candidate_tags ids))"
proof (cases "checked_candidate env s")
  case (Inl e)
  then have "r = Inl e \<and> t = s" using assms by (simp add: load_candidate_def look_up_def sbind_simps)
  then show ?thesis by simp
next
  case (Inr ids)
  obtain q s1 where load: "run env Docker_load [0] s = (q, s1)" by (cases "run env Docker_load [0] s")
  have tags: "sc_tags s1 = sc_tags s" by (rule run_not_tag [OF _ load]) simp
  show ?thesis
  proof (cases "is_ok q \<and> confirm_loaded env ids = Inr ()")
    case False
    then have "t = s1 \<and> \<not> is_ok r"
      using assms load Inr
      by (cases q; cases "confirm_loaded env ids") (auto simp: load_candidate_def look_up_def sbind_simps)
    then show ?thesis using tags by simp
  next
    case True
    obtain q2 s2 where tag: "tag_all env ids s1 = (q2, s2)" by (cases "tag_all env ids s1")
    have "t = s2 \<and> (is_ok r \<longrightarrow> r = Inr ids \<and> q2 = Inr ())"
      using assms load Inr True tag
      by (cases q; cases q2) (auto simp: load_candidate_def look_up_def sbind_simps)
    then show ?thesis using tag_all_tags [OF tag] tags Inr True by (metis (no_types))
  qed
qed

lemma digests_lookup:
  assumes "distinct (map fst (sc_files s))" "n \<noteq> lit ''build-record.json''"
  shows "map_of (sort_key fst (digests env s)) n = map_option (se_sha256 env) (get_file s n)"
proof -
  let ?files = "filter (\<lambda>(n, _). n \<noteq> lit ''build-record.json'') (sort_key fst (sc_files s))"
  have m: "map_of (map (\<lambda>(n, c). (n, se_sha256 env c)) xs) n = map_option (se_sha256 env) (map_of xs n)" for xs
    by (induction xs) auto
  have f: "map_of (filter (\<lambda>(n, _). n \<noteq> lit ''build-record.json'') xs) n = map_of xs n" for xs :: "(pystr \<times> bytes) list"
    using assms(2) by (induction xs) auto
  have "map fst (digests env s) = map fst ?files" by (auto simp: digests_def)
  moreover have "distinct (map fst (filter P xs))" if "distinct (map fst xs)" for P and xs :: "(pystr \<times> bytes) list"
    using that by (rule distinct_map_filter)
  ultimately have "distinct (map fst (digests env s))" using assms(1) by (simp add: distinct_map_sort_key)
  then show ?thesis
    by (simp add: map_of_sort_key_fst) (simp add: digests_def m f map_of_sort_key_fst [OF assms(1)] get_file_def)
qed

lemma get_file_put [simp]: "get_file (put_file n c s) m = (if m = n then Some c else get_file s m)"
  by (simp add: get_file_def put_file_def update_conv')

lemma put_file_names: "distinct (map fst (sc_files s)) \<Longrightarrow> distinct (map fst (sc_files (put_file n c s)))"
  by (simp add: put_file_def distinct_update)

lemma write_record_Inr:
  assumes "write_record env ids s = (Inr u, t)"
  shows "\<exists>commit dirty inputs. t = put_file (lit ''build-record.json'')
    (se_dumps env (sorted_items (build_record env commit dirty ids inputs (digests env s)))) s"
  using assms by (auto simp: write_record_def sbind_Inr Let_def write_file_def split: if_splits; blast)

lemma runtime_scan_passed:
  assumes "runtime_scan env products s = (Inr True, t)"
  shows "\<exists>ids s1 commit dirty inputs. map fst ids = map fst products \<and> same_names PRODUCTS products
    \<and> (\<forall>(n, i) \<in> set ids. passed_scan env (lit ''docker:'' @ i) n) \<and> kept env s s1
    \<and> t = put_file (lit ''build-record.json'')
        (se_dumps env (sorted_items (build_record env commit dirty ids inputs (digests env s1)))) s1"
proof -
  obtain ids s1 c s2 where *: "same_names PRODUCTS products"
    "scan_products env products [] True s = (Inr (ids, True), s1)"
    "run env (Docker_save (map snd ids)) [0] s1 = (Inr c, s2)" "write_record env ids s2 = (Inr (), t)"
    using assms by (auto simp: runtime_scan_def sbind_Inr split: if_splits)
  have "kept env s s1" by (rule preservesD [OF kept_scan_products *(2)])
  moreover have "kept env s1 s2" by (rule preservesD [OF kept_basic(1) *(3)])
  ultimately have "kept env s s2" by (rule kept_frame.frame_trans)
  moreover have "map fst ids = map fst products \<and> (\<forall>(n, i) \<in> set ids. passed_scan env (lit ''docker:'' @ i) n)"
    using scan_products_passed [OF *(2)] by auto
  ultimately show ?thesis using * write_record_Inr [OF *(4)] by blast
qed

lemma confirm_loaded_all:
  "confirm_loaded env ids = Inr () \<Longrightarrow> (n, i) \<in> set ids \<Longrightarrow> se_image_id env i = Inr i"
  by (induction env ids rule: confirm_loaded.induct) (auto simp: rbind_eq_Inr demand_def split: if_splits)

subsection \<open>Properties\<close>

text \<open>C32: A target passes the scan only when its package inventory is not empty and every finding with a severity
  of High or extras and an available fix is excused: the target is the backend or the runner, a reviewed policy that is
  active today covers the finding, and the probe of exactly the scanned image found the runtime that was reviewed.
  The number of excused findings is never counted twice, and the probes leave no container behind when Docker removes
  them.\<close>

theorem scan_passes_only_reviewed_findings:
  assumes "scan env source name s = (Inr True, t)"
  shows "passed_scan env source name
    \<and> ((\<forall>i files. pb_remove (se_probe env i files) = Inr ()) \<longrightarrow> sc_containers t = sc_containers s)"
  using scan_passed [OF assms] preservesD [OF kept_scan assms] by (simp add: kept_def)

text \<open>C33: The candidate that a later job loads consists of exactly the five images that passed the scan: after the
  runtime mode exits with 0, loading from the same record succeeds only with an archive whose digest is that of the
  saved one, gives exactly the image IDs of the scan, each confirmed by Docker, and tags just these.\<close>

theorem candidate_is_what_was_scanned:
  assumes "supply_main env Runtime_mode False reference s = (0, s1)" and "sc_files s = []"
    and "\<And>v. get_file s1 (lit ''build-record.json'') = Some (se_dumps env v) \<Longrightarrow> se_loads env2 (se_dumps env v) = Some v"
    and "get_file s2 (lit ''build-record.json'') = get_file s1 (lit ''build-record.json'')"
    and "load_candidate env2 s2 = (Inr ids, s3)"
  shows "set (map fst ids) = set (map lit PRODUCTS)
    \<and> (\<forall>(n, i) \<in> set ids. passed_scan env (lit ''docker:'' @ i) n \<and> image_id i \<and> se_image_id env2 i = Inr i)
    \<and> sc_tags s3 = sc_tags s2 @ candidate_tags ids
    \<and> (\<exists>saved archive. get_file s1 (lit ''runtime.tar'') = Some saved \<and> get_file s2 (lit ''runtime.tar'') = Some archive
        \<and> se_sha256 env2 archive = se_sha256 env saved)"
proof -
  have "runtime_scan env (map (\<lambda>n. (lit n, reference n)) PRODUCTS) s = (Inr True, s1)"
    using assms(1) by (auto simp: supply_main_def exit_of_def split: prod.splits sum.splits if_splits)
  from runtime_scan_passed [OF this] obtain ids0 s0 commit dirty inputs where
    ids0: "\<forall>(n, i) \<in> set ids0. passed_scan env (lit ''docker:'' @ i) n" and k: "kept env s s0"
    and s1: "s1 = put_file (lit ''build-record.json'')
        (se_dumps env (sorted_items (build_record env commit dirty ids0 inputs (digests env s0)))) s0" by blast
  let ?r = "sorted_items (build_record env commit dirty ids0 inputs (digests env s0))"
  have rec: "read_json env2 (lit ''build-record.json'') s2 = Inr ?r"
    using assms(3) [of ?r] assms(4) by (simp add: s1 read_json_def)
  obtain kk where c: "checked_candidate env2 s2 = Inr ids" and cl: "confirm_loaded env2 ids = Inr ()"
    and tags: "sc_tags s3 = sc_tags s2 @ candidate_tags ids"
    using load_candidate_cases [OF assms(5)] by auto
  obtain archive digest where a: "get_file s2 (lit ''runtime.tar'') = Some archive"
    and d: "get_item (text_items (sort_key fst (digests env s0))) ''runtime.tar'' = Inr digest"
    and eq: "PStr (se_sha256 env2 archive) = digest"
    and rids: "recorded_ids (text_items (sort_key fst ids0)) = Inr ids"
    using c by (auto simp: checked_candidate_def rbind_eq_Inr rec get_item_sorted_record demand_def
        split: option.splits if_splits)
  have lookup: "get_item (text_items kvs) key = Inr v \<longleftrightarrow> (\<exists>t. map_of kvs (lit key) = Some t \<and> v = PStr t)" for kvs key v
    by (induction kvs) (auto simp: get_item_def text_items_def)
  have "distinct (map fst (sc_files s0))" using k assms(2) by (simp add: kept_def)
  from digests_lookup [OF this, of "lit ''runtime.tar''"] obtain saved where
    "get_file s0 (lit ''runtime.tar'') = Some saved" "se_sha256 env2 archive = se_sha256 env saved"
    using d eq by (auto simp: lookup)
  moreover note recorded_ids_text_items [OF rids]
  moreover have "se_image_id env2 i = Inr i" if "(n, i) \<in> set ids" for n i
    by (rule confirm_loaded_all [OF cl that])
  ultimately show ?thesis
    using ids0 tags a by (auto simp: s1 same_names_def list_all_iff)
qed

text \<open>No job tests an image under the tag of the candidate that was not verified: when loading changes any tag,
  the archive had the recorded digest, the record named five immutable IDs, and Docker had confirmed every one of
  them before the first tag was set; a load that succeeds has tagged all of them.\<close>

theorem tags_only_verified_images:
  assumes "load_candidate env s = (r, t)"
  shows "(sc_tags t \<noteq> sc_tags s \<longrightarrow> (\<exists>ids k. checked_candidate env s = Inr ids
      \<and> (\<forall>(n, i) \<in> set ids. se_image_id env i = Inr i) \<and> sc_tags t = sc_tags s @ take k (candidate_tags ids)))
    \<and> (\<forall>ids. r = Inr ids \<longrightarrow> sc_tags t = sc_tags s @ candidate_tags ids)"
proof (cases "sc_tags t = sc_tags s \<and> \<not> is_ok r")
  case True
  then show ?thesis by auto
next
  case False
  then obtain ids k where c: "checked_candidate env s = Inr ids" "confirm_loaded env ids = Inr ()"
    and tags: "sc_tags t = sc_tags s @ take k (candidate_tags ids)"
      "is_ok r \<longrightarrow> r = Inr ids \<and> take k (candidate_tags ids) = candidate_tags ids"
    using load_candidate_cases [OF assms] by blast
  have "\<forall>(n, i) \<in> set ids. se_image_id env i = Inr i" using confirm_loaded_all [OF c(2)] by blast
  then show ?thesis using c(1) tags by (intro conjI impI) (blast, auto)
qed

subsection \<open>Witnesses\<close>

text \<open>An injective byte form of JSON values, for the witnesses.\<close>

fun flat :: "pyval \<Rightarrow> nat list" where
  "flat PNone = [0]"
| "flat (PBool b) = [1, if b then 1 else 0]"
| "flat (PInt i) = [2, if i < 0 then 1 else 0, nat \<bar>i\<bar>]"
| "flat (PStr s) = 3 # length s # s"
| "flat (PList vs) = 4 # length vs # concat (map flat vs)"
| "flat (PDict kvs) = 5 # length kvs # concat (map (\<lambda>(k, v). length k # k @ flat v) kvs)"

lemma flat_prefix_free: "flat v @ r = flat w @ t \<Longrightarrow> v = w \<and> r = t"
proof (induction v arbitrary: w r t)
  case (PList vs)
  obtain ws where w: "w = PList ws" and len: "length vs = length ws" and
    eq: "concat (map flat vs) @ r = concat (map flat ws) @ t"
    using PList.prems by (cases w) auto
  from len eq PList.IH have "vs = ws \<and> r = t"
  proof (induction vs ws rule: list_induct2)
    case (Cons v vs w ws)
    have "v = w \<and> concat (map flat vs) @ r = concat (map flat ws) @ t"
      using Cons.prems(1) Cons.prems(2) [of v] by simp
    then show ?case using Cons.IH Cons.prems(2) by auto
  qed simp
  then show ?case by (simp add: w)
next
  case (PDict kvs)
  obtain ws where w: "w = PDict ws" and len: "length kvs = length ws" and
    eq: "concat (map (\<lambda>(k, v). length k # k @ flat v) kvs) @ r = concat (map (\<lambda>(k, v). length k # k @ flat v) ws) @ t"
    using PDict.prems by (cases w) auto
  from len eq PDict.IH have "kvs = ws \<and> r = t"
  proof (induction kvs ws rule: list_induct2)
    case (Cons p kvs q ws)
    obtain k v l u where p: "p = (k, v)" "q = (l, u)" by (cases p; cases q)
    have "length k = length l" and "k @ flat v @ concat (map (\<lambda>(k, v). length k # k @ flat v) kvs) @ r =
        l @ flat u @ concat (map (\<lambda>(k, v). length k # k @ flat v) ws) @ t"
      using Cons.prems(1) by (simp_all add: p)
    then have "k = l" by simp
    then have same: "v = u \<and> concat (map (\<lambda>(k, v). length k # k @ flat v) kvs) @ r
        = concat (map (\<lambda>(k, v). length k # k @ flat v) ws) @ t"
      using Cons.prems(1) Cons.prems(2) [of p v] by (simp add: p)
    have "kvs = ws \<and> r = t"
    proof (rule Cons.IH)
      show "concat (map (\<lambda>(k, v). length k # k @ flat v) kvs) @ r = concat (map (\<lambda>(k, v). length k # k @ flat v) ws) @ t"
        using same by simp
      fix x y z a b
      assume "x \<in> set kvs" "y \<in> Basic_BNFs.snds x" "flat y @ a = flat z @ b"
      then show "y = z \<and> a = b" using Cons.prems(2) [of x y a z b] by simp
    qed
    then show ?case using same by (simp add: p \<open>k = l\<close>)
  qed simp
  then show ?case by (simp add: w)
qed (case_tac w; auto split: if_splits)+

fun unary :: "nat list \<Rightarrow> bytes" where
  "unary [] = []"
| "unary (n # ns) = replicate n 1 @ 0 # unary ns"

lemma unary_inj: "unary xs = unary ys \<Longrightarrow> xs = ys"
proof (induction xs arbitrary: ys)
  case Nil
  then show ?case by (cases ys) auto
next
  case (Cons x xs)
  then obtain y zs where ys: "ys = y # zs" by (cases ys) auto
  have one: "replicate m 1 @ (0 :: byte) # a = replicate n 1 @ 0 # b \<Longrightarrow> m = n \<and> a = b" for m n a b
    by (induction m arbitrary: n) (case_tac n; auto)+
  show ?case using one [of x "unary xs" y "unary zs"] Cons by (simp add: ys)
qed

definition sample_json :: "pyval \<Rightarrow> bytes" where
  "sample_json v = unary (flat v)"

lemma sample_json_inj: "sample_json v = sample_json w \<Longrightarrow> v = w"
  using unary_inj flat_prefix_free [of v "[]" w "[]"] by (auto simp: sample_json_def)

definition digit_char :: "nat \<Rightarrow> bool" where "digit_char c \<longleftrightarrow> 48 \<le> c \<and> c \<le> 57"

definition sample_libs :: policy_libs where
  "sample_libs = \<lparr>pl_day = (\<lambda>s. Some (int (length s))), pl_digit = digit_char, pl_space = (\<lambda>c. c = 32)\<rparr>"

definition sample_policy :: "string list \<Rightarrow> string \<Rightarrow> (pystr \<times> pyval) list \<Rightarrow> pyval" where
  "sample_policy files cve extras = PDict ([
     (lit ''schema_version'', PInt 1), (lit ''id'', PStr [97]), (lit ''namespace'', PStr (lit ''nvd:cpe'')),
     (lit ''reviewed_on'', PStr [97]), (lit ''expires_on'', PStr [97, 97]),
     (lit ''artifact'', PDict (map (\<lambda>n. (lit n, PStr [97])) [''name'', ''version'', ''type'', ''purl''])),
     (lit ''runtime'', PDict [(lit ''python'', PList [PInt 3, PInt 12, PInt 14]),
        (lit ''expat'', PList [PInt 2, PInt 8, PInt 3]),
        (lit ''files'', PDict (map (\<lambda>n. (lit n, PStr (replicate 64 97))) files))]),
     (lit ''vulnerabilities'', PList [PDict [(lit ''id'', PStr (lit cve)), (lit ''reason'', PStr [97]),
        (lit ''evidence'', PList [PStr (lit ''https://'')])]])] @ extras)"

definition sample_reasons :: "(pystr \<times> pyval) list" where
  "sample_reasons = (lit ''kind'', PStr (lit ''risk-acceptance'')) # (lit ''targets'', PList (texts [''backend'', ''runner'']))
     # map (\<lambda>n. (lit n, PStr [97])) [''accepted_by'', ''exposure'', ''remediation'', ''revoke_when'']"

lemma get_or_sample_policy:
  assumes "n \<notin> set [''schema_version'', ''id'', ''namespace'', ''reviewed_on'', ''expires_on'', ''artifact'', ''runtime'',
    ''vulnerabilities'']"
  shows "get_or (sample_policy files cve extras) (lit n) absent =
    Inr (case map_of extras (lit n) of None \<Rightarrow> absent | Some w \<Rightarrow> w)"
  using assms unfolding sample_policy_def get_or_def by (simp del: replicate.simps)

lemma sample_runtime_ok:
  "check_runtime files (PDict [(lit ''python'', PList [PInt 3, PInt 12, PInt 14]),
     (lit ''expat'', PList [PInt 2, PInt 8, PInt 3]),
     (lit ''files'', PDict (map (\<lambda>n. (lit n, PStr (replicate 64 97))) files))]) = Inr ()"
proof -
  have "sha256_hex (replicate 64 97)" by (simp add: sha256_hex_def fullmatch_Rep_Cls in_cls_def list_all_iff)
  moreover have "same_names files (map (\<lambda>n. (lit n, PStr (replicate 64 97))) files)"
    by (auto simp: same_names_def image_iff)
  moreover have "same_names [''python'', ''expat'', ''files''] [(lit ''python'', a), (lit ''expat'', b), (lit ''files'', c)]" for a b c
    by (simp add: same_names_def)
  ultimately show ?thesis
    by (simp add: check_runtime_def as_items_def get_item_def demand_def check_version_def
        version_part_def list_all_iff del: replicate.simps)
qed

lemma sample_policy_loads:
  assumes "cve_id sample_libs (lit cve)"
  shows "\<exists>p. load_python_exception_policy sample_libs files (sample_policy files cve extras) = Inr p
    \<and> po_ids p = [lit cve] \<and> po_expires p - po_reviewed p = 1"
proof -
  have artifact: "check_artifact (PDict (map (\<lambda>n. (lit n, PStr [97])) [''name'', ''version'', ''type'', ''purl''])) =
      Inr (map (\<lambda>n. (lit n, PStr [97])) [''name'', ''version'', ''type'', ''purl''])"
    by (simp add: check_artifact_def as_items_def demand_def same_names_def)
  have vuln: "check_vulnerability sample_libs (PDict [(lit ''id'', PStr (lit cve)), (lit ''reason'', PStr [97]),
        (lit ''evidence'', PList [PStr (lit ''https://'')])]) = Inr (lit cve)"
    by (simp add: check_vulnerability_def get_item_def as_text_def demand_def assms evidence_urls_def startswith_def)
  have item: "get_item (sample_policy files cve extras) n = (case map_of [
     (lit ''schema_version'', PInt 1), (lit ''id'', PStr [97]), (lit ''namespace'', PStr (lit ''nvd:cpe'')),
     (lit ''reviewed_on'', PStr [97]), (lit ''expires_on'', PStr [97, 97]),
     (lit ''artifact'', PDict (map (\<lambda>n. (lit n, PStr [97])) [''name'', ''version'', ''type'', ''purl''])),
     (lit ''runtime'', PDict [(lit ''python'', PList [PInt 3, PInt 12, PInt 14]),
        (lit ''expat'', PList [PInt 2, PInt 8, PInt 3]),
        (lit ''files'', PDict (map (\<lambda>n. (lit n, PStr (replicate 64 97))) files))]),
     (lit ''vulnerabilities'', PList [PDict [(lit ''id'', PStr (lit cve)), (lit ''reason'', PStr [97]),
        (lit ''evidence'', PList [PStr (lit ''https://'')])]])] (lit n) of Some v \<Rightarrow> Inr v | None \<Rightarrow>
       (case map_of extras (lit n) of None \<Rightarrow> Inl Malformed | Some w \<Rightarrow> Inr w))" for n
    by (simp add: get_item_def sample_policy_def)
  have items: "get_item (sample_policy files cve extras) ''schema_version'' = Inr (PInt 1)"
    "get_item (sample_policy files cve extras) ''id'' = Inr (PStr [97])"
    "get_item (sample_policy files cve extras) ''namespace'' = Inr (PStr (lit ''nvd:cpe''))"
    "get_item (sample_policy files cve extras) ''reviewed_on'' = Inr (PStr [97])"
    "get_item (sample_policy files cve extras) ''expires_on'' = Inr (PStr [97, 97])"
    "get_item (sample_policy files cve extras) ''artifact'' =
       Inr (PDict (map (\<lambda>n. (lit n, PStr [97])) [''name'', ''version'', ''type'', ''purl'']))"
    "get_item (sample_policy files cve extras) ''runtime'' = Inr (PDict [(lit ''python'', PList [PInt 3, PInt 12, PInt 14]),
        (lit ''expat'', PList [PInt 2, PInt 8, PInt 3]),
        (lit ''files'', PDict (map (\<lambda>n. (lit n, PStr (replicate 64 97))) files))])"
    "get_item (sample_policy files cve extras) ''vulnerabilities'' = Inr (PList [PDict [(lit ''id'', PStr (lit cve)),
        (lit ''reason'', PStr [97]), (lit ''evidence'', PList [PStr (lit ''https://'')])]])"
    unfolding item by (simp_all del: replicate.simps)
  have days: "day sample_libs (PStr [97]) = Inr 1" "day sample_libs (PStr [97, 97]) = Inr 2"
    by (simp_all add: day_def as_text_def sample_libs_def)
  show ?thesis
    unfolding load_python_exception_policy_def items rbind_simps days artifact sample_runtime_ok as_list_def
      each.simps pyval.case vuln
    by (simp add: demand_def)
qed

definition sample_hash :: pystr where "sample_hash = replicate 64 97"

definition sample_env :: scan_env where
  "sample_env = \<lparr>se_libs = sample_libs, se_today = 0, se_today_text = [], se_docker_host = Some (lit ''unix://''),
     se_probe = (\<lambda>_ _. \<lparr>pb_info = Inr True, pb_create = Inr (), pb_start = Inr (), pb_wait = Inr 0,
       pb_logs = Inr (PDict []), pb_remove = Inr ()\<rparr>),
     se_exception_policy = Inr (sample_policy PYTHON_RUNTIME_FILES ''CVE-2026-10001'' []),
     se_risk_policy = Inr (sample_policy PYTHON_RISK_FILES ''CVE-2026-82049'' sample_reasons),
     se_tool = (\<lambda>cmd. \<lparr>tr_code = Some 0, tr_out = (case cmd of Syft _ _ \<Rightarrow> [[1], [1]] | Grype _ \<Rightarrow> [[2]]
       | Docker_save _ \<Rightarrow> [[3]] | _ \<Rightarrow> [])\<rparr>),
     se_loads = (\<lambda>b. if b = [1] then Some (PDict [(lit ''artifacts'', PList [PNone])])
       else if b = [2] then Some (PDict [(lit ''matches'', PList []), (lit ''descriptor'', PDict [])]) else None),
     se_dumps = sample_json, se_write = (\<lambda>_. True), se_image_id = (\<lambda>_. Inr (lit ''sha256:'' @ sample_hash)),
     se_rootless = Inr True, se_sha256 = (\<lambda>_. sample_hash), se_commit = Inr [], se_dirty = Inr False,
     se_version = [], se_inputs = Inr ([], [], []), se_locks = Inr []\<rparr>"

lemma sample_hash_ok: "sha256_hex sample_hash"
  by (simp add: sha256_hex_def sample_hash_def fullmatch_Rep_Cls in_cls_def list_all_iff)

lemma sample_image_ok: "image_id (lit ''sha256:'' @ sample_hash)" "image_source (lit ''docker:'' @ lit ''sha256:'' @ sample_hash)"
  by (simp_all add: image_id_def image_source_def startswith_def sample_hash_ok)

lemma sample_cves: "cve_id sample_libs (lit ''CVE-2026-10001'')" "cve_id sample_libs (lit ''CVE-2026-82049'')"
  by (simp_all add: cve_id_def lit_def sample_libs_def digit_char_def)

lemma sample_space: "\<not> pl_space sample_libs 97"
  by (simp add: sample_libs_def)

lemma sample_policies: "\<exists>p. load_policy sample_env risk = Inr p"
proof (cases risk)
  case False
  then show ?thesis
    using sample_policy_loads [OF sample_cves(1), of PYTHON_RUNTIME_FILES "[]"] by (auto simp: load_policy_def sample_env_def)
next
  case True
  let ?d = "sample_policy PYTHON_RISK_FILES ''CVE-2026-82049'' sample_reasons"
  obtain p where p: "load_python_exception_policy sample_libs PYTHON_RISK_FILES ?d = Inr p"
    "po_ids p = [lit ''CVE-2026-82049'']" "po_expires p - po_reviewed p = 1"
    using sample_policy_loads [OF sample_cves(2), of PYTHON_RISK_FILES sample_reasons] by blast
  have more: "get_or ?d (lit n) PNone = Inr (the (map_of sample_reasons (lit n)))"
    if "n \<in> {''kind'', ''targets'', ''accepted_by'', ''exposure'', ''remediation'', ''revoke_when''}" for n
    using that by (subst get_or_sample_policy) (auto simp: sample_reasons_def)
  have "each (\<lambda>key. get_or ?d (lit key) PNone) [''accepted_by'', ''exposure'', ''remediation'', ''revoke_when''] =
      Inr [PStr [97], PStr [97], PStr [97], PStr [97]]"
    by (simp add: more) (simp add: sample_reasons_def)
  moreover have "get_or ?d (lit ''kind'') PNone = Inr (PStr (lit ''risk-acceptance''))"
    "get_or ?d (lit ''targets'') PNone = Inr (PList (texts [''backend'', ''runner'']))"
    by (simp_all add: more) (simp_all add: sample_reasons_def)
  ultimately have "load_python_risk_policy sample_libs ?d = Inr p"
    using sample_space by (simp add: load_python_risk_policy_def p demand_def blank_def)
  then show ?thesis using True by (simp add: load_policy_def sample_env_def)
qed

lemma sample_judge: "\<exists>t. judge_findings sample_env [] (lit ''docker:'' @ lit ''sha256:'' @ sample_hash) name s = (Inr ([], []), t)"
proof -
  have "\<exists>t. evaluate_python_policy sample_env risk [] (lit ''docker:'' @ lit ''sha256:'' @ sample_hash) name s = (Inr [], t)" for risk s
  proof -
    obtain p where "load_policy sample_env risk = Inr p" using sample_policies by blast
    moreover have "se_write sample_env n" for n by (simp add: sample_env_def)
    ultimately show ?thesis
      by (auto simp: evaluate_python_policy_def sample_image_ok look_up_def sbind_simps write_file_def Let_def)
  qed
  then show ?thesis unfolding judge_findings_def by (metis (no_types, lifting) filter.simps(1) sbind_simps(2))
qed

lemma sample_scan: "\<exists>t. scan sample_env (lit ''docker:'' @ lit ''sha256:'' @ sample_hash) name s = (Inr True, t)"
  if "name \<noteq> lit ''dependencies''"
proof -
  let ?src = "lit ''docker:'' @ lit ''sha256:'' @ sample_hash"
  let ?s1 = "put_file (report_name name ''.cdx.json'') [1] (put_file (report_name name ''.syft.json'') [1] s)"
  let ?s2 = "put_file (report_name name ''.grype.json'') [2] ?s1"
  have "run sample_env (Syft ?src name) [0] s = (Inr 0, ?s1)"
    by (simp add: run_def sample_env_def tool_effect_def outputs_def)
  moreover have "run sample_env (Grype name) [0] ?s1 = (Inr 0, ?s2)"
    by (simp add: run_def sample_env_def tool_effect_def outputs_def)
  moreover have "rbind (read_json sample_env (report_name name ''.syft.json'') ?s1) (check_inventory name) = Inr [PNone]"
    using that by (simp add: read_json_def sample_env_def check_inventory_def get_or_def demand_def as_list_def report_name_def)
  moreover have "read_json sample_env (report_name name ''.grype.json'') ?s2 =
      Inr (PDict [(lit ''matches'', PList []), (lit ''descriptor'', PDict [])])"
    by (simp add: read_json_def sample_env_def)
  moreover have "blocking_findings (PDict [(lit ''matches'', PList []), (lit ''descriptor'', PDict [])]) = Inr []"
    by (simp add: blocking_findings_def get_or_def)
  moreover obtain s3 where "judge_findings sample_env [] ?src name ?s2 = (Inr ([], []), s3)" using sample_judge by blast
  moreover have "se_write sample_env n" for n by (simp add: sample_env_def)
  ultimately show ?thesis
    by (simp add: scan_def look_up_def sbind_simps get_item_def as_list_def write_file_def)
qed

theorem scan_passes_only_reviewed_findings_witness:
  "passed_scan sample_env (lit ''docker:'' @ lit ''sha256:'' @ sample_hash) (lit ''backend'')"
proof -
  obtain t where "scan sample_env (lit ''docker:'' @ lit ''sha256:'' @ sample_hash) (lit ''backend'')
      \<lparr>sc_files = [], sc_containers = 0, sc_tags = []\<rparr> = (Inr True, t)"
    using sample_scan [of "lit ''backend''"] by auto
  from scan_passes_only_reviewed_findings [OF this] show ?thesis by simp
qed

abbreviation sample_iid :: pystr where "sample_iid \<equiv> lit ''sha256:'' @ sample_hash"

lemma sample_products:
  assumes "lit ''dependencies'' \<notin> fst ` set products"
  shows "\<exists>t. scan_products sample_env products ids True s =
    (Inr (ids @ map (\<lambda>(n, _). (n, sample_iid)) products, True), t)"
  using assms
proof (induction products arbitrary: ids s)
  case (Cons p products)
  obtain n r where p: "p = (n, r)" by (cases p)
  obtain t where t: "scan sample_env (lit ''docker:'' @ sample_iid) n s = (Inr True, t)"
    using sample_scan [of n s] Cons.prems p by auto
  have "se_image_id sample_env r = Inr sample_iid" by (simp add: sample_env_def)
  then show ?case
    using Cons.IH [of "ids @ [(n, sample_iid)]" t] Cons.prems t by (simp add: p look_up_def sbind_simps)
qed simp

lemma recorded_ids_valid:
  assumes "same_names PRODUCTS ids" "list_all (\<lambda>(_, i). image_id i) ids"
  shows "recorded_ids (text_items ids) = Inr ids"
proof -
  have e: "each (\<lambda>(k, w). rbind (as_text w) (\<lambda>s. Inr (k, s))) (map (\<lambda>(k, v). (k, PStr v)) ids) = Inr ids"
    by (induction ids) (auto simp: as_text_def)
  have "same_names PRODUCTS (map (\<lambda>(k, v). (k, PStr v)) ids)"
    using assms(1) by (simp add: same_names_def image_image split_beta)
  moreover have "list_all (\<lambda>(_, w). case w of PStr s \<Rightarrow> image_id s | _ \<Rightarrow> False) (map (\<lambda>(k, v). (k, PStr v)) ids)"
    using assms(2) by (auto simp: list_all_iff)
  ultimately show ?thesis by (simp add: recorded_ids_def text_items_def as_items_def demand_def e)
qed

lemma sample_tags: "\<exists>t. tag_all (sample_env\<lparr>se_loads := f\<rparr>) ids s = (Inr (), t)"
proof (induction ids arbitrary: s)
  case (Cons p ids)
  obtain n i where p: "p = (n, i)" by (cases p)
  have "run (sample_env\<lparr>se_loads := f\<rparr>) (Docker_tag i (lit ''soj-'' @ n @ lit '':ci'')) [0] s =
      (Inr 0, tool_effect (Docker_tag i (lit ''soj-'' @ n @ lit '':ci''))
        (se_tool sample_env (Docker_tag i (lit ''soj-'' @ n @ lit '':ci''))) s)"
    by (simp add: run_def sample_env_def)
  then show ?case using Cons.IH by (simp add: p sbind_simps)
qed simp

definition no_reports :: scan_state where
  "no_reports = \<lparr>sc_files = [], sc_containers = 0, sc_tags = []\<rparr>"

definition sample_ids :: "(pystr \<times> pystr) list" where
  "sample_ids = map (\<lambda>n. (lit n, sample_iid)) PRODUCTS"

lemma sample_release:
  "\<exists>s1 loads ids s3. supply_main sample_env Runtime_mode False (\<lambda>_. []) no_reports = (0, s1)
    \<and> (\<forall>v. get_file s1 (lit ''build-record.json'') = Some (se_dumps sample_env v)
        \<longrightarrow> se_loads (sample_env\<lparr>se_loads := loads\<rparr>) (se_dumps sample_env v) = Some v)
    \<and> load_candidate (sample_env\<lparr>se_loads := loads\<rparr>) s1 = (Inr ids, s3)"
proof -
  let ?products = "map (\<lambda>n. (lit n, [])) PRODUCTS :: (pystr \<times> pystr) list"
  have "lit ''dependencies'' \<notin> fst ` set ?products" by (simp add: PRODUCTS_def)
  then obtain t where t: "scan_products sample_env ?products [] True no_reports = (Inr (sample_ids, True), t)"
    using sample_products [of ?products "[]" no_reports] by (auto simp: sample_ids_def comp_def)
  let ?t = "put_file (lit ''runtime.tar'') [3] t"
  let ?r = "sorted_items (build_record sample_env [] False sample_ids ([], [], []) (digests sample_env ?t))"
  let ?s1 = "put_file (lit ''build-record.json'') (sample_json ?r) ?t"
  have save: "run sample_env (Docker_save (map snd sample_ids)) [0] t = (Inr 0, ?t)"
    by (simp add: run_def sample_env_def tool_effect_def outputs_def)
  have written: "write_record sample_env sample_ids ?t = (Inr (), ?s1)"
    unfolding write_record_def by (simp add: look_up_def sample_env_def sbind_simps Let_def write_file_def)
  have "rootless sample_env = Inr ()"
    by (simp add: rootless_def unix_docker_host_def sample_env_def demand_def startswith_def)
  moreover have "same_names PRODUCTS ?products" by (simp add: same_names_def image_image)
  ultimately have main: "supply_main sample_env Runtime_mode False (\<lambda>_. []) no_reports = (0, ?s1)"
    using t save written by (simp add: supply_main_def exit_of_def runtime_scan_def look_up_def sbind_simps)
  let ?loads = "\<lambda>b. if b = sample_json ?r then Some ?r else None"
  let ?env = "sample_env\<lparr>se_loads := ?loads\<rparr>"
  have law: "se_loads ?env (sample_json v) = Some v"
    if "get_file ?s1 (lit ''build-record.json'') = Some (sample_json v)" for v
    using that sample_json_inj [of ?r v] by simp
  have "kept sample_env no_reports t" by (rule preservesD [OF kept_scan_products t])
  then have names: "distinct (map fst (sc_files ?t))" by (simp add: kept_def no_reports_def put_file_names)
  have digest: "get_item (text_items (sort_key fst (digests sample_env ?t))) ''runtime.tar'' = Inr (PStr sample_hash)"
  proof -
    have "map_of (sort_key fst (digests sample_env ?t)) (lit ''runtime.tar'') = Some sample_hash"
      using digests_lookup [OF names, of "lit ''runtime.tar''" sample_env] by (simp add: sample_env_def)
    moreover have "map_of (map (\<lambda>(k, v). (k, PStr v)) xs) k = map_option PStr (map_of xs k)" for xs and k :: pystr
      by (induction xs) auto
    ultimately show ?thesis by (simp add: get_item_def text_items_def)
  qed
  have ids: "recorded_ids (text_items (sort_key fst sample_ids)) = Inr (sort_key fst sample_ids)"
    by (rule recorded_ids_valid) (auto simp: sample_ids_def same_names_def list_all_iff image_image sample_image_ok(1))
  have "read_json ?env (lit ''build-record.json'') ?s1 = Inr ?r" by (simp add: read_json_def)
  moreover have "get_file ?s1 (lit ''runtime.tar'') = Some [3]" by simp
  moreover have "rootless ?env = Inr ()"
    by (simp add: rootless_def unix_docker_host_def sample_env_def demand_def startswith_def)
  moreover have "se_sha256 ?env [3] = sample_hash" by (simp add: sample_env_def)
  ultimately have checked: "checked_candidate ?env ?s1 = Inr (sort_key fst sample_ids)"
    by (simp add: checked_candidate_def get_item_sorted_record digest ids demand_def)
  have confirm: "confirm_loaded ?env xs = Inr ()" if "snd ` set xs \<subseteq> {sample_iid}" for xs
    using that by (induction xs) (auto simp: sample_env_def demand_def)
  have "confirm_loaded ?env (sort_key fst sample_ids) = Inr ()"
    by (rule confirm) (auto simp: sample_ids_def)
  moreover have "run ?env Docker_load [0] ?s1 = (Inr 0, ?s1)"
    by (simp add: run_def sample_env_def tool_effect_def outputs_def)
  moreover obtain s3 where "tag_all ?env (sort_key fst sample_ids) ?s1 = (Inr (), s3)" using sample_tags by blast
  ultimately have "load_candidate ?env ?s1 = (Inr (sort_key fst sample_ids), s3)"
    by (simp add: load_candidate_def look_up_def sbind_simps checked)
  moreover have "se_dumps sample_env = sample_json" by (simp add: sample_env_def)
  ultimately show ?thesis using main law by (intro exI [of _ ?s1] exI [of _ ?loads] exI) auto
qed

theorem candidate_is_what_was_scanned_witness:
  "\<exists>loads ids s1 s3. load_candidate (sample_env\<lparr>se_loads := loads\<rparr>) s1 = (Inr ids, s3)
    \<and> set (map fst ids) = set (map lit PRODUCTS) \<and> sc_tags s3 = sc_tags s1 @ candidate_tags ids"
proof -
  obtain s1 loads ids s3 where *: "supply_main sample_env Runtime_mode False (\<lambda>_. []) no_reports = (0, s1)"
    "\<And>v. get_file s1 (lit ''build-record.json'') = Some (se_dumps sample_env v)
        \<Longrightarrow> se_loads (sample_env\<lparr>se_loads := loads\<rparr>) (se_dumps sample_env v) = Some v"
    "load_candidate (sample_env\<lparr>se_loads := loads\<rparr>) s1 = (Inr ids, s3)"
    using sample_release by blast
  from candidate_is_what_was_scanned [OF *(1) _ *(2) refl *(3)] *(3) show ?thesis
    by (auto simp: no_reports_def)
qed

theorem tags_only_verified_images_witness:
  "\<exists>loads ids s1 s3. load_candidate (sample_env\<lparr>se_loads := loads\<rparr>) s1 = (Inr ids, s3)
    \<and> sc_tags s3 = sc_tags s1 @ candidate_tags ids"
  using sample_release tags_only_verified_images by metis

end
