(* ===== verification/Sandbox_Health.thy ===== *)
theory Sandbox_Health
  imports Json_Access Container_Manager
begin

section \<open>The health report of runner and sandboxes\<close>

text \<open>
  \<open>soj_tools/sandbox_health.py\<close>, with the identification of \<open>soj_runner/sandbox_identity.py\<close>: a command on the host that
  looks at the runner and its sandbox containers and prints an anonymous report. What Docker answers is an
  argument; an exception anywhere gives the fixed report of a failed inspection. The properties are when exactly the
  command exits with 0, and that the report cannot carry a text of Docker's answers.
\<close>

definition DEFAULT_POOL_SIZE :: nat where "DEFAULT_POOL_SIZE = 3"
definition MANAGED_LABEL :: string where "MANAGED_LABEL = ''com.shellgei-online-judge.sandbox''"
definition OWNER_LABEL :: string where "OWNER_LABEL = ''com.shellgei-online-judge.owner''"
definition INSTANCE_LABEL :: string where "INSTANCE_LABEL = ''com.shellgei-online-judge.runner-instance''"

definition CONTAINER_STATES :: "string list" where
  "CONTAINER_STATES = [''created'', ''restarting'', ''running'', ''removing'', ''paused'', ''exited'', ''dead'']"

definition HEALTH_STATES :: "string list" where
  "HEALTH_STATES = [''healthy'', ''unhealthy'', ''starting'', ''none'']"

definition name_char :: cclass where
  "name_char = [(65, 90), (97, 122), (48, 57), (95, 95), (46, 46), (45, 45)]"

definition RUNNER_NAME :: rexp where
  "RUNNER_NAME = RSeq (RCls alnum) (RUpTo 127 (RCls name_char))"

text \<open>What the reading calls of Docker answer.\<close>

datatype runner_reply = Runner_not_found | Runner_error | Runner_document pyval

record docker_view =
  dv_connect :: bool
  dv_info :: "scan_exn + pyval"
  dv_sandboxes :: "scan_exn + pyval list"
  dv_runner :: runner_reply
  dv_close :: bool

record health_report =
  hr_issues :: "string list"
  hr_state :: pyval
  hr_health :: pyval
  hr_restarts :: pyval
  hr_count :: nat
  hr_stopped :: nat
  hr_instances :: nat

definition hashable_in :: "pyval \<Rightarrow> string list \<Rightarrow> scan_exn + bool" where
  "hashable_in v names = (if hashable v then Inr (v \<in> set (texts names)) else Inl Malformed)"

text \<open>One sandbox: its instance and whether it is not running.\<close>

definition check_sandbox :: "pystr \<Rightarrow> pyval \<Rightarrow> scan_exn + pystr \<times> bool" where
  "check_sandbox owner sandbox =
     rbind (get_item sandbox ''Labels'') (\<lambda>labels.
     rbind (get_or labels (lit INSTANCE_LABEL) PNone) (\<lambda>inst.
     rbind (get_item sandbox ''State'') (\<lambda>state.
     rbind (get_or labels (lit MANAGED_LABEL) PNone) (\<lambda>managed.
     rbind (get_or labels (lit OWNER_LABEL) PNone) (\<lambda>owned.
     rbind (hashable_in state CONTAINER_STATES) (\<lambda>known.
     case inst of
       PStr i \<Rightarrow>
         rbind (demand (managed = PStr (lit ''true'') \<and> owned = PStr owner \<and> i \<noteq> [] \<and> known)
           ''sandbox metadata unavailable'') (\<lambda>_. Inr (i, state \<noteq> PStr (lit ''running'')))
     | _ \<Rightarrow> Inl (Rejected ''sandbox metadata unavailable'')))))))"

definition owner_entries :: "pyval list \<Rightarrow> scan_exn + pystr list" where
  "owner_entries env =
     rbind (each as_text env) (\<lambda>entries. Inr (map (drop (length ''SANDBOX_OWNER_ID=''))
       (filter (\<lambda>e. startswith e (lit ''SANDBOX_OWNER_ID='')) entries)))"

text \<open>The inspected runner: state, health and restarts.\<close>

definition check_runner :: "pystr \<Rightarrow> pyval \<Rightarrow> scan_exn + pyval \<times> pyval \<times> int" where
  "check_runner owner runner =
     rbind (get_item runner ''Config'') (\<lambda>config.
     rbind (rbind (get_item config ''Env'') as_list) (\<lambda>env.
     rbind (owner_entries env) (\<lambda>owners.
     rbind (get_item config ''Labels'') (\<lambda>labels.
     rbind (get_or labels (lit ''com.docker.compose.service'') PNone) (\<lambda>service.
     rbind (demand (service = PStr (lit ''runner'') \<and> owners = [owner]) ''runner identity'') (\<lambda>_.
     rbind (get_item runner ''State'') (\<lambda>st.
     rbind (get_item st ''Status'') (\<lambda>state.
     rbind (rbind (get_or st (lit ''Health'') (PDict [])) (\<lambda>h. get_or h (lit ''Status'') (PStr (lit ''none'')))) (\<lambda>health.
     rbind (get_item runner ''RestartCount'') (\<lambda>restarts.
     rbind (hashable_in state CONTAINER_STATES) (\<lambda>known.
     rbind (if known then hashable_in health HEALTH_STATES else Inr False) (\<lambda>known2.
     case restarts of
       PInt r \<Rightarrow> rbind (demand (known \<and> known2 \<and> 0 \<le> r) ''runner metadata unavailable'') (\<lambda>_. Inr (state, health, r))
     | _ \<Rightarrow> Inl (Rejected ''runner metadata unavailable'')))))))))))))"

definition inspect_runner :: "pystr \<Rightarrow> runner_reply \<Rightarrow> scan_exn + string list \<times> pyval \<times> pyval \<times> pyval" where
  "inspect_runner owner r = (case r of
     Runner_error \<Rightarrow> Inl Tool_error
   | Runner_not_found \<Rightarrow> Inr ([''runner_missing''], PStr (lit ''missing''), PStr (lit ''none''), PNone)
   | Runner_document doc \<Rightarrow> rbind (check_runner owner doc) (\<lambda>(state, health, restarts).
       Inr ((if state \<noteq> PStr (lit ''running'') then [''runner_not_running''] else [])
            @ (if health \<noteq> PStr (lit ''healthy'') then [''runner_not_healthy''] else []), state, health, PInt restarts)))"

definition pool_issues :: "pyval \<Rightarrow> nat \<Rightarrow> nat \<Rightarrow> nat \<Rightarrow> string list" where
  "pool_issues state number stopped instances =
     (if state \<noteq> PStr (lit ''running'') \<and> number \<noteq> 0 then [''sandboxes_without_running_runner''] else [])
     @ (if number \<noteq> DEFAULT_POOL_SIZE then [''sandbox_capacity_mismatch''] else [])
     @ (if stopped \<noteq> 0 then [''sandbox_not_running''] else [])
     @ (if 1 < instances then [''mixed_sandbox_instances''] else [])"

definition inspect_health :: "docker_view \<Rightarrow> pystr \<Rightarrow> scan_exn + health_report" where
  "inspect_health v owner =
     rbind (rbind (dv_info v) (\<lambda>info. get_or info (lit ''SecurityOptions'') PNone)) (\<lambda>options.
     rbind (demand (case options of PList os \<Rightarrow> PStr (lit ''name=rootless'') \<in> set os | _ \<Rightarrow> False) ''rootless daemon required'') (\<lambda>_.
     rbind (dv_sandboxes v) (\<lambda>sandboxes.
     rbind (each (check_sandbox owner) sandboxes) (\<lambda>checked.
     let instances = remdups (map fst checked); stopped = length (filter snd checked) in
     rbind (inspect_runner owner (dv_runner v)) (\<lambda>(issues, state, health, restarts).
     Inr \<lparr>hr_issues = issues @ pool_issues state (length sandboxes) stopped (length instances),
       hr_state = state, hr_health = health, hr_restarts = restarts, hr_count = length sandboxes,
       hr_stopped = stopped, hr_instances = length instances\<rparr>)))))"

definition report_json :: "health_report \<Rightarrow> pyval" where
  "report_json r = PDict
     [(lit ''status'', PStr (lit (if hr_issues r \<noteq> [] then ''alert'' else ''ok''))),
      (lit ''issues'', PList (texts (hr_issues r))), (lit ''runner_state'', hr_state r), (lit ''runner_health'', hr_health r),
      (lit ''runner_restarts'', hr_restarts r), (lit ''sandbox_count'', PInt (int (hr_count r))),
      (lit ''sandbox_not_running'', PInt (int (hr_stopped r))), (lit ''instance_count'', PInt (int (hr_instances r)))]"

definition error_report :: "string \<Rightarrow> pyval" where
  "error_report code = PDict [(lit ''status'', PStr (lit ''error'')), (lit ''issues'', PList (texts [code]))]"

definition configured :: "pystr \<Rightarrow> pystr \<Rightarrow> pystr \<Rightarrow> bool" where
  "configured host owner runner_name \<longleftrightarrow>
     startswith host (lit ''unix:///'') \<and> host \<noteq> lit ''unix:///''
     \<and> fullmatch SANDBOX_OWNER_ID_PATTERN owner \<and> fullmatch RUNNER_NAME runner_name"

definition health_main :: "pystr \<Rightarrow> pystr \<Rightarrow> pystr \<Rightarrow> docker_view \<Rightarrow> pyval \<times> int" where
  "health_main host owner runner_name v =
     (if \<not> configured host owner runner_name then (error_report ''invalid_configuration'', 2)
      else if \<not> dv_connect v then (error_report ''inspection_failed'', 2)
      else (case inspect_health v owner of
          Inl _ \<Rightarrow> (error_report ''inspection_failed'', 2)
        | Inr r \<Rightarrow> if \<not> dv_close v then (error_report ''inspection_failed'', 2)
            else (report_json r, if hr_issues r \<noteq> [] then 1 else 0)))"

subsection \<open>When everything is well\<close>

definition healthy_runner :: "pystr \<Rightarrow> runner_reply \<Rightarrow> bool" where
  "healthy_runner owner r \<longleftrightarrow> (\<exists>doc n. r = Runner_document doc
     \<and> check_runner owner doc = Inr (PStr (lit ''running''), PStr (lit ''healthy''), n))"

definition full_pool :: "pystr \<Rightarrow> pyval list \<Rightarrow> bool" where
  "full_pool owner sandboxes \<longleftrightarrow> length sandboxes = DEFAULT_POOL_SIZE
     \<and> (\<exists>i. \<forall>s \<in> set sandboxes. check_sandbox owner s = Inr (i, False))"

definition rootless_daemon :: "docker_view \<Rightarrow> bool" where
  "rootless_daemon v \<longleftrightarrow> (\<exists>info os. dv_info v = Inr info
     \<and> get_or info (lit ''SecurityOptions'') PNone = Inr (PList os) \<and> PStr (lit ''name=rootless'') \<in> set os)"

lemma demand_Inr [simp]: "demand b m = Inr u \<longleftrightarrow> b"
  by (simp add: demand_def)

lemma no_issues_runner:
  "inspect_runner owner r = Inr ([], state, health, restarts) \<Longrightarrow> healthy_runner owner r \<and> state = PStr (lit ''running'')"
  by (auto simp: inspect_runner_def healthy_runner_def rbind_eq_Inr split: runner_reply.splits if_splits)

lemma healthy_runner_no_issues:
  "healthy_runner owner r \<Longrightarrow> \<exists>n. inspect_runner owner r = Inr ([], PStr (lit ''running''), PStr (lit ''healthy''), n)"
  by (auto simp: healthy_runner_def inspect_runner_def)

lemma one_instance:
  assumes "length (remdups (map fst checked)) \<le> 1" "length (filter snd checked) = 0" "(c :: 'a \<times> bool) \<in> set checked"
  shows "c = (fst (hd checked), False)"
proof -
  have "card (fst ` set checked) \<le> 1" using assms(1) by (simp add: length_remdups_card_conv)
  moreover have "fst c \<in> fst ` set checked" "fst (hd checked) \<in> fst ` set checked"
    using assms(3) by (auto intro!: imageI hd_in_set)
  ultimately have "fst c = fst (hd checked)"
    using card_le_Suc0_iff_eq [of "fst ` set checked"] by (metis One_nat_def finite_imageI finite_set)
  moreover have "\<not> snd c" using assms(2,3) by (auto simp: filter_empty_conv)
  ultimately show ?thesis by (cases c) simp
qed

lemma set_if: "x \<in> A \<Longrightarrow> set (if b then [x] else []) \<subseteq> A"
  by (cases b) simp_all

lemma case_PInt: "(case v of PInt r \<Rightarrow> f r | _ \<Rightarrow> Inl e) = Inr x \<longleftrightarrow> (\<exists>r. v = PInt r \<and> f r = Inr x)"
  by (cases v) auto

lemma pool_issues_none:
  "pool_issues (PStr (lit ''running'')) number stopped instances = [] \<longleftrightarrow>
     number = DEFAULT_POOL_SIZE \<and> stopped = 0 \<and> instances \<le> 1"
  by (auto simp: pool_issues_def)

lemma pool_issues_known: "set (pool_issues state number stopped instances) \<subseteq> {''sandboxes_without_running_runner'',
    ''sandbox_capacity_mismatch'', ''sandbox_not_running'', ''mixed_sandbox_instances''}"
  unfolding pool_issues_def set_append by (intro Un_least set_if) simp_all

lemma inspect_health_Inr:
  assumes "inspect_health v owner = Inr r"
  obtains info options sandboxes checked issues state health restarts where
    "dv_info v = Inr info" "get_or info (lit ''SecurityOptions'') PNone = Inr options"
    "case options of PList os \<Rightarrow> PStr (lit ''name=rootless'') \<in> set os | _ \<Rightarrow> False"
    "dv_sandboxes v = Inr sandboxes" "each (check_sandbox owner) sandboxes = Inr checked"
    "inspect_runner owner (dv_runner v) = Inr (issues, state, health, restarts)"
    "hr_issues r = issues @ pool_issues state (length sandboxes) (length (filter snd checked)) (length (remdups (map fst checked)))"
    "hr_state r = state" "hr_health r = health" "hr_restarts r = restarts"
  using assms by (auto simp: inspect_health_def rbind_eq_Inr Let_def)

lemma inspect_health_ok:
  assumes "inspect_health v owner = Inr r" and "hr_issues r = []"
  shows "rootless_daemon v \<and> healthy_runner owner (dv_runner v)
    \<and> (\<exists>sandboxes. dv_sandboxes v = Inr sandboxes \<and> full_pool owner sandboxes)"
proof -
  obtain info options sandboxes checked issues state health restarts where *:
    "dv_info v = Inr info" "get_or info (lit ''SecurityOptions'') PNone = Inr options"
    "case options of PList os \<Rightarrow> PStr (lit ''name=rootless'') \<in> set os | _ \<Rightarrow> False"
    "dv_sandboxes v = Inr sandboxes" "each (check_sandbox owner) sandboxes = Inr checked"
    "inspect_runner owner (dv_runner v) = Inr (issues, state, health, restarts)"
    "hr_issues r = issues @ pool_issues state (length sandboxes) (length (filter snd checked)) (length (remdups (map fst checked)))"
    by (rule inspect_health_Inr [OF assms(1)])
  have none: "inspect_runner owner (dv_runner v) = Inr ([], state, health, restarts)" using *(6,7) assms(2) by simp
  note runner = no_issues_runner [OF none]
  then have pool: "length sandboxes = DEFAULT_POOL_SIZE" "length (filter snd checked) = 0" "length (remdups (map fst checked)) \<le> 1"
    using *(7) assms(2) pool_issues_none by (metis append_is_Nil_conv)+
  have "\<forall>s \<in> set sandboxes. check_sandbox owner s = Inr (fst (hd checked), False)"
  proof
    fix s assume "s \<in> set sandboxes"
    then obtain c where "c \<in> set checked" "check_sandbox owner s = Inr c"
      using each_Inr_in [OF *(5)] by blast
    then show "check_sandbox owner s = Inr (fst (hd checked), False)"
      using one_instance [of checked c] pool by simp
  qed
  moreover have "rootless_daemon v" using *(1-3) by (cases options) (auto simp: rootless_daemon_def)
  ultimately show ?thesis
    using *(4) runner pool(1) by (auto simp: full_pool_def)
qed

lemma inspect_health_complete:
  assumes "rootless_daemon v" "healthy_runner owner (dv_runner v)" "dv_sandboxes v = Inr sandboxes" "full_pool owner sandboxes"
  shows "\<exists>r. inspect_health v owner = Inr r \<and> hr_issues r = []"
proof -
  obtain i where i: "\<forall>s \<in> set sandboxes. check_sandbox owner s = Inr (i, False)" and n: "length sandboxes = DEFAULT_POOL_SIZE"
    using assms(4) by (auto simp: full_pool_def)
  have "each (check_sandbox owner) sandboxes = Inr (replicate (length sandboxes) (i, False))"
    using i by (auto simp: each_Inr list_all2_conv_all_nth)
  moreover obtain m where "inspect_runner owner (dv_runner v) = Inr ([], PStr (lit ''running''), PStr (lit ''healthy''), m)"
    using healthy_runner_no_issues [OF assms(2)] by blast
  moreover have "length (remdups (replicate k i)) \<le> 1" for k by (induction k) (auto simp: length_remdups_card_conv)
  ultimately show ?thesis
    using assms(1,3) n by (auto simp: inspect_health_def rootless_daemon_def Let_def pool_issues_none demand_def)
qed

subsection \<open>The texts of a report\<close>

fun leaves :: "pyval \<Rightarrow> pystr set" where
  "leaves (PStr s) = {s}"
| "leaves (PList vs) = (\<Union>v \<in> set vs. leaves v)"
| "leaves (PDict kvs) = (\<Union>(k, v) \<in> set kvs. insert k (leaves v))"
| "leaves _ = {}"

definition vocabulary :: "string list" where
  "vocabulary = CONTAINER_STATES @ HEALTH_STATES @ [''missing'', ''status'', ''issues'', ''runner_state'', ''runner_health'',
     ''runner_restarts'', ''sandbox_count'', ''sandbox_not_running'', ''instance_count'', ''ok'', ''alert'', ''error'',
     ''invalid_configuration'', ''inspection_failed'', ''runner_missing'', ''runner_not_running'', ''runner_not_healthy'',
     ''sandboxes_without_running_runner'', ''sandbox_capacity_mismatch'', ''sandbox_not_running'', ''mixed_sandbox_instances'']"

lemma leaves_texts: "(\<Union>v \<in> set (texts names). leaves v) = lit ` set names"
  by (auto simp: texts_def)

lemma known_text: "hashable_in v names = Inr True \<Longrightarrow> leaves v \<subseteq> lit ` set names"
  by (auto simp: hashable_in_def texts_def split: if_splits)

lemma check_runner_known:
  assumes "check_runner owner doc = Inr (state, health, n)"
  shows "leaves state \<subseteq> lit ` set CONTAINER_STATES \<and> leaves health \<subseteq> lit ` set HEALTH_STATES"
proof -
  have "hashable_in state CONTAINER_STATES = Inr True" "hashable_in health HEALTH_STATES = Inr True"
    using assms by (auto simp: check_runner_def rbind_eq_Inr case_PInt split: if_splits)
  then show ?thesis using known_text by blast
qed

lemma inspect_runner_known:
  assumes "inspect_runner owner r = Inr (issues, state, health, restarts)"
  shows "set issues \<subseteq> set vocabulary \<and> leaves state \<subseteq> lit ` set vocabulary \<and> leaves health \<subseteq> lit ` set vocabulary
    \<and> leaves restarts = {}"
proof (cases r)
  case (Runner_document doc)
  then obtain n where c: "check_runner owner doc = Inr (state, health, n)" and r: "restarts = PInt n"
    and e: "issues = (if state \<noteq> PStr (lit ''running'') then [''runner_not_running''] else [])
      @ (if health \<noteq> PStr (lit ''healthy'') then [''runner_not_healthy''] else [])"
    using assms by (auto simp: inspect_runner_def rbind_eq_Inr)
  have i: "set issues \<subseteq> {''runner_not_running'', ''runner_not_healthy''}"
    unfolding e set_append by (intro Un_least set_if) simp_all
  have "set CONTAINER_STATES \<union> set HEALTH_STATES \<union> {''runner_not_running'', ''runner_not_healthy''} \<subseteq> set vocabulary"
    by (auto simp: vocabulary_def)
  moreover from this have "lit ` set CONTAINER_STATES \<subseteq> lit ` set vocabulary" "lit ` set HEALTH_STATES \<subseteq> lit ` set vocabulary"
    by (intro image_mono; blast)+
  moreover have "set issues \<subseteq> set vocabulary" using i by (rule order_trans) (simp add: vocabulary_def)
  moreover have "leaves restarts = {}" by (simp add: r)
  ultimately show ?thesis using check_runner_known [OF c] by (meson order_trans)
qed (use assms in \<open>auto simp: inspect_runner_def vocabulary_def HEALTH_STATES_def\<close>)

lemma inspect_health_known:
  assumes "inspect_health v owner = Inr r"
  shows "set (hr_issues r) \<subseteq> set vocabulary \<and> leaves (hr_state r) \<subseteq> lit ` set vocabulary
    \<and> leaves (hr_health r) \<subseteq> lit ` set vocabulary \<and> leaves (hr_restarts r) = {}"
proof -
  obtain info options sandboxes checked issues state health restarts where
    "dv_info v = Inr info" "get_or info (lit ''SecurityOptions'') PNone = Inr options"
    "case options of PList os \<Rightarrow> PStr (lit ''name=rootless'') \<in> set os | _ \<Rightarrow> False"
    "dv_sandboxes v = Inr sandboxes" "each (check_sandbox owner) sandboxes = Inr checked"
    and i: "inspect_runner owner (dv_runner v) = Inr (issues, state, health, restarts)"
    and r: "hr_issues r = issues @ pool_issues state (length sandboxes) (length (filter snd checked)) (length (remdups (map fst checked)))"
      "hr_state r = state" "hr_health r = health" "hr_restarts r = restarts"
    by (rule inspect_health_Inr [OF assms])
  have "{''sandboxes_without_running_runner'', ''sandbox_capacity_mismatch'', ''sandbox_not_running'',
      ''mixed_sandbox_instances''} \<subseteq> set vocabulary" by (simp add: vocabulary_def)
  then have "set (pool_issues state n m k) \<subseteq> set vocabulary" for n m k
    by (rule subset_trans [OF pool_issues_known])
  then show ?thesis using inspect_runner_known [OF i] by (simp add: r)
qed

lemma leaves_report:
  assumes "inspect_health v owner = Inr r"
  shows "leaves (report_json r) \<subseteq> lit ` set vocabulary"
proof -
  have fixed: "{''status'', ''issues'', ''runner_state'', ''runner_health'', ''runner_restarts'', ''sandbox_count'',
      ''sandbox_not_running'', ''instance_count'', ''ok'', ''alert''} \<subseteq> set vocabulary" by (simp add: vocabulary_def)
  have F: "lit ` {''status'', ''issues'', ''runner_state'', ''runner_health'', ''runner_restarts'', ''sandbox_count'',
      ''sandbox_not_running'', ''instance_count'', ''ok'', ''alert''} \<subseteq> lit ` set vocabulary"
    by (rule image_mono [OF fixed])
  have I: "lit ` set (hr_issues r) \<subseteq> lit ` set vocabulary"
    using inspect_health_known [OF assms] by (intro image_mono) blast
  show ?thesis
    using F I inspect_health_known [OF assms] by (simp add: report_json_def leaves_texts)
qed

subsection \<open>Property\<close>

text \<open>C34: The health command exits with 0 exactly when it is configured for a local socket, the daemon is rootless,
  the runner of this owner is running and healthy, and exactly the sandboxes of a full pool exist, all running and of
  one runner instance. Whatever Docker answers, the report it prints contains no text but those of a fixed
  vocabulary.\<close>

theorem health_report_is_exact_and_anonymous:
  "(snd (health_main host owner runner_name v) = 0 \<longleftrightarrow>
      configured host owner runner_name \<and> dv_connect v \<and> dv_close v \<and> rootless_daemon v
      \<and> healthy_runner owner (dv_runner v) \<and> (\<exists>sandboxes. dv_sandboxes v = Inr sandboxes \<and> full_pool owner sandboxes))
    \<and> leaves (fst (health_main host owner runner_name v)) \<subseteq> lit ` set vocabulary"
proof
  show "snd (health_main host owner runner_name v) = 0 \<longleftrightarrow>
      configured host owner runner_name \<and> dv_connect v \<and> dv_close v \<and> rootless_daemon v
      \<and> healthy_runner owner (dv_runner v) \<and> (\<exists>sandboxes. dv_sandboxes v = Inr sandboxes \<and> full_pool owner sandboxes)"
    using inspect_health_ok [of v owner] inspect_health_complete [of v owner]
    by (auto simp: health_main_def split: sum.splits if_splits)
  have "leaves (error_report code) \<subseteq> lit ` set vocabulary" if "code \<in> {''invalid_configuration'', ''inspection_failed''}" for code
    using that by (auto simp: error_report_def leaves_texts vocabulary_def)
  then show "leaves (fst (health_main host owner runner_name v)) \<subseteq> lit ` set vocabulary"
    using leaves_report by (auto simp: health_main_def split: sum.splits)
qed

end
