(* ===== verification/Ca_Trust.thy ===== *)
theory Ca_Trust
  imports Json_Access
begin

section \<open>The certificate stores of the images\<close>

text \<open>
  \<open>ci/check_ca_trust.py\<close>: every store of certificate authorities in an image must distrust twelve chains of a
  compromised authority and trust the control chain. The containers that print the stores are counted in the state;
  Docker and \<open>openssl\<close> are the environment. The properties are that no printed store is lost on the way to the
  check, and what a check that passes has shown.
\<close>

subsection \<open>Python text\<close>

text \<open>\<open>s.split(sep)\<close> for a separator of several characters, and \<open>p in s\<close>.\<close>

function split_by :: "pystr \<Rightarrow> pystr \<Rightarrow> pystr list" where
  "split_by sep [] = [[]]"
| "split_by sep (c # s) =
     (if startswith (c # s) sep then [] # split_by sep (drop (length sep - 1) s)
      else (case split_by sep s of [] \<Rightarrow> [[c]] | p # ps \<Rightarrow> (c # p) # ps))"
  by pat_completeness auto
termination by (relation "measure (\<lambda>(_, s). length s)") auto

fun contains :: "pystr \<Rightarrow> pystr \<Rightarrow> bool" where
  "contains p [] = (p = [])"
| "contains p (c # s) = (startswith (c # s) p \<or> contains p s)"

subsection \<open>Stores\<close>

definition MARKER :: pystr where "MARKER = lit ''SOJ_CA_STORE ''"
definition BEGIN_CERTIFICATE :: pystr where "BEGIN_CERTIFICATE = lit ''-----BEGIN CERTIFICATE-----''"

definition partition_line :: "pystr \<Rightarrow> pystr \<times> pystr" where
  "partition_line s = (takeWhile (\<lambda>c. c \<noteq> 10) s, tl (dropWhile (\<lambda>c. c \<noteq> 10) s))"

fun add_stores :: "(pystr \<times> pystr) list \<Rightarrow> pystr list \<Rightarrow> scan_exn + (pystr \<times> pystr) list" where
  "add_stores stores [] = Inr stores"
| "add_stores stores (block # blocks) =
     (let (name, bundle) = partition_line block in
      if name \<in> fst ` set stores \<or> \<not> contains BEGIN_CERTIFICATE bundle then Inl (Rejected ''invalid CA store'')
      else add_stores (stores @ [(name, bundle)]) blocks)"

definition parse_stores :: "pystr \<Rightarrow> scan_exn + (pystr \<times> pystr) list" where
  "parse_stores output =
     rbind (add_stores [] (tl (split_by MARKER output))) (\<lambda>stores.
     if stores = [] then Inl (Rejected ''image has no inspectable CA store'') else Inr stores)"

subsection \<open>The containers\<close>

text \<open>What Docker answers for one image; decoding the output is part of \<open>sp_output\<close>.\<close>

record store_probe =
  sp_image :: "scan_exn + unit"
  sp_create :: "scan_exn + unit"
  sp_start :: "scan_exn + unit"
  sp_wait :: "scan_exn + int"
  sp_output :: "scan_exn + pystr"
  sp_remove :: "scan_exn + unit"

definition printed_stores :: "store_probe \<Rightarrow> scan_exn + (pystr \<times> pystr) list" where
  "printed_stores p =
     rbind (sp_start p) (\<lambda>_.
     rbind (sp_wait p) (\<lambda>code.
     rbind (demand (code = 0) ''the container failed'') (\<lambda>_.
     rbind (sp_output p) parse_stores)))"

definition inspect_stores :: "store_probe \<Rightarrow> nat \<Rightarrow> (scan_exn + (pystr \<times> pystr) list) \<times> nat" where
  "inspect_stores p containers =
     (case rbind (sp_image p) (\<lambda>_. sp_create p) of
        Inl e \<Rightarrow> (Inl e, containers)
      | Inr _ \<Rightarrow> (case sp_remove p of
          Inl e \<Rightarrow> (Inl e, containers + 1)
        | Inr _ \<Rightarrow> (printed_stores p, containers)))"

subsection \<open>Verification\<close>

record ca_env =
  ce_docker_host :: "pystr option"
  ce_rootless :: "scan_exn + bool"
  ce_probe :: "pystr \<Rightarrow> store_probe"
  ce_compromised :: "pystr list"
  ce_control :: pystr
  ce_openssl :: "pystr \<Rightarrow> pystr \<Rightarrow> (int \<times> pystr) option"
  ce_digit :: "nat \<Rightarrow> bool"

text \<open>\<open>re.search(r"error (20|21) at \d+ depth", s)\<close>.\<close>

definition distrust_here :: "(nat \<Rightarrow> bool) \<Rightarrow> pystr \<Rightarrow> bool" where
  "distrust_here digit s \<longleftrightarrow> (\<exists>code \<in> {''20'', ''21''}.
     let start = lit ''error '' @ lit code @ lit '' at ''; rest = drop (length start) s in
     startswith s start \<and> takeWhile digit rest \<noteq> [] \<and> startswith (dropWhile digit rest) (lit '' depth''))"

fun distrusted :: "(nat \<Rightarrow> bool) \<Rightarrow> pystr \<Rightarrow> bool" where
  "distrusted digit [] = False"
| "distrusted digit (c # s) = (distrust_here digit (c # s) \<or> distrusted digit s)"

definition verify_chain :: "ca_env \<Rightarrow> pystr \<Rightarrow> pystr \<Rightarrow> scan_exn + unit" where
  "verify_chain env bundle chain =
     (case ce_openssl env bundle chain of
        None \<Rightarrow> Inl Tool_error
      | Some (code, err) \<Rightarrow>
          if chain \<in> set (ce_compromised env)
          then demand (code \<noteq> 0 \<and> distrusted (ce_digit env) err) ''compromised chain not distrusted''
          else demand (code = 0) ''legitimate TLS chain rejected'')"

definition verify_store :: "ca_env \<Rightarrow> pystr \<Rightarrow> scan_exn + unit" where
  "verify_store env bundle =
     rbind (demand (length (ce_compromised env) = 12) ''expected all twelve chains'') (\<lambda>_.
     check_all (verify_chain env bundle) (sort (ce_compromised env) @ [ce_control env]))"

fun check_ca_images :: "ca_env \<Rightarrow> pystr list \<Rightarrow> nat \<Rightarrow> (scan_exn + unit) \<times> nat" where
  "check_ca_images env [] containers = (Inr (), containers)"
| "check_ca_images env (i # images) containers =
     sbind (inspect_stores (ce_probe env i) containers) (\<lambda>stores containers.
     sbind (check_all (\<lambda>(_, bundle). verify_store env bundle) stores, containers) (\<lambda>_ containers.
     check_ca_images env images containers))"

definition ca_check :: "ca_env \<Rightarrow> pystr list \<Rightarrow> nat \<Rightarrow> (scan_exn + unit) \<times> nat" where
  "ca_check env images containers =
     (case rbind (demand (case ce_docker_host env of None \<Rightarrow> False | Some h \<Rightarrow> startswith h (lit ''unix://'')) ''set DOCKER_HOST'')
        (\<lambda>_. rbind (ce_rootless env) (\<lambda>b. demand b ''rootful Docker is not allowed'')) of
        Inl e \<Rightarrow> (Inl e, containers)
      | Inr _ \<Rightarrow> check_ca_images env images containers)"

subsection \<open>Lemmas\<close>

definition distrusts :: "ca_env \<Rightarrow> pystr \<Rightarrow> bool" where
  "distrusts env bundle \<longleftrightarrow> length (ce_compromised env) = 12
     \<and> (\<forall>chain \<in> set (ce_compromised env). \<exists>code err. ce_openssl env bundle chain = Some (code, err)
          \<and> code \<noteq> 0 \<and> distrusted (ce_digit env) err)
     \<and> (ce_control env \<notin> set (ce_compromised env) \<longrightarrow>
          (\<exists>err. ce_openssl env bundle (ce_control env) = Some (0, err)))"

lemma verify_chain_Inr:
  assumes "verify_chain env bundle chain = Inr ()"
  shows "\<exists>code err. ce_openssl env bundle chain = Some (code, err)
    \<and> (if chain \<in> set (ce_compromised env) then code \<noteq> 0 \<and> distrusted (ce_digit env) err else code = 0)"
  using assms by (auto simp: verify_chain_def demand_def split: option.splits if_splits)

lemma verify_store_Inr:
  assumes "verify_store env bundle = Inr ()"
  shows "distrusts env bundle"
proof -
  have v: "verify_chain env bundle chain = Inr ()" if "chain \<in> insert (ce_control env) (set (ce_compromised env))" for chain
    using assms that by (auto simp: verify_store_def rbind_eq_Inr demand_def check_all_Inr split: if_splits)
  have n: "length (ce_compromised env) = 12"
    using assms by (auto simp: verify_store_def rbind_eq_Inr demand_def split: if_splits)
  show ?thesis
    unfolding distrusts_def using n verify_chain_Inr [OF v] by (fastforce split: if_splits)
qed

lemma inspect_stores_Inr:
  assumes "inspect_stores p n = (Inr stores, m)"
  shows "m = n \<and> stores \<noteq> [] \<and> (\<exists>output. sp_output p = Inr output \<and> parse_stores output = Inr stores)"
  using assms
  by (auto simp: inspect_stores_def printed_stores_def parse_stores_def rbind_eq_Inr split: sum.splits if_splits)

lemma check_ca_images_Inr:
  assumes "check_ca_images env images n = (Inr (), m)"
  shows "m = n \<and> (\<forall>i \<in> set images. \<exists>output stores. sp_output (ce_probe env i) = Inr output
    \<and> parse_stores output = Inr stores \<and> stores \<noteq> [] \<and> (\<forall>(_, bundle) \<in> set stores. distrusts env bundle))"
  using assms
proof (induction env images n rule: check_ca_images.induct)
  case (2 env i images n)
  obtain stores k where s: "inspect_stores (ce_probe env i) n = (Inr stores, k)"
    and v: "\<forall>x \<in> set stores. (case x of (_, bundle) \<Rightarrow> verify_store env bundle) = Inr ()" and r: "check_ca_images env images k = (Inr (), m)"
    using "2.prems" by (auto simp: sbind_Inr check_all_Inr)
  have "\<forall>(_, bundle) \<in> set stores. distrusts env bundle" using v verify_store_Inr by fastforce
  then show ?case using inspect_stores_Inr [OF s] "2.IH" [OF r] by auto
qed simp

lemma containers_kept:
  assumes "\<forall>i. sp_remove (ce_probe env i) = Inr ()"
  shows "snd (check_ca_images env images n) = n"
proof (induction images arbitrary: n)
  case (Cons i images)
  have "snd (inspect_stores (ce_probe env i) n) = n"
    using assms by (auto simp: inspect_stores_def split: sum.splits)
  then show ?case
    using Cons by (cases "inspect_stores (ce_probe env i) n") (auto simp: sbind_def split: sum.splits)
qed simp

text \<open>The scripts print each store after a marker line. No store gets lost when no bundle contains the marker.\<close>

fun printed :: "(pystr \<times> pystr) list \<Rightarrow> pystr" where
  "printed [] = []"
| "printed ((name, bundle) # stores) = MARKER @ name @ 10 # bundle @ printed stores"

definition parsable :: "(pystr \<times> pystr) list \<Rightarrow> bool" where
  "parsable stores \<longleftrightarrow> distinct (map fst stores)
     \<and> (\<forall>(name, bundle) \<in> set stores. 10 \<notin> set name \<and> \<not> contains MARKER (name @ 10 # bundle) \<and> contains BEGIN_CERTIFICATE bundle)"

lemma MARKER_unbordered: "\<forall>k \<in> set [1..<13]. drop k MARKER \<noteq> take (13 - k) MARKER"
  by (simp add: MARKER_def lit_def upt_rec)

lemma length_MARKER [simp]: "length MARKER = 13"
  by (simp add: MARKER_def lit_def)

lemma no_straddling_marker:
  assumes "\<not> startswith u MARKER" and "u \<noteq> []"
  shows "\<not> startswith (u @ MARKER @ r) MARKER"
proof (cases "length u < 13")
  case True
  have "drop (length u) MARKER = take (13 - length u) MARKER" if "take 13 (u @ MARKER @ r) = MARKER"
    using that True by (metis (no_types, lifting) append_take_drop_id drop_append drop_all take_append take_all
        append_Nil diff_self_eq_0 drop_0 le_refl length_MARKER less_imp_le nat_less_le take_take diff_le_self min_def append_eq_conv_conj)
  then show ?thesis
    using bspec [OF MARKER_unbordered, of "length u"] True assms(2) by (cases u) (auto simp: startswith_def)
next
  case False
  then show ?thesis using assms(1) by (simp add: startswith_def)
qed

lemma split_by_last: "\<not> contains MARKER t \<Longrightarrow> split_by MARKER t = [t]"
  by (induction t) auto

lemma split_by_sep: "sep \<noteq> [] \<Longrightarrow> split_by sep (sep @ r) = [] # split_by sep r"
  by (cases sep) (auto simp: startswith_def)

lemma split_by_marker: "\<not> contains MARKER t \<Longrightarrow> split_by MARKER (t @ MARKER @ r) = t # split_by MARKER r"
proof (induction t)
  case Nil
  have "MARKER \<noteq> []" by (simp add: MARKER_def lit_def)
  then show ?case using split_by_sep by auto
next
  case (Cons c t)
  then have "\<not> startswith ((c # t) @ MARKER @ r) MARKER" by (intro no_straddling_marker) auto
  then show ?case using Cons by simp
qed

lemma split_by_printed:
  assumes "\<not> contains MARKER t" and "\<forall>(name, bundle) \<in> set stores. \<not> contains MARKER (name @ 10 # bundle)"
  shows "split_by MARKER (t @ printed stores) = t # map (\<lambda>(name, bundle). name @ 10 # bundle) stores"
  using assms
proof (induction stores arbitrary: t)
  case (Cons s stores)
  then show ?case
    using split_by_marker [of t "fst s @ 10 # snd s @ printed stores"] Cons.IH [of "fst s @ 10 # snd s"]
    by (cases s) auto
qed (simp add: split_by_last)

lemma partition_line_printed: "10 \<notin> set name \<Longrightarrow> partition_line (name @ 10 # bundle) = (name, bundle)"
  by (auto simp: partition_line_def takeWhile_append dropWhile_append)

lemma add_stores_printed:
  assumes "parsable (old @ stores)"
  shows "add_stores old (map (\<lambda>(name, bundle). name @ 10 # bundle) stores) = Inr (old @ stores)"
  using assms
proof (induction stores arbitrary: old)
  case (Cons s stores)
  then show ?case
    using Cons.IH [of "old @ [s]"]
    by (cases s) (auto simp: parsable_def partition_line_printed image_iff)
qed simp

text \<open>Reading what the inspection script prints loses no store: after any text without the marker, a sequence of
  stores with distinct names and certificates is read back exactly, in its order; output with no store is an error.\<close>

theorem stores_round_trip:
  assumes "\<not> contains MARKER before" and "parsable stores"
  shows "parse_stores (before @ printed stores)
    = (if stores = [] then Inl (Rejected ''image has no inspectable CA store'') else Inr stores)"
proof -
  have "split_by MARKER (before @ printed stores) = before # map (\<lambda>(name, bundle). name @ 10 # bundle) stores"
    using assms by (intro split_by_printed) (auto simp: parsable_def)
  then show ?thesis using add_stores_printed [of "[]" stores] assms(2) by (simp add: parse_stores_def)
qed

text \<open>C35: When the certificate check of the images passes, the daemon was rootless, no container is left behind, and
  for every image a non-empty set of stores was printed, each of which distrusts all twelve chains of the compromised
  authority for the reason of an untrusted issuer, and accepts the control chain: an image with one store that still
  trusts the authority does not pass.\<close>

theorem passed_images_distrust_compromised_ca:
  assumes "ca_check env images n = (Inr (), m)"
  shows "ce_rootless env = Inr True \<and> m = n \<and> (\<forall>i \<in> set images. \<exists>output stores.
    sp_output (ce_probe env i) = Inr output \<and> parse_stores output = Inr stores \<and> stores \<noteq> []
    \<and> (\<forall>(_, bundle) \<in> set stores. distrusts env bundle))"
proof -
  have "ce_rootless env = Inr True" and "check_ca_images env images n = (Inr (), m)"
    using assms by (auto simp: ca_check_def rbind_eq_Inr demand_def split: sum.splits if_splits)
  then show ?thesis using check_ca_images_Inr by blast
qed

subsection \<open>Concrete runs\<close>

lemma stores_round_trip_witness:
  "parse_stores (lit ''SOJ'' @ printed [(lit ''os-bundle'', BEGIN_CERTIFICATE)]) = Inr [(lit ''os-bundle'', BEGIN_CERTIFICATE)]"
  using stores_round_trip [of "lit ''SOJ''" "[(lit ''os-bundle'', BEGIN_CERTIFICATE)]"]
  by (simp add: parsable_def MARKER_def BEGIN_CERTIFICATE_def lit_def startswith_def)

definition example_ca :: ca_env where
  "example_ca = \<lparr>ce_docker_host = Some (lit ''unix:///d''), ce_rootless = Inr True,
     ce_probe = (\<lambda>_. \<lparr>sp_image = Inr (), sp_create = Inr (), sp_start = Inr (), sp_wait = Inr 0,
       sp_output = Inr (lit ''SOJ_CA_STORE os-bundle'' @ 10 # BEGIN_CERTIFICATE), sp_remove = Inr ()\<rparr>),
     ce_compromised = map (\<lambda>i. [i]) [0..<12], ce_control = [99],
     ce_openssl = (\<lambda>_ chain. if chain = [99] then Some (0, []) else Some (2, lit ''error 20 at 1 depth'')),
     ce_digit = (\<lambda>c. 48 \<le> c \<and> c \<le> 57)\<rparr>"

lemma example_ca_check: "ca_check example_ca [lit ''runner''] 0 = (Inr (), 0)"
  by code_simp

lemma passed_images_distrust_compromised_ca_witness:
  "ce_rootless example_ca = Inr True \<and> (\<exists>output stores. sp_output (ce_probe example_ca (lit ''runner'')) = Inr output
    \<and> parse_stores output = Inr stores \<and> stores \<noteq> [] \<and> (\<forall>(_, bundle) \<in> set stores. distrusts example_ca bundle))"
  using passed_images_distrust_compromised_ca [OF example_ca_check] by simp

end
