(* ===== verification/Sandbox_Options.thy ===== *)
theory Sandbox_Options
  imports Container_Manager Sandbox_Health
begin

section \<open>How a sandbox is created and found again\<close>

text \<open>
  The constant part of \<open>ContainerManager\<close>: the options of every sandbox (\<open>_container_options\<close>), among them the
  labels, and the filters by which the manager and the health command find the sandboxes of an owner. A label filter
  \<open>name=value\<close> of Docker selects the containers that have this label with this value. The property composes the two
  programs: what the manager creates is what the health command recognises, whoever else uses the host.
\<close>

subsection \<open>Options\<close>

definition SANDBOX_WORK_DIRECTORY :: string where "SANDBOX_WORK_DIRECTORY = ''/work''"
definition SANDBOX_HOME_DIRECTORY :: string where "SANDBOX_HOME_DIRECTORY = ''/tmp/home''"
definition SANDBOX_MEMORY_LIMIT_BYTES :: int where "SANDBOX_MEMORY_LIMIT_BYTES = 512 * 1024 * 1024"
definition SANDBOX_CPU_MAX :: string where "SANDBOX_CPU_MAX = ''50000 100000''"
definition SANDBOX_PIDS_LIMIT :: int where "SANDBOX_PIDS_LIMIT = 50"

definition SANDBOX_INIT_COMMAND :: string where
  "SANDBOX_INIT_COMMAND =
     ''umask 077; mkdir -p '' @ SANDBOX_HOME_DIRECTORY @ ''; ''
     @ ''ln -s /media '' @ SANDBOX_WORK_DIRECTORY @ ''/media; ''
     @ ''ln -s /ShellGeiData '' @ SANDBOX_WORK_DIRECTORY @ ''/ShellGeiData; ''
     @ ''exec sleep infinity </dev/null >/dev/null 2>&1''"

record container_options =
  co_detach :: bool
  co_command :: "string list"
  co_read_only :: bool
  co_working_dir :: string
  co_environment :: "(string \<times> string) list"
  co_ipc_mode :: string
  co_network_mode :: string
  co_mem_limit :: string
  co_memswap_limit :: string
  co_nano_cpus :: int
  co_pids_limit :: int
  co_cap_drop :: "string list"
  co_security_opt :: "string list"
  co_log_type :: string
  co_tmpfs :: "(pystr \<times> pyval) list"
  co_ulimits :: "(string \<times> int \<times> int) list"
  co_labels :: "(pystr \<times> pystr) list"

definition container_labels :: "pystr \<Rightarrow> pystr \<Rightarrow> (pystr \<times> pystr) list" where
  "container_labels owner_id instance_id =
     [(lit MANAGED_LABEL, lit ''true''), (lit OWNER_LABEL, owner_id), (lit INSTANCE_LABEL, instance_id)]"

definition new_container_options :: "pystr \<Rightarrow> pystr \<Rightarrow> container_options" where
  "new_container_options owner_id instance_id =
     \<lparr>co_detach = True, co_command = [''/bin/sh'', ''-c'', SANDBOX_INIT_COMMAND], co_read_only = True,
      co_working_dir = SANDBOX_WORK_DIRECTORY, co_environment = [(''HOME'', SANDBOX_HOME_DIRECTORY), (''TMPDIR'', ''/tmp'')],
      co_ipc_mode = ''none'', co_network_mode = ''none'', co_mem_limit = ''512m'', co_memswap_limit = ''512m'',
      co_nano_cpus = 500000000, co_pids_limit = SANDBOX_PIDS_LIMIT, co_cap_drop = [''ALL''],
      co_security_opt = [''no-new-privileges:true''], co_log_type = ''none'', co_tmpfs = SANDBOX_TMPFS,
      co_ulimits = [(''fsize'', 50000000, 50000000), (''nofile'', 256, 256), (''core'', 0, 0)],
      co_labels = container_labels owner_id instance_id\<rparr>"

subsection \<open>Filters\<close>

definition owned_container_filters :: "pystr \<Rightarrow> pystr list" where
  "owned_container_filters owner_id = [lit MANAGED_LABEL @ lit ''=true'', lit OWNER_LABEL @ lit ''='' @ owner_id]"

text \<open>Docker's reading of a filter: the name ends at the first equals sign.\<close>

definition matches_filter :: "(pystr \<times> pystr) list \<Rightarrow> pystr \<Rightarrow> bool" where
  "matches_filter labels f =
     (map_of labels (takeWhile (\<lambda>c. c \<noteq> 61) f) = Some (tl (dropWhile (\<lambda>c. c \<noteq> 61) f)))"

definition listed :: "pystr list \<Rightarrow> (pystr \<times> pystr) list \<Rightarrow> bool" where
  "listed filters labels = list_all (matches_filter labels) filters"

text \<open>A sandbox of the host: its owner, its instance and its state, and what Docker says of it.\<close>

type_synonym host_sandbox = "pystr \<times> pystr \<times> string"

definition labels_of :: "host_sandbox \<Rightarrow> (pystr \<times> pystr) list" where
  "labels_of s = co_labels (new_container_options (fst s) (fst (snd s)))"

definition sandbox_document :: "host_sandbox \<Rightarrow> pyval" where
  "sandbox_document s = PDict [(lit ''Labels'', PDict (map (\<lambda>(k, v). (k, PStr v)) (labels_of s))),
     (lit ''State'', PStr (lit (snd (snd s))))]"

definition listing :: "pystr \<Rightarrow> host_sandbox list \<Rightarrow> pyval list" where
  "listing owner host = map sandbox_document (filter (\<lambda>s. listed (owned_container_filters owner) (labels_of s)) host)"

subsection \<open>An owner finds exactly its own sandboxes\<close>

lemma label_names: "lit MANAGED_LABEL \<noteq> lit OWNER_LABEL" "lit MANAGED_LABEL \<noteq> lit INSTANCE_LABEL" "lit OWNER_LABEL \<noteq> lit INSTANCE_LABEL"
  by (simp_all add: MANAGED_LABEL_def OWNER_LABEL_def INSTANCE_LABEL_def lit_def)

lemma label_name_ends:
  assumes "61 \<notin> set name"
  shows "takeWhile (\<lambda>c. c \<noteq> 61) (name @ 61 # v) = name" "tl (dropWhile (\<lambda>c. c \<noteq> 61) (name @ 61 # v)) = v"
  using assms by (induction name) auto

lemma no_equals_sign: "61 \<notin> set (lit MANAGED_LABEL)" "61 \<notin> set (lit OWNER_LABEL)"
  by (simp_all add: MANAGED_LABEL_def OWNER_LABEL_def lit_def)

lemma equals_lit: "lit ''=true'' = 61 # lit ''true''" "lit ''='' @ v = 61 # v"
  by (simp_all add: lit_def)

lemma matches_label: "61 \<notin> set name \<Longrightarrow> matches_filter labels (name @ 61 # v) \<longleftrightarrow> map_of labels name = Some v"
  by (simp add: matches_filter_def label_name_ends)

lemma listed_iff_owned: "listed (owned_container_filters owner) (labels_of s) \<longleftrightarrow> fst s = owner"
  using label_names
  by (simp add: listed_def owned_container_filters_def equals_lit matches_label no_equals_sign labels_of_def
      new_container_options_def container_labels_def)

lemma own_sandbox_checked:
  assumes "fst s = owner" and "fst (snd s) \<noteq> []" and "snd (snd s) \<in> set CONTAINER_STATES"
  shows "check_sandbox owner (sandbox_document s) = Inr (fst (snd s), PStr (lit (snd (snd s))) \<noteq> PStr (lit ''running''))"
proof -
  have n: "lit ''State'' \<noteq> lit ''Labels''" by (simp add: lit_def)
  have k: "hashable_in (PStr (lit (snd (snd s)))) CONTAINER_STATES = Inr True"
    using assms(3) by (simp add: hashable_in_def texts_def)
  show ?thesis
    using label_names n assms(1,2)
    by (simp add: check_sandbox_def sandbox_document_def get_item_def get_or_def labels_of_def new_container_options_def
        container_labels_def k demand_def)
qed

text \<open>The labels that the manager puts on its sandboxes and the filters and checks of the health command fit
  together: on a host where the owner's runner is healthy and has exactly a full pool of running sandboxes of its
  instance, the health command exits with 0, whatever sandboxes of other owners are on the host.\<close>

theorem own_pool_is_recognised:
  assumes env: "configured host owner runner_name" "dv_connect v" "dv_close v" "rootless_daemon v" "healthy_runner owner (dv_runner v)"
    and sandboxes: "dv_sandboxes v = Inr (listing owner all)"
    and own: "length (filter (\<lambda>s. fst s = owner) all) = DEFAULT_POOL_SIZE"
      "\<And>s. s \<in> set all \<Longrightarrow> fst s = owner \<Longrightarrow> snd s = (inst, ''running'')" "inst \<noteq> []"
  shows "snd (health_main host owner runner_name v) = 0"
proof -
  have "check_sandbox owner (sandbox_document s) = Inr (inst, False)" if "s \<in> set all" "fst s = owner" for s
    using own_sandbox_checked [of s owner] own(2) [OF that] that own(3) by (simp add: CONTAINER_STATES_def)
  then have "full_pool owner (listing owner all)"
    using own(1) by (auto simp: full_pool_def listing_def listed_iff_owned)
  then obtain r where "inspect_health v owner = Inr r" "hr_issues r = []"
    using inspect_health_complete [OF env(4,5) sandboxes] by blast
  then show ?thesis using env(1-3) by (simp add: health_main_def)
qed

definition example_runner :: pyval where
  "example_runner = PDict
     [(lit ''Config'', PDict [(lit ''Env'', PList (texts [''PATH=/bin'', ''SANDBOX_OWNER_ID=p''])),
        (lit ''Labels'', PDict [(lit ''com.docker.compose.service'', PStr (lit ''runner''))])]),
      (lit ''State'', PDict [(lit ''Status'', PStr (lit ''running'')),
        (lit ''Health'', PDict [(lit ''Status'', PStr (lit ''healthy''))])]),
      (lit ''RestartCount'', PInt 0)]"

definition example_host :: "host_sandbox list" where
  "example_host = [(lit ''p'', [49], ''running''), (lit ''q'', [50], ''dead''), (lit ''p'', [49], ''running''), (lit ''p'', [49], ''running'')]"

definition example_view :: docker_view where
  "example_view = \<lparr>dv_connect = True, dv_info = Inr (PDict [(lit ''SecurityOptions'', PList (texts [''name=rootless'']))]),
     dv_sandboxes = Inr (listing (lit ''p'') example_host), dv_runner = Runner_document example_runner, dv_close = True\<rparr>"

lemma own_pool_is_recognised_witness:
  "snd (health_main (lit ''unix:///d'') (lit ''p'') (lit ''r'') example_view) = 0"
proof (rule own_pool_is_recognised)
  show "configured (lit ''unix:///d'') (lit ''p'') (lit ''r'')" by code_simp
  have "check_runner (lit ''p'') example_runner = Inr (PStr (lit ''running''), PStr (lit ''healthy''), 0)" by code_simp
  then show "healthy_runner (lit ''p'') (dv_runner example_view)" by (simp add: healthy_runner_def example_view_def)
  show "rootless_daemon example_view" by (simp add: rootless_daemon_def example_view_def get_or_def texts_def)
  show "dv_sandboxes example_view = Inr (listing (lit ''p'') example_host)" by (simp add: example_view_def)
  show "length (filter (\<lambda>s. fst s = lit ''p'') example_host) = DEFAULT_POOL_SIZE" by code_simp
  show "snd s = ([49], ''running'')" if "s \<in> set example_host" "fst s = lit ''p''" for s
    using that by (auto simp: example_host_def lit_def)
qed (simp_all add: example_view_def)

end
