(* ===== verification/Pinned_Tools.thy ===== *)
theory Pinned_Tools
  imports Prelude "HOL-Library.AList"
begin

section \<open>Tools with a pinned digest\<close>

text \<open>
  \<open>ci/install_tools.py\<close> and \<open>ci/bootstrap_pip.py\<close>: programs that the checks download. What the network answers, the
  digest function, the reader of archives and the failure of a file operation are arguments; the directories are
  the state. The properties are that nothing is installed but what has its pinned digest, and what a failure leaves.
\<close>

datatype tool_exn = Rejected string | Missing_key | Failed_call

subsection \<open>Binaries\<close>

record archive_member =
  am_isfile :: bool
  am_size :: nat
  am_content :: "tool_exn + bytes"

record tool_entry =
  te_url :: pystr
  te_sha256 :: pystr
  te_binary :: pystr
  te_version :: pystr

record tool_world =
  tw_linux_x86 :: bool
  tw_manifest :: "tool_exn + (pystr \<times> tool_entry) list"
  tw_mkdir :: bool
  tw_fetch :: "pystr \<Rightarrow> tool_exn + bytes"
  tw_sha256 :: "bytes \<Rightarrow> pystr"
  tw_member :: "bytes \<Rightarrow> pystr \<Rightarrow> tool_exn + archive_member"
  tw_write :: "pystr \<Rightarrow> bytes option"
  tw_chmod :: "pystr \<Rightarrow> bool"

definition extract_binary :: "tool_world \<Rightarrow> bytes \<Rightarrow> pystr \<Rightarrow> pystr \<Rightarrow> tool_exn + bytes" where
  "extract_binary w payload digest name =
     (if tw_sha256 w payload \<noteq> digest then Inl (Rejected ''tool archive checksum mismatch'')
      else rbind (tw_member w payload name) (\<lambda>m.
        if \<not> am_isfile m \<or> am_size m > 256 * 1024 * 1024 then Inl (Rejected ''unexpected tool archive member'')
        else am_content m))"

text \<open>The destination, when it exists: the content of each file and whether it is executable.\<close>

type_synonym tool_directory = "(pystr \<times> bytes \<times> bool) list option"

definition files_of :: "tool_directory \<Rightarrow> (pystr \<times> bytes \<times> bool) list" where
  "files_of d = (case d of None \<Rightarrow> [] | Some fs \<Rightarrow> fs)"

text \<open>\<open>open("xb")\<close> refuses a name in use; a write that fails leaves what it has written (\<open>tw_write\<close>).\<close>

definition place_binary :: "tool_world \<Rightarrow> pystr \<Rightarrow> bytes \<Rightarrow> tool_directory \<Rightarrow> (tool_exn + unit) \<times> tool_directory" where
  "place_binary w name binary d =
     (if map_of (files_of d) name \<noteq> None then (Inl Failed_call, d)
      else (case tw_write w name of
        Some torn \<Rightarrow> (Inl Failed_call, Some (files_of d @ [(name, torn, False)]))
      | None \<Rightarrow>
          if tw_chmod w name then (Inr (), Some (files_of d @ [(name, binary, True)]))
          else (Inl Failed_call, Some (files_of d @ [(name, binary, False)]))))"

definition fetch_tool :: "tool_world \<Rightarrow> (pystr \<times> tool_entry) list \<Rightarrow> pystr \<Rightarrow> tool_exn + bytes" where
  "fetch_tool w manifest name =
     (case map_of manifest name of
        None \<Rightarrow> Inl Missing_key
      | Some entry \<Rightarrow>
          if \<not> startswith (te_url entry) (lit ''https://github.com/'')
          then Inl (Rejected ''tool must come from its reviewed HTTPS release'')
          else rbind (tw_fetch w (te_url entry)) (\<lambda>body.
            extract_binary w (take (256 * 1024 * 1024 + 1) body) (te_sha256 entry) (te_binary entry)))"

fun install_each :: "tool_world \<Rightarrow> (pystr \<times> tool_entry) list \<Rightarrow> pystr list \<Rightarrow> tool_directory \<Rightarrow>
    (tool_exn + unit) \<times> tool_directory" where
  "install_each w manifest [] d = (Inr (), d)"
| "install_each w manifest (name # names) d =
     sbind (fetch_tool w manifest name, d) (\<lambda>binary d.
     sbind (place_binary w name binary d) (\<lambda>_ d.
     install_each w manifest names d))"

definition install :: "tool_world \<Rightarrow> pystr list \<Rightarrow> tool_directory \<Rightarrow> (tool_exn + unit) \<times> tool_directory" where
  "install w names d =
     (if \<not> tw_linux_x86 w then (Inl (Rejected ''CI tool pins currently support Linux x86_64 only''), d)
      else sbind (tw_manifest w, d) (\<lambda>manifest d.
        if d \<noteq> None \<or> \<not> tw_mkdir w then (Inl Failed_call, d)
        else install_each w manifest names (Some [])))"

text \<open>The binary that the manifest pins under a name.\<close>

definition pinned :: "tool_world \<Rightarrow> (pystr \<times> tool_entry) list \<Rightarrow> pystr \<Rightarrow> bytes \<Rightarrow> bool" where
  "pinned w manifest name binary \<longleftrightarrow> (\<exists>entry payload m. map_of manifest name = Some entry
     \<and> startswith (te_url entry) (lit ''https://github.com/'') \<and> tw_sha256 w payload = te_sha256 entry
     \<and> tw_member w payload (te_binary entry) = Inr m \<and> am_isfile m \<and> am_size m \<le> 268435456 \<and> am_content m = Inr binary)"

lemma fetch_tool_Inr: "fetch_tool w manifest name = Inr binary \<Longrightarrow> pinned w manifest name binary"
  by (auto simp: fetch_tool_def pinned_def extract_binary_def rbind_eq_Inr split: option.splits if_splits)

definition only_pinned :: "tool_world \<Rightarrow> (pystr \<times> tool_entry) list \<Rightarrow> (pystr \<times> bytes \<times> bool) list \<Rightarrow> bool" where
  "only_pinned w manifest files \<longleftrightarrow> distinct (map fst files)
     \<and> (\<forall>(name, binary, executable) \<in> set files. executable \<longrightarrow> pinned w manifest name binary)"

lemma place_binary_pinned:
  assumes "place_binary w name binary d = (r, d')" and "pinned w manifest name binary" and "only_pinned w manifest (files_of d)"
  shows "only_pinned w manifest (files_of d')
    \<and> (\<forall>u. r = Inr u \<longrightarrow> files_of d' = files_of d @ [(name, binary, True)])"
  using assms
  by (auto simp: place_binary_def only_pinned_def files_of_def map_of_eq_None_iff split: option.splits if_splits)

lemma install_each_pinned:
  assumes "install_each w manifest names d = (r, d')" and "only_pinned w manifest (files_of d)"
  shows "only_pinned w manifest (files_of d')
    \<and> (\<forall>u. r = Inr u \<longrightarrow> (\<exists>new. files_of d' = files_of d @ new \<and> map fst new = names \<and> (\<forall>f \<in> set new. snd (snd f))))"
  using assms
proof (induction names arbitrary: d)
  case (Cons name names)
  show ?case
  proof (cases "fetch_tool w manifest name")
    case (Inl e)
    then show ?thesis using Cons.prems by (auto simp: sbind_def)
  next
    case (Inr binary)
    obtain r1 d1 where p: "place_binary w name binary d = (r1, d1)" by fastforce
    note ok = place_binary_pinned [OF p fetch_tool_Inr [OF Inr] Cons.prems(2)]
    show ?thesis
    proof (cases r1)
      case (Inl e)
      then show ?thesis using Cons.prems(1) Inr p ok by (auto simp: sbind_def)
    next
      case Inr1: (Inr u)
      then have "install_each w manifest names d1 = (r, d')" using Cons.prems(1) Inr p by (simp add: sbind_def)
      from Cons.IH [OF this] ok Inr1 show ?thesis by fastforce
    qed
  qed
qed auto

text \<open>Whatever the network serves, an executable that the installer leaves behind is the regular member of an
  archive with exactly the reviewed digest from a release on GitHub, no file is written twice, and an existing directory
  is left as it was; when the installation ends normally, exactly the requested tools are there, all executable.\<close>

theorem only_pinned_tools_are_installed:
  assumes "install w names d = (r, d')"
  shows "(d \<noteq> None \<longrightarrow> d' = d \<and> (\<exists>e. r = Inl e))
    \<and> (d = None \<longrightarrow> d' = None \<or> (\<exists>manifest. tw_manifest w = Inr manifest \<and> only_pinned w manifest (files_of d')))
    \<and> (r = Inr () \<longrightarrow> map fst (files_of d') = names \<and> (\<forall>f \<in> set (files_of d'). snd (snd f)))"
proof -
  have "only_pinned w manifest (files_of (Some []))" for manifest by (simp add: only_pinned_def files_of_def)
  then have each: "only_pinned w manifest (files_of d')
      \<and> (r = Inr () \<longrightarrow> map fst (files_of d') = names \<and> (\<forall>f \<in> set (files_of d'). snd (snd f)))"
    if "install_each w manifest names (Some []) = (r, d')" for manifest
    using install_each_pinned [OF that] by (fastforce simp: files_of_def)
  have "(d' = d \<and> (\<exists>e. r = Inl e)) \<or> (d = None \<and> (\<exists>manifest. tw_manifest w = Inr manifest \<and> install_each w manifest names (Some []) = (r, d')))"
    using assms by (auto simp: install_def sbind_def split: sum.splits if_splits)
  then show ?thesis using each by fastforce
qed

definition example_entry :: tool_entry where
  "example_entry = \<lparr>te_url = lit ''https://github.com/a'', te_sha256 = [1], te_binary = [98], te_version = [118]\<rparr>"

definition example_tools :: tool_world where
  "example_tools = \<lparr>tw_linux_x86 = True, tw_manifest = Inr [(lit ''syft'', example_entry), (lit ''grype'', example_entry)],
     tw_mkdir = True, tw_fetch = (\<lambda>_. Inr [7]), tw_sha256 = (\<lambda>_. [1]),
     tw_member = (\<lambda>_ _. Inr \<lparr>am_isfile = True, am_size = 1, am_content = Inr [9]\<rparr>),
     tw_write = (\<lambda>_. None), tw_chmod = (\<lambda>_. True)\<rparr>"

lemma example_install:
  "install example_tools [lit ''syft'', lit ''grype''] None = (Inr (), Some [(lit ''syft'', [9], True), (lit ''grype'', [9], True)])"
  by (simp add: install_def example_tools_def sbind_def fetch_tool_def example_entry_def extract_binary_def place_binary_def
      files_of_def startswith_def lit_def)

lemma only_pinned_tools_are_installed_witness:
  "\<exists>manifest. tw_manifest example_tools = Inr manifest \<and> pinned example_tools manifest (lit ''grype'') [9]"
proof -
  obtain manifest where "tw_manifest example_tools = Inr manifest"
    and "only_pinned example_tools manifest [(lit ''syft'', [9], True), (lit ''grype'', [9], True)]"
    using only_pinned_tools_are_installed [OF example_install] by (auto simp: files_of_def)
  then show ?thesis by (auto simp: only_pinned_def)
qed

subsection \<open>The pinned pip\<close>

definition PIP_VERSION :: pystr where "PIP_VERSION = lit ''26.2.2''"

definition WHEEL_NAME :: pystr where "WHEEL_NAME = lit ''pip-'' @ PIP_VERSION @ lit ''-py3-none-any.whl''"

definition WHEEL_URL :: pystr where
  "WHEEL_URL = lit ''https://files.pythonhosted.org/packages/3f/06/''
     @ lit ''3e4420302363fbb71be3c7f35ce042f54bfca330e3e66b3a2e3c4cca579f/'' @ WHEEL_NAME"

definition WHEEL_SHA256 :: pystr where
  "WHEEL_SHA256 = lit ''fd7f4dfa8190e014013b9f08f3e973f4e4c26ffd179a204895533a7254813a70''"

text \<open>\<open>re.subn(r'^_PIP_VERSION = "[^"]+"$', ..., flags=re.MULTILINE)\<close>: what the pattern consumes at the start of a line.\<close>

definition VERSION_START :: pystr where "VERSION_START = lit ''_PIP_VERSION = '' @ [34]"

definition version_line :: "pystr \<Rightarrow> pystr" where
  "version_line v = VERSION_START @ v @ [34]"

definition match_version :: "pystr \<Rightarrow> pystr option" where
  "match_version s =
     (let rest = drop (length VERSION_START) s; v = takeWhile (\<lambda>c. c \<noteq> 34) rest; after = drop (length v + 1) rest in
      if startswith s VERSION_START \<and> v \<noteq> [] \<and> length v < length rest \<and> (after = [] \<or> hd after = 10)
      then Some after else None)"

function subn_version :: "bool \<Rightarrow> pystr \<Rightarrow> pystr \<times> nat" where
  "subn_version at_start [] = ([], 0)"
| "subn_version at_start (c # s) =
     (case (if at_start then match_version (c # s) else None) of
        Some after \<Rightarrow> (let (t, n) = subn_version False after in (version_line PIP_VERSION @ t, Suc n))
      | None \<Rightarrow> (let (t, n) = subn_version (c = 10) s in (c # t, n)))"
  by pat_completeness auto
termination
proof (relation "measure (\<lambda>(_, s). length s)")
  show "((False, after), at_start, c # s) \<in> measure (\<lambda>(_, s). length s)"
    if "(if at_start then match_version (c # s) else None) = Some after" for at_start c s after
    using that by (auto simp: match_version_def VERSION_START_def lit_def Let_def split: if_splits)
qed auto

text \<open>The Python installation of the image: the source of \<open>ensurepip\<close>, its bundled files and the installed pip
  (\<open>None\<close>: no complete one). \<open>pt_left\<close> counts the actions that still succeed; \<open>pt_torn\<close> says how the failing one
  ends: it has done nothing, or it stops part way, a file after that many bytes.\<close>

record python_tree =
  pt_source :: pystr
  pt_bundled :: "(pystr \<times> bytes) list"
  pt_pip :: "bytes option"
  pt_left :: "nat option"
  pt_torn :: "nat option"

definition change ::
  "(python_tree \<Rightarrow> python_tree) \<Rightarrow> (nat \<Rightarrow> python_tree \<Rightarrow> python_tree) \<Rightarrow> python_tree \<Rightarrow> (tool_exn + unit) \<times> python_tree" where
  "change f partial t = (case pt_left t of
     None \<Rightarrow> (Inr (), f t)
   | Some 0 \<Rightarrow> (Inl Failed_call, case pt_torn t of None \<Rightarrow> t | Some k \<Rightarrow> partial k t)
   | Some (Suc n) \<Rightarrow> (Inr (), f (t\<lparr>pt_left := Some n\<rparr>)))"

text \<open>The single actions: copying the wheel, writing the source, removing a file, installing the wheel.\<close>

definition copy_wheel :: "bytes \<Rightarrow> python_tree \<Rightarrow> (tool_exn + unit) \<times> python_tree" where
  "copy_wheel wheel = change (\<lambda>t. t\<lparr>pt_bundled := AList.update WHEEL_NAME wheel (pt_bundled t)\<rparr>)
     (\<lambda>k t. t\<lparr>pt_bundled := AList.update WHEEL_NAME (take k wheel) (pt_bundled t)\<rparr>)"

definition write_source :: "pystr \<Rightarrow> python_tree \<Rightarrow> (tool_exn + unit) \<times> python_tree" where
  "write_source content = change (\<lambda>t. t\<lparr>pt_source := content\<rparr>) (\<lambda>k t. t\<lparr>pt_source := take k content\<rparr>)"

definition unlink_file :: "pystr \<Rightarrow> python_tree \<Rightarrow> (tool_exn + unit) \<times> python_tree" where
  "unlink_file name = change (\<lambda>t. t\<lparr>pt_bundled := AList.delete name (pt_bundled t)\<rparr>) (\<lambda>_ t. t)"

definition pip_install :: "bytes \<Rightarrow> python_tree \<Rightarrow> (tool_exn + unit) \<times> python_tree" where
  "pip_install payload = change (\<lambda>t. t\<lparr>pt_pip := Some payload\<rparr>) (\<lambda>_ t. t\<lparr>pt_pip := None\<rparr>)"

definition pip_wheel :: "pystr \<Rightarrow> bool" where
  "pip_wheel name \<longleftrightarrow> startswith name (lit ''pip-'') \<and> endswith name (lit ''.whl'')"

fun unlink_old :: "pystr list \<Rightarrow> python_tree \<Rightarrow> (tool_exn + unit) \<times> python_tree" where
  "unlink_old [] t = (Inr (), t)"
| "unlink_old (old # names) t =
     (if old = WHEEL_NAME then unlink_old names t
      else sbind (unlink_file old t) (\<lambda>_ t. unlink_old names t))"

definition update_ensurepip :: "bytes \<Rightarrow> python_tree \<Rightarrow> (tool_exn + unit) \<times> python_tree" where
  "update_ensurepip wheel t =
     (let (content, number) = subn_version True (pt_source t) in
      if number \<noteq> 1 then (Inl (Rejected ''unknown ensurepip layout''), t)
      else sbind (copy_wheel wheel t) (\<lambda>_ t.
        sbind (write_source content t) (\<lambda>_ t.
        unlink_old (filter pip_wheel (map fst (pt_bundled t))) t)))"

definition bootstrap :: "(tool_exn + bytes) \<Rightarrow> (bytes \<Rightarrow> pystr) \<Rightarrow> bool \<Rightarrow> python_tree \<Rightarrow> (tool_exn + unit) \<times> python_tree" where
  "bootstrap response sha256 seed t =
     sbind (response, t) (\<lambda>body t.
     let payload = take 4000001 body in
     if sha256 payload \<noteq> WHEEL_SHA256 then (Inl (Rejected ''pip wheel SHA-256 mismatch''), t)
     else sbind (change (\<lambda>t. t) (\<lambda>_ t. t) t) (\<lambda>_ t.
       sbind (pip_install payload t) (\<lambda>_ t.
       if seed then update_ensurepip payload t else (Inr (), t))))"

text \<open>A text without a version line stays as it is.\<close>

lemma subn_version_none: "snd (subn_version b s) = 0 \<Longrightarrow> fst (subn_version b s) = s"
  by (induction b s rule: subn_version.induct) (auto simp: Let_def split: option.splits prod.splits if_splits)

text \<open>What every action keeps: the files that are no pip wheels, and the origin of every bundled file; a copy of the
  wheel may be incomplete.\<close>

definition seeds_kept :: "bytes \<Rightarrow> python_tree \<Rightarrow> python_tree \<Rightarrow> bool" where
  "seeds_kept w t t' \<longleftrightarrow> (\<forall>f \<in> set (pt_bundled t'). f \<in> set (pt_bundled t) \<or> (\<exists>k. f = (WHEEL_NAME, take k w)))
     \<and> (\<forall>f \<in> set (pt_bundled t). \<not> pip_wheel (fst f) \<longrightarrow> f \<in> set (pt_bundled t'))"

interpretation seeds_frame: step_frame "seeds_kept w" for w
  by unfold_locales (auto simp: seeds_kept_def)

lemma WHEEL_NAME_pip: "pip_wheel WHEEL_NAME"
proof -
  have "WHEEL_NAME = lit ''pip-26.2.2-py3-none-any'' @ lit ''.whl''"
    by (simp add: WHEEL_NAME_def PIP_VERSION_def lit_def)
  then have "endswith WHEEL_NAME (lit ''.whl'')" using endswith_append by metis
  then show ?thesis by (simp add: pip_wheel_def startswith_def WHEEL_NAME_def lit_def)
qed

lemma preserves_change:
  assumes "\<And>t. seeds_kept w t (f t)" and "\<And>k t. seeds_kept w t (partial k t)"
  shows "preserves (seeds_kept w) (change f partial)"
proof -
  have "seeds_kept w t (f (t\<lparr>pt_left := l\<rparr>))" for t l
    using assms(1) [of "t\<lparr>pt_left := l\<rparr>"] by (simp add: seeds_kept_def)
  then show ?thesis
    using assms seeds_frame.frame_refl by (auto simp: preserves_def change_def split: option.splits nat.splits)
qed

lemma set_update_alist:
  "set (AList.update k v al) \<subseteq> insert (k, v) (set al)" "(k, v) \<in> set (AList.update k v al)"
  "f \<in> set al \<Longrightarrow> fst f \<noteq> k \<Longrightarrow> f \<in> set (AList.update k v al)"
  by (induction al) auto

lemma update_alist_key:
  "distinct (map fst al) \<Longrightarrow> f \<in> set (AList.update k v al) \<Longrightarrow> fst f = k \<Longrightarrow> f = (k, v)"
  by (induction al) (auto split: if_splits simp: image_iff)

lemma preserves_actions:
  "preserves (seeds_kept w) (copy_wheel w)" "preserves (seeds_kept w) (write_source content)"
  "pip_wheel name \<Longrightarrow> preserves (seeds_kept w) (unlink_file name)"
proof -
  have old: "f \<in> set (AList.update WHEEL_NAME v (pt_bundled t))" if "f \<in> set (pt_bundled t)" "\<not> pip_wheel (fst f)" for f v t
    using that WHEEL_NAME_pip by (intro set_update_alist(3)) auto
  have origin: "f \<in> set (pt_bundled t) \<or> (\<exists>k. f = (WHEEL_NAME, take k w))"
    if "f \<in> set (AList.update WHEEL_NAME (take n w) (pt_bundled t))" for f n t
    using that set_update_alist(1) [of WHEEL_NAME "take n w" "pt_bundled t"] by blast
  have "seeds_kept w t (t\<lparr>pt_bundled := AList.update WHEEL_NAME (take n w) (pt_bundled t)\<rparr>)" for t n
    by (auto simp: seeds_kept_def intro: old dest!: origin)
  from this this [of _ "length w"] show "preserves (seeds_kept w) (copy_wheel w)"
    unfolding copy_wheel_def by (intro preserves_change) simp_all
  show "preserves (seeds_kept w) (write_source content)"
    unfolding write_source_def by (intro preserves_change) (auto simp: seeds_kept_def)
  show "pip_wheel name \<Longrightarrow> preserves (seeds_kept w) (unlink_file name)"
    unfolding unlink_file_def by (intro preserves_change) (auto simp: seeds_kept_def AList.delete_eq)
qed

lemma preserves_unlink: "list_all pip_wheel names \<Longrightarrow> preserves (seeds_kept w) (unlink_old names)"
proof (induction names)
  case (Cons old names)
  then have step: "preserves (seeds_kept w) (\<lambda>t. sbind (unlink_file old t) (\<lambda>_. unlink_old names))"
    by (intro seeds_frame.preserves_sbind preserves_actions) simp_all
  show ?case
    using Cons step by (cases "old = WHEEL_NAME") (simp_all add: preserves_def)
qed (simp add: preserves_def seeds_frame.frame_refl)

lemma preserves_update: "preserves (seeds_kept w) (update_ensurepip w)"
proof -
  have u: "preserves (seeds_kept w) (\<lambda>t. unlink_old (filter pip_wheel (map fst (pt_bundled t))) t)"
    using preserves_unlink by (auto simp: preserves_def list_all_iff)
  note steps = seeds_frame.preserves_sbind [OF preserves_actions(1) seeds_frame.preserves_sbind [OF preserves_actions(2) u]]
  have "seeds_kept w t (snd (update_ensurepip w t))" for t
  proof (cases "subn_version True (pt_source t)")
    case (Pair content number)
    have "update_ensurepip w t = (if number \<noteq> 1 then (Inl (Rejected ''unknown ensurepip layout''), t)
      else sbind (copy_wheel w t) (\<lambda>_ t. sbind (write_source content t) (\<lambda>_ t.
        unlink_old (filter pip_wheel (map fst (pt_bundled t))) t)))"
      by (simp add: update_ensurepip_def Pair Let_def)
    then show ?thesis
      using steps [of "\<lambda>_. content"] seeds_frame.frame_refl by (simp add: preserves_def)
  qed
  then show ?thesis by (simp add: preserves_def)
qed

lemma change_outcome:
  assumes "change f partial t = (r, t')"
  shows "(r = Inl Failed_call \<and> (t' = t \<or> (\<exists>k. t' = partial k t))) \<or> (r = Inr () \<and> (\<exists>l. t' = f (t\<lparr>pt_left := l\<rparr>)))"
proof (cases "pt_left t")
  case None
  then have "t\<lparr>pt_left := None\<rparr> = t" by (cases t) simp
  then have "f (t\<lparr>pt_left := None\<rparr>) = f t" by (rule arg_cong)
  then show ?thesis using assms None by (intro disjI2 conjI exI [of _ None]) (simp_all add: change_def)
next
  case (Some n)
  then show ?thesis using assms by (cases n) (auto simp: change_def split: option.splits)
qed

text \<open>The bundled files other than the new wheel are all still there.\<close>

definition others_kept :: "python_tree \<Rightarrow> python_tree \<Rightarrow> bool" where
  "others_kept t t' \<longleftrightarrow> (\<forall>f \<in> set (pt_bundled t). fst f \<noteq> WHEEL_NAME \<longrightarrow> f \<in> set (pt_bundled t'))"

lemma copy_wheel_effect:
  assumes "copy_wheel w t = (r, t')"
  shows "pt_source t' = pt_source t \<and> pt_pip t' = pt_pip t \<and> others_kept t t'
    \<and> (r = Inl Failed_call \<or> r = Inr () \<and> pt_bundled t' = AList.update WHEEL_NAME w (pt_bundled t))"
  using change_outcome [OF assms [unfolded copy_wheel_def]] set_update_alist(3)
  by (auto simp: others_kept_def)

lemma write_source_effect:
  assumes "write_source content t = (r, t')"
  shows "pt_bundled t' = pt_bundled t \<and> pt_pip t' = pt_pip t
    \<and> (r = Inl Failed_call \<and> (pt_source t' = pt_source t \<or> (\<exists>k. pt_source t' = take k content))
       \<or> r = Inr () \<and> pt_source t' = content)"
  using change_outcome [OF assms [unfolded write_source_def]] by auto

lemma unlink_old_effect:
  assumes "unlink_old names t = (r, t')"
  shows "pt_source t' = pt_source t \<and> pt_pip t' = pt_pip t
    \<and> (\<forall>f \<in> set (pt_bundled t). fst f = WHEEL_NAME \<longrightarrow> f \<in> set (pt_bundled t'))
    \<and> (r = Inr () \<longrightarrow> set (pt_bundled t') = {f \<in> set (pt_bundled t). fst f = WHEEL_NAME \<or> fst f \<notin> set names})"
  using assms
proof (induction names arbitrary: t)
  case (Cons old names)
  show ?case
  proof (cases "old = WHEEL_NAME")
    case True
    then show ?thesis using Cons.IH [of t] Cons.prems by auto
  next
    case False
    obtain r1 t1 where c: "unlink_file old t = (r1, t1)" by fastforce
    from change_outcome [OF c [unfolded unlink_file_def]] show ?thesis
    proof (elim disjE conjE exE)
      fix l assume s: "r1 = Inr ()" "t1 = t\<lparr>pt_left := l, pt_bundled := AList.delete old (pt_bundled (t\<lparr>pt_left := l\<rparr>))\<rparr>"
      then have "unlink_old names t1 = (r, t')" using Cons.prems False c by (simp add: sbind_def)
      from Cons.IH [OF this] s(2) False show ?thesis by (auto simp: AList.delete_eq)
    qed (use Cons.prems False c in \<open>auto simp: sbind_def\<close>)
  qed
qed auto

text \<open>At every moment the source is the old one and no old wheel is gone yet, or it is being written, or it is
  the new one; in the last two cases the wheel that it names is complete.\<close>

definition seed_consistent :: "bytes \<Rightarrow> python_tree \<Rightarrow> python_tree \<Rightarrow> bool" where
  "seed_consistent w t t' \<longleftrightarrow> pt_source t' = pt_source t \<and> others_kept t t'
     \<or> (\<exists>k. pt_source t' = take k (fst (subn_version True (pt_source t)))) \<and> others_kept t t' \<and> (WHEEL_NAME, w) \<in> set (pt_bundled t')
     \<or> pt_source t' = fst (subn_version True (pt_source t)) \<and> (WHEEL_NAME, w) \<in> set (pt_bundled t')"

lemma update_effect:
  assumes "update_ensurepip w t = (r, t')" and "distinct (map fst (pt_bundled t))"
  shows "pt_pip t' = pt_pip t \<and> seed_consistent w t t'
    \<and> (r = Inr () \<longrightarrow> pt_source t' = fst (subn_version True (pt_source t))
       \<and> {f \<in> set (pt_bundled t'). pip_wheel (fst f)} = {(WHEEL_NAME, w)})"
proof (cases "snd (subn_version True (pt_source t)) = 1")
  case False
  then show ?thesis using assms(1)
    by (auto simp: update_ensurepip_def Let_def seed_consistent_def others_kept_def split: prod.splits)
next
  case True
  obtain r1 t1 where b: "copy_wheel w t = (r1, t1)" by fastforce
  obtain r2 t2 where c: "write_source (fst (subn_version True (pt_source t))) t1 = (r2, t2)" by fastforce
  have u: "update_ensurepip w t = (if r1 = Inr () then if r2 = Inr ()
      then unlink_old (filter pip_wheel (map fst (pt_bundled t2))) t2 else (r2, t2) else (r1, t1))"
    using True b c by (cases r1; cases r2) (auto simp: update_ensurepip_def Let_def sbind_def split: prod.splits)
  note eb = copy_wheel_effect [OF b] and ec = write_source_effect [OF c]
  have bundled: "r1 = Inr () \<Longrightarrow> pt_bundled t2 = AList.update WHEEL_NAME w (pt_bundled t)" using eb ec by auto
  have others: "others_kept t t2" using eb ec by (simp add: others_kept_def)
  show ?thesis
  proof (cases "r1 = Inr () \<and> r2 = Inr ()")
    case False
    then consider "r1 \<noteq> Inr ()" "t' = t1" "r = r1" | "r1 = Inr ()" "r2 \<noteq> Inr ()" "t' = t2" "r = r2"
      using assms(1) u by (auto split: if_splits)
    then show ?thesis
    proof cases
      case 1
      then show ?thesis using eb by (simp add: seed_consistent_def)
    next
      case 2
      then have "(WHEEL_NAME, w) \<in> set (pt_bundled t2)" using bundled by (simp add: set_update_alist(2))
      then show ?thesis using 2 eb ec others by (auto simp: seed_consistent_def)
    qed
  next
    case ok: True
    then have un: "unlink_old (filter pip_wheel (map fst (pt_bundled t2))) t2 = (r, t')" using assms(1) u by simp
    have src: "pt_source t2 = fst (subn_version True (pt_source t))" "pt_pip t2 = pt_pip t" using ok eb ec by auto
    have one: "(WHEEL_NAME, w) \<in> set (pt_bundled t2)" using ok by (simp add: bundled set_update_alist(2))
    note e = unlink_old_effect [OF un]
    have "f = (WHEEL_NAME, w) \<longleftrightarrow> f \<in> set (pt_bundled t') \<and> pip_wheel (fst f)" if "r = Inr ()" for f
    proof
      assume "f = (WHEEL_NAME, w)"
      then show "f \<in> set (pt_bundled t') \<and> pip_wheel (fst f)" using e one WHEEL_NAME_pip by simp
    next
      assume f: "f \<in> set (pt_bundled t') \<and> pip_wheel (fst f)"
      then have "f \<in> set (pt_bundled t2)" "fst f = WHEEL_NAME" using e that by auto
      then show "f = (WHEEL_NAME, w)" using update_alist_key [OF assms(2)] bundled ok by simp
    qed
    then have "{f \<in> set (pt_bundled t'). pip_wheel (fst f)} = {(WHEEL_NAME, w)}" if "r = Inr ()"
      using that by blast
    then show ?thesis using e one src by (auto simp: seed_consistent_def)
  qed
qed

text \<open>C38: Bootstrapping pip installs nothing but the wheel with the pinned digest, whatever the network answers and
  wherever an action fails, part way through a file or not: the installed pip is the old one, that wheel or an
  installation that was not completed; every bundled file is old or (the beginning of) that wheel, and files that
  are no pip wheels stay. As long as the source of \<open>ensurepip\<close> is the old one, no other wheel has been
  removed; from the moment it is rewritten, the wheel of the new version is completely in place, and the old ones go only
  when the new source is complete. When the update with seeds ends normally, that wheel is the only pip left in the
  bundle.\<close>

theorem only_the_pinned_pip_is_installed:
  assumes "bootstrap response sha256 seed t = (r, t')" and "distinct (map fst (pt_bundled t))"
  shows "(t' = t \<or> (\<exists>w. sha256 w = WHEEL_SHA256 \<and> seeds_kept w t t'
      \<and> (pt_pip t' = pt_pip t \<or> pt_pip t' = Some w \<or> pt_pip t' = None)
      \<and> seed_consistent w t t'))
    \<and> (r = Inr () \<longrightarrow> (\<exists>w. sha256 w = WHEEL_SHA256 \<and> pt_pip t' = Some w
      \<and> (seed \<longrightarrow> pt_source t' = fst (subn_version True (pt_source t))
           \<and> {f \<in> set (pt_bundled t'). pip_wheel (fst f)} = {(WHEEL_NAME, w)})))"
proof (cases "\<exists>body. response = Inr body \<and> sha256 (take 4000001 body) = WHEEL_SHA256")
  case False
  then show ?thesis using assms(1) by (cases response) (auto simp: bootstrap_def sbind_def Let_def)
next
  case True
  then obtain body where body: "response = Inr body" and sha: "sha256 (take 4000001 body) = WHEEL_SHA256" by blast
  define w where "w = take 4000001 body"
  obtain r1 t1 where a: "change (\<lambda>t. t) (\<lambda>_ t. t) t = (r1, t1)" by fastforce
  obtain r2 t2 where b: "pip_install w t1 = (r2, t2)" by fastforce
  have boot: "bootstrap response sha256 seed t = (if r1 = Inr () then if r2 = Inr ()
      then if seed then update_ensurepip w t2 else (Inr (), t2) else (r2, t2) else (r1, t1))"
    using body sha a b by (cases r1; cases r2) (auto simp: bootstrap_def sbind_def Let_def w_def)
  have t1: "pt_bundled t1 = pt_bundled t" "pt_source t1 = pt_source t" "pt_pip t1 = pt_pip t"
    using change_outcome [OF a] by auto
  have t2: "pt_bundled t2 = pt_bundled t" "pt_source t2 = pt_source t" "r2 = Inr () \<longrightarrow> pt_pip t2 = Some w"
      "pt_pip t2 = pt_pip t \<or> pt_pip t2 = Some w \<or> pt_pip t2 = None"
    using change_outcome [OF b [unfolded pip_install_def]] t1 by auto
  have w: "sha256 w = WHEEL_SHA256" using sha by (simp add: w_def)
  have kept: "seeds_kept w t u" "seed_consistent w t u" if "pt_bundled u = pt_bundled t" "pt_source u = pt_source t" for u
    using that by (auto simp: seeds_kept_def seed_consistent_def others_kept_def)
  show ?thesis
  proof (cases "r1 = Inr () \<and> r2 = Inr () \<and> seed")
    case False
    then show ?thesis using assms(1) boot w kept [OF t1(1,2)] kept [OF t2(1,2)] t1 t2 by (auto split: if_splits)
  next
    case True
    then have up: "update_ensurepip w t2 = (r, t')" using assms(1) boot by simp
    have "seeds_kept w t2 t'" using preservesD [OF preserves_update up] .
    then have "seeds_kept w t t'" using t2(1) by (simp add: seeds_kept_def)
    moreover have "seed_consistent w t t' = seed_consistent w t2 t'"
      using t2(1,2) by (simp add: seed_consistent_def others_kept_def)
    ultimately show ?thesis using update_effect [OF up] assms(2) t2 w True by auto
  qed
qed

definition example_tree :: python_tree where
  "example_tree = \<lparr>pt_source = lit ''import os'' @ 10 # version_line (lit ''25.0'') @ [10],
     pt_bundled = [(lit ''pip-25.0-py3-none-any.whl'', [1]), (lit ''README'', [2])], pt_pip = Some [1], pt_left = None, pt_torn = None\<rparr>"

definition updated_tree :: python_tree where
  "updated_tree = \<lparr>pt_source = lit ''import os'' @ 10 # version_line PIP_VERSION @ [10],
     pt_bundled = [(lit ''README'', [2]), (WHEEL_NAME, [5])], pt_pip = Some [5], pt_left = None, pt_torn = None\<rparr>"

lemma example_bootstrap: "bootstrap (Inr [5]) (\<lambda>_. WHEEL_SHA256) True example_tree = (Inr (), updated_tree)"
proof -
  have "take 4000001 [5 :: byte] = [5]" by simp
  moreover have "update_ensurepip [5] (example_tree\<lparr>pt_pip := Some [5]\<rparr>) = (Inr (), updated_tree)" by code_simp
  moreover have "change f p example_tree = (Inr (), f example_tree)" for f p by (simp add: change_def example_tree_def)
  ultimately show ?thesis by (simp add: bootstrap_def pip_install_def sbind_def Let_def)
qed

lemma only_the_pinned_pip_is_installed_witness:
  "{f \<in> set (pt_bundled updated_tree). pip_wheel (fst f)} = {(WHEEL_NAME, [5])}"
proof -
  have "distinct (map fst (pt_bundled example_tree))" by (simp add: example_tree_def lit_def)
  from only_the_pinned_pip_is_installed [OF example_bootstrap this]
  have "\<exists>w. pt_pip updated_tree = Some w \<and> {f \<in> set (pt_bundled updated_tree). pip_wheel (fst f)} = {(WHEEL_NAME, w)}"
    by blast
  then show ?thesis by (simp add: updated_tree_def)
qed

end
