(* ===== verification/Remote_Commands.thy ===== *)
theory Remote_Commands
  imports Deploy_Gate
begin

section \<open>The commands of the transfer\<close>

text \<open>
  \<open>ci/deploy.py\<close>, the processes that \<open>transfer\<close> starts: the arguments of ssh and rsync, with the commands of the
  production host quoted for its shell (\<open>shlex.join\<close>), and the dispatch of \<open>main\<close>. The property is that the shell of the
  host reads exactly the intended arguments, whatever characters the configuration contains.
\<close>

subsection \<open>Quoting\<close>

definition shlex_safe :: "nat \<Rightarrow> bool" where
  "shlex_safe c \<longleftrightarrow> (97 \<le> c \<and> c \<le> 122) \<or> (65 \<le> c \<and> c \<le> 90) \<or> (48 \<le> c \<and> c \<le> 57) \<or> c \<in> set (lit ''_@%+=:,./-'')"

definition shlex_quote :: "pystr \<Rightarrow> pystr" where
  "shlex_quote s =
     (if s = [] then [39, 39]
      else if list_all shlex_safe s then s
      else 39 # concat (map (\<lambda>c. if c = 39 then [39, 34, 39, 34, 39] else [c]) s) @ [39])"

fun shlex_join :: "pystr list \<Rightarrow> pystr" where
  "shlex_join [] = []"
| "shlex_join [s] = shlex_quote s"
| "shlex_join (s # ss) = shlex_quote s @ 32 # shlex_join ss"

text \<open>How a shell splits a command into words: single quotes keep everything, double quotes everything but
  expansions; an unquoted character that a shell may interpret is refused here.\<close>

datatype sh_mode = Plain | Single | Double

definition word :: "pystr option \<Rightarrow> pystr" where
  "word w = (case w of None \<Rightarrow> [] | Some x \<Rightarrow> x)"

fun sh_words :: "sh_mode \<Rightarrow> pystr option \<Rightarrow> pystr \<Rightarrow> pystr list option" where
  "sh_words Plain w [] = Some (case w of None \<Rightarrow> [] | Some x \<Rightarrow> [x])"
| "sh_words Single w [] = None"
| "sh_words Double w [] = None"
| "sh_words Plain w (c # s) =
     (if c = 32 then (case w of None \<Rightarrow> sh_words Plain None s | Some x \<Rightarrow> map_option ((#) x) (sh_words Plain None s))
      else if c = 39 then sh_words Single (Some (word w)) s
      else if c = 34 then sh_words Double (Some (word w)) s
      else if shlex_safe c then sh_words Plain (Some (word w @ [c])) s
      else None)"
| "sh_words Single w (c # s) =
     (if c = 39 then sh_words Plain w s else sh_words Single (Some (word w @ [c])) s)"
| "sh_words Double w (c # s) =
     (if c = 34 then sh_words Plain w s
      else if c \<in> {33, 36, 92, 96} then None else sh_words Double (Some (word w @ [c])) s)"

definition shell_reads :: "pystr \<Rightarrow> pystr list \<Rightarrow> bool" where
  "shell_reads s args \<longleftrightarrow> sh_words Plain None s = Some args"

lemma word_Some [simp]: "word (Some x) = x"
  by (simp add: word_def)

lemma safe_no_special: "shlex_safe c \<Longrightarrow> c \<noteq> 32 \<and> c \<noteq> 39 \<and> c \<noteq> 34"
  by (auto simp: shlex_safe_def lit_def)

lemma sh_words_safe: "list_all shlex_safe s \<Longrightarrow> sh_words Plain (Some x) (s @ r) = sh_words Plain (Some (x @ s)) r"
  by (induction s arbitrary: x) (auto dest: safe_no_special)

lemma sh_words_escaped:
  "sh_words Single (Some x) (concat (map (\<lambda>c. if c = 39 then [39, 34, 39, 34, 39] else [c]) s) @ 39 # r)
     = sh_words Plain (Some (x @ s)) r"
  by (induction s arbitrary: x) auto

lemma sh_words_quote: "sh_words Plain None (shlex_quote s @ r) = sh_words Plain (Some s) r"
proof (cases "s \<noteq> [] \<and> list_all shlex_safe s")
  case True
  then obtain c t where s: "s = c # t" "shlex_safe c" "list_all shlex_safe t" by (cases s) auto
  then show ?thesis using sh_words_safe [OF s(3), of "[c]" r] safe_no_special [OF s(2)]
    by (simp add: shlex_quote_def word_def)
next
  case False
  then show ?thesis using sh_words_escaped [of "[]" s r] by (auto simp: shlex_quote_def word_def)
qed

text \<open>The shell splits the joined command back into the arguments.\<close>

lemma shell_reads_join: "shell_reads (shlex_join args) args"
proof -
  have "sh_words Plain None (shlex_join args) = Some args"
  proof (induction args rule: shlex_join.induct)
    case (2 s)
    then show ?case using sh_words_quote [of s "[]"] by simp
  next
    case (3 s t ss)
    then show ?case using sh_words_quote [of s "32 # shlex_join (t # ss)"] by simp
  qed simp
  then show ?thesis by (simp add: shell_reads_def)
qed

subsection \<open>The processes\<close>

record ssh_target =
  st_private :: pystr
  st_known :: pystr
  st_region :: pystr
  st_host :: pystr
  st_port :: pystr
  st_user :: pystr
  st_run :: pystr
  st_reports :: pystr

definition proxy_arguments :: "ssh_target \<Rightarrow> pystr list" where
  "proxy_arguments t =
     [lit ''aws'', lit ''ssm'', lit ''start-session'', lit ''--region'', st_region t, lit ''--target'', st_host t,
      lit ''--document-name'', lit ''AWS-StartSSHSession'', lit ''--parameters'', lit ''portNumber='' @ st_port t]"

definition ssh_options :: "ssh_target \<Rightarrow> pystr list" where
  "ssh_options t =
     [lit ''-F'', lit ''/dev/null'', lit ''-i'', st_private t, lit ''-o'', lit ''BatchMode=yes'',
      lit ''-o'', lit ''IdentitiesOnly=yes'', lit ''-o'', lit ''StrictHostKeyChecking=yes'',
      lit ''-o'', lit ''UserKnownHostsFile='' @ st_known t, lit ''-o'', lit ''ConnectTimeout=20'',
      lit ''-o'', lit ''ServerAliveInterval=15'', lit ''-o'', lit ''ServerAliveCountMax=4'',
      lit ''-o'', lit ''ForwardAgent=no'', lit ''-o'', lit ''ProxyCommand='' @ shlex_join (proxy_arguments t)]"

definition user_at_host :: "ssh_target \<Rightarrow> pystr" where
  "user_at_host t = st_user t @ lit ''@'' @ st_host t"

definition ssh :: "ssh_target \<Rightarrow> pystr list" where
  "ssh t = lit ''ssh'' # ssh_options t @ [lit ''-p'', st_port t, user_at_host t]"

definition update_command :: "ssh_target \<Rightarrow> pystr \<Rightarrow> pystr \<Rightarrow> pystr \<Rightarrow> pystr list" where
  "update_command t repository incoming sha =
     [lit ''systemd-run'', lit ''--user'', lit ''--wait'', lit ''--collect'', lit ''--unit=soj-deploy-'' @ st_run t,
      lit ''--property=RuntimeMaxSec=2400'', lit ''--property=UMask=0077'', lit ''--property=TimeoutStopSec=120'',
      lit ''python3'', incoming @ lit ''/production.py'', repository, incoming, sha]"

definition launch_script :: pystr where
  "launch_script = lit ''export XDG_RUNTIME_DIR='' @ [34] @ lit ''/run/user/$(id -u)'' @ [34] @ lit ''; exec '' @ [34]
     @ lit ''$@'' @ [34]"

definition launch :: "ssh_target \<Rightarrow> pystr \<Rightarrow> pystr \<Rightarrow> pystr \<Rightarrow> pystr list" where
  "launch t repository incoming sha =
     [lit ''sh'', lit ''-c'', launch_script, lit ''sh''] @ update_command t repository incoming sha"

text \<open>The command that a step has the host's shell run; copying uses rsync's own protocol.\<close>

fun host_command :: "ssh_target \<Rightarrow> remote \<Rightarrow> pystr list option" where
  "host_command t (Make_directory incoming) = Some [lit ''mkdir'', lit ''-m'', lit ''700'', lit ''--'', incoming]"
| "host_command t (Copy_files basis incoming) = None"
| "host_command t (Run_update repository incoming sha) = Some (launch t repository incoming sha)"
| "host_command t (Read_current current) = Some [lit ''cat'', lit ''--'', current]"

definition rsync :: "ssh_target \<Rightarrow> pystr \<Rightarrow> pystr \<Rightarrow> pystr list" where
  "rsync t basis incoming =
     [lit ''rsync'', lit ''--rsh'', shlex_join (lit ''ssh'' # ssh_options t @ [lit ''-p'', st_port t]),
      lit ''--ignore-times'', lit ''--copy-dest='' @ basis, lit ''--stats'', st_reports t @ lit ''/runtime.tar'',
      st_reports t @ lit ''/build-record.json'', lit ''deploy/production.py'', user_at_host t @ lit '':'' @ incoming @ lit ''/'']"

fun local_process :: "ssh_target \<Rightarrow> remote \<Rightarrow> pystr list" where
  "local_process t (Copy_files basis incoming) = rsync t basis incoming"
| "local_process t r = (case host_command t r of Some args \<Rightarrow> ssh t @ [shlex_join args] | None \<Rightarrow> [])"

text \<open>C39: Nothing in the configuration of a deployment can change the commands on the way: the process of each remote
  step is ssh with fixed options, strict host keys among them, whose last argument the host's shell splits into exactly
  the intended arguments, and the proxy command and rsync's remote shell are split back in the same way.\<close>

theorem host_runs_the_intended_command:
  "(\<forall>r args. host_command t r = Some args \<longrightarrow>
      (\<exists>text. local_process t r = ssh t @ [text] \<and> shell_reads text args))
    \<and> lit ''StrictHostKeyChecking=yes'' \<in> set (ssh t)
    \<and> (\<exists>text. lit ''ProxyCommand='' @ text \<in> set (ssh t) \<and> shell_reads text (proxy_arguments t))
    \<and> (\<exists>text. rsync t basis incoming ! 2 = text \<and> shell_reads text (lit ''ssh'' # ssh_options t @ [lit ''-p'', st_port t]))"
proof (intro conjI allI impI)
  fix r args assume "host_command t r = Some args"
  then show "\<exists>text. local_process t r = ssh t @ [text] \<and> shell_reads text args"
    using shell_reads_join by (cases r) auto
next
  show "lit ''StrictHostKeyChecking=yes'' \<in> set (ssh t)" by (simp add: ssh_def ssh_options_def)
  show "\<exists>text. lit ''ProxyCommand='' @ text \<in> set (ssh t) \<and> shell_reads text (proxy_arguments t)"
    using shell_reads_join [of "proxy_arguments t"] by (intro exI [of _ "shlex_join (proxy_arguments t)"]) (simp add: ssh_def ssh_options_def)
  show "\<exists>text. rsync t basis incoming ! 2 = text \<and> shell_reads text (lit ''ssh'' # ssh_options t @ [lit ''-p'', st_port t])"
    using shell_reads_join by (simp add: rsync_def)
qed

subsection \<open>The entry point\<close>

datatype operation = Scope_operation | Wait_operation | Verify_operation pystr | Transfer_operation pystr

definition dispatch :: "pystr list \<Rightarrow> gate_exn + operation" where
  "dispatch argv =
     (case argv of
        _ # op # rest \<Rightarrow>
          if op = lit ''scope'' then Inr Scope_operation
          else if op = lit ''wait'' then Inr Wait_operation
          else if op = lit ''verify'' then (case rest of [] \<Rightarrow> Inl Data_error | path # _ \<Rightarrow> Inr (Verify_operation path))
          else if op = lit ''transfer'' then (case rest of [] \<Rightarrow> Inl Data_error | path # _ \<Rightarrow> Inr (Transfer_operation path))
          else Inl Data_error
      | _ \<Rightarrow> Inl Data_error)"

text \<open>\<open>SystemExit\<close> with a fixed text, or a normal end: no exception's own text is printed.\<close>

definition deploy_main :: "(operation \<Rightarrow> gate_exn + unit) \<Rightarrow> pystr list \<Rightarrow> string option" where
  "deploy_main perform argv =
     (case rbind (dispatch argv) perform of
        Inl _ \<Rightarrow> Some ''Deployment step failed; check CI status, signature or production journal.''
      | Inr _ \<Rightarrow> None)"

definition example_target :: ssh_target where
  "example_target = \<lparr>st_private = lit ''/tmp/k'', st_known = lit ''/tmp/h'', st_region = lit ''ap-northeast-1'',
     st_host = lit ''i-0'', st_port = lit ''22'', st_user = lit ''soj'', st_run = lit ''1-1'', st_reports = lit ''reports''\<rparr>"

lemma host_runs_the_intended_command_witness:
  "\<exists>text. local_process example_target (Make_directory (lit ''/a b; rm'')) = ssh example_target @ [text]
    \<and> shell_reads text [lit ''mkdir'', lit ''-m'', lit ''700'', lit ''--'', lit ''/a b; rm'']"
  using host_runs_the_intended_command [of example_target "[]" "[]"] host_command.simps(1) by blast

end
