(* ===== verification/Executors.thy ===== *)
theory Executors
  imports Slots
begin

section \<open>Closing the worker threads\<close>

text \<open>
  The thread pools of \<open>Slots\<close> with their \<open>shutdown(wait=True, cancel_futures=True)\<close>, which \<open>ShellgeiDockerClient.close\<close>,
  \<open>RunnerClient.close\<close> and \<open>_ExecutionLogExecutor.shutdown\<close> call. From then on \<open>submit\<close> raises, every future that is
  queued or running is cancelled or awaited, and the call returns when none is left; it runs on the event loop, so no
  coroutine moves meanwhile. The locale \<open>closable_pool\<close> is what the three services have in common.
\<close>

locale closable_pool =
  fixes step :: "'s \<Rightarrow> 's \<Rightarrow> bool"
    and close :: "'s \<Rightarrow> 's"
    and at_rest :: "'s \<Rightarrow> bool"
  assumes close_rests: "at_rest (close s)"
    and rest_kept: "step s t \<Longrightarrow> at_rest s \<Longrightarrow> at_rest t"
begin

lemma rest_forever: "step\<^sup>*\<^sup>* (close s) t \<Longrightarrow> at_rest t"
  by (induction rule: rtranclp_induct) (auto intro: close_rests rest_kept)

end

subsection \<open>The pools of the runner and of its client\<close>

record 'i executor =
  ex_open :: bool
  ex_calls :: "'i wait_state"

definition new_executor :: "nat \<Rightarrow> 'i executor" where
  "new_executor capacity = \<lparr>ex_open = True, ex_calls = wait_init capacity\<rparr>"

text \<open>\<open>executor.submit\<close> of a call that has its slot; a closed pool raises.\<close>

definition executor_submit :: "'i \<Rightarrow> 'i executor \<Rightarrow> 'i executor" where
  "executor_submit i e = e\<lparr>ex_calls :=
     (if ex_open e
      then set_phase i W_waiting ((ex_calls e)\<lparr>ws_future := (ws_future (ex_calls e))(i := F_running)\<rparr>)
      else set_phase i (W_returning O_submit_error) (ex_calls e))\<rparr>"

definition end_futures :: "('i \<Rightarrow> future) \<Rightarrow> 'i \<Rightarrow> future" where
  "end_futures futures i = (if futures i = F_running then F_done else futures i)"

definition shutdown_executor :: "'i executor \<Rightarrow> 'i executor" where
  "shutdown_executor e =
     \<lparr>ex_open = False, ex_calls = (ex_calls e)\<lparr>ws_future := end_futures (ws_future (ex_calls e))\<rparr>\<rparr>"

text \<open>A call moves as in \<open>wait_step\<close>, but only \<open>submit\<close> starts a thread.\<close>

definition starts_none :: "('i \<Rightarrow> future) \<Rightarrow> ('i \<Rightarrow> future) \<Rightarrow> bool" where
  "starts_none fs gs \<longleftrightarrow> (\<forall>i. gs i = F_running \<longrightarrow> fs i = F_running)"

inductive executor_step :: "bool \<Rightarrow> bool \<Rightarrow> 'i executor \<Rightarrow> 'i executor \<Rightarrow> bool"
  for with_timeout id_first where
  ex_submit: "ws_phase (ex_calls e) i = W_acquired \<Longrightarrow> executor_step with_timeout id_first e (executor_submit i e)"
| ex_call: "wait_step with_timeout id_first (ex_calls e) s \<Longrightarrow> starts_none (ws_future (ex_calls e)) (ws_future s) \<Longrightarrow>
    executor_step with_timeout id_first e (e\<lparr>ex_calls := s\<rparr>)"
| ex_shutdown: "executor_step with_timeout id_first e (shutdown_executor e)"

inductive_cases executor_stepE: "executor_step wt idf e f"

text \<open>Awaiting the futures is a sequence of thread ends.\<close>

lemma end_futures_steps:
  assumes "finite {i. ws_future s i = F_running}"
  shows "(wait_step wt idf)\<^sup>*\<^sup>* s (s\<lparr>ws_future := end_futures (ws_future s)\<rparr>)"
  using assms
proof (induction "{i. ws_future s i = F_running}" arbitrary: s rule: finite_induct)
  case empty
  then have "end_futures (ws_future s) = ws_future s" by (auto simp: end_futures_def fun_eq_iff)
  then show ?case by simp
next
  case (insert i F)
  let ?s = "s\<lparr>ws_future := (ws_future s)(i := F_done)\<rparr>"
  have i: "ws_future s i = F_running" using insert.hyps by blast
  have "F = {j. ws_future ?s j = F_running}" using insert.hyps by auto
  then have "(wait_step wt idf)\<^sup>*\<^sup>* ?s (?s\<lparr>ws_future := end_futures (ws_future ?s)\<rparr>)" by (rule insert.hyps(3))
  moreover have "end_futures (ws_future ?s) = end_futures (ws_future s)"
    using i by (auto simp: end_futures_def fun_eq_iff)
  ultimately show ?case using ws_thread_end [OF i, of wt idf] by (simp add: converse_rtranclp_into_rtranclp)
qed

lemma executor_step_calls:
  assumes "executor_step wt idf e f" and "finite {i. ws_future (ex_calls e) i = F_running}"
  shows "(wait_step wt idf)\<^sup>*\<^sup>* (ex_calls e) (ex_calls f)"
  using assms(1)
proof cases
  case (ex_submit i)
  then show ?thesis using ws_submit [of "ex_calls e" i wt idf] ws_submit_error [of "ex_calls e" i wt idf]
    by (auto simp: executor_submit_def)
next
  case ex_shutdown
  then show ?thesis using end_futures_steps [OF assms(2)] by (simp add: shutdown_executor_def)
qed (auto intro: r_into_rtranclp)

text \<open>So a pool that is being closed keeps the bounds of the open one.\<close>

lemma executor_reachable:
  assumes "(executor_step wt idf)\<^sup>*\<^sup>* (new_executor n) (e :: 'i executor)"
    and fin: "\<And>s :: 'i wait_state. (wait_step wt idf)\<^sup>*\<^sup>* (wait_init n) s \<Longrightarrow> finite (wait_holders s)"
  shows "(wait_step wt idf)\<^sup>*\<^sup>* (wait_init n) (ex_calls e)"
  using assms(1)
proof (induction rule: rtranclp_induct)
  case base
  then show ?case by (simp add: new_executor_def)
next
  case (step e f)
  have "{i. ws_future (ex_calls e) i = F_running} \<subseteq> wait_holders (ex_calls e)"
    using wait_consistent_reachable [OF step.IH] by (auto simp: wait_consistent_def wait_running_def wait_holders_def)
  then have "finite {i. ws_future (ex_calls e) i = F_running}" using fin [OF step.IH] finite_subset by blast
  from executor_step_calls [OF step.hyps(2) this] step.IH show ?case by simp
qed

lemma executor_bounded:
  "(executor_step True False)\<^sup>*\<^sup>* (new_executor n) e \<Longrightarrow> ws_free (ex_calls e) + card (wait_holders (ex_calls e)) = n"
  "(executor_step False True)\<^sup>*\<^sup>* (new_executor n) e \<Longrightarrow> ws_free (ex_calls e) + card (wait_holders (ex_calls e)) = n"
  using executor_reachable [of True False n e] executor_reachable [of False True n e]
    runner_slots.slot_invariant client_slots.slot_invariant by blast+

definition executor_at_rest :: "'i executor \<Rightarrow> bool" where
  "executor_at_rest e \<longleftrightarrow> \<not> ex_open e \<and> (\<forall>i. ws_future (ex_calls e) i \<noteq> F_running)"

lemma rest_refuses:
  "executor_at_rest e \<Longrightarrow> ws_phase (ex_calls (executor_submit i e)) i = W_returning O_submit_error"
  by (simp add: executor_at_rest_def executor_submit_def set_phase_def)

lemma executor_rest_kept: "executor_step wt idf e f \<Longrightarrow> executor_at_rest e \<Longrightarrow> executor_at_rest f"
  by (erule executor_stepE)
    (auto simp: executor_at_rest_def executor_submit_def set_phase_def starts_none_def shutdown_executor_def end_futures_def)

lemma shutdown_executor_rests: "executor_at_rest (shutdown_executor e)"
  by (simp add: executor_at_rest_def shutdown_executor_def end_futures_def)

interpretation runner_pool: closable_pool "executor_step True False" shutdown_executor executor_at_rest
  by unfold_locales (auto intro: shutdown_executor_rests executor_rest_kept)

interpretation client_pool: closable_pool "executor_step False True" shutdown_executor executor_at_rest
  by unfold_locales (auto intro: shutdown_executor_rests executor_rest_kept)

subsection \<open>The pool of the execution log\<close>

definition log_shutdown :: "'i log_state \<Rightarrow> 'i log_state" where
  "log_shutdown s = s\<lparr>ls_closing := True, ls_future := end_futures (ls_future s)\<rparr>"

definition log_at_rest :: "'i log_state \<Rightarrow> bool" where
  "log_at_rest s \<longleftrightarrow> ls_closing s \<and> (\<forall>i. ls_future s i \<noteq> F_running)"

lemma log_rest_kept: "log_step s t \<Longrightarrow> log_at_rest s \<Longrightarrow> log_at_rest t"
  by (erule log_stepE) (auto simp: log_at_rest_def log_submit_def set_save_def split: if_splits)

lemma log_rest_refuses: "log_at_rest s \<Longrightarrow> log_submit pool_ok i s = set_save i S_refused s"
  by (simp add: log_at_rest_def log_submit_def)

interpretation log_pool: closable_pool log_step log_shutdown log_at_rest
  by unfold_locales (simp add: log_at_rest_def log_shutdown_def end_futures_def, rule log_rest_kept)

end
