(* ===== verification/Lifecycles.thy ===== *)
theory Lifecycles
  imports Backend Database_Access Container_Manager Runner_Http Executors
begin

section \<open>The lives of the two services\<close>

text \<open>
  \<open>soj_runner/main.py\<close> and \<open>soj_backend/main.py\<close>: what each service checks before it serves, and what it releases
  afterwards. The phases in between (\<open>yield\<close>) and the work that is still running while an executor closes are
  functions on the state of the process. The properties compose the components: a runner that serves has a ready pool
  and leaves only containers behind whose removal Docker did not confirm, a backend that serves answers every
  submission.
\<close>

subsection \<open>Leftover containers\<close>

text \<open>What may remain: containers whose removal Docker does not confirm and names it does not resolve.\<close>

definition only_unconfirmed :: "(cid \<Rightarrow> removal_env) \<Rightarrow> (cname \<Rightarrow> reply \<times> reply) \<Rightarrow> manager \<Rightarrow> bool" where
  "only_unconfirmed removals pending_replies s \<longleftrightarrow>
     (\<forall>c \<in> set (cm_managed s) \<union> set (cm_live s). \<not> confirmed (rm_remove (removals c)))
     \<and> (\<forall>n \<in> set (cm_pending s) \<union> set (cm_live_names s). \<not> resolvable (pending_replies n))"

lemma only_unconfirmed_nothing_left:
  assumes "only_unconfirmed removals pending_replies s" and "\<And>c. confirmed (rm_remove (removals c))"
    and "\<And>n. resolvable (pending_replies n)"
  shows "managed_count s = 0 \<and> cm_live s = [] \<and> cm_live_names s = []"
proof -
  have "c \<notin> set (cm_managed s)" "c \<notin> set (cm_live s)" for c
    using assms(1,2) by (auto simp: only_unconfirmed_def)
  moreover have "n \<notin> set (cm_pending s)" "n \<notin> set (cm_live_names s)" for n
    using assms(1,3) by (auto simp: only_unconfirmed_def)
  ultimately have "cm_managed s = []" "cm_live s = []" "cm_pending s = []" "cm_live_names s = []"
    using hd_in_set by blast+
  then show ?thesis by (simp add: managed_count_def)
qed

lemma client_kept: "cm_step s t \<Longrightarrow> cm_has_client s \<Longrightarrow> cm_has_client t"
  by (erule cm_step.cases) (auto simp: region_defs split: if_splits)

lemma client_kept_steps: "steps s t \<Longrightarrow> cm_has_client s \<Longrightarrow> cm_has_client t"
  by (induction rule: rtranclp_induct) (auto intro: client_kept)

lemma shutting_down_kept_steps: "steps s t \<Longrightarrow> cm_shutting_down s \<Longrightarrow> cm_shutting_down t"
proof (induction rule: rtranclp_induct)
  case (step t u)
  from step(2) show ?case using step by (cases rule: cm_step.cases) (auto simp: region_defs split: if_splits)
qed

lemma remove_all_only_unconfirmed:
  assumes "cm_inv s" "cm_has_client s"
  shows "only_unconfirmed rs ps (remove_all rs ps s)"
proof -
  have "cm_inv (remove_all rs ps s)" by (rule steps_inv [OF remove_all_steps [OF assms(1)] assms(1)])
  then show ?thesis
    using remove_all_leaves [OF assms(2), of rs ps] by (auto simp: only_unconfirmed_def cm_inv_defs)
qed

lemma reconcile_new:
  assumes "reconcile_stale_containers env listing (new_manager n) = (r, s)"
  shows "steps (new_manager n) s \<and> (s = new_manager n \<or> s = set_client (new_manager n)) \<and> (\<forall>u. r = Inr u \<longrightarrow> cm_has_client s)"
  using assms steps_one [OF st_client, of "new_manager n"]
  by (auto simp: reconcile_stale_containers_def get_client_def new_manager_def set_client_def
      split: prod.splits sum.splits if_splits)

lemma initialize_pool_new:
  assumes i: "initialize_pool img env listing envs rs ps close (new_manager n) = (r, t)"
    and fresh: "fresh_envs (take n envs) (new_manager n)"
  shows "cm_inv t \<and> (\<forall>u. r = Inr u \<longrightarrow> cm_has_client t) \<and> (\<forall>e. r = Inl e \<longrightarrow> only_unconfirmed rs ps t)"
proof (cases "img = None")
  case True
  then show ?thesis
    using i new_manager_inv by (auto simp: initialize_pool_def only_unconfirmed_def new_manager_def)
next
  case False
  have size: "cm_pool_size (new_manager n) = n" by (simp add: new_manager_def)
  have inv: "cm_inv t"
    using initialize_pool_steps [OF new_manager_inv, of n envs img env listing rs ps close] fresh size i steps_inv new_manager_inv
    by fastforce
  obtain r1 s1 where rec: "reconcile_stale_containers env listing (new_manager n) = (r1, s1)" by fastforce
  note new = reconcile_new [OF rec]
  have inv1: "cm_inv s1" using new steps_inv new_manager_inv by blast
  have drop: "t = remove_all rs ps s'" if "(case shutdown_pool close rs ps s' of (Inl e', u) \<Rightarrow> (Inl e', u) | (Inr _, u) \<Rightarrow> (Inl e, u)) = (r, t)"
    for s' e
  proof -
    obtain a b where sp: "shutdown_pool close rs ps s' = (a, b)" by fastforce
    show ?thesis using that shutdown_pool_state [of close rs ps s', unfolded sp] by (auto simp: sp split: sum.splits)
  qed
  show ?thesis
  proof (cases r1)
    case (Inl e)
    then have t: "t = remove_all rs ps s1" "\<forall>u. r \<noteq> Inr u"
      using i False rec drop by (auto simp: initialize_pool_def split: prod.splits sum.splits)
    have "cm_managed s1 = []" "cm_pending s1 = []" "cm_live s1 = []" "cm_live_names s1 = []"
      using new by (auto simp: new_manager_def set_client_def)
    then have "only_unconfirmed rs ps t"
      by (simp add: t(1) remove_all_def begin_shutdown_def start_shutdown_def only_unconfirmed_def)
    then show ?thesis using inv t(2) by blast
  next
    case (Inr u)
    obtain r2 s2 where c: "create_all img (take n envs) s1 = (r2, s2)" by fastforce
    have "fresh_envs (take n envs) s1"
      using fresh new by (auto simp: fresh_envs_def fresh_env_def set_client_def)
    then have "steps s1 s2" using create_all_steps [OF inv1, of "take n envs" img] c by simp
    then have s2: "cm_inv s2" "cm_has_client s2"
      using steps_inv inv1 client_kept_steps new Inr by blast+
    show ?thesis
    proof (cases r2)
      case (Inl e)
      then have "t = remove_all rs ps s2" "\<forall>u. r \<noteq> Inr u"
        using i False rec Inr c size drop by (auto simp: initialize_pool_def split: prod.splits sum.splits)
      then show ?thesis using inv remove_all_only_unconfirmed [OF s2] by blast
    next
      case Inr2: (Inr u2)
      then have "r = Inr ()" "t = set_initialized s2"
        using i False rec Inr c size by (auto simp: initialize_pool_def)
      then show ?thesis using inv s2(2) by (simp add: set_initialized_def)
    qed
  qed
qed

subsection \<open>Problem data and errors\<close>

text \<open>The problem files with the functions of the outside that reading them needs.\<close>

record problem_source =
  ps_dump :: "ProblemDefinitionV3 \<Rightarrow> pyval"
  ps_json_dumps :: "pyval \<Rightarrow> bytes"
  ps_sha256 :: "bytes \<Rightarrow> pystr"
  ps_json :: json_reader
  ps_files :: problem_files

definition build_from :: "problem_source \<Rightarrow> repository_error + ProblemRepository" where
  "build_from p = build_problem_repository (ps_dump p) (ps_json_dumps p) (ps_sha256 p) (ps_json p) (ps_files p)"

definition load_from :: "problem_source \<Rightarrow> loaded_repository \<Rightarrow> (repository_error + ProblemRepository) \<times> loaded_repository" where
  "load_from p = load_problem_repository (ps_dump p) (ps_json_dumps p) (ps_sha256 p) (ps_json p) (ps_files p)"

lemma load_from_eq: "load_from p loaded = (case build_from p of Inl e \<Rightarrow> (Inl e, loaded) | Inr repo \<Rightarrow> (Inr repo, Some repo))"
  by (simp add: load_from_def build_from_def load_problem_repository_def)

lemma revision_fullmatch: "fullmatch PROBLEM_REVISION_PATTERN r \<Longrightarrow> is_revision r"
  using ProblemRevision_iff [of "PStr r" r] by (simp add: ProblemRevision_def)

lemma build_from_revision: "build_from p = Inr repo \<Longrightarrow> is_revision (rp_revision repo)"
  by (auto simp: build_from_def build_problem_repository_def rbind_eq_Inr build_problem_manifest_def
      new_ProblemManifestV1_def revision_fullmatch split: sum.splits if_splits)

datatype life_exn =
  Bad_secret
| Bad_problems repository_error
| Bad_pool manager_error
| Bad_database
| Prune_error log_repo_error
| Raised exn

text \<open>\<open>RunnerClient.validate_configuration\<close> and the first line of both lifespans.\<close>

definition validate_configuration :: "(pystr \<Rightarrow> pystr option) \<Rightarrow> life_exn + unit" where
  "validate_configuration env = (case get_runner_shared_secret env of Inl _ \<Rightarrow> Inl Bad_secret | Inr _ \<Rightarrow> Inr ())"

subsection \<open>The runner\<close>

record runner_process =
  rp_loaded :: loaded_repository
  rp_manager :: manager
  rp_executor :: "nat executor"

definition new_runner :: "nat \<Rightarrow> runner_process" where
  "new_runner n = \<lparr>rp_loaded = None, rp_manager = new_manager n, rp_executor = new_executor n\<rparr>"

text \<open>What the outside answers; \<open>rs_executor_close\<close> and \<open>rs_client_close\<close>: what \<open>docker_client.close()\<close> and the
  Docker client's own \<open>close()\<close> raise, if anything.\<close>

record runner_setting =
  rs_env :: "pystr \<Rightarrow> pystr option"
  rs_problems :: problem_source
  rs_image :: "pystr option"
  rs_client :: create_env
  rs_listing :: "exn + reply list"
  rs_creates :: "create_env list"
  rs_removals :: "cid \<Rightarrow> removal_env"
  rs_pending :: "cname \<Rightarrow> reply \<times> reply"
  rs_executor_close :: "exn option"
  rs_client_close :: "exn option"

definition start_pool :: "runner_setting \<Rightarrow> runner_process \<Rightarrow> (life_exn + unit) \<times> runner_process" where
  "start_pool w p =
     (case initialize_pool (rs_image w) (rs_client w) (rs_listing w) (rs_creates w) (rs_removals w) (rs_pending w)
             (rs_client_close w) (rp_manager p) of
        (Inl e, m) \<Rightarrow> (Inl (Bad_pool e), p\<lparr>rp_manager := m\<rparr>)
      | (Inr _, m) \<Rightarrow> (Inr (), p\<lparr>rp_manager := m\<rparr>))"

definition load_problems :: "problem_source \<Rightarrow> runner_process \<Rightarrow> (life_exn + unit) \<times> runner_process" where
  "load_problems source p =
     (case load_from source (rp_loaded p) of
        (Inl e, l) \<Rightarrow> (Inl (Bad_problems e), p\<lparr>rp_loaded := l\<rparr>)
      | (Inr _, l) \<Rightarrow> (Inr (), p\<lparr>rp_loaded := l\<rparr>))"

definition runner_startup :: "runner_setting \<Rightarrow> runner_process \<Rightarrow> (life_exn + unit) \<times> runner_process" where
  "runner_startup w p =
     sbind (validate_configuration (rs_env w), p) (\<lambda>_ p.
     sbind (load_problems (rs_problems w) p) (\<lambda>_ p.
     start_pool w p))"

text \<open>\<open>docker_client.close()\<close> refuses new work and waits: \<open>drain\<close> is what the running executions still do to the
  manager. If it raises, it has stopped waiting.\<close>

definition close_executor ::
  "(manager \<Rightarrow> manager) \<Rightarrow> exn option \<Rightarrow> runner_process \<Rightarrow> (life_exn + unit) \<times> runner_process" where
  "close_executor drain raised p =
     (let p1 = p\<lparr>rp_manager := drain (rp_manager p)\<rparr> in
      case raised of
        Some e \<Rightarrow> (Inl (Raised e), p1\<lparr>rp_executor := (rp_executor p1)\<lparr>ex_open := False\<rparr>\<rparr>)
      | None \<Rightarrow> (Inr (), p1\<lparr>rp_executor := shutdown_executor (rp_executor p1)\<rparr>))"

definition runner_shutdown ::
  "(manager \<Rightarrow> manager) \<Rightarrow> runner_setting \<Rightarrow> runner_process \<Rightarrow> (life_exn + unit) \<times> runner_process" where
  "runner_shutdown drain w p =
     (let p1 = p\<lparr>rp_manager := begin_shutdown (rp_manager p)\<rparr> in
      sbind (close_executor drain (rs_executor_close w) p1) (\<lambda>_ p2.
      case shutdown_pool (rs_client_close w) (rs_removals w) (rs_pending w) (rp_manager p2) of
        (Inl e, m) \<Rightarrow> (Inl (Bad_pool e), p2\<lparr>rp_manager := m\<rparr>)
      | (Inr _, m) \<Rightarrow> (Inr (), p2\<lparr>rp_manager := m\<rparr>)))"

text \<open>\<open>try: yield finally: ...\<close>: an exception of the clean-up replaces the one of the phase before.\<close>

definition after_serving :: "(life_exn + unit) \<Rightarrow> (life_exn + unit) \<times> 's \<Rightarrow> (life_exn + unit) \<times> 's" where
  "after_serving served cleaned = (case cleaned of (Inl e, s) \<Rightarrow> (Inl e, s) | (Inr _, s) \<Rightarrow> (served, s))"

definition runner_lifespan ::
  "(runner_process \<Rightarrow> (life_exn + unit) \<times> runner_process) \<Rightarrow> (manager \<Rightarrow> manager) \<Rightarrow> runner_setting \<Rightarrow> runner_process \<Rightarrow>
   (life_exn + unit) \<times> runner_process" where
  "runner_lifespan serve drain w p =
     sbind (runner_startup w p) (\<lambda>_ p.
     let (r, p) = serve p in after_serving r (runner_shutdown drain w p))"

text \<open>\<open>GET /internal/health\<close>.\<close>

definition health :: pyval where "health = PDict [(lit ''status'', PStr (lit ''ok''))]"

definition runner_started :: "runner_setting \<Rightarrow> runner_process \<Rightarrow> bool" where
  "runner_started w p \<longleftrightarrow> is_ok (get_runner_shared_secret (rs_env w)) \<and> ex_open (rp_executor p)
     \<and> (\<exists>repo. build_from (rs_problems w) = Inr repo \<and> rp_loaded p = Some repo
          \<and> readiness (rp_loaded p) (is_ready (rp_manager p)) = Inr (200, \<lparr>rr_problem_revision = rp_revision repo, rr_status = READY\<rparr>))"

lemma runner_startup_Inr:
  assumes "runner_startup w p = (Inr u, q)"
  obtains repo m where "is_ok (get_runner_shared_secret (rs_env w))" "build_from (rs_problems w) = Inr repo"
    "initialize_pool (rs_image w) (rs_client w) (rs_listing w) (rs_creates w) (rs_removals w) (rs_pending w) (rs_client_close w) (rp_manager p) = (Inr (), m)"
    "q = p\<lparr>rp_loaded := Some repo, rp_manager := m\<rparr>"
  using assms
  by (auto simp: runner_startup_def validate_configuration_def load_problems_def start_pool_def load_from_eq sbind_Inr is_ok_iff
      split: sum.splits prod.splits)

lemma runner_startup_Inl:
  assumes "runner_startup w p = (Inl e, q)"
  shows "rp_manager q = rp_manager p \<or> (\<exists>e. initialize_pool (rs_image w) (rs_client w) (rs_listing w) (rs_creates w) (rs_removals w) (rs_pending w) (rs_client_close w) (rp_manager p) = (Inl e, rp_manager q))"
  using assms
  by (auto simp: runner_startup_def validate_configuration_def load_problems_def start_pool_def load_from_eq sbind_def
      split: sum.splits prod.splits)

lemma runner_shutdown_result:
  assumes "cm_inv (rp_manager p)" "cm_has_client (rp_manager p)"
    and drain: "\<And>m. cm_shutting_down m \<Longrightarrow> steps m (drain m)"
  obtains r q where "runner_shutdown drain w p = (r, q)" "cm_inv (rp_manager q)" "cm_shutting_down (rp_manager q)"
    "\<not> ex_open (rp_executor q)"
    "\<And>e. rs_executor_close w = Some e \<Longrightarrow> r = Inl (Raised e)"
    "rs_executor_close w = None \<Longrightarrow> only_unconfirmed (rs_removals w) (rs_pending w) (rp_manager q)
       \<and> executor_at_rest (rp_executor q)
       \<and> r = (case rs_client_close w of None \<Rightarrow> Inr () | Some e \<Rightarrow> Inl (Bad_pool (DockerError e)))"
proof -
  let ?m = "drain (begin_shutdown (rp_manager p))"
  have down: "cm_shutting_down (begin_shutdown (rp_manager p))" using begin_shutdown_ok by blast
  have st: "steps (rp_manager p) ?m" using begin_shutdown_ok(1) drain [OF down] steps_trans by blast
  have m: "cm_inv ?m" "cm_has_client ?m" "cm_shutting_down ?m"
    using st assms(1,2) steps_inv client_kept_steps shutting_down_kept_steps [OF drain [OF down] down] by blast+
  let ?last = "remove_all (rs_removals w) (rs_pending w) ?m"
  have e: "cm_inv ?last" "cm_shutting_down ?last"
    using remove_all_steps [OF m(1)] steps_inv m(1,3) shutting_down_kept_steps by blast+
  obtain r q where rq: "runner_shutdown drain w p = (r, q)" by fastforce
  have pool: "shutdown_pool (rs_client_close w) (rs_removals w) (rs_pending w) ?m
      = (case rs_client_close w of None \<Rightarrow> Inr () | Some e \<Rightarrow> Inl (DockerError e), ?last)"
    using m(2) by (simp add: shutdown_pool_def split: option.splits)
  show ?thesis
  proof (cases "rs_executor_close w")
    case (Some x)
    then have "r = Inl (Raised x)" "rp_manager q = ?m" "\<not> ex_open (rp_executor q)"
      using rq by (auto simp: runner_shutdown_def close_executor_def Let_def sbind_def)
    then show ?thesis using Some rq m by (intro that [of r q]) auto
  next
    case None
    then have "r = (case rs_client_close w of None \<Rightarrow> Inr () | Some e \<Rightarrow> Inl (Bad_pool (DockerError e)))"
      "rp_manager q = ?last" "rp_executor q = shutdown_executor (rp_executor p)"
      using rq by (auto simp: runner_shutdown_def close_executor_def Let_def sbind_def pool split: option.splits)
    then show ?thesis using None rq e remove_all_only_unconfirmed [OF m(1,2)] shutdown_executor_rests [of "rp_executor p"]
      by (intro that [of r q]) (auto simp: executor_at_rest_def)
  qed
qed

text \<open>C36: The life of a runner: requests are served only after the shared secret, the problem data and the pool have
  been checked, and then the first readiness check answers 200 with the loaded revision; otherwise the process ends with
  the error, serves nothing and leaves no container or name behind but those whose removal Docker did not confirm. When
  it has served, whatever the requests did and whichever executions were still running when it was stopped, the manager
  is shut down and the executor takes no more work; unless closing the executor raises, no execution is running any more and again
  only what Docker did not confirm removed remains, even if closing the Docker client raises. An exception of the
  clean-up is the result of the life.\<close>

theorem runner_leaves_nothing_behind:
  assumes fresh: "fresh_envs (take n (rs_creates w)) (new_manager n)" "n \<le> length (rs_creates w)" "0 < n"
    and serve: "\<And>p. steps (rp_manager p) (rp_manager (snd (serve p)))"
    and drain: "\<And>m. cm_shutting_down m \<Longrightarrow> steps m (drain m)"
  shows "case runner_startup w (new_runner n) of
       (Inl e, p) \<Rightarrow> runner_lifespan serve drain w (new_runner n) = (Inl e, p)
         \<and> only_unconfirmed (rs_removals w) (rs_pending w) (rp_manager p)
     | (Inr _, p) \<Rightarrow> runner_started w p
         \<and> (case runner_lifespan serve drain w (new_runner n) of (r, q) \<Rightarrow>
              cm_shutting_down (rp_manager q) \<and> \<not> ex_open (rp_executor q)
              \<and> (case rs_executor_close w of
                   Some e \<Rightarrow> r = Inl (Raised e)
                 | None \<Rightarrow> only_unconfirmed (rs_removals w) (rs_pending w) (rp_manager q) \<and> executor_at_rest (rp_executor q)
                     \<and> r = (case rs_client_close w of None \<Rightarrow> fst (serve p) | Some e \<Rightarrow> Inl (Bad_pool (DockerError e)))))"
proof (cases "runner_startup w (new_runner n)")
  case (Pair r p)
  have new: "rp_manager (new_runner n) = new_manager n" by (simp add: new_runner_def)
  show ?thesis
  proof (cases r)
    case (Inl e)
    have "only_unconfirmed (rs_removals w) (rs_pending w) (rp_manager p)"
      using runner_startup_Inl [OF Pair [unfolded Inl]] initialize_pool_new [OF _ fresh(1)] unfolding new
      by (auto simp: only_unconfirmed_def new_manager_def)
    then show ?thesis using Pair Inl by (simp add: runner_lifespan_def sbind_def)
  next
    case (Inr u)
    obtain repo m where start: "is_ok (get_runner_shared_secret (rs_env w))" "build_from (rs_problems w) = Inr repo"
      "initialize_pool (rs_image w) (rs_client w) (rs_listing w) (rs_creates w) (rs_removals w) (rs_pending w) (rs_client_close w)
         (new_manager n) = (Inr (), m)"
      "p = (new_runner n)\<lparr>rp_loaded := Some repo, rp_manager := m\<rparr>"
      using runner_startup_Inr [OF Pair [unfolded Inr]] unfolding new by metis
    have "is_ready m" using initialize_pool_success [OF start(3) fresh(2,3)] by blast
    then have started: "runner_started w p"
      using start build_from_revision [OF start(2)]
      by (simp add: runner_started_def new_runner_def new_executor_def readiness_def get_problem_repository_def Let_def
          ProblemRevision_iff [THEN iffD2])
    have "cm_inv (rp_manager p)" "cm_has_client (rp_manager p)"
      using initialize_pool_new [OF start(3) fresh(1)] start(4) by simp_all
    then have s: "cm_inv (rp_manager (snd (serve p)))" "cm_has_client (rp_manager (snd (serve p)))"
      using serve steps_inv client_kept_steps by blast+
    from runner_shutdown_result [OF s drain, where w = w] obtain r' q where down: "runner_shutdown drain w (snd (serve p)) = (r', q)"
      "cm_shutting_down (rp_manager q)" "\<not> ex_open (rp_executor q)"
      "\<And>e. rs_executor_close w = Some e \<Longrightarrow> r' = Inl (Raised e)"
      "rs_executor_close w = None \<Longrightarrow> only_unconfirmed (rs_removals w) (rs_pending w) (rp_manager q)
         \<and> executor_at_rest (rp_executor q)
         \<and> r' = (case rs_client_close w of None \<Rightarrow> Inr () | Some e \<Rightarrow> Inl (Bad_pool (DockerError e)))" by metis
    have life: "runner_lifespan serve drain w (new_runner n) = after_serving (fst (serve p)) (r', q)"
      using Pair Inr down(1) by (simp add: runner_lifespan_def sbind_def Let_def split_def)
    show ?thesis
      using started down(2-5) unfolding Pair Inr life
      by (auto simp: after_serving_def split: option.splits)
  qed
qed

definition sample_source :: problem_source where
  "sample_source = \<lparr>ps_dump = (\<lambda>_. PNone), ps_json_dumps = (\<lambda>_. []), ps_sha256 = (\<lambda>_. replicate 64 48),
     ps_json = plain_reader sample_manifest, ps_files = sample_files\<rparr>"

definition sample_setting :: runner_setting where
  "sample_setting = \<lparr>rs_env = Runner_Client.sample_env, rs_problems = sample_source, rs_image = Some (lit ''sha256:''),
     rs_client = Container_Manager.sample_env 0, rs_listing = Inr [Reply_not_found],
     rs_creates = [Container_Manager.sample_env 3], rs_removals = (\<lambda>_. \<lparr>rm_kill = Reply_ok, rm_remove = Reply_ok\<rparr>),
     rs_pending = (\<lambda>_. (Reply_ok, Reply_ok)), rs_executor_close = None, rs_client_close = Some []\<rparr>"

lemma sample_startup: "\<exists>p. runner_startup sample_setting (new_runner 1) = (Inr (), p)"
  using sample_build sample_initialize [where close = "Some []"]
  by (auto simp: runner_startup_def sample_setting_def sample_source_def validate_configuration_def sample_secret
      load_problems_def load_from_eq build_from_def start_pool_def new_runner_def sbind_def)

lemma runner_leaves_nothing_behind_witness:
  "\<exists>p q. runner_startup sample_setting (new_runner 1) = (Inr (), p) \<and> runner_started sample_setting p
    \<and> runner_lifespan (\<lambda>p. (Inr (), p)) (\<lambda>m. m) sample_setting (new_runner 1) = (Inl (Bad_pool (DockerError [])), q)
    \<and> managed_count (rp_manager q) = 0 \<and> cm_live (rp_manager q) = [] \<and> cm_live_names (rp_manager q) = []"
proof -
  have "fresh_envs (take 1 (rs_creates sample_setting)) (new_manager 1)" "1 \<le> length (rs_creates sample_setting)"
    by (simp_all add: sample_setting_def fresh_envs_def fresh_env_def Container_Manager.sample_env_def new_manager_def)
  note life = runner_leaves_nothing_behind [OF this, of "\<lambda>p. (Inr (), p)" "\<lambda>m. m"]
  obtain p where p: "runner_startup sample_setting (new_runner 1) = (Inr (), p)" using sample_startup by blast
  obtain r q where q: "runner_lifespan (\<lambda>p. (Inr (), p)) (\<lambda>m. m) sample_setting (new_runner 1) = (r, q)" by fastforce
  have f: "rs_executor_close sample_setting = None" "rs_client_close sample_setting = Some []"
    "confirmed (rm_remove (rs_removals sample_setting c))" "resolvable (rs_pending sample_setting n)" for c n
    by (simp_all add: sample_setting_def confirmed_def resolvable_def)
  have "runner_started sample_setting p" "r = Inl (Bad_pool (DockerError []))"
    "only_unconfirmed (rs_removals sample_setting) (rs_pending sample_setting) (rp_manager q)"
    using life [unfolded p q f(1,2) prod.case sum.case option.case] by simp_all
  then show ?thesis using p q only_unconfirmed_nothing_left f(3,4) by blast
qed

subsection \<open>The backend\<close>

record backend_process =
  bp_loaded :: loaded_repository
  bp_table :: "log_row list"
  bp_events :: event_log
  bp_client :: "nat executor"
  bp_log :: "nat log_state"

record backend_setting =
  bs_env :: "pystr \<Rightarrow> pystr option"
  bs_problems :: problem_source
  bs_left :: "nat option"
  bs_user :: pystr
  bs_schema :: schema
  bs_catalog :: catalog
  bs_faults :: db_faults
  bs_now :: int
  bs_retention_days :: int
  bs_max_rows :: int
  bs_client_close :: "exn option"
  bs_log_close :: "exn option"

definition prune_at_start :: "backend_setting \<Rightarrow> backend_process \<Rightarrow> (life_exn + unit) \<times> backend_process" where
  "prune_at_start w p =
     (case prune (bs_faults w) (bs_now w) (bs_retention_days w) (bs_max_rows w) (bp_table p) (bp_events p) of
        (Inl e, table, events, _) \<Rightarrow> (Inl (Prune_error e), p\<lparr>bp_table := table, bp_events := events\<rparr>)
      | (Inr _, table, events, _) \<Rightarrow> (Inr (), p\<lparr>bp_table := table, bp_events := events\<rparr>))"

definition backend_startup :: "backend_setting \<Rightarrow> backend_process \<Rightarrow> (life_exn + unit) \<times> backend_process" where
  "backend_startup w p =
     sbind (validate_configuration (bs_env w), p) (\<lambda>_ p.
     case load_from (bs_problems w) (bp_loaded p) of
       (Inl e, l) \<Rightarrow> (Inl (Bad_problems e), p\<lparr>bp_loaded := l\<rparr>)
     | (Inr _, l) \<Rightarrow>
         (case validate_runtime_database (bs_left w) (bs_user w) (bs_schema w) (bs_catalog w) of
            None \<Rightarrow> (Inl Bad_database, p\<lparr>bp_loaded := l\<rparr>)
          | Some _ \<Rightarrow> prune_at_start w (p\<lparr>bp_loaded := l\<rparr>)))"

text \<open>\<open>RunnerClient.close\<close> and \<open>close_execution_log_repository\<close>: no new work is accepted and running work is awaited;
  what they raise, if anything, ends the waiting.\<close>

definition close_client :: "exn option \<Rightarrow> backend_process \<Rightarrow> (life_exn + unit) \<times> backend_process" where
  "close_client raised p =
     (case raised of
        Some e \<Rightarrow> (Inl (Raised e), p\<lparr>bp_client := (bp_client p)\<lparr>ex_open := False\<rparr>\<rparr>)
      | None \<Rightarrow> (Inr (), p\<lparr>bp_client := shutdown_executor (bp_client p)\<rparr>))"

definition close_execution_log_repository :: "exn option \<Rightarrow> backend_process \<Rightarrow> (life_exn + unit) \<times> backend_process" where
  "close_execution_log_repository raised p =
     (case raised of
        Some e \<Rightarrow> (Inl (Raised e), p\<lparr>bp_log := (bp_log p)\<lparr>ls_closing := True\<rparr>\<rparr>)
      | None \<Rightarrow> (Inr (), p\<lparr>bp_log := log_shutdown (bp_log p)\<rparr>))"

definition backend_shutdown :: "backend_setting \<Rightarrow> backend_process \<Rightarrow> (life_exn + unit) \<times> backend_process" where
  "backend_shutdown w p =
     sbind (close_client (bs_client_close w) p) (\<lambda>_ p. close_execution_log_repository (bs_log_close w) p)"

definition backend_lifespan ::
  "(backend_process \<Rightarrow> (life_exn + unit) \<times> backend_process) \<Rightarrow> backend_setting \<Rightarrow> backend_process \<Rightarrow>
   (life_exn + unit) \<times> backend_process" where
  "backend_lifespan serve w p =
     sbind (backend_startup w p) (\<lambda>_ p.
     let (r, p) = serve p in after_serving r (backend_shutdown w p))"

text \<open>What closing achieves for good: whatever calls are still pending or come later, no thread runs, a request of
  the client is refused when it is submitted, and the log refuses every save.\<close>

definition closed_for_good :: "backend_process \<Rightarrow> bool" where
  "closed_for_good p \<longleftrightarrow>
     (\<forall>c i. (executor_step False True)\<^sup>*\<^sup>* (bp_client p) c \<longrightarrow>
        executor_at_rest c \<and> ws_phase (ex_calls (executor_submit i c)) i = W_returning O_submit_error)
     \<and> (\<forall>l i pool_ok. log_step\<^sup>*\<^sup>* (bp_log p) l \<longrightarrow> log_at_rest l \<and> log_submit pool_ok i l = set_save i S_refused l)"

lemma backend_shutdown_closes:
  "bs_client_close w = None \<Longrightarrow> bs_log_close w = None \<Longrightarrow>
     fst (backend_shutdown w p) = Inr () \<and> closed_for_good (snd (backend_shutdown w p))"
  using client_pool.rest_forever [of "bp_client p"] log_pool.rest_forever [of "bp_log p"]
  by (auto simp: backend_shutdown_def close_client_def close_execution_log_repository_def sbind_def closed_for_good_def
      intro: rest_refuses log_rest_refuses)

text \<open>The two submission endpoints over the assembled service.\<close>

definition post_shellgei ::
  "pil \<Rightarrow> (date_time \<Rightarrow> pystr) \<Rightarrow> (int \<Rightarrow> pystr) \<Rightarrow> 'w ports \<Rightarrow> date_time \<Rightarrow> bytes \<Rightarrow> ShellgeiData \<Rightarrow> 'w service_state \<Rightarrow>
   (exn + legacy_answer) \<times> 'w service_state" where
  "post_shellgei pil strftime decimal ports now random shellgei_data st =
     sbind (submit ports now random (sd_shellgei shellgei_data) (sd_problem_id shellgei_data) st) (\<lambda>result st.
     (submission_response pil strftime decimal result, st))"

definition post_submission_v3 ::
  "pil \<Rightarrow> (date_time \<Rightarrow> pystr) \<Rightarrow> (pyval \<Rightarrow> bytes) \<Rightarrow> 'w ports \<Rightarrow> date_time \<Rightarrow> bytes \<Rightarrow> ShellgeiData \<Rightarrow> 'w service_state \<Rightarrow>
   (exn + v3_answer) \<times> 'w service_state" where
  "post_submission_v3 pil isoformat json_dump ports now random submission st =
     sbind (submit ports now random (sd_shellgei submission) (sd_problem_id submission) st) (\<lambda>result st.
     (submission_response_v3 pil isoformat json_dump result, st))"

definition read_root :: pyval where
  "read_root = PDict [(lit ''message'', PStr (lit ''Hello from FastAPI!''))]"

text \<open>The security headers of submissions; assigning a header is the framework's.\<close>

definition add_submission_security_headers :: "(string \<Rightarrow> string \<Rightarrow> 'h \<Rightarrow> 'h) \<Rightarrow> pystr \<Rightarrow> 'h \<Rightarrow> 'h" where
  "add_submission_security_headers assign path headers =
     (if path \<in> {lit ''/api/shellgei'', lit ''/api/v3/submissions''}
      then foldl (\<lambda>h (name, v). assign name v h) headers SUBMISSION_RESPONSE_HEADERS
      else headers)"

lemma submissions_have_security_headers:
  assumes "\<And>n v h m. values_of (assign n v h) m = (if m = n then [v] else values_of h m)"
    and "public_submission_endpoint path \<noteq> None"
  shows "values_of (add_submission_security_headers assign path h) ''Cache-Control'' = [''no-store'']
    \<and> values_of (add_submission_security_headers assign path h) ''X-Content-Type-Options'' = [''nosniff'']"
  using assms by (auto simp: add_submission_security_headers_def SUBMISSION_RESPONSE_HEADERS_def public_submission_endpoint_def
      split: if_splits)

definition backend_started :: "backend_setting \<Rightarrow> backend_process \<Rightarrow> backend_process \<Rightarrow> bool" where
  "backend_started w p q \<longleftrightarrow> least_privileged (bs_catalog w) (bs_user w)
     \<and> (\<exists>v. sc_versions (bs_schema w) = Some v \<and> set v = set known_revisions)
     \<and> (\<exists>cutoff. retention_cutoff (bs_now w) (bs_retention_days w) = Inr cutoff \<and> bp_table q = retained cutoff (bs_max_rows w) (bp_table p))"

lemma backend_startup_Inr:
  assumes "backend_startup w p = (Inr u, q)"
  shows "is_ok (get_runner_shared_secret (bs_env w)) \<and> backend_started w p q
    \<and> (\<exists>repo. build_from (bs_problems w) = Inr repo \<and> bp_loaded q = Some repo)"
proof -
  obtain repo n table events calls where secret: "is_ok (get_runner_shared_secret (bs_env w))"
    and repo: "build_from (bs_problems w) = Inr repo" "bp_loaded q = Some repo"
    and db: "validate_runtime_database (bs_left w) (bs_user w) (bs_schema w) (bs_catalog w) = Some ()"
    and pr: "prune (bs_faults w) (bs_now w) (bs_retention_days w) (bs_max_rows w) (bp_table p) (bp_events p) = (Inr n, table, events, calls)"
    and q: "bp_table q = table"
    using assms
    by (auto simp: backend_startup_def validate_configuration_def load_from_eq prune_at_start_def sbind_Inr is_ok_iff
        split: sum.splits prod.splits option.splits)
  obtain s where s: "prune_body (bs_faults w) (bs_now w) (bs_retention_days w) (bs_max_rows w) (open_session (bp_table p)) = (Inr n, s)"
    "table = ss_db s"
    using with_session_success [OF prune_body_ok pr [unfolded prune_def]] by blast
  then show ?thesis
    using prune_body_Inr [OF s(1)] validate_Some [OF db] policy_is_least_privilege secret repo q
    by (auto simp: backend_started_def)
qed

lemma failed_start_serves_nothing:
  "backend_startup w p = (Inl e, q) \<Longrightarrow> backend_lifespan serve w p = (Inl e, q)"
  by (simp add: backend_lifespan_def sbind_def)

text \<open>A result that the v3 route turns into a response: its execution, if any, has the form in which the runner reports
  one, and its log identifier has at most 20 digits.\<close>

definition v3_ready :: "SubmissionResult \<Rightarrow> bool" where
  "v3_ready r \<longleftrightarrow> (\<forall>x. sr_execution r = Some x \<longrightarrow> wire_result x) \<and> (\<forall>i. sr_log_id r = Some i \<longrightarrow> small_int i)"

lemma posts_answered:
  assumes "backend_inv (su_world st)"
    and valid: "is_problem_id (sd_problem_id data)" "is_shellgei (sd_shellgei data)" "dt_offset t \<noteq> None"
    and ctx: "\<And>r. su_context st = Some r \<Longrightarrow> is_request_id r" "16 \<le> length random"
    and json: "\<And>v. length (json_dump v) \<le> json_size v" "\<And>d. length (isoformat d) \<le> 64"
  shows "\<exists>result answer st' ev. post_shellgei pil strftime decimal (backend_ports pil repo) t random data st = (Inr answer, st')
    \<and> submission_response pil strftime decimal result = Inr answer \<and> result_ok result
    \<and> (v3_ready result \<longrightarrow>
         post_submission_v3 pil isoformat json_dump (backend_ports pil repo) t random data st = (Inr (v3_view pil result), st'))
    \<and> su_log st' = su_log st @ [ev] \<and> su_context st' = su_context st"
proof -
  obtain r st' ev answer where r: "submit (backend_ports pil repo) t random (sd_shellgei data) (sd_problem_id data) st = (Inr r, st')"
    "result_ok r" "su_log st' = su_log st @ [ev]" "su_context st' = su_context st"
    "submission_response pil strftime decimal r = Inr answer"
    using backend_submit_answers [OF assms(1) valid, of random pil repo strftime decimal] ctx by blast
  have "submission_response_v3 pil isoformat json_dump r = Inr (v3_view pil r)" if "v3_ready r"
    using that by (intro submission_answered_v3 [OF r(2) _ json]) (auto simp: v3_ready_def)
  then show ?thesis using r by (auto simp: post_shellgei_def post_submission_v3_def sbind_def)
qed

text \<open>C37: The life of a backend: it serves only after the secret and the problem data were accepted, its role has just
  the listed privileges on a migrated schema and the log was pruned to its window. Once it serves, every valid
  submission to \<open>POST /api/shellgei\<close> is answered with one logged event, whatever the network and the database do; the
  same submission to \<open>POST /api/v3/submissions\<close> is answered by the view of the same result, if its execution has the
  form in which the runner reports one and the encoded sizes are as documented. However serving ends, unless closing
  raises, afterwards no thread of the client or of the log runs, and every later request and save is refused.\<close>

theorem started_backend_answers:
  assumes start: "backend_startup w p = (Inr u, q)"
    and world: "bw_env (su_world st) = bs_env w" "\<And>i. f_new_id (bw_faults (su_world st)) = Some i \<Longrightarrow> 0 < i"
    and valid: "is_problem_id (sd_problem_id data)" "is_shellgei (sd_shellgei data)" "dt_offset t \<noteq> None"
    and ctx: "\<And>r. su_context st = Some r \<Longrightarrow> is_request_id r" "16 \<le> length random"
    and json: "\<And>v. length (json_dump v) \<le> json_size v" "\<And>d. length (isoformat d) \<le> 64"
    and closing: "bs_client_close w = None" "bs_log_close w = None"
  shows "backend_started w p q
    \<and> (\<exists>repo result answer st' ev. build_from (bs_problems w) = Inr repo \<and> bp_loaded q = Some repo
         \<and> post_shellgei pil strftime decimal (backend_ports pil repo) t random data st = (Inr answer, st')
         \<and> submission_response pil strftime decimal result = Inr answer \<and> result_ok result
         \<and> (v3_ready result \<longrightarrow>
              post_submission_v3 pil isoformat json_dump (backend_ports pil repo) t random data st = (Inr (v3_view pil result), st'))
         \<and> su_log st' = su_log st @ [ev] \<and> su_context st' = su_context st)
    \<and> (\<exists>q'. backend_lifespan serve w p = (fst (serve q), q') \<and> closed_for_good q')"
proof -
  note started = backend_startup_Inr [OF start]
  have inv: "backend_inv (su_world st)" using world started by (simp add: backend_inv_def)
  obtain repo where repo: "build_from (bs_problems w) = Inr repo" "bp_loaded q = Some repo" using started by blast
  have "\<exists>q'. backend_lifespan serve w p = (fst (serve q), q') \<and> closed_for_good q'"
    using start backend_shutdown_closes [OF closing, of "snd (serve q)"]
    by (auto simp: backend_lifespan_def after_serving_def sbind_def split_def Let_def split: sum.splits)
  moreover have "\<exists>result answer st' ev. post_shellgei pil strftime decimal (backend_ports pil repo) t random data st = (Inr answer, st')
    \<and> submission_response pil strftime decimal result = Inr answer \<and> result_ok result
    \<and> (v3_ready result \<longrightarrow>
         post_submission_v3 pil isoformat json_dump (backend_ports pil repo) t random data st = (Inr (v3_view pil result), st'))
    \<and> su_log st' = su_log st @ [ev] \<and> su_context st' = su_context st"
    by (rule posts_answered [OF inv valid]) (use ctx json in auto)
  ultimately show ?thesis using started repo by blast
qed

definition sample_backend :: backend_setting where
  "sample_backend = \<lparr>bs_env = Runner_Client.sample_env, bs_problems = sample_source, bs_left = None, bs_user = example_role,
     bs_schema = migrated, bs_catalog = provisioned example_role [120] fresh_catalog, bs_faults = no_faults,
     bs_now = 63000000000000000, bs_retention_days = 365, bs_max_rows = 2,
     bs_client_close = None, bs_log_close = None\<rparr>"

definition sample_process :: backend_process where
  "sample_process = \<lparr>bp_loaded = None, bp_table = [sample_row 1, sample_row 2, sample_row 3], bp_events = [],
     bp_client = new_executor 3, bp_log = log_init 4\<rparr>"

lemma sample_backend_startup: "\<exists>q. backend_startup sample_backend sample_process = (Inr (), q)"
  using sample_build
  by (auto simp: backend_startup_def sample_backend_def sample_source_def sample_process_def validate_configuration_def
      sample_secret load_from_eq build_from_def example_validate prune_at_start_def sample_prune sbind_def)

lemma started_backend_answers_witness:
  "\<exists>q repo result answer st' q'. backend_startup sample_backend sample_process = (Inr (), q) \<and> bp_loaded q = Some repo
    \<and> post_shellgei (\<lambda>_. None) (\<lambda>_. []) (\<lambda>_. []) (backend_ports (\<lambda>_. None) repo) sample_time (replicate 16 0)
        \<lparr>sd_shellgei = [108, 115], sd_problem_id = lit ''STANDARD-1''\<rparr>
        \<lparr>su_world = Backend.sample_world, su_calls = [], su_log = [], su_context = None\<rparr> = (Inr answer, st')
    \<and> submission_response (\<lambda>_. None) (\<lambda>_. []) (\<lambda>_. []) result = Inr answer
    \<and> backend_lifespan (\<lambda>q. (Inr (), q)) sample_backend sample_process = (Inr (), q') \<and> closed_for_good q'"
proof -
  let ?st = "\<lparr>su_world = Backend.sample_world, su_calls = [], su_log = [], su_context = None\<rparr>"
  let ?data = "\<lparr>sd_shellgei = [108, 115], sd_problem_id = lit ''STANDARD-1''\<rparr>"
  obtain q where q: "backend_startup sample_backend sample_process = (Inr (), q)" using sample_backend_startup by blast
  have world: "bw_env (su_world ?st) = bs_env sample_backend" "\<And>i. f_new_id (bw_faults (su_world ?st)) = Some i \<Longrightarrow> 0 < i"
    by (simp_all add: Backend.sample_world_def sample_backend_def no_faults_def)
  have valid: "is_problem_id (sd_problem_id ?data)" "is_shellgei (sd_shellgei ?data)" "dt_offset sample_time \<noteq> None"
    using sample_request_ok by (simp_all add: request_ok_def sample_request_def sample_time_def)
  have closing: "bs_client_close sample_backend = None" "bs_log_close sample_backend = None"
    by (simp_all add: sample_backend_def)
  note answers = started_backend_answers [OF q world valid _ _ _ _ closing, of "replicate 16 0" "\<lambda>_. []" "\<lambda>_. []"
      "\<lambda>_. None" "\<lambda>_. []" "\<lambda>_. []" "\<lambda>q. (Inr (), q)"]
  then have "(\<exists>repo result answer st'. bp_loaded q = Some repo
      \<and> post_shellgei (\<lambda>_. None) (\<lambda>_. []) (\<lambda>_. []) (backend_ports (\<lambda>_. None) repo) sample_time (replicate 16 0) ?data ?st = (Inr answer, st')
      \<and> submission_response (\<lambda>_. None) (\<lambda>_. []) (\<lambda>_. []) result = Inr answer)
      \<and> (\<exists>q'. backend_lifespan (\<lambda>q. (Inr (), q)) sample_backend sample_process = (Inr (), q') \<and> closed_for_good q')"
    by auto
  then show ?thesis using q by blast
qed

end
