(* ===== verification/Configuration.thy ===== *)
theory Configuration
  imports Lifecycles Slots
begin

section \<open>Configuration and assembly of the services\<close>

text \<open>
  What the modules of the services compute when they are loaded, before a lifespan begins: the database engine
  (\<open>soj_backend/database.py\<close>), the retention limits, the executors and the providers of revision, request ID and
  problem records. The environment variables are a map; \<open>python_int\<close>, \<open>python_strip\<close> and the construction of the engine are
  arguments. An error is one of the fixed texts of the code, never a text of the environment.
\<close>

subsection \<open>The database engine\<close>

definition DEFAULT_DATABASE_OPERATION_TIMEOUT_SECONDS :: int where "DEFAULT_DATABASE_OPERATION_TIMEOUT_SECONDS = 5"

definition database_url_from_env :: "(pystr \<Rightarrow> pystr) \<Rightarrow> (pystr \<Rightarrow> pystr option) \<Rightarrow> string + pystr" where
  "database_url_from_env python_strip env =
     (case env (lit ''DATABASE_URL'') of
        None \<Rightarrow> Inl ''DATABASE_URL must be explicitly configured''
      | Some value \<Rightarrow> if python_strip value = [] then Inl ''DATABASE_URL must be explicitly configured'' else Inr value)"

definition named_integer :: "(pystr \<Rightarrow> int option) \<Rightarrow> (pystr \<Rightarrow> pystr option) \<Rightarrow> string \<Rightarrow> int \<Rightarrow> string + int" where
  "named_integer python_int env name default_value =
     (case positive_integer_from_env python_int (env (lit name)) default_value of
        Inl _ \<Rightarrow> Inl (name @ '' must be a positive integer'')
      | Inr n \<Rightarrow> Inr n)"

definition DATABASE_OPERATION_TIMEOUT_SECONDS :: "(pystr \<Rightarrow> int option) \<Rightarrow> (pystr \<Rightarrow> pystr option) \<Rightarrow> string + int" where
  "DATABASE_OPERATION_TIMEOUT_SECONDS python_int env =
     named_integer python_int env ''DATABASE_OPERATION_TIMEOUT_SECONDS'' DEFAULT_DATABASE_OPERATION_TIMEOUT_SECONDS"

text \<open>\<open>create_engine\<close> is given the URL, which \<open>database_driver_url\<close> parses, and the options; any exception of either
  becomes the fixed text.\<close>

definition database_engine ::
  "(pystr \<Rightarrow> pystr) \<Rightarrow> (pystr \<Rightarrow> int option) \<Rightarrow> (pystr \<Rightarrow> url option) \<Rightarrow> (url \<Rightarrow> engine_settings option \<Rightarrow> 'engine option) \<Rightarrow>
   (pystr \<Rightarrow> pystr option) \<Rightarrow> string + 'engine" where
  "database_engine python_strip python_int make_url create_engine env =
     rbind (database_url_from_env python_strip env) (\<lambda>database_url.
     rbind (DATABASE_OPERATION_TIMEOUT_SECONDS python_int env) (\<lambda>timeout_seconds.
     case Option.bind (map_option database_driver_url (make_url database_url))
            (\<lambda>u. create_engine u (engine_options database_url timeout_seconds)) of
       None \<Rightarrow> Inl ''database engine initialization failed; check DATABASE_URL and driver''
     | Some engine \<Rightarrow> Inr engine))"

subsection \<open>Retention\<close>

definition EXECUTION_LOG_RETENTION_DAYS :: "(pystr \<Rightarrow> int option) \<Rightarrow> (pystr \<Rightarrow> pystr option) \<Rightarrow> string + int" where
  "EXECUTION_LOG_RETENTION_DAYS python_int env = named_integer python_int env ''EXECUTION_LOG_RETENTION_DAYS'' 365"

definition EXECUTION_LOG_MAX_ROWS :: "(pystr \<Rightarrow> int option) \<Rightarrow> (pystr \<Rightarrow> pystr option) \<Rightarrow> string + int" where
  "EXECUTION_LOG_MAX_ROWS python_int env = named_integer python_int env ''EXECUTION_LOG_MAX_ROWS'' 10000"

lemma named_integer_Inr: "named_integer python_int env name d = Inr n \<Longrightarrow> 1 \<le> d \<Longrightarrow> 1 \<le> n"
  by (auto simp: named_integer_def positive_integer_from_env_def split: option.splits if_splits)

text \<open>Every timeout of the engine is positive: no statement and no lock is awaited for ever.\<close>

lemma engine_timeouts_positive:
  assumes "database_engine python_strip python_int make_url create_engine env = Inr engine"
  shows "\<exists>u settings. create_engine u settings = Some engine
    \<and> (\<forall>s. settings = Some s \<longrightarrow> 1 \<le> es_pool_timeout s \<and> 1 \<le> es_connect_timeout s
          \<and> 1000 \<le> es_statement_timeout s \<and> 1000 \<le> es_lock_timeout s)"
proof -
  obtain database_url n u where "DATABASE_OPERATION_TIMEOUT_SECONDS python_int env = Inr n"
    and e: "create_engine u (engine_options database_url n) = Some engine"
    using assms by (auto simp: database_engine_def rbind_eq_Inr bind_eq_Some_conv split: option.splits)
  then have "1 \<le> n"
    using named_integer_Inr by (auto simp: DATABASE_OPERATION_TIMEOUT_SECONDS_def DEFAULT_DATABASE_OPERATION_TIMEOUT_SECONDS_def)
  then show ?thesis
    using e by (intro exI [of _ u] exI [of _ "engine_options database_url n"]) (auto simp: engine_options_def Let_def split: if_splits)
qed

subsection \<open>Executors and providers\<close>

definition RUNNER_CLIENT_CAPACITY :: nat where "RUNNER_CLIENT_CAPACITY = 3"
definition EXECUTION_LOG_WORKER_CAPACITY :: nat where "EXECUTION_LOG_WORKER_CAPACITY = 4"

text \<open>\<open>_ExecutionLogExecutor\<close>: as many slots as workers, open for saves.\<close>

definition new_log_executor :: "'i log_state" where
  "new_log_executor = log_init EXECUTION_LOG_WORKER_CAPACITY"

text \<open>\<open>ShellgeiDockerClient\<close>: workers and slots of the runner; \<open>or\<close> takes the pool size for zero as well.\<close>

definition runner_capacity :: "int option \<Rightarrow> int \<Rightarrow> value_error + nat" where
  "runner_capacity max_concurrent pool_size =
     (let capacity = (case max_concurrent of None \<Rightarrow> pool_size | Some n \<Rightarrow> if n = 0 then pool_size else n) in
      if capacity < 1 then Inl (ValueError ''max_concurrent must be at least 1'') else Inr (nat capacity))"

definition injected_repository :: "ProblemRepository option \<Rightarrow> loaded_repository \<Rightarrow> string + ProblemRepository" where
  "injected_repository injected loaded =
     (case injected of Some r \<Rightarrow> Inr r | None \<Rightarrow> get_problem_repository loaded)"

definition repository_require :: "ProblemRepository \<Rightarrow> pystr \<Rightarrow> ProblemRecord option" where
  "repository_require repository problem_id = map_of (rp_records repository) problem_id"

definition loaded_get :: "loaded_repository \<Rightarrow> pystr \<Rightarrow> string + ProblemRecord option" where
  "loaded_get loaded problem_id = rbind (get_problem_repository loaded) (\<lambda>r. Inr (repository_get r problem_id))"

definition loaded_problem_revision :: "loaded_repository \<Rightarrow> string + pystr" where
  "loaded_problem_revision loaded = rbind (get_problem_repository loaded) (\<lambda>r. Inr (rp_revision r))"

definition request_id_for_execution :: "bytes \<Rightarrow> reqctx \<Rightarrow> pystr" where
  "request_id_for_execution random ctx =
     (case current_request_id ctx of Some r \<Rightarrow> if r = [] then new_request_id random else r | None \<Rightarrow> new_request_id random)"

text \<open>After a successful start the providers cannot fail: the revision is well-formed, every record of the repository
  is found, and the runner is asked under the ID of the submission.\<close>

lemma started_providers:
  assumes "backend_startup w p = (Inr u, q)"
  shows "\<exists>repo. injected_repository None (bp_loaded q) = Inr repo
    \<and> loaded_problem_revision (bp_loaded q) = Inr (rp_revision repo) \<and> is_revision (rp_revision repo)
    \<and> loaded_get (bp_loaded q) pid = Inr (repository_require repo pid)"
  using backend_startup_Inr [OF assms] build_from_revision
  by (auto simp: injected_repository_def loaded_problem_revision_def loaded_get_def get_problem_repository_def
      repository_require_def repository_get_def)

lemma request_id_for_execution_valid:
  assumes "\<And>r. ctx = Some r \<Longrightarrow> is_request_id r" and "16 \<le> length random"
  shows "is_request_id (request_id_for_execution random ctx)"
  using assms new_request_id_valid
  by (auto simp: request_id_for_execution_def current_request_id_def split: option.splits)

end
