(* ===== verification/Delivery.thy ===== *)
theory Delivery
  imports Deploy_Gate Production
begin

section \<open>From the gate to the running services\<close>

text \<open>
  The composition of \<open>ci/deploy.py\<close> and \<open>deploy/production.py\<close>: the transfer of a commit to a host on which the remote
  update is the production program and the record that is read back is the one on that host. The property is what a
  transfer that reports a deployment says about the services.
\<close>

text \<open>The command \<open>systemd-run --wait\<close> ends as the update does; the other remote steps may fail as well.\<close>

definition host_remote ::
  "invocation \<Rightarrow> environment \<Rightarrow> host \<Rightarrow> (remote \<Rightarrow> gate_exn + unit) \<Rightarrow> remote \<Rightarrow> gate_exn + unit" where
  "host_remote call env h other r =
     rbind (other r) (\<lambda>_.
     case r of
       Run_update repository incoming sha \<Rightarrow>
         (case fst (production_main call env sha h) of None \<Rightarrow> Inr () | Some _ \<Rightarrow> Inl Process_error)
     | _ \<Rightarrow> Inr ())"

text \<open>The host after the update, when the transfer has got as far as starting it.\<close>

definition updated_host :: "invocation \<Rightarrow> environment \<Rightarrow> pystr \<Rightarrow> host \<Rightarrow> host" where
  "updated_host call env sha h = snd (production_main call env sha h)"

definition recorded_commit :: "host \<Rightarrow> pystr option" where
  "recorded_commit h = map_option br_source_commit (h_current h)"

definition deliver ::
  "(pystr \<Rightarrow> int option) \<Rightarrow> (pystr \<Rightarrow> pystr) \<Rightarrow> (string \<Rightarrow> pystr option) \<Rightarrow> (gate_exn + pystr) \<Rightarrow>
   (remote \<Rightarrow> gate_exn + unit) \<Rightarrow> invocation \<Rightarrow> environment \<Rightarrow> pystr \<Rightarrow> host \<Rightarrow> gate_exn + transfer_outcome" where
  "deliver decimal_value python_strip vars main other call env sha h =
     transfer decimal_value python_strip vars main (host_remote call env h other)
       (Inr (recorded_commit (updated_host call env sha h))) sha"

lemma production_main_None:
  assumes "production_main call env sha h = (None, h')"
  shows "execute env sha h = (Inr (), h')"
  using assms
  by (auto simp: production_main_def sbind_Inr refuse_if_def split: prod.splits sum.splits deploy_exn.splits if_splits
      dest!: sbind_Inr [THEN iffD1])

text \<open>What the success record of the host stands for: the services of the build are the running ones.\<close>

definition running_build :: "environment \<Rightarrow> build_record \<Rightarrow> host \<Rightarrow> bool" where
  "running_build env r h \<longleftrightarrow> h_override h = Managed (override_for r) \<and> h_head h = br_source_commit r
     \<and> (\<forall>name \<in> {''db'', ''runner'', ''backend'', ''frontend''}. e_running env name = Inr (image_of r name))
     \<and> (\<exists>j b. e_smoke env j = Inr b \<and> smoke_ok b)"

lemma read_record_commit: "read_record file digest sha = Inr r \<Longrightarrow> br_source_commit r = sha"
  by (auto simp: read_record_def rbind_eq_Inr valid_record_def split: if_splits)

text \<open>C40: A delivery that reports a deployment is one: the commit was the head of main, and either the host had
  already recorded it and the update touched neither services nor records, or the candidate's record was valid, every
  service now runs the image of that record, a smoke test passed through the public address, the success record names
  the commit and no failure record is left.\<close>

theorem deployed_means_running:
  assumes "deliver decimal_value python_strip vars main other call env sha h = Inr Deployed" and "\<not> h_stopped h"
    and h': "h' = updated_host call env sha h"
  shows "main = Inr sha \<and> recorded_commit h' = Some sha
    \<and> ((quiet h h' \<and> recorded_commit h = Some sha)
       \<or> (\<exists>r. read_record (e_record env) (e_digest env) sha = Inr r \<and> h_current h' = Some r \<and> running_build env r h'
            \<and> h_failed h' = None \<and> \<not> h_stopped h'))"
proof -
  have t: "transfer decimal_value python_strip vars main (host_remote call env h other) (Inr (recorded_commit h')) sha = Inr Deployed"
    using assms(1) by (simp add: deliver_def h')
  obtain repository incoming where main: "main = Inr sha" "recorded_commit h' = Some sha"
    and up: "host_remote call env h other (Run_update repository incoming sha) = Inr ()"
    using transfer_confirms_deployment [OF t] by auto
  have "fst (production_main call env sha h) = None"
    using up by (auto simp: host_remote_def rbind_eq_Inr split: option.splits)
  then have "execute env sha h = (Inr (), h')"
    by (intro production_main_None) (simp add: h' updated_host_def prod_eq_iff)
  from successful_update_is_complete [OF this assms(2)] main show ?thesis
    by (auto simp: recorded_commit_def quiet_def running_build_def dest: read_record_commit)
qed

definition example_vars :: "string \<Rightarrow> pystr option" where
  "example_vars name = Some (lit
     (if name = ''DEPLOY_INSTANCE_ID'' then ''i-0123abcd'' else if name = ''DEPLOY_USER'' then ''soj''
      else if name = ''DEPLOY_AWS_REGION'' then ''ap-northeast-1'' else if name = ''DEPLOY_PORT'' then ''22''
      else if name = ''DEPLOY_REPOSITORY'' then ''/srv/soj'' else if name = ''GITHUB_RUN_ID'' then ''7'' else ''1''))"

definition example_call :: invocation where
  "example_call = \<lparr>in_state_directory = Inr \<lparr>pi_directory = True, pi_symlink = False, pi_owned = True, pi_mode = 448\<rparr>,
     in_incoming_directory = Inr \<lparr>pi_directory = True, pi_symlink = False, pi_owned = True, pi_mode = 448\<rparr>,
     in_paths_expected = True, in_lock = Inr ()\<rparr>"

lemma example_target:
  "transfer_target (\<lambda>_. Some 22) example_vars = Inr (lit ''/srv/soj'', lit ''/srv/soj/.soj-deploy/incoming-7-1'')"
  by code_simp

lemma deployed_means_running_witness:
  "recorded_commit (updated_host example_call example_environment example_sha example_host) = Some example_sha"
proof -
  obtain h' where e: "execute example_environment example_sha example_host = (Inr (), h')" using example_execute by blast
  then have m: "production_main example_call example_environment example_sha example_host = (None, h')"
    by (simp add: production_main_def example_call_def private_directory_def refuse_if_def sbind_def)
  have "\<not> h_stopped example_host" by (simp add: example_host_def)
  from successful_update_is_complete [OF e this]
  have "recorded_commit h' = Some example_sha"
    by (auto simp: example_environment_def recorded_commit_def dest: read_record_commit)
  then have "deliver (\<lambda>_. Some 22) (\<lambda>s. s) example_vars (Inr example_sha) (\<lambda>_. Inr ()) example_call example_environment
      example_sha example_host = Inr Deployed"
    by (simp add: deliver_def transfer_def example_target secret_file_def environ_def example_vars_def transfer_commands_def
        host_remote_def updated_host_def m Let_def lit_def)
  from deployed_means_running [OF this] show ?thesis by (simp add: example_host_def)
qed

end
