(* ===== verification/Spec2Isabelle.thy ===== *)
theory Spec2Isabelle
  imports Run_Shellgei Container_Manager Runner_Channel Slots Admission Judge Backend Database_Access Production Deploy_Gate Problem_Migration Problem_Review Supply_Chain Sandbox_Health Ca_Trust Sandbox_Options Pinned_Tools Remote_Commands Configuration Delivery
begin

text \<open>
  \<^bold>\<open>The program.\<close> The judge runs shell one-liners of its users against problems. A \<^emph>\<open>backend\<close>
  (\<open>backend/soj_backend\<close>) takes a submission over HTTP, has a \<^emph>\<open>runner\<close> (\<open>backend/soj_runner\<close>) execute it in a disposable
  Docker container, judges the result and logs it in PostgreSQL. Both load the same validated problem data
  (\<open>backend/soj_shared\<close>) and agree on its revision. Around them stand the commands that prepare the database
  (\<open>database_admin.py\<close>), convert and review problem data and watch the containers (\<open>backend/soj_tools\<close>), the checks of
  the supply chain and the deployment gate (\<open>ci\<close>), and the update program of the production host (\<open>deploy\<close>).

  \<^bold>\<open>Conventions.\<close> Text is a list of code points, bytes are 8-bit words (\<open>Prelude\<close>). A function that may raise returns a
  sum, the exception on the left. State is passed explicitly, as a record per component; \<open>sbind\<close> sequences steps that
  change it, and the locale \<open>step_frame\<close> gives what every such sequence preserves (interpreted for migrations,
  the production host, the image scan and the bundled wheels). Code that several threads run is cut at its lock
  regions, and an inductive relation interleaves the regions. What Docker, the network, the database, a parser or another
  program answers is an argument, so a theorem holds for every answer. A definition has the name it has in the source
  where possible.

  \<^bold>\<open>Shared data.\<close>
  \<^item> \<open>Regex\<close>, \<open>Codec\<close>: the patterns of the source decided by derivatives and proved correct against their language; UTF-8
    and Base64.
  \<^item> \<open>Validation\<close>: \<open>input_validation.py\<close>, \<open>submission_request.py\<close>, \<open>request_context.py\<close> and the shared secret.
    Accepted identifiers are path-safe.
  \<^item> \<open>Problem\<close>, \<open>Problem_Schema\<close>, \<open>Repository\<close>: \<open>models/problem.py\<close>, \<open>problem_schema.py\<close>, \<open>problem_repository.py\<close>,
    \<open>problem_catalog.py\<close>, \<open>soj_tools/problem_manifest.py\<close>. A definition file that parses meets every limit and is
    written and read back unchanged; a loaded repository finds each record and has a revision that does not depend on
    the order of the files.
  \<^item> \<open>Execution\<close>, \<open>Runner_Protocol\<close>: \<open>models/execution.py\<close> and \<open>runner_protocol.py\<close>, results with their consistency and the
    JSON forms of the messages.
  \<^item> \<open>Structured_Log\<close>: \<open>structured_logging.py\<close>; an event carries no text of a user.

  \<^bold>\<open>The runner.\<close>
  \<^item> \<open>Watchdog\<close>, \<open>Sandbox_Output\<close>, \<open>Sandbox_Executor\<close>, \<open>Run_Shellgei\<close>: one execution (\<open>sandbox_executor.py\<close>,
    \<open>sandbox_limits.py\<close>, \<open>execution_archive.py\<close>, \<open>run_shellgei.py\<close>). The race of timer and execution, in which
    each step belongs to a thread, to Docker or to the outside, kills at most once; it is finite, by a rank that each step
    decreases, and its threads are blocked only for a reason outside of them. What is captured is a prefix within the byte limit (four bytes per
    character of the limit that the caller gives, the most that UTF-8 needs); every outcome becomes a consistent result,
    and a completed run is reported exactly.
  \<^item> \<open>Container_State\<close>, \<open>Container_Manager\<close>, \<open>Sandbox_Options\<close>: \<open>container_manager.py\<close>. The fields of the manager,
    its lock regions as the relation \<open>cm_step\<close> with the capacity invariant \<open>cm_inv\<close>, the methods as sequences of
    regions (a simulation), startup, shutdown, the labels and how sandboxes are found again. \<open>Container_Manager\<close>
    interprets the interface \<open>container_pool\<close> of the executor, whose laws say that a returned container is leased no more
    and discarded.
  \<^item> \<open>Slots\<close>, \<open>Executors\<close>, \<open>Admission\<close>: waiting with a semaphore in front of a thread pool, once as the locale
    \<open>slot_machine\<close>, and closing such a pool for good, as the locale \<open>closable_pool\<close>, both interpreted for the runner, the
    client and the log; the token bucket of \<open>admission_control.py\<close>, with rational
    instead of floating-point numbers.
  \<^item> \<open>Runner_Http\<close>: \<open>runner_http_security.py\<close> and the endpoints of \<open>soj_runner/main.py\<close>. Only authenticated requests
    of at most 8,192 bytes reach the endpoint.

  \<^bold>\<open>The backend.\<close>
  \<^item> \<open>Runner_Client\<close>, \<open>Runner_Channel\<close>: \<open>runner_client.py\<close>, and the composition with the runner's middleware and endpoint:
    the client returns what the endpoint answered.
  \<^item> \<open>Judge\<close>: \<open>judge.py\<close>, \<open>image_validation.py\<close>, \<open>artifact_display.py\<close>, with Pillow as a parameter.
  \<^item> \<open>Execution_Log\<close>, \<open>Log_Store\<close>: \<open>models/execution_log.py\<close>, \<open>execution_log_repository.py\<close> and
    \<open>execution_log_retention.py\<close>. Saving is atomic under every database fault, where a commit may be carried out and its answer lost;
    pruning keeps exactly its window.
  \<^item> \<open>Submission\<close>, \<open>Public_Api\<close>, \<open>Correlation\<close>, \<open>Backend\<close>: \<open>submit_solution.py\<close> over its four ports (the locale
    \<open>submission_ports\<close>, interpreted in \<open>Backend\<close> on the model's own client, judge and log), the two HTTP interfaces of
    \<open>api_shellgei.py\<close> and \<open>request_correlation.py\<close>.
  \<^item> \<open>Migrations\<close>, \<open>Database_Access\<close>: \<open>database_migrations.py\<close> with its revisions, \<open>database_access.py\<close>,
    \<open>database_admin.py\<close>. A migration is all or nothing, up to a commit whose answer is lost, and loses no row; the role that is set up passes the check at
    start, which accepts only the least privileges.
  \<^item> \<open>Lifecycles\<close>, \<open>Configuration\<close>: the lifespans of \<open>soj_runner/main.py\<close> and \<open>soj_backend/main.py\<close> over all of these, and
    what the modules compute when they are loaded. A runner serves with a full, checked pool and leaves only
    containers whose removal Docker did not confirm, unless closing its executor raises; a backend that has started
    answers every valid submission, and refuses all work when it is closed.

  \<^bold>\<open>Maintenance and delivery.\<close>
  \<^item> \<open>Problem_Migration\<close>, \<open>Problem_Review\<close>: \<open>problem_migration.py\<close> keeps the texts that the API shows;
    \<open>problem_review.py\<close> leaves no changed problem unreviewed.
  \<^item> \<open>Json_Access\<close>, \<open>Sandbox_Health\<close>: reading documents of other programs; the anonymous health report.
  \<^item> \<open>Supply_Policy\<close>, \<open>Supply_Chain\<close>, \<open>Ca_Trust\<close>, \<open>Pinned_Tools\<close>: \<open>supply_chain.py\<close> (an image passes only with reviewed
    findings, a candidate is what was scanned), \<open>check_ca_trust.py\<close>, \<open>install_tools.py\<close> and \<open>bootstrap_pip.py\<close>.
  \<^item> \<open>Deploy_Gate\<close>, \<open>Remote_Commands\<close>, \<open>Production\<close>, \<open>Delivery\<close>: \<open>ci/deploy.py\<close> and \<open>deploy/production.py\<close>. The gate
    decides on the evidence of the workflows, the host's shell reads exactly the intended commands, a failed update is
    contained, and a transfer that reports a deployment means that the reviewed images are running.

  \<^bold>\<open>Bounds and fuel.\<close> Loops are structural or have a proved measure. \<open>wait_loop\<close> in \<open>Deploy_Gate\<close> waits 20 seconds between
  looks and gives up after 55 minutes; its fuel of 166 looks is never used up when the clock keeps pace with the
  sleeps (lemma \<open>gate_wait_ends\<close>). The production program tries the database 30 times and the smoke test 5 times, as the
  source does. Failures at any point are budgets in the state, the number of actions that still succeed: \<open>tx_left\<close> for
  statements of a transaction, \<open>h_left\<close> for actions on the host, \<open>pt_left\<close> for file operations, with \<open>None\<close> for no
  failure; the theorems hold for every budget. A write that fails may be torn: the failure record of an update
  (\<open>write_reply\<close>) and the files of the bundled pip (\<open>pt_torn\<close>) can be left incomplete.

  \<^bold>\<open>Not modelled.\<close> The frontend, Dockerfiles, shell scripts, Compose files and workflows are not Python code of the
  services. Of the Python files, imports, loggers and the command-line parsers are left out, and \<open>version.py\<close>, which
  reads one constant. Libraries are parameters: pydantic's lax conversions, PyYAML, the byte syntax of JSON, SHA-256, the
  layout of tar, Pillow, SQLAlchemy below the calls the source makes, Docker and the ASGI framework (routing, CORS and
  trusted hosts). Floating-point rounding, the polling of the event loop and the time that a real clock takes are not
  modelled; cancellation is a step of \<open>Slots\<close> only. Texts consist of Unicode scalar values. Where the source lists the
  exceptions of a library that it handles, as for Pillow, the parameter raises these and no others; the exceptions of PyYAML
  that it does not handle are a constructor of their own (\<open>YRaises\<close>).
\<close>

end
